(* ===== verification/Prelude.thy ===== *)
theory Prelude
  imports Main "HOL-Library.Word"
begin

text \<open>
  Shared vocabulary of the development: the C integer types of
  \<^verbatim>\<open>include/robu/types.h\<close>, the result codes of \<^verbatim>\<open>include/robu/ipc.h\<close>, a search for the
  first array slot with a property (the loop \<^verbatim>\<open>for (i = 0; i < N; i++) if (...) ...\<close> that every
  table of the kernel uses), page arithmetic, and the generic list and word lemmas that the
  component theories rest on.
\<close>

unbundle bit_operations_syntax

named_theorems robu_simps \<open>rewrite rules that unfold the shared vocabulary\<close>

section \<open>Types\<close>

type_synonym u8 = "8 word"
type_synonym u16 = "16 word"
type_synonym u32 = "32 word"
type_synonym u64 = "64 word"
type_synonym tid = "32 word"
type_synonym paddr = "64 word"
type_synonym vaddr = "64 word"

text \<open>The negative result codes of \<^verbatim>\<open>ipc.h\<close>; \<open>IPC_ERR_NONE\<close> is the \<open>Inr\<close> of a result.\<close>

datatype ipc_err =
    IPC_ERR_NOT_FOUND
  | IPC_ERR_TIMEOUT
  | IPC_ERR_CANCELED
  | IPC_ERR_NO_CAP
  | IPC_ERR_WOULDBLOCK
  | IPC_ERR_NO_MEM
  | IPC_ERR_EXISTS
  | IPC_ERR_NO_SPACE
  | IPC_ERR_INVALID
  | IPC_ERR_BLOCKED
  | IPC_ERR_NOT_SUPPORTED

fun err_code :: "ipc_err \<Rightarrow> int" where
  "err_code IPC_ERR_NOT_FOUND = -1"
| "err_code IPC_ERR_TIMEOUT = -2"
| "err_code IPC_ERR_CANCELED = -3"
| "err_code IPC_ERR_NO_CAP = -4"
| "err_code IPC_ERR_WOULDBLOCK = -5"
| "err_code IPC_ERR_NO_MEM = -6"
| "err_code IPC_ERR_EXISTS = -7"
| "err_code IPC_ERR_NO_SPACE = -8"
| "err_code IPC_ERR_INVALID = -9"
| "err_code IPC_ERR_BLOCKED = -10"
| "err_code IPC_ERR_NOT_SUPPORTED = -11"

definition IPC_ERR_NONE :: int where
  "IPC_ERR_NONE = 0"

text \<open>The cast \<^verbatim>\<open>(uint64_t)rc\<close> with which a handler stores its result in \<^verbatim>\<open>rax\<close>.\<close>

definition rax_of :: "ipc_err + 'a \<Rightarrow> u64" where
  "rax_of r = (case r of Inl e \<Rightarrow> word_of_int (err_code e) | Inr _ \<Rightarrow> word_of_int IPC_ERR_NONE)"

definition rax_err :: "ipc_err \<Rightarrow> u64" where
  "rax_err e = word_of_int (err_code e)"

section \<open>Pages\<close>

definition PAGE_SIZE_4K :: u64 where
  "PAGE_SIZE_4K = 0x1000"

definition PAGE_SIZE_2M :: u64 where
  "PAGE_SIZE_2M = 0x200000"

text \<open>\<^verbatim>\<open>(v + a - 1) & ~(a - 1)\<close> on 64-bit values, as the allocators write it.\<close>

definition align_up :: "u64 \<Rightarrow> u64 \<Rightarrow> u64" where
  "align_up v a = (v + a - 1) AND NOT (a - 1)"

section \<open>First slot of a table\<close>

fun first_slot :: "('a \<Rightarrow> bool) \<Rightarrow> 'a list \<Rightarrow> nat option" where
  "first_slot P [] = None"
| "first_slot P (x # xs) = (if P x then Some 0 else map_option Suc (first_slot P xs))"

section \<open>Lemmas on the first slot\<close>

lemma first_slot_None: "first_slot P xs = None \<longleftrightarrow> (\<forall>x \<in> set xs. \<not> P x)"
  by (induction xs) auto

lemma first_slot_SomeD:
  "first_slot P xs = Some i \<Longrightarrow> i < length xs \<and> P (xs ! i) \<and> (\<forall>j < i. \<not> P (xs ! j))"
proof (induction xs arbitrary: i)
  case Nil
  then show ?case by simp
next
  case (Cons x xs)
  show ?case
  proof (cases "P x")
    case True
    with Cons.prems show ?thesis by simp
  next
    case False
    with Cons.prems obtain k where k: "first_slot P xs = Some k" "i = Suc k"
      by auto
    with Cons.IH [OF k(1)] False show ?thesis
      by (auto simp: less_Suc_eq_0_disj)
  qed
qed

lemma first_slot_ex: "\<exists>x \<in> set xs. P x \<Longrightarrow> \<exists>i. first_slot P xs = Some i"
  by (cases "first_slot P xs") (auto simp: first_slot_None)

lemma first_slot_less: "first_slot P xs = Some i \<Longrightarrow> i < length xs"
  by (simp add: first_slot_SomeD)

lemma first_slot_holds: "first_slot P xs = Some i \<Longrightarrow> P (xs ! i)"
  by (simp add: first_slot_SomeD)

lemma first_slotI:
  "i < length xs \<Longrightarrow> P (xs ! i) \<Longrightarrow> (\<And>j. j < i \<Longrightarrow> \<not> P (xs ! j)) \<Longrightarrow> first_slot P xs = Some i"
proof -
  assume i: "i < length xs" "P (xs ! i)" and least: "\<And>j. j < i \<Longrightarrow> \<not> P (xs ! j)"
  from i have "\<exists>x \<in> set xs. P x" by (blast intro: nth_mem)
  then obtain k where k: "first_slot P xs = Some k"
    using first_slot_ex [of xs P] by auto
  from first_slot_SomeD [OF k] i least have "k = i"
    by (metis nat_neq_iff)
  with k show ?thesis by simp
qed

section \<open>Lemmas on lists and options\<close>

lemma all_set_update:
  "\<forall>x \<in> set xs. P x \<Longrightarrow> P y \<Longrightarrow> \<forall>x \<in> set (xs[i := y]). P x"
  using set_update_subset_insert [of xs i y] by auto

lemma nth_update_if: "i < length xs \<Longrightarrow> (xs[i := y]) ! j = (if i = j then y else xs ! j)"
  by simp

lemma nth_update_lt: "j < length xs \<Longrightarrow> (xs[i := y]) ! j = (if i = j then y else xs ! j)"
  by auto

section \<open>Lemmas on words\<close>

lemma unat_and_mask: "unat ((w :: 'a::len word) AND mask n) = unat w mod 2 ^ n"
  by (simp only: take_bit_eq_mask [symmetric] unsigned_take_bit_eq) (simp add: take_bit_eq_mod)

lemma and_not_mask_minus: "(w :: 'a::len word) AND NOT (mask n) = w - (w AND mask n)"
proof -
  have "w = (w AND NOT (mask n)) + (w AND mask n)"
    by (subst disjunctive_add) (auto simp: bit_simps intro!: bit_word_eqI)
  then show ?thesis by (simp add: algebra_simps)
qed

lemma unat_and_not_mask: "unat ((w :: 'a::len word) AND NOT (mask n)) = unat w - unat w mod 2 ^ n"
proof -
  have "w AND mask n \<le> w" by (simp add: word_and_le2)
  then show ?thesis
    by (simp add: and_not_mask_minus unat_sub unat_and_mask)
qed

lemma mask_12_u64: "(mask 12 :: u64) = 0xFFF"
  by (simp add: mask_eq_exp_minus_1)

lemma unat_page_round:
  "unat ((w :: u64) AND NOT 0xFFF) = unat w - unat w mod 4096"
  using unat_and_not_mask [of w 12] by (simp add: mask_12_u64)

lemma nat_bit_bound:
  assumes "i < 2 ^ k" "bit (i :: nat) n"
  shows "n < k"
proof -
  have "take_bit k i = i" using assms(1) by (simp add: take_bit_nat_eq_self)
  then have "bit (take_bit k i) n" using assms(2) by simp
  then show ?thesis by (simp add: bit_take_bit_iff)
qed

lemma word_of_nat_less_lt:
  "n < 2 ^ LENGTH('a) \<Longrightarrow> unat (of_nat n :: 'a::len word) = n"
  by (simp add: unat_of_nat take_bit_nat_eq_self)

lemma sint_small:
  fixes w :: u32
  assumes "unat w < 2 ^ 31" shows "sint w = int (unat w)"
proof -
  have u: "uint w = int (unat w)" by simp
  have "int (unat w) < int (2 ^ 31)" using assms by (simp only: of_nat_less_iff)
  moreover have "- (2 ^ 31) \<le> (0 :: int)" "0 \<le> int (unat w)" by (simp, rule of_nat_0_le_iff)
  ultimately have "signed_take_bit 31 (int (unat w)) = int (unat w)"
    by (intro signed_take_bit_int_eq_self) (simp_all only: of_nat_power of_nat_numeral)
  then show ?thesis unfolding sint_uint u by simp
qed

end
