(* ===== verification/Tcb.thy ===== *)
theory Tcb
  imports Prelude
begin

text \<open>
  Threads: the saved user context of \<^verbatim>\<open>arch/x86_64/include/context.h\<close>, the signal actions of
  \<^verbatim>\<open>include/robu/signal.h\<close> and the thread control block of \<^verbatim>\<open>include/robu/tcb.h\<close>. A pointer to a
  thread control block is an entry of the thread table or the idle thread of a processor; the
  intrusive list links are optional such pointers, with \<open>None\<close> for NULL.
\<close>

datatype thread_state =
    THREAD_STATE_RUNNING | THREAD_STATE_READY | THREAD_STATE_WAIT_RECV | THREAD_STATE_WAIT_SEND
  | THREAD_STATE_WAIT_PAGEFAULT | THREAD_STATE_SLEEPING | THREAD_STATE_WAIT_NOTIFICATION
  | THREAD_STATE_DEAD | THREAD_STATE_ZOMBIE | THREAD_STATE_WAIT_CHILD | THREAD_STATE_WAIT_CONSOLE
  | THREAD_STATE_WAIT_EXECREQ

datatype tptr = Thread nat | Idle nat

record arch_uctx =
  r15 :: u64  r14 :: u64  r13 :: u64  r12 :: u64  r11 :: u64  r10 :: u64  r9 :: u64  r8 :: u64
  rbp :: u64  rdi :: u64  rsi :: u64  rdx :: u64  rcx :: u64  rbx :: u64  rax :: u64
  vector :: u64
  uc_error :: u64
  rip :: u64  cs :: u64  rflags :: u64  rsp :: u64  ss :: u64

definition arch_uctx_zero :: arch_uctx where
  "arch_uctx_zero = \<lparr>r15 = 0, r14 = 0, r13 = 0, r12 = 0, r11 = 0, r10 = 0, r9 = 0, r8 = 0,
     rbp = 0, rdi = 0, rsi = 0, rdx = 0, rcx = 0, rbx = 0, rax = 0, vector = 0, uc_error = 0,
     rip = 0, cs = 0, rflags = 0, rsp = 0, ss = 0\<rparr>"

definition arch_uctx_init :: "u64 \<Rightarrow> u64 \<Rightarrow> arch_uctx" where
  "arch_uctx_init entry stack_top = arch_uctx_zero
     \<lparr>rip := entry, cs := 0x08, ss := 0x10, rsp := (stack_top AND NOT 0xF) - 8, rflags := 0x202\<rparr>"

definition GDT_SEL_UCODE_RPL3 :: u64 where "GDT_SEL_UCODE_RPL3 = 0x1B"
definition GDT_SEL_UDATA_RPL3 :: u64 where "GDT_SEL_UDATA_RPL3 = 0x23"

definition arch_uctx_init_user :: "vaddr \<Rightarrow> vaddr \<Rightarrow> arch_uctx" where
  "arch_uctx_init_user entry user_stack_top = arch_uctx_zero
     \<lparr>rip := entry, cs := GDT_SEL_UCODE_RPL3, ss := GDT_SEL_UDATA_RPL3,
      rsp := user_stack_top AND NOT 0xF, rflags := 0x202\<rparr>"

definition arch_uctx_init_user_argv ::
    "vaddr \<Rightarrow> vaddr \<Rightarrow> u64 \<Rightarrow> u64 \<Rightarrow> u64 \<Rightarrow> u64 \<Rightarrow> u64 \<Rightarrow> arch_uctx" where
  "arch_uctx_init_user_argv entry user_stack_top argc argv envp heap_base spawn_info =
     (arch_uctx_init_user entry user_stack_top)
       \<lparr>rdi := argc, rsi := argv, rdx := envp, rcx := heap_base, r8 := spawn_info\<rparr>"

definition ROBU_NSIG :: nat where "ROBU_NSIG = 64"

record sig_action =
  sa_handler :: u64
  sa_flags :: u64
  sa_mask :: u64

definition sig_action_zero :: sig_action where
  "sig_action_zero = \<lparr>sa_handler = 0, sa_flags = 0, sa_mask = 0\<rparr>"

record tcb =
  t_tid :: tid
  t_state :: thread_state
  t_prio :: u8
  t_in_ready_q :: bool
  t_timeslice_left :: int
  t_wake_at_tick :: u64
  t_name :: string
  t_exit_status :: int
  t_uctx :: arch_uctx
  t_fpu_state :: "u8 list"
  t_fs_base :: u64
  t_address_space :: paddr
  t_kstack_top :: u64
  t_kstack_size :: u64
  t_ipc_partner :: tid
  t_ipc_recv_after :: tid
  t_ipc_flags :: u32
  t_ipc_buffer :: "u64 list"
  t_pager_tid :: tid
  t_parent_tid :: tid
  t_wait_filter :: tid
  t_execreq_slot :: u32
  t_last_cpu :: u32
  t_pgid :: tid
  t_sid :: tid
  t_sig_pending :: u64
  t_sig_mask :: u64
  t_sig_actions :: "sig_action list"
  t_in_sig_handler :: bool
  t_saved_uctx_before_sig :: arch_uctx
  t_saved_sig_mask :: u64
  t_rq_next :: "tptr option"
  t_sq_next :: "tptr option"
  t_inbox_next :: "tptr option"
  t_send_q_head :: "tptr option"
  t_send_q_tail :: "tptr option"

text \<open>\<^verbatim>\<open>memset(t, 0, sizeof(*t))\<close>; the state with number 0 is \<open>THREAD_STATE_RUNNING\<close>.\<close>

definition tcb_zero :: tcb where
  "tcb_zero = \<lparr>t_tid = 0, t_state = THREAD_STATE_RUNNING, t_prio = 0, t_in_ready_q = False,
     t_timeslice_left = 0, t_wake_at_tick = 0, t_name = [], t_exit_status = 0,
     t_uctx = arch_uctx_zero, t_fpu_state = replicate 512 0, t_fs_base = 0, t_address_space = 0,
     t_kstack_top = 0, t_kstack_size = 0, t_ipc_partner = 0, t_ipc_recv_after = 0, t_ipc_flags = 0,
     t_ipc_buffer = replicate 6 0, t_pager_tid = 0, t_parent_tid = 0, t_wait_filter = 0,
     t_execreq_slot = 0, t_last_cpu = 0, t_pgid = 0, t_sid = 0, t_sig_pending = 0, t_sig_mask = 0,
     t_sig_actions = replicate ROBU_NSIG sig_action_zero, t_in_sig_handler = False,
     t_saved_uctx_before_sig = arch_uctx_zero, t_saved_sig_mask = 0, t_rq_next = None,
     t_sq_next = None, t_inbox_next = None, t_send_q_head = None, t_send_q_tail = None\<rparr>"

end
