(* ===== verification/Sched.thy ===== *)
theory Sched
  imports Tcb
begin

text \<open>
  The scheduler, \<^verbatim>\<open>src/core/sched.c\<close>: thread table, ready queues (one intrusive list with head and
  tail per priority level and a bitmap of the non-empty levels), the wake inbox, sleeping,
  timer arming, thread creation and lookup. The kernel lock makes every operation atomic, so an
  operation is a function on the scheduler state; the processor it runs on is its argument \<open>cpu\<close>.
  Thread termination and the timer tick, which reach into the other components, are in the theory
  \<open>Kernel\<close>.
\<close>

section \<open>State\<close>

definition SCHED_PRIO_LEVELS :: nat where "SCHED_PRIO_LEVELS = 32"
definition SCHED_TIMESLICE_TICKS :: nat where "SCHED_TIMESLICE_TICKS = 5"
definition SCHED_MAX_THREADS :: nat where "SCHED_MAX_THREADS = 64"
definition SCHED_MAX_ARM_TICKS :: u64 where "SCHED_MAX_ARM_TICKS = 500"
definition STACK_SIZE :: u64 where "STACK_SIZE = 8192"
definition MAX_CPUS :: nat where "MAX_CPUS = 16"

record sched_stats =
  st_direct_switches :: u64
  st_full_scheds :: u64
  st_preempts :: u64
  st_ipc_msgs :: u64
  st_ticks :: u64
  st_affinity_hits :: u64
  st_affinity_misses :: u64
  st_timer_traps :: u64
  st_kicks_sent :: u64

record sched =
  tcbs :: "tptr \<Rightarrow> tcb"
  ready_head :: "nat \<Rightarrow> tptr option"
  ready_tail :: "nat \<Rightarrow> tptr option"
  ready_bitmap :: u32
  wake_inbox :: "tptr option"
  need_resched :: "nat \<Rightarrow> bool"
  now_ticks :: u64
  armed_ticks :: "nat \<Rightarrow> u64"
  next_deadline :: u64
  current_thread :: "nat \<Rightarrow> tptr"
  cpu_online :: "nat \<Rightarrow> bool"
  stats :: sched_stats
  fpu_default_state :: "u8 list"

text \<open>Writing through a pointer.\<close>

definition upd :: "tptr \<Rightarrow> (tcb \<Rightarrow> tcb) \<Rightarrow> sched \<Rightarrow> sched" where
  "upd t f s = s\<lparr>tcbs := (tcbs s)(t := f (tcbs s t))\<rparr>"

definition prio_of :: "sched \<Rightarrow> tptr \<Rightarrow> nat" where
  "prio_of s t = unat (t_prio (tcbs s t))"

section \<open>Ready queues\<close>

definition sched_note_deadline :: "u64 \<Rightarrow> sched \<Rightarrow> sched" where
  "sched_note_deadline tick s = (if tick < next_deadline s then s\<lparr>next_deadline := tick\<rparr> else s)"

definition rq_push :: "tptr \<Rightarrow> sched \<Rightarrow> sched" where
  "rq_push t s =
     (if t_in_ready_q (tcbs s t) then s
      else
        (let s1 = upd t (\<lambda>c. c\<lparr>t_in_ready_q := True, t_rq_next := None\<rparr>) s;
             p = prio_of s1 t;
             s2 = (case ready_tail s1 p of
                     Some q \<Rightarrow> upd q (\<lambda>c. c\<lparr>t_rq_next := Some t\<rparr>) s1
                   | None \<Rightarrow> s1\<lparr>ready_head := (ready_head s1)(p := Some t)\<rparr>)
         in s2\<lparr>ready_tail := (ready_tail s2)(p := Some t),
               ready_bitmap := ready_bitmap s2 OR push_bit p 1\<rparr>))"

definition rq_unlink :: "nat \<Rightarrow> tptr option \<Rightarrow> tptr \<Rightarrow> sched \<Rightarrow> sched" where
  "rq_unlink p prev t s =
     (let nx = t_rq_next (tcbs s t);
          s1 = (case prev of
                  Some pv \<Rightarrow> upd pv (\<lambda>c. c\<lparr>t_rq_next := nx\<rparr>) s
                | None \<Rightarrow> s\<lparr>ready_head := (ready_head s)(p := nx)\<rparr>);
          s2 = (if ready_tail s1 p = Some t then s1\<lparr>ready_tail := (ready_tail s1)(p := prev)\<rparr> else s1);
          s3 = (if ready_head s2 p = None
                then s2\<lparr>ready_bitmap := ready_bitmap s2 AND NOT (push_bit p 1)\<rparr> else s2)
      in upd t (\<lambda>c. c\<lparr>t_in_ready_q := False, t_rq_next := None\<rparr>) s3)"

text \<open>\<^verbatim>\<open>31 - __builtin_clz(b)\<close> for a non-zero \<open>b\<close>.\<close>

definition highest_bit :: "u32 \<Rightarrow> nat" where
  "highest_bit b = last (filter (bit b) [0..<32])"

definition count_affinity :: "nat \<Rightarrow> tptr \<Rightarrow> sched \<Rightarrow> sched" where
  "count_affinity preferred_cpu t s =
     (if t_last_cpu (tcbs s t) = of_nat preferred_cpu
      then s\<lparr>stats := (stats s)\<lparr>st_affinity_hits := st_affinity_hits (stats s) + 1\<rparr>\<rparr>
      else if t_last_cpu (tcbs s t) \<noteq> -1
      then s\<lparr>stats := (stats s)\<lparr>st_affinity_misses := st_affinity_misses (stats s) + 1\<rparr>\<rparr>
      else s)"

text \<open>Every round takes one thread off a queue. The queues hold distinct threads, so the number of
  threads bounds the rounds; \<open>rq_pop_spec\<close> shows that the fuel of \<open>rq_pop_highest\<close> is enough.\<close>

fun rq_pop :: "nat \<Rightarrow> nat \<Rightarrow> sched \<Rightarrow> tptr option \<times> sched" where
  "rq_pop 0 cpu s = (None, s)"
| "rq_pop (Suc fuel) cpu s =
     (if ready_bitmap s = 0 then (None, s)
      else
        (let p = highest_bit (ready_bitmap s)
         in (case ready_head s p of
               None \<Rightarrow> (None, s)
             | Some t \<Rightarrow>
                 (let s1 = rq_unlink p None t s
                  in if t_state (tcbs s1 t) = THREAD_STATE_READY
                     then (Some t, count_affinity cpu t s1)
                     else rq_pop fuel cpu s1))))"

definition rq_pop_highest :: "nat \<Rightarrow> sched \<Rightarrow> tptr option \<times> sched" where
  "rq_pop_highest cpu s = rq_pop (SCHED_MAX_THREADS + 1) cpu s"

section \<open>Waking\<close>

text \<open>One step of the loop of \<open>sched_wake\<close> over the other processors: a processor that runs a thread
  of lower priority with a long timer is interrupted. The interrupt itself is a hardware effect;
  the statistics count it.\<close>

definition sched_kick :: "nat \<Rightarrow> tptr \<Rightarrow> nat \<Rightarrow> sched \<Rightarrow> sched" where
  "sched_kick cpu t c s =
     (if c = cpu \<or> \<not> cpu_online s c \<or> armed_ticks s c \<le> of_nat SCHED_TIMESLICE_TICKS then s
      else if t_prio (tcbs s t) > t_prio (tcbs s (current_thread s c))
      then s\<lparr>stats := (stats s)\<lparr>st_kicks_sent := st_kicks_sent (stats s) + 1\<rparr>\<rparr> else s)"

definition sched_wake :: "nat \<Rightarrow> tptr \<Rightarrow> sched \<Rightarrow> sched" where
  "sched_wake cpu t s =
     (let st = t_state (tcbs s t)
      in if st = THREAD_STATE_DEAD \<or> st = THREAD_STATE_RUNNING \<or> st = THREAD_STATE_ZOMBIE then s
         else if st = THREAD_STATE_READY \<and> t_in_ready_q (tcbs s t) then s
         else
           (let s1 = upd t (\<lambda>c. c\<lparr>t_state := THREAD_STATE_READY\<rparr>) s;
                s2 = (if t_in_ready_q (tcbs s1 t) then s1
                      else (upd t (\<lambda>c. c\<lparr>t_inbox_next := wake_inbox s1\<rparr>) s1)\<lparr>wake_inbox := Some t\<rparr>);
                s3 = (if t_prio (tcbs s2 t) > t_prio (tcbs s2 (current_thread s2 cpu))
                      then s2\<lparr>need_resched := (need_resched s2)(cpu := True)\<rparr> else s2)
            in fold (sched_kick cpu t) [0..<MAX_CPUS] s3))"

text \<open>The inbox is a list as long as no thread is put into it twice; the loop over it has fuel for
  every thread of the table.\<close>

fun drain_list :: "nat \<Rightarrow> tptr option \<Rightarrow> sched \<Rightarrow> sched" where
  "drain_list 0 l s = s"
| "drain_list (Suc fuel) l s =
     (case l of
        None \<Rightarrow> s
      | Some t \<Rightarrow>
          (let nx = t_inbox_next (tcbs s t);
               s1 = upd t (\<lambda>c. c\<lparr>t_inbox_next := None\<rparr>) s;
               s2 = (if t_state (tcbs s1 t) = THREAD_STATE_READY then rq_push t s1 else s1)
           in drain_list fuel nx s2))"

definition drain_inbox :: "sched \<Rightarrow> sched" where
  "drain_inbox s = drain_list (SCHED_MAX_THREADS + MAX_CPUS + 1) (wake_inbox s) (s\<lparr>wake_inbox := None\<rparr>)"

definition sched_ready_now :: "tptr \<Rightarrow> sched \<Rightarrow> sched" where
  "sched_ready_now t s = rq_push t (upd t (\<lambda>c. c\<lparr>t_state := THREAD_STATE_READY\<rparr>) s)"

definition sched_direct_switch :: "nat \<Rightarrow> tptr \<Rightarrow> sched \<Rightarrow> sched" where
  "sched_direct_switch cpu dest s =
     (let s1 = upd dest (\<lambda>c. c\<lparr>t_state := THREAD_STATE_RUNNING, t_last_cpu := of_nat cpu\<rparr>) s
      in s1\<lparr>current_thread := (current_thread s1)(cpu := dest),
            stats := (stats s1)\<lparr>st_direct_switches := st_direct_switches (stats s1) + 1\<rparr>\<rparr>)"

definition sched_block :: "nat \<Rightarrow> thread_state \<Rightarrow> sched \<Rightarrow> sched" where
  "sched_block cpu why s = upd (current_thread s cpu) (\<lambda>c. c\<lparr>t_state := why\<rparr>) s"

definition sched_request_resched :: "nat \<Rightarrow> sched \<Rightarrow> sched" where
  "sched_request_resched cpu s = s\<lparr>need_resched := (need_resched s)(cpu := True)\<rparr>"

definition sched_yield :: "nat \<Rightarrow> sched \<Rightarrow> sched" where
  "sched_yield cpu s = s\<lparr>need_resched := (need_resched s)(cpu := True)\<rparr>"

definition sched_sleep :: "nat \<Rightarrow> u64 \<Rightarrow> sched \<Rightarrow> sched" where
  "sched_sleep cpu ticks s =
     (if ticks = 0 then sched_yield cpu s
      else
        (let wake_at = now_ticks s + ticks;
             s1 = upd (current_thread s cpu)
                    (\<lambda>c. c\<lparr>t_wake_at_tick := wake_at, t_state := THREAD_STATE_SLEEPING\<rparr>) s
         in if wake_at < next_deadline s1 then s1\<lparr>next_deadline := wake_at\<rparr> else s1))"

section \<open>Choosing the next thread\<close>

text \<open>The three parts of \<open>schedule\<close>: the previous thread goes back into its queue if it can still
  run, the highest ready thread is taken, and that thread (or the idle thread) becomes current.\<close>

definition sched_requeue :: "nat \<Rightarrow> sched \<Rightarrow> sched" where
  "sched_requeue cpu s =
     (let prev = current_thread s cpu
      in if prev = Idle cpu then upd prev (\<lambda>c. c\<lparr>t_state := THREAD_STATE_READY\<rparr>) s
         else
           (let s1 = (if t_state (tcbs s prev) = THREAD_STATE_RUNNING
                      then upd prev (\<lambda>c. c\<lparr>t_state := THREAD_STATE_READY\<rparr>) s else s)
            in if t_state (tcbs s1 prev) = THREAD_STATE_READY then rq_push prev s1 else s1))"

definition sched_enter :: "nat \<Rightarrow> tptr \<Rightarrow> sched \<Rightarrow> sched" where
  "sched_enter cpu nxt s =
     (let s1 = upd nxt (\<lambda>c. c\<lparr>t_state := THREAD_STATE_RUNNING, t_last_cpu := of_nat cpu\<rparr>) s;
          s2 = (if t_timeslice_left (tcbs s1 nxt) \<le> 0
                then upd nxt (\<lambda>c. c\<lparr>t_timeslice_left := int SCHED_TIMESLICE_TICKS\<rparr>) s1 else s1)
      in s2\<lparr>current_thread := (current_thread s2)(cpu := nxt),
            need_resched := (need_resched s2)(cpu := False),
            stats := (stats s2)\<lparr>st_full_scheds := st_full_scheds (stats s2) + 1\<rparr>\<rparr>)"

definition schedule :: "nat \<Rightarrow> sched \<Rightarrow> sched" where
  "schedule cpu s =
     (let s1 = drain_inbox s;
          s2 = sched_requeue cpu s1;
          (r, s3) = rq_pop_highest cpu s2
      in sched_enter cpu (case r of None \<Rightarrow> Idle cpu | Some t \<Rightarrow> t) s3)"

definition sched_tick_local :: "nat \<Rightarrow> u64 \<Rightarrow> sched \<Rightarrow> sched" where
  "sched_tick_local cpu n s =
     (let cur = current_thread s cpu
      in if cur = Idle cpu then s
         else
           (let s1 = upd cur (\<lambda>c. c\<lparr>t_timeslice_left := t_timeslice_left c - sint (ucast n :: 32 word)\<rparr>) s
            in if t_timeslice_left (tcbs s1 cur) \<le> 0
               then s1\<lparr>need_resched := (need_resched s1)(cpu := True),
                       stats := (stats s1)\<lparr>st_preempts := st_preempts (stats s1) + 1\<rparr>\<rparr>
               else s1))"

definition sched_now :: "sched \<Rightarrow> u64" where
  "sched_now s = now_ticks s"

text \<open>The number of ticks after which the timer of \<open>cpu\<close> is to fire; \<open>arch_timer_arm\<close> programs the
  hardware with it.\<close>

definition arm_ticks :: "nat \<Rightarrow> sched \<Rightarrow> u64" where
  "arm_ticks cpu s =
     (let cur = current_thread s cpu;
          n = (if cur = Idle cpu then SCHED_MAX_ARM_TICKS
               else if t_timeslice_left (tcbs s cur) > 0 then word_of_int (t_timeslice_left (tcbs s cur))
               else 1);
          n = (if cpu = 0 \<and> next_deadline s \<noteq> -1
               then (let sleeper_ticks = (if next_deadline s > now_ticks s
                                          then next_deadline s - now_ticks s else 1)
                     in if sleeper_ticks < n then sleeper_ticks else n)
               else n);
          n = (if n > SCHED_MAX_ARM_TICKS then SCHED_MAX_ARM_TICKS else n)
      in if n < 1 then 1 else n)"

definition sched_arm_next_deadline :: "nat \<Rightarrow> sched \<Rightarrow> sched" where
  "sched_arm_next_deadline cpu s = s\<lparr>armed_ticks := (armed_ticks s)(cpu := arm_ticks cpu s)\<rparr>"

section \<open>Threads\<close>

definition sched_stats_zero :: sched_stats where
  "sched_stats_zero = \<lparr>st_direct_switches = 0, st_full_scheds = 0, st_preempts = 0, st_ipc_msgs = 0,
     st_ticks = 0, st_affinity_hits = 0, st_affinity_misses = 0, st_timer_traps = 0,
     st_kicks_sent = 0\<rparr>"

text \<open>The entry point of the idle thread and the addresses of the idle stacks are constants of the
  kernel image.\<close>

definition init_idle_for_this_cpu :: "u64 \<Rightarrow> (nat \<Rightarrow> u64) \<Rightarrow> nat \<Rightarrow> sched \<Rightarrow> sched" where
  "init_idle_for_this_cpu idle_entry idle_stack cpu s =
     (let top = idle_stack cpu + 2048;
          s1 = upd (Idle cpu) (\<lambda>c. c\<lparr>t_state := THREAD_STATE_READY, t_prio := 0,
                 t_name := (if cpu = 0 then ''idle-bsp'' else ''idle-ap''),
                 t_uctx := arch_uctx_init idle_entry top, t_kstack_top := top, t_kstack_size := 2048\<rparr>) s
      in s1\<lparr>current_thread := (current_thread s1)(cpu := Idle cpu)\<rparr>)"

text \<open>The zero-initialised static data, before \<open>sched_init\<close>.\<close>

definition sched_boot :: "(nat \<Rightarrow> bool) \<Rightarrow> u8 list \<Rightarrow> sched" where
  "sched_boot online fpu = \<lparr>tcbs = (\<lambda>_. tcb_zero), ready_head = (\<lambda>_. None), ready_tail = (\<lambda>_. None),
     ready_bitmap = 0, wake_inbox = None, need_resched = (\<lambda>_. False), now_ticks = 0,
     armed_ticks = (\<lambda>_. 0), next_deadline = -1, current_thread = Idle, cpu_online = online,
     stats = sched_stats_zero, fpu_default_state = fpu\<rparr>"

definition sched_init :: "u64 \<Rightarrow> (nat \<Rightarrow> u64) \<Rightarrow> nat \<Rightarrow> sched \<Rightarrow> sched" where
  "sched_init idle_entry idle_stack cpu s =
     init_idle_for_this_cpu idle_entry idle_stack cpu
       (fold (\<lambda>i. upd (Thread i) (\<lambda>c. c\<lparr>t_tid := of_nat i, t_state := THREAD_STATE_DEAD\<rparr>))
          [0..<SCHED_MAX_THREADS] s)"

definition sched_init_ap :: "u64 \<Rightarrow> (nat \<Rightarrow> u64) \<Rightarrow> nat \<Rightarrow> sched \<Rightarrow> sched" where
  "sched_init_ap idle_entry idle_stack cpu s = init_idle_for_this_cpu idle_entry idle_stack cpu s"

definition alloc_tcb :: "string \<Rightarrow> u8 \<Rightarrow> sched \<Rightarrow> tptr option \<times> sched" where
  "alloc_tcb name prio s =
     (case first_slot (\<lambda>i. t_state (tcbs s (Thread i)) = THREAD_STATE_DEAD) [1..<SCHED_MAX_THREADS] of
        None \<Rightarrow> (None, s)
      | Some k \<Rightarrow>
          (let t = Thread (k + 1)
           in (Some t,
               upd t (\<lambda>c. tcb_zero\<lparr>t_tid := t_tid c, t_name := name, t_prio := prio, t_pgid := t_tid c,
                              t_sid := t_tid c, t_timeslice_left := int SCHED_TIMESLICE_TICKS,
                              t_last_cpu := -1, t_fpu_state := fpu_default_state s\<rparr>) s)))"

definition thread_create :: "string \<Rightarrow> u64 \<Rightarrow> u64 \<Rightarrow> u8 \<Rightarrow> sched \<Rightarrow> tptr option \<times> sched" where
  "thread_create name entry stack_top prio s =
     (case alloc_tcb name prio s of
        (None, s1) \<Rightarrow> (None, s1)
      | (Some t, s1) \<Rightarrow>
          (Some t, sched_ready_now t
             (upd t (\<lambda>c. c\<lparr>t_uctx := arch_uctx_init entry stack_top, t_kstack_top := stack_top,
                           t_kstack_size := STACK_SIZE\<rparr>) s1)))"

definition thread_create_user_locked ::
    "string \<Rightarrow> vaddr \<Rightarrow> vaddr \<Rightarrow> u8 \<Rightarrow> paddr \<Rightarrow> tid \<Rightarrow> sched \<Rightarrow> tptr option \<times> sched" where
  "thread_create_user_locked name entry user_stack_top prio aspace pager s =
     (case alloc_tcb name prio s of
        (None, s1) \<Rightarrow> (None, s1)
      | (Some t, s1) \<Rightarrow>
          (Some t, sched_ready_now t
             (upd t (\<lambda>c. c\<lparr>t_address_space := aspace, t_pager_tid := pager,
                           t_uctx := arch_uctx_init_user entry user_stack_top\<rparr>) s1)))"

definition thread_create_user_argv_locked ::
    "string \<Rightarrow> vaddr \<Rightarrow> vaddr \<Rightarrow> u8 \<Rightarrow> paddr \<Rightarrow> tid \<Rightarrow> u64 \<Rightarrow> u64 \<Rightarrow> u64 \<Rightarrow> u64 \<Rightarrow> u64 \<Rightarrow> sched
     \<Rightarrow> tptr option \<times> sched" where
  "thread_create_user_argv_locked name entry user_stack_top prio aspace pager argc argv envp heap_base spawn_info s =
     (case alloc_tcb name prio s of
        (None, s1) \<Rightarrow> (None, s1)
      | (Some t, s1) \<Rightarrow>
          (Some t, sched_ready_now t
             (upd t (\<lambda>c. c\<lparr>t_address_space := aspace, t_pager_tid := pager,
                t_uctx := arch_uctx_init_user_argv entry user_stack_top argc argv envp heap_base spawn_info\<rparr>) s1)))"

definition thread_create_forked_locked :: "string \<Rightarrow> paddr \<Rightarrow> tid \<Rightarrow> u8 \<Rightarrow> tptr \<Rightarrow> sched \<Rightarrow> tptr option \<times> sched" where
  "thread_create_forked_locked name aspace pager prio parent s =
     (case alloc_tcb name prio s of
        (None, s1) \<Rightarrow> (None, s1)
      | (Some t, s1) \<Rightarrow>
          (Some t, sched_ready_now t
             (upd t (\<lambda>c. c\<lparr>t_address_space := aspace, t_pager_tid := pager,
                t_uctx := t_uctx (tcbs s1 parent), t_fs_base := t_fs_base (tcbs s1 parent),
                t_fpu_state := t_fpu_state (tcbs s1 parent)\<rparr>) s1)))"

definition sched_get_tcb :: "tid \<Rightarrow> sched \<Rightarrow> tptr option" where
  "sched_get_tcb t s =
     (if t = 0 \<or> unat t \<ge> SCHED_MAX_THREADS then None
      else if t_state (tcbs s (Thread (unat t))) \<in> {THREAD_STATE_DEAD, THREAD_STATE_ZOMBIE} then None
      else Some (Thread (unat t)))"

definition sched_thread_info ::
    "tid \<Rightarrow> sched \<Rightarrow> (thread_state \<times> u8 \<times> int \<times> tid \<times> string) option" where
  "sched_thread_info t s =
     (if t = 0 \<or> unat t \<ge> SCHED_MAX_THREADS then None
      else
        (let c = tcbs s (Thread (unat t))
         in if t_state c = THREAD_STATE_DEAD then None
            else Some (t_state c, t_prio c, t_exit_status c, t_parent_tid c, t_name c)))"

text \<open>The first matching zombie child, and whether a matching live child exists.\<close>

definition sched_find_zombie_child :: "tid \<Rightarrow> tid \<Rightarrow> sched \<Rightarrow> tptr option \<times> bool" where
  "sched_find_zombie_child parent filt s =
     (let match = (\<lambda>i. t_parent_tid (tcbs s (Thread i)) = parent
                      \<and> (filt = 0 \<or> t_tid (tcbs s (Thread i)) = filt));
          state = (\<lambda>i. t_state (tcbs s (Thread i)))
      in (map_option (\<lambda>k. Thread (k + 1))
            (first_slot (\<lambda>i. match i \<and> state i = THREAD_STATE_ZOMBIE) [1..<SCHED_MAX_THREADS]),
          \<exists>i \<in> set [1..<SCHED_MAX_THREADS]. match i \<and> state i \<noteq> THREAD_STATE_ZOMBIE
             \<and> state i \<noteq> THREAD_STATE_DEAD))"

definition sched_reap_zombie :: "tptr \<Rightarrow> sched \<Rightarrow> sched" where
  "sched_reap_zombie t s = upd t (\<lambda>c. c\<lparr>t_state := THREAD_STATE_DEAD\<rparr>) s"

section \<open>The ready queues as lists\<close>

fun rq_path :: "(tptr \<Rightarrow> tcb) \<Rightarrow> tptr option \<Rightarrow> tptr list \<Rightarrow> bool" where
  "rq_path h l [] \<longleftrightarrow> l = None"
| "rq_path h l (t # ts) \<longleftrightarrow> l = Some t \<and> rq_path h (t_rq_next (h t)) ts"

definition rq_level :: "sched \<Rightarrow> nat \<Rightarrow> tptr list \<Rightarrow> bool" where
  "rq_level s p ts \<longleftrightarrow> rq_path (tcbs s) (ready_head s p) ts
     \<and> ready_tail s p = (if ts = [] then None else Some (last ts))
     \<and> (bit (ready_bitmap s) p \<longleftrightarrow> ts \<noteq> []) \<and> distinct ts \<and> (\<forall>t \<in> set ts. prio_of s t = p)"

definition rq_inv :: "sched \<Rightarrow> (nat \<Rightarrow> tptr list) \<Rightarrow> bool" where
  "rq_inv s q \<longleftrightarrow> (\<forall>p < SCHED_PRIO_LEVELS. rq_level s p (q p))
     \<and> (\<forall>t. t_in_ready_q (tcbs s t) \<longleftrightarrow> (\<exists>p < SCHED_PRIO_LEVELS. t \<in> set (q p)))"

lemma rq_inv_level: "rq_inv s q \<Longrightarrow> p < SCHED_PRIO_LEVELS \<Longrightarrow> rq_level s p (q p)"
  by (simp add: rq_inv_def)

lemma rq_path_cong:
  "(\<And>t. t \<in> set ts \<Longrightarrow> t_rq_next (h t) = t_rq_next (h' t)) \<Longrightarrow> rq_path h l ts = rq_path h' l ts"
  by (induction ts arbitrary: l) auto

lemma rq_path_append:
  "rq_path h l ts \<Longrightarrow> ts \<noteq> [] \<Longrightarrow> distinct ts \<Longrightarrow> t \<notin> set ts \<Longrightarrow> t_rq_next (h t) = None \<Longrightarrow>
    rq_path (h(last ts := (h (last ts))\<lparr>t_rq_next := Some t\<rparr>)) l (ts @ [t])"
proof (induction ts arbitrary: l)
  case Nil
  then show ?case by simp
next
  case (Cons x ts)
  show ?case
  proof (cases ts)
    case Nil
    with Cons.prems show ?thesis by simp
  next
    case (Cons y ys)
    with Cons.prems Cons.IH [of "t_rq_next (h x)"] show ?thesis by auto
  qed
qed

lemma sorted_le_last: "sorted xs \<Longrightarrow> x \<in> set xs \<Longrightarrow> x \<le> last xs"
  by (induction xs) (auto split: if_splits)

lemma highest_bit:
  assumes "b \<noteq> 0"
  shows "bit b (highest_bit b)" "highest_bit b < SCHED_PRIO_LEVELS" "\<And>j. bit b j \<Longrightarrow> j \<le> highest_bit b"
proof -
  let ?xs = "filter (bit b) [0..<32]"
  have lt: "j < 32" if "bit b j" for j using that bit_imp_le_length [of b j] by simp
  obtain i where "bit b i" using assms by (auto simp: bit_eq_iff)
  then have "i \<in> set ?xs" using lt by simp
  then have ne: "?xs \<noteq> []" using length_pos_if_in_set [of i ?xs] by simp
  then have "last ?xs \<in> set ?xs" by (rule last_in_set)
  then show "bit b (highest_bit b)" "highest_bit b < SCHED_PRIO_LEVELS"
    by (simp_all add: highest_bit_def SCHED_PRIO_LEVELS_def)
  show "j \<le> highest_bit b" if "bit b j" for j
    unfolding highest_bit_def by (rule sorted_le_last) (use that lt in \<open>simp_all add: sorted_wrt_filter\<close>)
qed

text \<open>What the queue operations leave alone: everything but links, queue flags, heads, tails, the
  bitmap and the statistics.\<close>

definition rq_core :: "tcb \<Rightarrow> tcb" where
  "rq_core c = c\<lparr>t_in_ready_q := False, t_rq_next := None\<rparr>"

definition rq_frame :: "sched \<Rightarrow> sched \<Rightarrow> bool" where
  "rq_frame s s' \<longleftrightarrow> (\<forall>x. rq_core (tcbs s' x) = rq_core (tcbs s x))
     \<and> wake_inbox s' = wake_inbox s \<and> need_resched s' = need_resched s \<and> now_ticks s' = now_ticks s
     \<and> armed_ticks s' = armed_ticks s \<and> next_deadline s' = next_deadline s
     \<and> current_thread s' = current_thread s \<and> cpu_online s' = cpu_online s"

lemma rq_frame_refl [simp]: "rq_frame s s"
  by (simp add: rq_frame_def)

lemma rq_frame_trans: "rq_frame a b \<Longrightarrow> rq_frame b c \<Longrightarrow> rq_frame a c"
  by (simp add: rq_frame_def)

lemma rq_core_eqD:
  assumes "rq_core a = rq_core b"
  shows "t_state a = t_state b" "t_prio a = t_prio b" "t_inbox_next a = t_inbox_next b"
    "t_timeslice_left a = t_timeslice_left b" "t_last_cpu a = t_last_cpu b"
  using arg_cong [OF assms, of t_state] arg_cong [OF assms, of t_prio] arg_cong [OF assms, of t_inbox_next]
    arg_cong [OF assms, of t_timeslice_left] arg_cong [OF assms, of t_last_cpu]
  by (simp_all add: rq_core_def)

lemma rq_frame_fields:
  assumes "rq_frame s s'"
  shows "t_state (tcbs s' x) = t_state (tcbs s x)" "t_prio (tcbs s' x) = t_prio (tcbs s x)"
    "t_inbox_next (tcbs s' x) = t_inbox_next (tcbs s x)" "prio_of s' x = prio_of s x"
    "t_timeslice_left (tcbs s' x) = t_timeslice_left (tcbs s x)" "t_last_cpu (tcbs s' x) = t_last_cpu (tcbs s x)"
  using assms rq_core_eqD [of "tcbs s' x" "tcbs s x"] by (simp_all add: rq_frame_def prio_of_def)

lemma upd_sel [simp]:
  "tcbs (upd t f s) x = (if x = t then f (tcbs s t) else tcbs s x)"
  "ready_head (upd t f s) = ready_head s" "ready_tail (upd t f s) = ready_tail s"
  "ready_bitmap (upd t f s) = ready_bitmap s" "wake_inbox (upd t f s) = wake_inbox s"
  "need_resched (upd t f s) = need_resched s" "now_ticks (upd t f s) = now_ticks s"
  "armed_ticks (upd t f s) = armed_ticks s" "next_deadline (upd t f s) = next_deadline s"
  "current_thread (upd t f s) = current_thread s" "cpu_online (upd t f s) = cpu_online s"
  "stats (upd t f s) = stats s" "fpu_default_state (upd t f s) = fpu_default_state s"
  by (simp_all add: upd_def)

text \<open>Changes of other fields of a thread keep the queues.\<close>

lemma rq_inv_upd:
  assumes "\<And>c. t_rq_next (f c) = t_rq_next c" "\<And>c. t_prio (f c) = t_prio c" "\<And>c. t_in_ready_q (f c) = t_in_ready_q c"
  shows "rq_inv (upd t f s) q = rq_inv s q"
proof -
  have "rq_path (tcbs (upd t f s)) l ts = rq_path (tcbs s) l ts" for l ts
    by (rule rq_path_cong) (simp add: assms)
  moreover have "prio_of (upd t f s) x = prio_of s x" for x by (simp add: prio_of_def assms)
  moreover have "t_in_ready_q (tcbs (upd t f s) x) = t_in_ready_q (tcbs s x)" for x by (simp add: assms)
  ultimately show ?thesis unfolding rq_inv_def rq_level_def by (simp only: upd_sel)
qed

lemma rq_inv_cong:
  "rq_inv s q \<Longrightarrow> tcbs s' = tcbs s \<Longrightarrow> ready_head s' = ready_head s \<Longrightarrow> ready_tail s' = ready_tail s \<Longrightarrow>
    ready_bitmap s' = ready_bitmap s \<Longrightarrow> rq_inv s' q"
  by (simp add: rq_inv_def rq_level_def prio_of_def)

lemma rq_inv_fun_cong: "rq_inv s q \<Longrightarrow> (\<And>p. p < SCHED_PRIO_LEVELS \<Longrightarrow> q p = q' p) \<Longrightarrow> rq_inv s q'"
  unfolding rq_inv_def by metis

text \<open>Pushing appends to the queue of the thread's priority.\<close>

lemma rq_push_in: "t_in_ready_q (tcbs s t) \<Longrightarrow> rq_push t s = s"
  by (simp add: rq_push_def)

lemma rq_push_eq:
  assumes "\<not> t_in_ready_q (tcbs s t)" "ready_tail s (prio_of s t) \<noteq> Some t"
  defines "p \<equiv> prio_of s t"
  shows "rq_push t s = s\<lparr>
     tcbs := (case ready_tail s p of
        None \<Rightarrow> (tcbs s)(t := (tcbs s t)\<lparr>t_in_ready_q := True, t_rq_next := None\<rparr>)
      | Some q \<Rightarrow> (tcbs s)(t := (tcbs s t)\<lparr>t_in_ready_q := True, t_rq_next := None\<rparr>,
                          q := (tcbs s q)\<lparr>t_rq_next := Some t\<rparr>)),
     ready_head := (case ready_tail s p of None \<Rightarrow> (ready_head s)(p := Some t) | Some _ \<Rightarrow> ready_head s),
     ready_tail := (ready_tail s)(p := Some t),
     ready_bitmap := ready_bitmap s OR push_bit p 1\<rparr>"
  using assms(1,2) by (cases "ready_tail s p") (auto simp: rq_push_def Let_def upd_def p_def prio_of_def)

lemma rq_inv_notin: "rq_inv s q \<Longrightarrow> \<not> t_in_ready_q (tcbs s t) \<Longrightarrow> p < SCHED_PRIO_LEVELS \<Longrightarrow> t \<notin> set (q p)"
  by (auto simp: rq_inv_def)

lemma rq_inv_disjoint:
  "rq_inv s q \<Longrightarrow> t \<in> set (q p) \<Longrightarrow> p < SCHED_PRIO_LEVELS \<Longrightarrow> prio_of s t = p"
  by (auto simp: rq_inv_def rq_level_def)

lemma ex_queue_append:
  assumes "p < (n :: nat)"
  shows "(\<exists>y < n. x \<in> set ((q(p := q p @ [t])) y)) \<longleftrightarrow> x = t \<or> (\<exists>y < n. x \<in> set (q y))"
proof
  assume "x = t \<or> (\<exists>y < n. x \<in> set (q y))"
  then consider "x = t" | y where "y < n" "x \<in> set (q y)" by blast
  then show "\<exists>y < n. x \<in> set ((q(p := q p @ [t])) y)"
  proof cases
    case 1
    with assms show ?thesis by (intro exI [of _ p]) simp
  next
    case (2 y)
    then show ?thesis by (intro exI [of _ y]) auto
  qed
qed (auto split: if_splits)

lemma rq_push_inv:
  assumes inv: "rq_inv s q" and nin: "\<not> t_in_ready_q (tcbs s t)" and pr: "prio_of s t < SCHED_PRIO_LEVELS"
  shows "rq_inv (rq_push t s) (q(prio_of s t := q (prio_of s t) @ [t]))" "rq_frame s (rq_push t s)"
proof -
  let ?p = "prio_of s t"
  let ?h = "(tcbs s)(t := (tcbs s t)\<lparr>t_in_ready_q := True, t_rq_next := None\<rparr>)"
  have lv: "rq_level s ?p (q ?p)" by (rule rq_inv_level [OF inv pr])
  have tl: "ready_tail s ?p = (if q ?p = [] then None else Some (last (q ?p)))" using lv by (simp add: rq_level_def)
  have ni: "t \<notin> set (q x)" if "x < SCHED_PRIO_LEVELS" for x using rq_inv_notin [OF inv nin that] .
  have lt: "last (q ?p) \<noteq> t" if "q ?p \<noteq> []" using last_in_set [OF that] ni [OF pr] by auto
  have nt: "ready_tail s ?p \<noteq> Some t" using tl lt by auto
  note eq = rq_push_eq [OF nin nt]
  let ?s = "rq_push t s"
  have tc: "tcbs ?s = (if q ?p = [] then ?h else ?h(last (q ?p) := (?h (last (q ?p)))\<lparr>t_rq_next := Some t\<rparr>))"
    unfolding eq using tl lt by auto
  have hd: "ready_head ?s = (if q ?p = [] then (ready_head s)(?p := Some t) else ready_head s)"
    "ready_tail ?s = (ready_tail s)(?p := Some t)" "ready_bitmap ?s = ready_bitmap s OR push_bit ?p 1"
    unfolding eq using tl by auto
  have pp: "prio_of ?s x = prio_of s x" for x
    by (cases "q ?p = []") (simp_all add: prio_of_def tc)
  have inr: "t_in_ready_q (tcbs ?s x) = (x = t \<or> t_in_ready_q (tcbs s x))" for x
    using lt by (cases "q ?p = []") (auto simp: tc)
  have bm: "bit (ready_bitmap ?s) x = (x = ?p \<or> bit (ready_bitmap s) x)" if "x < SCHED_PRIO_LEVELS" for x
    using that by (auto simp: hd bit_simps SCHED_PRIO_LEVELS_def)
  have hp: "rq_path ?h l (q x) = rq_path (tcbs s) l (q x)" if "x < SCHED_PRIO_LEVELS" for l x
    using ni [OF that] by (intro rq_path_cong) auto
  have "rq_level ?s x ((q(?p := q ?p @ [t])) x)" if x: "x < SCHED_PRIO_LEVELS" for x
  proof (cases "x = ?p")
    case True
    have "rq_path (tcbs ?s) (ready_head ?s ?p) (q ?p @ [t])"
    proof (cases "q ?p = []")
      case False
      have "rq_path ?h (ready_head s ?p) (q ?p)" using lv hp [OF pr] by (simp add: rq_level_def)
      from rq_path_append [OF this False] lv ni [OF pr] False show ?thesis by (simp add: tc hd rq_level_def)
    qed (simp add: tc hd)
    with True lv ni [OF pr] bm [OF pr] show ?thesis by (auto simp: rq_level_def hd pp)
  next
    case False
    have lx: "rq_level s x (q x)" by (rule rq_inv_level [OF inv x])
    have "last (q ?p) \<notin> set (q x)" if "q ?p \<noteq> []"
      using rq_inv_disjoint [OF inv _ x] rq_inv_disjoint [OF inv last_in_set [OF that] pr] False by auto
    then have "rq_path (tcbs ?s) l (q x) = rq_path (tcbs s) l (q x)" for l
      using ni [OF x] by (intro rq_path_cong) (auto simp: tc)
    with False lx bm [OF x] show ?thesis by (simp add: rq_level_def hd pp)
  qed
  moreover have "t_in_ready_q (tcbs ?s x) \<longleftrightarrow> (\<exists>y < SCHED_PRIO_LEVELS. x \<in> set ((q(?p := q ?p @ [t])) y))" for x
    using inv unfolding inr ex_queue_append [OF pr] by (simp add: rq_inv_def)
  ultimately show "rq_inv ?s (q(?p := q ?p @ [t]))" by (simp add: rq_inv_def)
  have "rq_core (tcbs ?s x) = rq_core (tcbs s x)" for x
    using lt by (cases "q ?p = []") (auto simp: tc rq_core_def)
  moreover have "wake_inbox ?s = wake_inbox s" "need_resched ?s = need_resched s" "now_ticks ?s = now_ticks s"
    "armed_ticks ?s = armed_ticks s" "next_deadline ?s = next_deadline s"
    "current_thread ?s = current_thread s" "cpu_online ?s = cpu_online s"
    unfolding eq by simp_all
  ultimately show "rq_frame s ?s" by (simp add: rq_frame_def)
qed

text \<open>Unlinking the head of a queue leaves the rest.\<close>

lemma rq_unlink_inv:
  assumes inv: "rq_inv s q" and p: "p < SCHED_PRIO_LEVELS" and q: "q p = t # ts"
  shows "rq_inv (rq_unlink p None t s) (q(p := ts))" "rq_frame s (rq_unlink p None t s)"
proof -
  let ?s = "rq_unlink p None t s"
  have lv: "rq_level s p (t # ts)" using rq_inv_level [OF inv p] q by simp
  then have path: "rq_path (tcbs s) (t_rq_next (tcbs s t)) ts" and d: "t \<notin> set ts" "distinct ts"
    by (auto simp: rq_level_def)
  have nx: "t_rq_next (tcbs s t) = None \<longleftrightarrow> ts = []" using path by (cases ts) auto
  have tl: "ready_tail s p = Some (if ts = [] then t else last ts)" using lv by (simp add: rq_level_def)
  have lt: "last ts \<noteq> t" if "ts \<noteq> []" using last_in_set [OF that] d by auto
  have tc: "tcbs ?s = (tcbs s)(t := (tcbs s t)\<lparr>t_in_ready_q := False, t_rq_next := None\<rparr>)"
    and hd: "ready_head ?s = (ready_head s)(p := t_rq_next (tcbs s t))"
    "ready_tail ?s = (if ts = [] then (ready_tail s)(p := None) else ready_tail s)"
    "ready_bitmap ?s = (if ts = [] then ready_bitmap s AND NOT (push_bit p 1) else ready_bitmap s)"
    using nx tl lt by (auto simp: rq_unlink_def Let_def upd_def)
  have rest: "wake_inbox ?s = wake_inbox s" "need_resched ?s = need_resched s" "now_ticks ?s = now_ticks s"
    "armed_ticks ?s = armed_ticks s" "next_deadline ?s = next_deadline s"
    "current_thread ?s = current_thread s" "cpu_online ?s = cpu_online s"
    by (simp_all add: rq_unlink_def Let_def)
  have pp: "prio_of ?s x = prio_of s x" for x by (simp add: prio_of_def tc)
  have bm: "bit (ready_bitmap ?s) x = (if x = p then ts \<noteq> [] else bit (ready_bitmap s) x)" if "x < SCHED_PRIO_LEVELS" for x
    using that lv by (auto simp: hd bit_simps rq_level_def SCHED_PRIO_LEVELS_def)
  have nt: "t \<notin> set ((q(p := ts)) x)" if "x < SCHED_PRIO_LEVELS" for x
    using d rq_inv_disjoint [OF inv _ that, of t] rq_inv_disjoint [OF inv _ p, of t] q by auto
  have hp: "rq_path (tcbs ?s) l ((q(p := ts)) x) = rq_path (tcbs s) l ((q(p := ts)) x)" if "x < SCHED_PRIO_LEVELS" for l x
    using nt [OF that] by (intro rq_path_cong) (auto simp: tc)
  have "rq_level ?s x ((q(p := ts)) x)" if x: "x < SCHED_PRIO_LEVELS" for x
  proof (cases "x = p")
    case True
    with hp [OF p] bm [OF p] path tl d lv show ?thesis by (auto simp: rq_level_def hd pp)
  next
    case False
    with rq_inv_level [OF inv x] hp [OF x] bm [OF x] show ?thesis by (auto simp: rq_level_def hd pp)
  qed
  moreover have "t_in_ready_q (tcbs ?s x) \<longleftrightarrow> (\<exists>y < SCHED_PRIO_LEVELS. x \<in> set ((q(p := ts)) y))" for x
  proof (cases "x = t")
    case True
    with nt show ?thesis by (auto simp: tc)
  next
    case False
    have "(\<exists>y < SCHED_PRIO_LEVELS. x \<in> set ((q(p := ts)) y)) = (\<exists>y < SCHED_PRIO_LEVELS. x \<in> set (q y))"
      using False q by (intro ex_cong1) auto
    with False inv show ?thesis by (simp add: tc rq_inv_def)
  qed
  ultimately show "rq_inv ?s (q(p := ts))" by (simp add: rq_inv_def)
  show "rq_frame s ?s" unfolding rq_frame_def by (simp add: rest tc rq_core_def)
qed

lemma count_affinity_sel [simp]:
  "tcbs (count_affinity c t s) = tcbs s" "ready_head (count_affinity c t s) = ready_head s"
  "ready_tail (count_affinity c t s) = ready_tail s" "ready_bitmap (count_affinity c t s) = ready_bitmap s"
  by (simp_all add: count_affinity_def)

lemma rq_frame_affinity: "rq_frame s (count_affinity c t s)"
  by (simp add: rq_frame_def count_affinity_def)

definition rq_total :: "(nat \<Rightarrow> tptr list) \<Rightarrow> nat" where
  "rq_total q = (\<Sum>p < SCHED_PRIO_LEVELS. length (q p))"

lemma rq_total_less:
  assumes "p < SCHED_PRIO_LEVELS" "q p = t # ts"
  shows "rq_total q = Suc (rq_total (q(p := ts)))"
proof -
  have s: "rq_total f = length (f p) + (\<Sum>x \<in> {..<SCHED_PRIO_LEVELS} - {p}. length (f x))" for f
    unfolding rq_total_def using assms(1) by (intro sum.remove) auto
  show ?thesis using s [of q] s [of "q(p := ts)"] assms(2) by simp
qed

text \<open>The first ready thread of a queue, after the heads that are not ready.\<close>

definition picks :: "sched \<Rightarrow> (nat \<Rightarrow> tptr list) \<Rightarrow> tptr \<Rightarrow> nat \<Rightarrow> tptr list \<Rightarrow> bool" where
  "picks s q t p ys \<longleftrightarrow> p < SCHED_PRIO_LEVELS \<and> t_state (tcbs s t) = THREAD_STATE_READY
     \<and> (\<exists>xs. q p = xs @ t # ys \<and> (\<forall>x \<in> set xs. t_state (tcbs s x) \<noteq> THREAD_STATE_READY))
     \<and> (\<forall>r < SCHED_PRIO_LEVELS. p < r \<longrightarrow> (\<forall>x \<in> set (q r). t_state (tcbs s x) \<noteq> THREAD_STATE_READY))"

definition rq_rest :: "(nat \<Rightarrow> tptr list) \<Rightarrow> nat \<Rightarrow> tptr list \<Rightarrow> nat \<Rightarrow> tptr list" where
  "rq_rest q p ys = (\<lambda>r. if p < r then [] else if r = p then ys else q r)"

lemma rq_total_zero: "rq_inv s q \<Longrightarrow> ready_bitmap s = 0 \<Longrightarrow> p < SCHED_PRIO_LEVELS \<Longrightarrow> q p = []"
  by (auto simp: rq_inv_def rq_level_def)

lemma picks_frame:
  "rq_frame s s' \<Longrightarrow> picks s' q t p ys = picks s q t p ys"
  by (simp add: picks_def rq_frame_fields)

lemma picks_skip:
  assumes "picks s (q(h := ts)) t p ys" "h < SCHED_PRIO_LEVELS" "q h = x # ts" "t_state (tcbs s x) \<noteq> THREAD_STATE_READY"
    and "\<And>r. r < SCHED_PRIO_LEVELS \<Longrightarrow> h < r \<Longrightarrow> q r = []"
  shows "picks s q t p ys \<and> rq_rest (q(h := ts)) p ys = rq_rest q p ys"
proof -
  from assms(1) obtain xs where p: "p < SCHED_PRIO_LEVELS" "t_state (tcbs s t) = THREAD_STATE_READY"
    "(q(h := ts)) p = xs @ t # ys" "\<forall>x \<in> set xs. t_state (tcbs s x) \<noteq> THREAD_STATE_READY"
    and hi: "\<forall>r < SCHED_PRIO_LEVELS. p < r \<longrightarrow> (\<forall>x \<in> set ((q(h := ts)) r). t_state (tcbs s x) \<noteq> THREAD_STATE_READY)"
    by (auto simp: picks_def)
  have ph: "p \<le> h" using p(1,3) assms(5) [of p] by (cases "p \<le> h") auto
  have "\<exists>xs. q p = xs @ t # ys \<and> (\<forall>x \<in> set xs. t_state (tcbs s x) \<noteq> THREAD_STATE_READY)"
  proof (cases "p = h")
    case True
    with p assms(3,4) show ?thesis by (intro exI [of _ "x # xs"]) simp
  next
    case False
    with p show ?thesis by (intro exI [of _ xs]) simp
  qed
  moreover have "\<forall>x \<in> set (q r). t_state (tcbs s x) \<noteq> THREAD_STATE_READY" if "r < SCHED_PRIO_LEVELS" "p < r" for r
    using hi that assms(3,4) by (cases "r = h") (auto split: if_splits)
  moreover have "rq_rest (q(h := ts)) p ys = rq_rest q p ys"
    using ph by (auto simp: rq_rest_def fun_eq_iff)
  ultimately show ?thesis using p by (simp add: picks_def)
qed

lemma rq_pop_spec:
  "rq_inv s q \<Longrightarrow> rq_total q < fuel \<Longrightarrow> rq_pop fuel cpu s = (r, s') \<Longrightarrow>
    rq_frame s s' \<and>
    (case r of
       None \<Rightarrow> (\<forall>p < SCHED_PRIO_LEVELS. \<forall>t \<in> set (q p). t_state (tcbs s t) \<noteq> THREAD_STATE_READY) \<and> rq_inv s' (\<lambda>_. [])
     | Some t \<Rightarrow> \<exists>p ys. picks s q t p ys \<and> rq_inv s' (rq_rest q p ys))"
proof (induction fuel arbitrary: s q)
  case 0
  then show ?case by simp
next
  case (Suc fuel)
  show ?case
  proof (cases "ready_bitmap s = 0")
    case True
    with Suc.prems have e: "r = None" "s' = s" by auto
    have "q p = []" if "p < SCHED_PRIO_LEVELS" for p using rq_total_zero [OF Suc.prems(1) True that] .
    with Suc.prems(1) e show ?thesis by (auto intro: rq_inv_fun_cong)
  next
    case False
    let ?h = "highest_bit (ready_bitmap s)"
    note hb = highest_bit [OF False]
    have lv: "rq_level s ?h (q ?h)" by (rule rq_inv_level [OF Suc.prems(1) hb(2)])
    then obtain t ts where q: "q ?h = t # ts" and hd: "ready_head s ?h = Some t"
      using hb(1) by (cases "q ?h") (auto simp: rq_level_def)
    have top: "q x = []" if "x < SCHED_PRIO_LEVELS" "?h < x" for x
      using rq_inv_level [OF Suc.prems(1) that(1)] hb(3) [of x] that(2) by (auto simp: rq_level_def)
    let ?s = "rq_unlink ?h None t s"
    note u = rq_unlink_inv [OF Suc.prems(1) hb(2) q]
    note fr = rq_frame_fields [OF u(2)]
    show ?thesis
    proof (cases "t_state (tcbs s t) = THREAD_STATE_READY")
      case True
      with Suc.prems(3) False hd have e: "r = Some t" "s' = count_affinity cpu t ?s" by (auto simp: Let_def fr)
      have pk: "picks s q t ?h ts" using hb(2) True q top by (auto simp: picks_def)
      have "rq_inv s' (q(?h := ts))" unfolding e(2) by (rule rq_inv_cong [OF u(1)]) simp_all
      then have "rq_inv s' (rq_rest q ?h ts)" by (rule rq_inv_fun_cong) (auto simp: rq_rest_def top)
      with pk e rq_frame_trans [OF u(2) rq_frame_affinity] show ?thesis by auto
    next
      case nr: False
      with Suc.prems(3) False hd have p: "rq_pop fuel cpu ?s = (r, s')" by (simp add: Let_def fr)
      have "rq_total (q(?h := ts)) < fuel" using rq_total_less [where q = q, OF hb(2) q] Suc.prems(2) by simp
      note ih = Suc.IH [OF u(1) this p]
      have fr2: "rq_frame s s'" using ih rq_frame_trans [OF u(2)] by blast
      show ?thesis
      proof (cases r)
        case None
        with ih have n: "\<And>p x. p < SCHED_PRIO_LEVELS \<Longrightarrow> x \<in> set ((q(?h := ts)) p) \<Longrightarrow> t_state (tcbs s x) \<noteq> THREAD_STATE_READY"
          and i: "rq_inv s' (\<lambda>_. [])" by (simp_all add: fr)
        have "t_state (tcbs s x) \<noteq> THREAD_STATE_READY" if "p < SCHED_PRIO_LEVELS" "x \<in> set (q p)" for p x
          using n [OF that(1), of x] that nr q by (cases "p = ?h") auto
        with i fr2 None show ?thesis by simp
      next
        case (Some x)
        with ih obtain p ys where pk: "picks s (q(?h := ts)) x p ys" and i: "rq_inv s' (rq_rest (q(?h := ts)) p ys)"
          by (auto simp: picks_frame [OF u(2)])
        from picks_skip [OF pk hb(2) q nr top] i fr2 Some show ?thesis by auto
      qed
    qed
  qed
qed

section \<open>The wake inbox\<close>

fun inbox_path :: "(tptr \<Rightarrow> tcb) \<Rightarrow> tptr option \<Rightarrow> tptr list \<Rightarrow> bool" where
  "inbox_path h l [] \<longleftrightarrow> l = None"
| "inbox_path h l (t # ts) \<longleftrightarrow> l = Some t \<and> inbox_path h (t_inbox_next (h t)) ts"

lemma inbox_path_cong:
  "(\<And>t. t \<in> set ts \<Longrightarrow> t_inbox_next (h t) = t_inbox_next (h' t)) \<Longrightarrow> inbox_path h l ts = inbox_path h' l ts"
  by (induction ts arbitrary: l) auto

text \<open>What draining leaves alone.\<close>

definition drain_core :: "tcb \<Rightarrow> tcb" where
  "drain_core c = c\<lparr>t_in_ready_q := False, t_rq_next := None, t_inbox_next := None\<rparr>"

definition drain_frame :: "sched \<Rightarrow> sched \<Rightarrow> bool" where
  "drain_frame s s' \<longleftrightarrow> (\<forall>x. drain_core (tcbs s' x) = drain_core (tcbs s x))
     \<and> need_resched s' = need_resched s \<and> now_ticks s' = now_ticks s
     \<and> armed_ticks s' = armed_ticks s \<and> next_deadline s' = next_deadline s
     \<and> current_thread s' = current_thread s \<and> cpu_online s' = cpu_online s"

lemma drain_frame_refl [simp]: "drain_frame s s"
  by (simp add: drain_frame_def)

lemma drain_frame_trans: "drain_frame a b \<Longrightarrow> drain_frame b c \<Longrightarrow> drain_frame a c"
  by (simp add: drain_frame_def)

lemma drain_core_rq: "drain_core c = (rq_core c)\<lparr>t_inbox_next := None\<rparr>"
  by (simp add: drain_core_def rq_core_def)

lemma rq_drain_frame: "rq_frame s s' \<Longrightarrow> drain_frame s s'"
  by (simp add: rq_frame_def drain_frame_def drain_core_rq)

lemma drain_frame_inbox: "drain_frame s (upd t (\<lambda>c. c\<lparr>t_inbox_next := v\<rparr>) s)"
  by (simp add: drain_frame_def drain_core_def)

lemma drain_core_eqD:
  assumes "drain_core a = drain_core b"
  shows "t_state a = t_state b" "t_prio a = t_prio b" "t_timeslice_left a = t_timeslice_left b"
    "t_last_cpu a = t_last_cpu b" "t_wake_at_tick a = t_wake_at_tick b"
  using arg_cong [OF assms, of t_state] arg_cong [OF assms, of t_prio] arg_cong [OF assms, of t_wake_at_tick]
    arg_cong [OF assms, of t_timeslice_left] arg_cong [OF assms, of t_last_cpu]
  by (simp_all add: drain_core_def)

lemma drain_frame_fields:
  assumes "drain_frame s s'"
  shows "t_state (tcbs s' x) = t_state (tcbs s x)" "t_prio (tcbs s' x) = t_prio (tcbs s x)"
    "prio_of s' x = prio_of s x" "t_timeslice_left (tcbs s' x) = t_timeslice_left (tcbs s x)"
    "t_wake_at_tick (tcbs s' x) = t_wake_at_tick (tcbs s x)"
  using assms drain_core_eqD [of "tcbs s' x" "tcbs s x"] by (simp_all add: drain_frame_def prio_of_def)

text \<open>The threads that a drain moves to level \<open>p\<close>.\<close>

definition drained :: "sched \<Rightarrow> tptr list \<Rightarrow> nat \<Rightarrow> tptr list" where
  "drained s ib p = filter (\<lambda>t. t_state (tcbs s t) = THREAD_STATE_READY \<and> prio_of s t = p
     \<and> \<not> t_in_ready_q (tcbs s t)) ib"

lemma rq_push_other_flag:
  "rq_inv s q \<Longrightarrow> \<not> t_in_ready_q (tcbs s t) \<Longrightarrow> prio_of s t < SCHED_PRIO_LEVELS \<Longrightarrow> x \<noteq> t \<Longrightarrow>
    t_in_ready_q (tcbs (rq_push t s) x) = t_in_ready_q (tcbs s x)"
  using rq_push_inv(1) [of s q t] ex_queue_append [of "prio_of s t" SCHED_PRIO_LEVELS x q t]
  by (simp add: rq_inv_def)

lemma drain_list_spec:
  "rq_inv s q \<Longrightarrow> inbox_path (tcbs s) l ib \<Longrightarrow> distinct ib \<Longrightarrow> length ib < fuel \<Longrightarrow>
    \<forall>t \<in> set ib. prio_of s t < SCHED_PRIO_LEVELS \<Longrightarrow>
    rq_inv (drain_list fuel l s) (\<lambda>p. q p @ drained s ib p) \<and> drain_frame s (drain_list fuel l s)
    \<and> wake_inbox (drain_list fuel l s) = wake_inbox s"
proof (induction ib arbitrary: fuel l s q)
  case Nil
  then obtain n where "fuel = Suc n" by (cases fuel) auto
  with Nil show ?case by (simp add: drained_def)
next
  case (Cons t ts)
  then obtain n where n: "fuel = Suc n" and l: "l = Some t" by (cases fuel) auto
  let ?s1 = "upd t (\<lambda>c. c\<lparr>t_inbox_next := None\<rparr>) s"
  define s2 where "s2 = (if t_state (tcbs ?s1 t) = THREAD_STATE_READY then rq_push t ?s1 else ?s1)"
  have i1: "rq_inv ?s1 q" using Cons.prems(1) by (simp add: rq_inv_upd)
  have pr: "prio_of ?s1 t < SCHED_PRIO_LEVELS" using Cons.prems(5) by (simp add: prio_of_def)
  let ?go = "t_state (tcbs s t) = THREAD_STATE_READY \<and> \<not> t_in_ready_q (tcbs s t)"
  define q2 where "q2 = (if ?go then q(prio_of s t := q (prio_of s t) @ [t]) else q)"
  have ps: "prio_of ?s1 t = prio_of s t" by (simp add: prio_of_def)
  have i2: "rq_inv s2 q2" and f2: "rq_frame ?s1 s2"
    using i1 rq_push_inv [OF i1 _ pr] rq_push_in [of ?s1 t]
    by (cases "t_in_ready_q (tcbs s t)"; auto simp: s2_def q2_def ps)+
  have fl: "t_in_ready_q (tcbs s2 x) = t_in_ready_q (tcbs s x)" if "x \<noteq> t" for x
    using rq_push_other_flag [OF i1 _ pr that] rq_push_in [of ?s1 t] that
    by (cases "t_in_ready_q (tcbs s t)") (auto simp: s2_def)
  have df: "drain_frame s s2"
    by (rule drain_frame_trans [OF drain_frame_inbox rq_drain_frame [OF f2]])
  have ib: "inbox_path (tcbs s2) (t_inbox_next (tcbs s t)) ts"
  proof -
    have "inbox_path (tcbs s2) (t_inbox_next (tcbs s t)) ts = inbox_path (tcbs s) (t_inbox_next (tcbs s t)) ts"
      using Cons.prems(3) by (intro inbox_path_cong) (auto simp: rq_frame_fields [OF f2])
    then show ?thesis using Cons.prems(2) by simp
  qed
  have p2: "\<forall>x \<in> set ts. prio_of s2 x < SCHED_PRIO_LEVELS" using Cons.prems(5) by (simp add: drain_frame_fields [OF df])
  have wi: "wake_inbox s2 = wake_inbox s" using f2 by (simp add: rq_frame_def)
  note ih = Cons.IH [OF i2 ib _ _ p2, of n]
  have fs: "t_in_ready_q (tcbs s2 x) = t_in_ready_q (tcbs s x)" if "x \<in> set ts" for x
    using that Cons.prems(3) by (intro fl) auto
  have dr: "drained s2 ts p = drained s ts p" for p
    unfolding drained_def by (intro filter_cong) (simp_all add: drain_frame_fields [OF df] fs)
  have qe: "q2 p @ drained s ts p = q p @ drained s (t # ts) p" for p
    by (auto simp: q2_def drained_def)
  have "drain_list fuel l s = drain_list n (t_inbox_next (tcbs s t)) s2"
    unfolding n l by (simp add: s2_def Let_def)
  with ih Cons.prems(3,4) n df wi show ?case by (simp add: dr qe) (blast intro: drain_frame_trans)
qed

section \<open>The scheduler invariant\<close>

definition user_threads :: "tptr set" where
  "user_threads = Thread ` {1..<SCHED_MAX_THREADS}"

text \<open>Queues and inbox are lists of distinct table threads and priorities are in range.\<close>

definition sched_wf :: "sched \<Rightarrow> (nat \<Rightarrow> tptr list) \<Rightarrow> tptr list \<Rightarrow> bool" where
  "sched_wf s q ib \<longleftrightarrow> rq_inv s q \<and> inbox_path (tcbs s) (wake_inbox s) ib \<and> distinct ib
     \<and> set ib \<subseteq> user_threads \<and> (\<forall>p < SCHED_PRIO_LEVELS. set (q p) \<subseteq> user_threads)
     \<and> (\<forall>t. prio_of s t < SCHED_PRIO_LEVELS)
     \<and> (\<forall>c. current_thread s c = Idle c \<or> current_thread s c \<in> user_threads)"

text \<open>No ready thread is lost: each is in a queue or in the inbox.\<close>

definition no_lost :: "sched \<Rightarrow> tptr list \<Rightarrow> tptr set \<Rightarrow> bool" where
  "no_lost s ib X \<longleftrightarrow> (\<forall>t \<in> X. t_state (tcbs s t) = THREAD_STATE_READY \<longrightarrow> t \<in> set ib \<or> t_in_ready_q (tcbs s t))"

definition sched_inv :: "sched \<Rightarrow> (nat \<Rightarrow> tptr list) \<Rightarrow> tptr list \<Rightarrow> bool" where
  "sched_inv s q ib \<longleftrightarrow> sched_wf s q ib \<and> no_lost s ib user_threads"

lemmas sched_defs = sched_inv_def sched_wf_def no_lost_def

lemma card_user_threads: "card user_threads = 63" "finite user_threads"
  by (simp_all add: user_threads_def card_image inj_on_def SCHED_MAX_THREADS_def)

lemma idle_not_user [simp]: "Idle c \<notin> user_threads"
  by (auto simp: user_threads_def)

lemma distinct_user_bound: "distinct xs \<Longrightarrow> set xs \<subseteq> user_threads \<Longrightarrow> length xs \<le> 63"
  using card_mono [OF card_user_threads(2), of "set xs"] card_user_threads(1) by (simp add: distinct_card)

lemma rq_total_bound:
  assumes "rq_inv s q" "\<forall>p < SCHED_PRIO_LEVELS. set (q p) \<subseteq> user_threads"
  shows "rq_total q \<le> 63"
proof -
  have "rq_total q = (\<Sum>p < SCHED_PRIO_LEVELS. card (set (q p)))"
    unfolding rq_total_def using assms(1) by (intro sum.cong) (auto simp: rq_inv_def rq_level_def distinct_card)
  also have "\<dots> = card (\<Union>p < SCHED_PRIO_LEVELS. set (q p))"
    by (rule card_UN_disjoint [symmetric]) (auto dest: rq_inv_disjoint [OF assms(1)])
  also have "\<dots> \<le> card user_threads" by (rule card_mono) (use assms(2) card_user_threads in auto)
  finally show ?thesis by (simp add: card_user_threads)
qed

text \<open>After draining, the inbox is empty and every ready thread is queued.\<close>

lemma drain_inbox_inv:
  assumes "sched_inv s q ib"
  shows "sched_inv (drain_inbox s) (\<lambda>p. q p @ drained s ib p) []" "drain_frame s (drain_inbox s)"
proof -
  let ?s0 = "s\<lparr>wake_inbox := None\<rparr>" and ?s1 = "drain_inbox s" and ?q = "\<lambda>p. q p @ drained s ib p"
  have i0: "rq_inv ?s0 q" using assms by (auto simp: sched_defs intro: rq_inv_cong)
  have d0: "drained ?s0 ib = drained s ib" by (simp add: drained_def prio_of_def fun_eq_iff)
  have pr: "\<forall>t \<in> set ib. prio_of ?s0 t < SCHED_PRIO_LEVELS" using assms by (simp add: sched_defs prio_of_def)
  have len: "length ib < SCHED_MAX_THREADS + MAX_CPUS + 1"
    using distinct_user_bound [of ib] assms by (simp add: sched_defs SCHED_MAX_THREADS_def MAX_CPUS_def)
  have "rq_inv ?s1 ?q \<and> drain_frame ?s0 ?s1 \<and> wake_inbox ?s1 = None"
    using drain_list_spec [OF i0 _ _ len pr] assms unfolding drain_inbox_def d0 by (simp add: sched_defs)
  then have i1: "rq_inv ?s1 ?q" and f0: "drain_frame ?s0 ?s1" and w: "wake_inbox ?s1 = None" by auto
  show f: "drain_frame s ?s1" using f0 by (simp add: drain_frame_def)
  note fr = drain_frame_fields [OF f]
  have "t_in_ready_q (tcbs ?s1 t)" if t: "t \<in> user_threads" "t_state (tcbs ?s1 t) = THREAD_STATE_READY" for t
  proof -
    from assms t have "t \<in> set ib \<or> t_in_ready_q (tcbs s t)" by (simp add: sched_defs fr)
    then have "\<exists>p < SCHED_PRIO_LEVELS. t \<in> set (?q p)"
    proof (cases "t_in_ready_q (tcbs s t)")
      case True
      with assms show ?thesis by (auto simp: sched_defs rq_inv_def)
    next
      case False
      with \<open>t \<in> set ib \<or> t_in_ready_q (tcbs s t)\<close> t assms show ?thesis
        by (intro exI [of _ "prio_of s t"]) (simp add: drained_def sched_defs fr)
    qed
    with i1 show ?thesis by (simp add: rq_inv_def)
  qed
  moreover have "set (?q p) \<subseteq> user_threads" if "p < SCHED_PRIO_LEVELS" for p
    using assms that by (auto simp: sched_defs drained_def)
  ultimately show "sched_inv ?s1 ?q []"
    using i1 w assms f by (auto simp: sched_defs fr drain_frame_def)
qed

lemma rq_frame_rest:
  assumes "rq_frame s s'"
  shows "wake_inbox s' = wake_inbox s" "current_thread s' = current_thread s" "inbox_path (tcbs s') l ib = inbox_path (tcbs s) l ib"
    "need_resched s' = need_resched s" "next_deadline s' = next_deadline s" "now_ticks s' = now_ticks s"
  using assms inbox_path_cong [of ib "tcbs s'" "tcbs s" l] by (simp_all add: rq_frame_def rq_frame_fields [OF assms])

lemma sched_wf_push:
  assumes wf: "sched_wf s q ib" and t: "t \<in> user_threads"
  shows "\<exists>q'. sched_wf (rq_push t s) q' ib" "rq_frame s (rq_push t s)"
    "t_in_ready_q (tcbs (rq_push t s) x) \<longleftrightarrow> x = t \<or> t_in_ready_q (tcbs s x)"
proof -
  have r: "rq_inv s q" and pr: "prio_of s t < SCHED_PRIO_LEVELS" using wf by (auto simp: sched_wf_def)
  have "(\<exists>q'. sched_wf (rq_push t s) q' ib) \<and> rq_frame s (rq_push t s)
    \<and> (t_in_ready_q (tcbs (rq_push t s) x) \<longleftrightarrow> x = t \<or> t_in_ready_q (tcbs s x))"
  proof (cases "t_in_ready_q (tcbs s t)")
    case True
    with wf show ?thesis by (auto simp: rq_push_in)
  next
    case False
    note p = rq_push_inv [OF r False pr]
    have "sched_wf (rq_push t s) (q(prio_of s t := q (prio_of s t) @ [t])) ib"
      using wf t p(1) by (auto simp: sched_wf_def rq_frame_fields [OF p(2)] rq_frame_rest [OF p(2)])
    moreover have "t_in_ready_q (tcbs (rq_push t s) x) \<longleftrightarrow> x = t \<or> t_in_ready_q (tcbs s x)"
      using p(1) r ex_queue_append [OF pr, of x q t] by (simp add: rq_inv_def)
    ultimately show ?thesis using p(2) by blast
  qed
  then show "\<exists>q'. sched_wf (rq_push t s) q' ib" "rq_frame s (rq_push t s)"
    "t_in_ready_q (tcbs (rq_push t s) x) \<longleftrightarrow> x = t \<or> t_in_ready_q (tcbs s x)" by blast+
qed

lemma inbox_path_upd:
  "(\<And>c. t_inbox_next (f c) = t_inbox_next c) \<Longrightarrow> inbox_path (tcbs (upd t f s)) l ib = inbox_path (tcbs s) l ib"
  by (rule inbox_path_cong) simp

definition keeps_links :: "(tcb \<Rightarrow> tcb) \<Rightarrow> bool" where
  "keeps_links f \<longleftrightarrow> (\<forall>c. t_rq_next (f c) = t_rq_next c \<and> t_prio (f c) = t_prio c
     \<and> t_in_ready_q (f c) = t_in_ready_q c \<and> t_inbox_next (f c) = t_inbox_next c)"

lemma sched_wf_upd:
  assumes "keeps_links f"
  shows "sched_wf (upd t f s) q ib = sched_wf s q ib"
proof -
  have "prio_of (upd t f s) x = prio_of s x" for x using assms by (simp add: prio_of_def keeps_links_def)
  moreover have "rq_inv (upd t f s) q = rq_inv s q" using assms by (intro rq_inv_upd) (simp_all add: keeps_links_def)
  moreover have "inbox_path (tcbs (upd t f s)) l ib = inbox_path (tcbs s) l ib" for l
    using assms by (intro inbox_path_upd) (simp add: keeps_links_def)
  ultimately show ?thesis by (simp add: sched_wf_def)
qed

lemma sched_wf_cong:
  "sched_wf s q ib \<Longrightarrow> tcbs s' = tcbs s \<Longrightarrow> ready_head s' = ready_head s \<Longrightarrow> ready_tail s' = ready_tail s \<Longrightarrow>
    ready_bitmap s' = ready_bitmap s \<Longrightarrow> wake_inbox s' = wake_inbox s \<Longrightarrow>
    (\<forall>c. current_thread s' c = Idle c \<or> current_thread s' c \<in> user_threads) \<Longrightarrow> sched_wf s' q ib"
  using rq_inv_cong [of s q s'] by (simp add: sched_wf_def prio_of_def)

text \<open>Making a thread of the table ready and queueing it.\<close>

lemma sched_ready_now_inv:
  assumes wf: "sched_wf s q ib" and nl: "no_lost s ib (user_threads - {t})" and t: "t \<in> user_threads"
  shows "\<exists>q'. sched_inv (sched_ready_now t s) q' ib"
    "rq_frame (upd t (\<lambda>c. c\<lparr>t_state := THREAD_STATE_READY\<rparr>) s) (sched_ready_now t s)"
proof -
  let ?s = "upd t (\<lambda>c. c\<lparr>t_state := THREAD_STATE_READY\<rparr>) s"
  have w1: "sched_wf ?s q ib" using wf by (simp add: sched_wf_upd keeps_links_def)
  note p = sched_wf_push [OF w1 t]
  show f: "rq_frame ?s (sched_ready_now t s)" using p(2) by (simp add: sched_ready_now_def)
  have "no_lost (sched_ready_now t s) ib user_threads"
    using nl p(3) unfolding no_lost_def sched_ready_now_def
    by (auto simp: rq_frame_fields [OF p(2)])
  with p(1) show "\<exists>q'. sched_inv (sched_ready_now t s) q' ib" by (auto simp: sched_inv_def sched_ready_now_def)
qed

lemma state_idem: "t_state c = x \<Longrightarrow> c\<lparr>t_state := x\<rparr> = c"
  by (cases c) simp

lemma upd_idem: "f (tcbs s t) = tcbs s t \<Longrightarrow> upd t f s = s"
  by (simp add: upd_def)

lemma sched_requeue_cases:
  defines "prev \<equiv> \<lambda>s cpu. current_thread s cpu"
  shows "prev s cpu = Idle cpu \<Longrightarrow> sched_requeue cpu s = upd (Idle cpu) (\<lambda>c. c\<lparr>t_state := THREAD_STATE_READY\<rparr>) s"
    and "prev s cpu \<noteq> Idle cpu \<Longrightarrow> t_state (tcbs s (prev s cpu)) \<in> {THREAD_STATE_RUNNING, THREAD_STATE_READY} \<Longrightarrow>
      sched_requeue cpu s = sched_ready_now (prev s cpu) s"
    and "prev s cpu \<noteq> Idle cpu \<Longrightarrow> t_state (tcbs s (prev s cpu)) \<notin> {THREAD_STATE_RUNNING, THREAD_STATE_READY} \<Longrightarrow>
      sched_requeue cpu s = s"
proof -
  show "prev s cpu = Idle cpu \<Longrightarrow> sched_requeue cpu s = upd (Idle cpu) (\<lambda>c. c\<lparr>t_state := THREAD_STATE_READY\<rparr>) s"
    by (simp add: sched_requeue_def prev_def)
  show "sched_requeue cpu s = sched_ready_now (prev s cpu) s"
    if "prev s cpu \<noteq> Idle cpu" "t_state (tcbs s (prev s cpu)) \<in> {THREAD_STATE_RUNNING, THREAD_STATE_READY}"
    using that upd_idem [of "\<lambda>c. c\<lparr>t_state := THREAD_STATE_READY\<rparr>" s "prev s cpu"]
    by (auto simp: sched_requeue_def prev_def sched_ready_now_def state_idem Let_def)
  show "sched_requeue cpu s = s"
    if "prev s cpu \<noteq> Idle cpu" "t_state (tcbs s (prev s cpu)) \<notin> {THREAD_STATE_RUNNING, THREAD_STATE_READY}"
    using that by (simp add: sched_requeue_def prev_def Let_def)
qed

lemma sched_requeue_inv:
  assumes inv: "sched_inv s q ib"
  shows "\<exists>q'. sched_inv (sched_requeue cpu s) q' ib"
proof -
  let ?p = "current_thread s cpu"
  have wf: "sched_wf s q ib" and nl: "no_lost s ib user_threads" using inv by (auto simp: sched_inv_def)
  consider "?p = Idle cpu" | "?p \<noteq> Idle cpu" "t_state (tcbs s ?p) \<in> {THREAD_STATE_RUNNING, THREAD_STATE_READY}"
    | "?p \<noteq> Idle cpu" "t_state (tcbs s ?p) \<notin> {THREAD_STATE_RUNNING, THREAD_STATE_READY}" by blast
  then show ?thesis
  proof cases
    case 1
    have "sched_wf (sched_requeue cpu s) q ib" unfolding sched_requeue_cases(1) [OF 1]
      using wf by (simp add: sched_wf_upd keeps_links_def)
    moreover have "no_lost (sched_requeue cpu s) ib user_threads" unfolding sched_requeue_cases(1) [OF 1]
      using nl by (auto simp: no_lost_def)
    ultimately show ?thesis by (auto simp: sched_inv_def)
  next
    case 2
    have "?p \<in> user_threads" using wf 2(1) by (auto simp: sched_wf_def)
    moreover have "no_lost s ib (user_threads - {?p})" using nl by (simp add: no_lost_def)
    ultimately show ?thesis unfolding sched_requeue_cases(2) [OF 2] using sched_ready_now_inv(1) [OF wf] by blast
  next
    case 3
    with inv show ?thesis by (auto simp: sched_requeue_cases(3))
  qed
qed

text \<open>The states after requeueing: the previous thread is ready if it was running (or idle).\<close>

lemma sched_requeue_fields:
  assumes "sched_inv s q ib"
  shows "current_thread (sched_requeue cpu s) = current_thread s"
    and "prio_of (sched_requeue cpu s) x = prio_of s x"
    and "t_state (tcbs (sched_requeue cpu s) x) =
      (if x = current_thread s cpu \<and> (x = Idle cpu \<or> t_state (tcbs s x) = THREAD_STATE_RUNNING)
       then THREAD_STATE_READY else t_state (tcbs s x))"
proof -
  let ?p = "current_thread s cpu" and ?r = "\<lambda>c. c\<lparr>t_state := THREAD_STATE_READY\<rparr>"
  have wf: "sched_wf s q ib" and nl: "no_lost s ib (user_threads - {?p})" using assms by (auto simp: sched_inv_def no_lost_def)
  consider "?p = Idle cpu" | "?p \<noteq> Idle cpu" "t_state (tcbs s ?p) \<in> {THREAD_STATE_RUNNING, THREAD_STATE_READY}"
    | "?p \<noteq> Idle cpu" "t_state (tcbs s ?p) \<notin> {THREAD_STATE_RUNNING, THREAD_STATE_READY}" by blast
  then have "current_thread (sched_requeue cpu s) = current_thread s \<and> prio_of (sched_requeue cpu s) x = prio_of s x
     \<and> t_state (tcbs (sched_requeue cpu s) x) =
      (if x = ?p \<and> (x = Idle cpu \<or> t_state (tcbs s x) = THREAD_STATE_RUNNING) then THREAD_STATE_READY else t_state (tcbs s x))"
  proof cases
    case 1
    show ?thesis unfolding sched_requeue_cases(1) [OF 1] using 1 by (auto simp: prio_of_def)
  next
    case 2
    have "?p \<in> user_threads" using wf 2(1) by (auto simp: sched_wf_def)
    note f = sched_ready_now_inv(2) [OF wf nl this]
    show ?thesis unfolding sched_requeue_cases(2) [OF 2]
      using 2 rq_frame_fields [OF f, of x] rq_frame_rest [OF f] by (auto simp: prio_of_def)
  next
    case 3
    then show ?thesis by (auto simp: sched_requeue_cases(3))
  qed
  then show "current_thread (sched_requeue cpu s) = current_thread s"
    and "prio_of (sched_requeue cpu s) x = prio_of s x"
    and "t_state (tcbs (sched_requeue cpu s) x) =
      (if x = current_thread s cpu \<and> (x = Idle cpu \<or> t_state (tcbs s x) = THREAD_STATE_RUNNING)
       then THREAD_STATE_READY else t_state (tcbs s x))" by blast+
qed

text \<open>Taking the highest ready thread.\<close>

lemma sched_inv_queued:
  "sched_inv s q [] \<Longrightarrow> t \<in> user_threads \<Longrightarrow> t_state (tcbs s t) = THREAD_STATE_READY \<Longrightarrow>
    \<exists>p < SCHED_PRIO_LEVELS. t \<in> set (q p)"
  unfolding sched_defs rq_inv_def by (metis empty_iff list.set(1))

lemma rq_pop_highest_spec:
  assumes "sched_inv s q []" "rq_pop_highest cpu s = (r, s')"
  shows "rq_frame s s'"
    and "r = None \<Longrightarrow> (\<forall>t \<in> user_threads. t_state (tcbs s t) \<noteq> THREAD_STATE_READY) \<and> rq_inv s' (\<lambda>_. [])"
    and "r = Some t \<Longrightarrow> \<exists>p ys. picks s q t p ys \<and> rq_inv s' (rq_rest q p ys)"
proof -
  have inv: "rq_inv s q" and th: "\<forall>p < SCHED_PRIO_LEVELS. set (q p) \<subseteq> user_threads" using assms(1) by (auto simp: sched_defs)
  have "rq_total q < SCHED_MAX_THREADS + 1" using rq_total_bound [OF inv th] by (simp add: SCHED_MAX_THREADS_def)
  note sp = rq_pop_spec [OF inv this assms(2) [unfolded rq_pop_highest_def]]
  show "rq_frame s s'" using sp by blast
  show "(\<forall>t \<in> user_threads. t_state (tcbs s t) \<noteq> THREAD_STATE_READY) \<and> rq_inv s' (\<lambda>_. [])" if "r = None"
  proof -
    have n: "\<forall>p < SCHED_PRIO_LEVELS. \<forall>t \<in> set (q p). t_state (tcbs s t) \<noteq> THREAD_STATE_READY" "rq_inv s' (\<lambda>_. [])"
      using sp that by simp_all
    have "t_state (tcbs s t) \<noteq> THREAD_STATE_READY" if "t \<in> user_threads" for t
      using n(1) sched_inv_queued [OF assms(1) that] by blast
    with n(2) show ?thesis by blast
  qed
  show "\<exists>p ys. picks s q t p ys \<and> rq_inv s' (rq_rest q p ys)" if "r = Some t" using sp that by simp
qed

lemma picks_prio:
  assumes inv: "sched_inv s q []" and pk: "picks s q t p ys"
  shows "t \<in> user_threads" "prio_of s t = p" "t_state (tcbs s t) = THREAD_STATE_READY"
    and "x \<in> user_threads \<Longrightarrow> t_state (tcbs s x) = THREAD_STATE_READY \<Longrightarrow> prio_of s x \<le> p"
    and "x \<in> user_threads \<Longrightarrow> t_state (tcbs s x) = THREAD_STATE_READY \<Longrightarrow> x \<noteq> t \<Longrightarrow>
      \<exists>r < SCHED_PRIO_LEVELS. x \<in> set (rq_rest q p ys r)"
proof -
  have r: "rq_inv s q" using inv by (simp add: sched_defs)
  obtain xs where p: "p < SCHED_PRIO_LEVELS" and qp: "q p = xs @ t # ys"
    and nr: "\<forall>x \<in> set xs. t_state (tcbs s x) \<noteq> THREAD_STATE_READY"
    and hi: "\<forall>r < SCHED_PRIO_LEVELS. p < r \<longrightarrow> (\<forall>x \<in> set (q r). t_state (tcbs s x) \<noteq> THREAD_STATE_READY)"
    and st: "t_state (tcbs s t) = THREAD_STATE_READY" using pk by (auto simp: picks_def)
  have tq: "t \<in> set (q p)" using qp by simp
  show "t_state (tcbs s t) = THREAD_STATE_READY" by (rule st)
  show "t \<in> user_threads" using inv p tq by (auto simp: sched_defs)
  show "prio_of s t = p" by (rule rq_inv_disjoint [OF r tq p])
  have inq: "\<exists>y < SCHED_PRIO_LEVELS. x \<in> set (q y)" if "x \<in> user_threads" "t_state (tcbs s x) = THREAD_STATE_READY" for x
    by (rule sched_inv_queued [OF inv that])
  have le: "y \<le> p" if "y < SCHED_PRIO_LEVELS" "x \<in> set (q y)" "t_state (tcbs s x) = THREAD_STATE_READY" for x y
    using hi that by (cases "p < y") auto
  show "prio_of s x \<le> p" if x: "x \<in> user_threads" "t_state (tcbs s x) = THREAD_STATE_READY"
    using inq [OF x] le x(2) rq_inv_disjoint [OF r] by blast
  show "\<exists>r < SCHED_PRIO_LEVELS. x \<in> set (rq_rest q p ys r)"
    if x: "x \<in> user_threads" "t_state (tcbs s x) = THREAD_STATE_READY" "x \<noteq> t"
  proof -
    obtain y where y: "y < SCHED_PRIO_LEVELS" "x \<in> set (q y)" using inq [OF x(1,2)] by blast
    have "y \<le> p" by (rule le [OF y x(2)])
    moreover have "x \<in> set ys" if "y = p" using y that qp nr x by auto
    ultimately have "x \<in> set (rq_rest q p ys y)" using y by (auto simp: rq_rest_def)
    with y show ?thesis by blast
  qed
qed

lemma rq_rest_subset: "picks s q t p ys \<Longrightarrow> set (rq_rest q p ys r) \<subseteq> set (q r)"
  by (auto simp: rq_rest_def picks_def split: if_splits)

lemma sched_enter_fields:
  "tcbs (sched_enter cpu t s) x = (if x = t then (tcbs s t)\<lparr>t_state := THREAD_STATE_RUNNING, t_last_cpu := of_nat cpu,
       t_timeslice_left := (if t_timeslice_left (tcbs s t) \<le> 0 then int SCHED_TIMESLICE_TICKS else t_timeslice_left (tcbs s t))\<rparr>
     else tcbs s x)"
  "current_thread (sched_enter cpu t s) = (current_thread s)(cpu := t)"
  "need_resched (sched_enter cpu t s) = (need_resched s)(cpu := False)"
  by (simp_all add: sched_enter_def Let_def)

lemma sched_wf_enter:
  assumes "sched_wf s q ib" "t = Idle cpu \<or> t \<in> user_threads"
  shows "sched_wf (sched_enter cpu t s) q ib"
proof -
  let ?f = "\<lambda>c. c\<lparr>t_state := THREAD_STATE_RUNNING, t_last_cpu := of_nat cpu\<rparr>"
  let ?g = "\<lambda>c. c\<lparr>t_timeslice_left := int SCHED_TIMESLICE_TICKS\<rparr>"
  have k: "keeps_links ?f" "keeps_links ?g" by (simp_all add: keeps_links_def)
  define s2 where "s2 = (if t_timeslice_left (tcbs (upd t ?f s) t) \<le> 0 then upd t ?g (upd t ?f s) else upd t ?f s)"
  have w: "sched_wf s2 q ib" using assms(1) by (simp add: s2_def sched_wf_upd k)
  have c: "current_thread s2 = current_thread s" by (simp add: s2_def)
  have e: "sched_enter cpu t s = s2\<lparr>current_thread := (current_thread s2)(cpu := t), need_resched := (need_resched s2)(cpu := False),
      stats := (stats s2)\<lparr>st_full_scheds := st_full_scheds (stats s2) + 1\<rparr>\<rparr>"
    by (simp only: sched_enter_def Let_def s2_def)
  show ?thesis unfolding e by (rule sched_wf_cong [OF w]) (use assms c in \<open>auto simp: sched_wf_def\<close>)
qed

lemma rq_empty_wf:
  "sched_wf s q [] \<Longrightarrow> rq_frame s s' \<Longrightarrow> rq_inv s' q' \<Longrightarrow> (\<forall>p < SCHED_PRIO_LEVELS. set (q' p) \<subseteq> user_threads) \<Longrightarrow>
    sched_wf s' q' []"
  by (auto simp: sched_wf_def rq_frame_fields rq_frame_rest)

text \<open>Taking the next thread: it is the idle thread or a thread of the table of highest priority, and
  the other ready threads stay queued.\<close>

lemma sched_pop_stage:
  assumes inv: "sched_inv s q []" and p: "rq_pop_highest cpu s = (r, s')" and n_def: "n = (case r of None \<Rightarrow> Idle cpu | Some t \<Rightarrow> t)"
  shows "(n = Idle cpu \<or> n \<in> user_threads \<and> t_state (tcbs s n) = THREAD_STATE_READY) \<and> (\<exists>q'. sched_wf s' q' []
      \<and> (\<forall>x \<in> user_threads. t_state (tcbs s x) = THREAD_STATE_READY \<and> x \<noteq> n \<longrightarrow>
           t_in_ready_q (tcbs s' x) \<and> n \<noteq> Idle cpu \<and> prio_of s x \<le> prio_of s n))"
proof -
  note sp = rq_pop_highest_spec [OF inv p]
  have w: "sched_wf s q []" using inv by (simp add: sched_inv_def)
  show ?thesis
  proof (cases r)
    case None
    with sp(2) rq_empty_wf [OF w sp(1), of "\<lambda>_. []"] show ?thesis by (auto simp: n_def)
  next
    case (Some t')
    with sp(3) obtain p ys where pk: "picks s q t' p ys" and i3: "rq_inv s' (rq_rest q p ys)" by blast
    note pp = picks_prio [OF inv pk]
    have w3: "sched_wf s' (rq_rest q p ys) []"
      by (rule rq_empty_wf [OF w sp(1) i3]) (use rq_rest_subset [OF pk] w in \<open>force simp: sched_wf_def\<close>)
    have "t_in_ready_q (tcbs s' x)" if "x \<in> user_threads" "t_state (tcbs s x) = THREAD_STATE_READY" "x \<noteq> t'" for x
      using pp(5) [OF that] i3 by (simp add: rq_inv_def)
    moreover have "prio_of s x \<le> prio_of s t'" if "x \<in> user_threads" "t_state (tcbs s x) = THREAD_STATE_READY" for x
      using pp(2) pp(4) [OF that] by simp
    moreover have "t' \<noteq> Idle cpu" using pp(1) by auto
    ultimately show ?thesis using w3 pp(1,3) Some by (auto simp: n_def)
  qed
qed

text \<open>The heart of the scheduler.\<close>

lemma schedule_spec:
  assumes inv: "sched_inv s q ib" and s'_def: "s' = schedule cpu s" and t_def: "t = current_thread s' cpu"
  shows "\<exists>q'. sched_inv s' q' []" "t_state (tcbs s' t) = THREAD_STATE_RUNNING" "\<not> need_resched s' cpu"
    "0 < t_timeslice_left (tcbs s' t)" "t = Idle cpu \<or> t \<in> user_threads" "prio_of s' x = prio_of s x"
    "x \<in> user_threads \<Longrightarrow> t_state (tcbs s' x) = THREAD_STATE_READY \<Longrightarrow> t \<noteq> Idle cpu \<and> prio_of s x \<le> prio_of s t"
    "t_state (tcbs s' x) = (if x = t then THREAD_STATE_RUNNING
       else if x = current_thread s cpu \<and> (x = Idle cpu \<or> t_state (tcbs s x) = THREAD_STATE_RUNNING)
       then THREAD_STATE_READY else t_state (tcbs s x))"
    "t \<noteq> Idle cpu \<Longrightarrow> t_state (tcbs s t) = THREAD_STATE_READY \<or> t = current_thread s cpu \<and> t_state (tcbs s t) = THREAD_STATE_RUNNING"
proof -
  let ?s1 = "drain_inbox s" and ?s2 = "sched_requeue cpu (drain_inbox s)"
  note d = drain_inbox_inv [OF inv] and rf = sched_requeue_fields [OF drain_inbox_inv(1) [OF inv]]
  obtain q2 where i2: "sched_inv ?s2 q2 []" using sched_requeue_inv [OF d(1)] by blast
  obtain r s3 where p: "rq_pop_highest cpu ?s2 = (r, s3)" by (cases "rq_pop_highest cpu ?s2")
  define n where "n = (case r of None \<Rightarrow> Idle cpu | Some t \<Rightarrow> t)"
  note fr = rq_frame_fields [OF rq_pop_highest_spec(1) [OF i2 p]]
  have s': "s' = sched_enter cpu n s3" unfolding s'_def schedule_def Let_def p by (simp add: n_def)
  have tn: "t = n" unfolding t_def s' by (simp add: sched_enter_fields)
  have cd: "current_thread ?s1 = current_thread s" using d(2) by (simp add: drain_frame_def)
  have pr: "prio_of ?s2 x = prio_of s x" for x using rf(2) drain_frame_fields(3) [OF d(2)] by simp
  from sched_pop_stage [OF i2 p n_def] obtain q' where nn: "n = Idle cpu \<or> n \<in> user_threads" and w3: "sched_wf s3 q' []"
    and nr: "n = Idle cpu \<or> t_state (tcbs ?s2 n) = THREAD_STATE_READY"
    and rd: "\<And>x. x \<in> user_threads \<Longrightarrow> t_state (tcbs ?s2 x) = THREAD_STATE_READY \<Longrightarrow> x \<noteq> n \<Longrightarrow>
      t_in_ready_q (tcbs s3 x) \<and> n \<noteq> Idle cpu \<and> prio_of s x \<le> prio_of s n" unfolding pr by blast
  show "t_state (tcbs s t) = THREAD_STATE_READY \<or> t = current_thread s cpu \<and> t_state (tcbs s t) = THREAD_STATE_RUNNING"
    if "t \<noteq> Idle cpu"
    using nr that unfolding rf(3) drain_frame_fields(1) [OF d(2)] cd tn by (auto split: if_splits)
  have st: "t_state (tcbs s' x) = (if x = n then THREAD_STATE_RUNNING else t_state (tcbs ?s2 x))" for x
    unfolding s' by (simp add: sched_enter_fields fr)
  show "t_state (tcbs s' t) = THREAD_STATE_RUNNING" by (simp add: st tn)
  show "\<not> need_resched s' cpu" unfolding s' by (simp add: sched_enter_fields)
  show "0 < t_timeslice_left (tcbs s' t)" unfolding s' tn by (simp add: sched_enter_fields SCHED_TIMESLICE_TICKS_def)
  show "t = Idle cpu \<or> t \<in> user_threads" using nn tn by simp
  show "prio_of s' x = prio_of s x" unfolding s' using pr [of x] fr(4) [of x] by (auto simp: sched_enter_fields prio_of_def)
  show "t_state (tcbs s' x) = (if x = t then THREAD_STATE_RUNNING
       else if x = current_thread s cpu \<and> (x = Idle cpu \<or> t_state (tcbs s x) = THREAD_STATE_RUNNING)
       then THREAD_STATE_READY else t_state (tcbs s x))"
    unfolding st tn rf(3) drain_frame_fields(1) [OF d(2)] cd by auto
  show "t \<noteq> Idle cpu \<and> prio_of s x \<le> prio_of s t" if "x \<in> user_threads" "t_state (tcbs s' x) = THREAD_STATE_READY"
    using rd [OF that(1)] that(2) by (auto simp: st tn split: if_splits)
  have "no_lost s' [] user_threads" unfolding no_lost_def s'
    using rd by (auto simp: sched_enter_fields fr split: if_splits)
  with sched_wf_enter [OF w3 nn] show "\<exists>q'. sched_inv s' q' []" unfolding s' sched_inv_def by blast
qed

section \<open>Waking keeps the invariant\<close>

lemma sched_kick_sel [simp]:
  "tcbs (sched_kick cpu t c s) = tcbs s" "ready_head (sched_kick cpu t c s) = ready_head s"
  "ready_tail (sched_kick cpu t c s) = ready_tail s" "ready_bitmap (sched_kick cpu t c s) = ready_bitmap s"
  "wake_inbox (sched_kick cpu t c s) = wake_inbox s" "current_thread (sched_kick cpu t c s) = current_thread s"
  "need_resched (sched_kick cpu t c s) = need_resched s" "now_ticks (sched_kick cpu t c s) = now_ticks s"
  "next_deadline (sched_kick cpu t c s) = next_deadline s" "armed_ticks (sched_kick cpu t c s) = armed_ticks s"
  "cpu_online (sched_kick cpu t c s) = cpu_online s" "fpu_default_state (sched_kick cpu t c s) = fpu_default_state s"
  by (simp_all add: sched_kick_def)

lemma sched_kicks_sel [simp]:
  "tcbs (fold (sched_kick cpu t) ks s) = tcbs s" "ready_head (fold (sched_kick cpu t) ks s) = ready_head s"
  "ready_tail (fold (sched_kick cpu t) ks s) = ready_tail s" "ready_bitmap (fold (sched_kick cpu t) ks s) = ready_bitmap s"
  "wake_inbox (fold (sched_kick cpu t) ks s) = wake_inbox s" "current_thread (fold (sched_kick cpu t) ks s) = current_thread s"
  "need_resched (fold (sched_kick cpu t) ks s) = need_resched s" "now_ticks (fold (sched_kick cpu t) ks s) = now_ticks s"
  "next_deadline (fold (sched_kick cpu t) ks s) = next_deadline s" "armed_ticks (fold (sched_kick cpu t) ks s) = armed_ticks s"
  "cpu_online (fold (sched_kick cpu t) ks s) = cpu_online s" "fpu_default_state (fold (sched_kick cpu t) ks s) = fpu_default_state s"
  by (induction ks arbitrary: s; simp)+

text \<open>The states that a wake leaves alone, and what it does to the others.\<close>

definition not_wakeable :: "tcb \<Rightarrow> bool" where
  "not_wakeable c \<longleftrightarrow> t_state c \<in> {THREAD_STATE_DEAD, THREAD_STATE_RUNNING, THREAD_STATE_ZOMBIE}
     \<or> t_state c = THREAD_STATE_READY \<and> t_in_ready_q c"

lemma sched_wake_none: "not_wakeable (tcbs s t) \<Longrightarrow> sched_wake cpu t s = s"
  by (auto simp: not_wakeable_def sched_wake_def Let_def)

lemma sched_wake_sel:
  assumes "\<not> not_wakeable (tcbs s t)"
  shows "tcbs (sched_wake cpu t s) = (tcbs s)(t := (tcbs s t)\<lparr>t_state := THREAD_STATE_READY,
       t_inbox_next := (if t_in_ready_q (tcbs s t) then t_inbox_next (tcbs s t) else wake_inbox s)\<rparr>)"
    "wake_inbox (sched_wake cpu t s) = (if t_in_ready_q (tcbs s t) then wake_inbox s else Some t)"
    "ready_head (sched_wake cpu t s) = ready_head s" "ready_tail (sched_wake cpu t s) = ready_tail s"
    "ready_bitmap (sched_wake cpu t s) = ready_bitmap s" "current_thread (sched_wake cpu t s) = current_thread s"
    "need_resched (sched_wake cpu t s) = (if t_prio (tcbs s t) > t_prio (tcbs s (current_thread s cpu))
       then (need_resched s)(cpu := True) else need_resched s)"
    "now_ticks (sched_wake cpu t s) = now_ticks s" "next_deadline (sched_wake cpu t s) = next_deadline s"
  using assms by (auto simp: sched_wake_def not_wakeable_def Let_def upd_def fun_eq_iff)

lemma sched_wake_inv:
  assumes inv: "sched_inv s q ib" and t: "t \<in> user_threads" "t \<notin> set ib"
  shows "sched_inv (sched_wake cpu t s) q
     (if not_wakeable (tcbs s t) \<or> t_in_ready_q (tcbs s t) then ib else t # ib)"
proof (cases "not_wakeable (tcbs s t)")
  case True
  with inv show ?thesis by (simp add: sched_wake_none)
next
  case False
  let ?s = "sched_wake cpu t s" and ?ib = "if t_in_ready_q (tcbs s t) then ib else t # ib"
  note w = sched_wake_sel [OF False, of cpu]
  have p: "prio_of ?s x = prio_of s x" for x by (simp add: prio_of_def w(1))
  have "rq_path (tcbs ?s) l ts = rq_path (tcbs s) l ts" for l ts by (rule rq_path_cong) (simp add: w(1))
  then have r: "rq_inv ?s q" using inv p by (simp add: sched_defs rq_inv_def rq_level_def w)
  have pi: "inbox_path (tcbs ?s) l ib = inbox_path (tcbs s) l ib" for l
    using t(2) by (intro inbox_path_cong) (auto simp: w(1))
  have nx: "t_inbox_next (tcbs ?s t) = wake_inbox s" if "\<not> t_in_ready_q (tcbs s t)" using that by (simp add: w(1))
  have "inbox_path (tcbs s) (wake_inbox s) ib" using inv by (simp add: sched_defs)
  then have i: "inbox_path (tcbs ?s) (wake_inbox ?s) ?ib" unfolding w(2) by (simp add: pi nx)
  have "sched_inv ?s q ?ib" using inv t p r i by (auto simp: sched_defs w)
  with False show ?thesis by simp
qed

end
