(* ===== verification/Dispatch.thy ===== *)
theory Dispatch
  imports Sched
begin

text \<open>
  Behaviour of the scheduler of \<open>Sched\<close> over its whole life: the states reached from
  \<^verbatim>\<open>sched_init\<close> by wakes, blocks, switches, thread creation and runs of \<^verbatim>\<open>schedule\<close> as an inductive
  relation, the invariant of the queues over it, the choice of \<^verbatim>\<open>schedule\<close> as a search in lists, and the
  properties of the dispatcher that follow. The last section shows what happens outside the
  invariant: a thread that is woken twice before the inbox is drained cuts the inbox.
\<close>

section \<open>The invariant under the other operations\<close>

lemma sched_inv_upd:
  assumes "sched_inv s q ib" "keeps_links f" "t \<in> user_threads \<Longrightarrow> t_state (f (tcbs s t)) \<noteq> THREAD_STATE_READY"
  shows "sched_inv (upd t f s) q ib"
  using assms by (auto simp: sched_inv_def sched_wf_upd no_lost_def)

lemma sched_inv_cong:
  "sched_inv s q ib \<Longrightarrow> tcbs s' = tcbs s \<Longrightarrow> ready_head s' = ready_head s \<Longrightarrow> ready_tail s' = ready_tail s \<Longrightarrow>
    ready_bitmap s' = ready_bitmap s \<Longrightarrow> wake_inbox s' = wake_inbox s \<Longrightarrow>
    (\<forall>c. current_thread s' c = Idle c \<or> current_thread s' c \<in> user_threads) \<Longrightarrow> sched_inv s' q ib"
  using sched_wf_cong [of s q ib s'] by (simp add: sched_inv_def no_lost_def)

lemma sched_inv_current: "sched_inv s q ib \<Longrightarrow> current_thread s c = Idle c \<or> current_thread s c \<in> user_threads"
  by (simp add: sched_defs)

lemma sched_block_inv:
  "sched_inv s q ib \<Longrightarrow> why \<noteq> THREAD_STATE_READY \<Longrightarrow> sched_inv (sched_block cpu why s) q ib"
  unfolding sched_block_def by (rule sched_inv_upd) (auto simp: keeps_links_def)

lemma sched_sleep_inv: "sched_inv s q ib \<Longrightarrow> sched_inv (sched_sleep cpu n s) q ib"
proof -
  let ?f = "\<lambda>c. c\<lparr>t_wake_at_tick := now_ticks s + n, t_state := THREAD_STATE_SLEEPING\<rparr>"
  assume i: "sched_inv s q ib"
  have u: "sched_inv (upd (current_thread s cpu) ?f s) q ib"
    by (rule sched_inv_upd [OF i]) (auto simp: keeps_links_def)
  show ?thesis
  proof (cases "n = 0")
    case True
    then show ?thesis
      using sched_inv_cong [OF i, of "sched_sleep cpu n s"] sched_inv_current [OF i] by (simp add: sched_sleep_def sched_yield_def)
  next
    case False
    then show ?thesis
      using sched_inv_cong [OF u, of "sched_sleep cpu n s"] sched_inv_current [OF i] by (simp add: sched_sleep_def Let_def)
  qed
qed

lemma sched_yield_inv: "sched_inv s q ib \<Longrightarrow> sched_inv (sched_yield cpu s) q ib"
  using sched_inv_cong [of s q ib "sched_yield cpu s"] sched_inv_current by (simp add: sched_yield_def)

lemma sched_direct_switch_inv:
  assumes i: "sched_inv s q ib" and d: "dest \<in> user_threads"
  shows "sched_inv (sched_direct_switch cpu dest s) q ib"
proof -
  let ?f = "\<lambda>c. c\<lparr>t_state := THREAD_STATE_RUNNING, t_last_cpu := of_nat cpu\<rparr>"
  have u: "sched_inv (upd dest ?f s) q ib" by (rule sched_inv_upd [OF i]) (auto simp: keeps_links_def)
  show ?thesis
    using sched_inv_cong [OF u, of "sched_direct_switch cpu dest s"] sched_inv_current [OF i] d
    by (simp add: sched_direct_switch_def Let_def)
qed

lemma sched_reap_inv: "sched_inv s q ib \<Longrightarrow> sched_inv (sched_reap_zombie t s) q ib"
  unfolding sched_reap_zombie_def by (rule sched_inv_upd) (auto simp: keeps_links_def)

section \<open>Thread creation\<close>

text \<open>A dead thread that is still linked into a queue or the inbox must not be allocated again.\<close>

definition dead_unlinked :: "sched \<Rightarrow> tptr list \<Rightarrow> bool" where
  "dead_unlinked s ib \<longleftrightarrow> (\<forall>t \<in> user_threads. t_state (tcbs s t) = THREAD_STATE_DEAD \<longrightarrow>
     \<not> t_in_ready_q (tcbs s t) \<and> t \<notin> set ib)"

lemma alloc_tcb_Some:
  assumes "alloc_tcb name prio s = (Some t, s1)"
  shows "t \<in> user_threads" "t_state (tcbs s t) = THREAD_STATE_DEAD"
    "s1 = upd t (\<lambda>c. tcb_zero\<lparr>t_tid := t_tid c, t_name := name, t_prio := prio, t_pgid := t_tid c,
                              t_sid := t_tid c, t_timeslice_left := int SCHED_TIMESLICE_TICKS,
                              t_last_cpu := -1, t_fpu_state := fpu_default_state s\<rparr>) s"
proof -
  let ?P = "\<lambda>i. t_state (tcbs s (Thread i)) = THREAD_STATE_DEAD"
  obtain k where k: "first_slot ?P [1..<SCHED_MAX_THREADS] = Some k" and t: "t = Thread (k + 1)"
    and s1: "s1 = upd t (\<lambda>c. tcb_zero\<lparr>t_tid := t_tid c, t_name := name, t_prio := prio, t_pgid := t_tid c,
                              t_sid := t_tid c, t_timeslice_left := int SCHED_TIMESLICE_TICKS,
                              t_last_cpu := -1, t_fpu_state := fpu_default_state s\<rparr>) s"
    using assms by (auto simp: alloc_tcb_def Let_def split: option.splits)
  have "k < length [1..<SCHED_MAX_THREADS]" "?P ([1..<SCHED_MAX_THREADS] ! k)" using first_slot_SomeD [OF k] by auto
  then show "t \<in> user_threads" "t_state (tcbs s t) = THREAD_STATE_DEAD" using t by (auto simp: user_threads_def)
  show "s1 = upd t (\<lambda>c. tcb_zero\<lparr>t_tid := t_tid c, t_name := name, t_prio := prio, t_pgid := t_tid c,
                              t_sid := t_tid c, t_timeslice_left := int SCHED_TIMESLICE_TICKS,
                              t_last_cpu := -1, t_fpu_state := fpu_default_state s\<rparr>) s" by (rule s1)
qed

lemma rq_inv_upd_unlinked:
  assumes inv: "rq_inv s q" and nin: "\<not> t_in_ready_q (tcbs s t)" "\<not> t_in_ready_q (f (tcbs s t))"
  shows "rq_inv (upd t f s) q"
proof -
  have ni: "t \<notin> set (q p)" if "p < SCHED_PRIO_LEVELS" for p by (rule rq_inv_notin [OF inv nin(1) that])
  have "rq_level (upd t f s) p (q p)" if p: "p < SCHED_PRIO_LEVELS" for p
  proof -
    have "rq_path (tcbs (upd t f s)) l (q p) = rq_path (tcbs s) l (q p)" for l
      using ni [OF p] by (intro rq_path_cong) auto
    moreover have "\<forall>x \<in> set (q p). prio_of (upd t f s) x = prio_of s x" using ni [OF p] by (auto simp: prio_of_def)
    ultimately show ?thesis using rq_inv_level [OF inv p] by (auto simp: rq_level_def)
  qed
  moreover have "t_in_ready_q (tcbs (upd t f s) x) = t_in_ready_q (tcbs s x)" for x using nin by simp
  ultimately show ?thesis using inv by (simp add: rq_inv_def)
qed

text \<open>Filling a fresh thread control block and making it ready.\<close>

lemma fresh_ready_inv:
  assumes inv: "sched_inv s q ib" and du: "dead_unlinked s ib" and t: "t \<in> user_threads"
    and d: "t_state (tcbs s t) = THREAD_STATE_DEAD"
    and f: "\<not> t_in_ready_q (f (tcbs s t))" "unat (t_prio (f (tcbs s t))) < SCHED_PRIO_LEVELS"
  shows "\<exists>q'. sched_inv (sched_ready_now t (upd t f s)) q' ib"
proof -
  have nin: "\<not> t_in_ready_q (tcbs s t)" "t \<notin> set ib" using du t d by (auto simp: dead_unlinked_def)
  have "rq_inv (upd t f s) q" using inv nin f by (intro rq_inv_upd_unlinked) (auto simp: sched_defs)
  moreover have "inbox_path (tcbs (upd t f s)) l ib = inbox_path (tcbs s) l ib" for l
    using nin by (intro inbox_path_cong) auto
  ultimately have "sched_wf (upd t f s) q ib" using inv f by (auto simp: sched_defs prio_of_def)
  moreover have "no_lost (upd t f s) ib (user_threads - {t})" using inv by (auto simp: sched_defs)
  ultimately show ?thesis by (rule sched_ready_now_inv(1) [OF _ _ t])
qed

lemma upd_upd: "upd t g (upd t f s) = upd t (g \<circ> f) s"
  by (simp add: upd_def)

lemma alloc_ready_inv:
  assumes inv: "sched_inv s q ib" and du: "dead_unlinked s ib" and p: "unat prio < SCHED_PRIO_LEVELS"
    and g: "\<And>t s1 c. t_in_ready_q (g t s1 c) = t_in_ready_q c" "\<And>t s1 c. t_prio (g t s1 c) = t_prio c"
    and c: "(case alloc_tcb name prio s of (None, s1) \<Rightarrow> (None, s1)
       | (Some t, s1) \<Rightarrow> (Some t, sched_ready_now t (upd t (g t s1) s1))) = (r, s')"
  shows "\<exists>q'. sched_inv s' q' ib"
proof (cases "alloc_tcb name prio s")
  case (Pair x s1)
  show ?thesis
  proof (cases x)
    case None
    with Pair c have "s' = s" by (auto simp: alloc_tcb_def Let_def split: option.splits)
    with inv show ?thesis by blast
  next
    case (Some t)
    note a = alloc_tcb_Some [OF Pair [unfolded Some]]
    show ?thesis using c Pair Some
      by (auto simp: a(3) upd_upd g p tcb_zero_def intro!: fresh_ready_inv [OF inv du a(1,2)])
  qed
qed

lemma thread_create_inv:
  assumes "sched_inv s q ib" "dead_unlinked s ib" "unat prio < SCHED_PRIO_LEVELS"
  shows "thread_create name entry stack_top prio s = (r, s') \<Longrightarrow> \<exists>q'. sched_inv s' q' ib"
    and "thread_create_user_locked name entry stk prio aspace pager s = (r, s') \<Longrightarrow> \<exists>q'. sched_inv s' q' ib"
    and "thread_create_user_argv_locked name entry stk prio aspace pager argc argv envp hb si s = (r, s') \<Longrightarrow>
      \<exists>q'. sched_inv s' q' ib"
    and "thread_create_forked_locked name aspace pager prio parent s = (r, s') \<Longrightarrow> \<exists>q'. sched_inv s' q' ib"
  by (unfold thread_create_def thread_create_user_locked_def thread_create_user_argv_locked_def
        thread_create_forked_locked_def; erule alloc_ready_inv [OF assms, rotated -1]; simp)+

section \<open>Reachable states\<close>

lemma sched_init_fields:
  assumes s_def: "s = sched_init idle_entry idle_stack cpu (sched_boot online fpu)"
  shows "t \<in> user_threads \<Longrightarrow> t_state (tcbs s t) = THREAD_STATE_DEAD"
    "\<not> t_in_ready_q (tcbs s x)" "t_prio (tcbs s x) = 0" "ready_head s = (\<lambda>_. None)" "ready_tail s = (\<lambda>_. None)"
    "ready_bitmap s = 0" "wake_inbox s = None" "current_thread s = Idle" "next_deadline s = -1" "now_ticks s = 0"
proof -
  let ?f = "\<lambda>i. upd (Thread i) (\<lambda>c. c\<lparr>t_tid := of_nat i, t_state := THREAD_STATE_DEAD\<rparr>)"
  have sel: "ready_head (fold ?f xs b) = ready_head b" "ready_tail (fold ?f xs b) = ready_tail b"
    "ready_bitmap (fold ?f xs b) = ready_bitmap b" "wake_inbox (fold ?f xs b) = wake_inbox b"
    "current_thread (fold ?f xs b) = current_thread b" "next_deadline (fold ?f xs b) = next_deadline b"
    "now_ticks (fold ?f xs b) = now_ticks b" for xs b
    by (induction xs arbitrary: b) simp_all
  have keep: "t_in_ready_q (tcbs (fold ?f xs b) x) = t_in_ready_q (tcbs b x)"
    "t_prio (tcbs (fold ?f xs b) x) = t_prio (tcbs b x)" for xs b x
    by (induction xs arbitrary: b) simp_all
  have st: "t_state (tcbs (fold ?f xs b) (Thread i)) =
      (if i \<in> set xs then THREAD_STATE_DEAD else t_state (tcbs b (Thread i)))" for xs b i
    by (induction xs arbitrary: b) auto
  show "t \<in> user_threads \<Longrightarrow> t_state (tcbs s t) = THREAD_STATE_DEAD"
    by (auto simp: s_def sched_init_def init_idle_for_this_cpu_def Let_def user_threads_def st)
  show "\<not> t_in_ready_q (tcbs s x)" "t_prio (tcbs s x) = 0" "ready_head s = (\<lambda>_. None)" "ready_tail s = (\<lambda>_. None)"
    "ready_bitmap s = 0" "wake_inbox s = None" "current_thread s = Idle" "next_deadline s = -1" "now_ticks s = 0"
    by (auto simp: s_def sched_init_def init_idle_for_this_cpu_def Let_def sel keep sched_boot_def tcb_zero_def)
qed

lemma sched_init_inv:
  assumes "s = sched_init idle_entry idle_stack cpu (sched_boot online fpu)"
  shows "sched_inv s (\<lambda>_. []) []" "dead_unlinked s []"
  using sched_init_fields [OF assms]
  by (simp_all add: sched_defs rq_inv_def rq_level_def prio_of_def SCHED_PRIO_LEVELS_def dead_unlinked_def)

lemma inbox_path_unique: "inbox_path h l xs \<Longrightarrow> inbox_path h l ys \<Longrightarrow> xs = ys"
proof (induction xs arbitrary: l ys)
  case Nil
  then show ?case by (cases ys) auto
next
  case (Cons x xs)
  then show ?case by (cases ys) auto
qed

text \<open>The steps of the scheduler: a wake of a thread that is not in the inbox, and every other
  operation in the circumstances its callers use it in.\<close>

inductive sched_reach :: "sched \<Rightarrow> bool" where
  boot: "sched_reach (sched_init idle_entry idle_stack cpu (sched_boot online fpu))"
| wake: "sched_reach s \<Longrightarrow> t \<in> user_threads \<Longrightarrow> inbox_path (tcbs s) (wake_inbox s) ib \<Longrightarrow> t \<notin> set ib \<Longrightarrow>
    sched_reach (sched_wake cpu t s)"
| dispatch: "sched_reach s \<Longrightarrow> sched_reach (schedule cpu s)"
| block: "sched_reach s \<Longrightarrow> why \<noteq> THREAD_STATE_READY \<Longrightarrow> sched_reach (sched_block cpu why s)"
| sleep: "sched_reach s \<Longrightarrow> sched_reach (sched_sleep cpu n s)"
| yield: "sched_reach s \<Longrightarrow> sched_reach (sched_yield cpu s)"
| switch: "sched_reach s \<Longrightarrow> dest \<in> user_threads \<Longrightarrow> sched_reach (sched_direct_switch cpu dest s)"
| ready: "sched_reach s \<Longrightarrow> t \<in> user_threads \<Longrightarrow> sched_reach (sched_ready_now t s)"
| reap: "sched_reach s \<Longrightarrow> sched_reach (sched_reap_zombie t s)"
| create: "sched_reach s \<Longrightarrow> inbox_path (tcbs s) (wake_inbox s) ib \<Longrightarrow> dead_unlinked s ib \<Longrightarrow>
    unat prio < SCHED_PRIO_LEVELS \<Longrightarrow> thread_create name entry stack_top prio s = (r, s') \<Longrightarrow> sched_reach s'"
| create_user: "sched_reach s \<Longrightarrow> inbox_path (tcbs s) (wake_inbox s) ib \<Longrightarrow> dead_unlinked s ib \<Longrightarrow>
    unat prio < SCHED_PRIO_LEVELS \<Longrightarrow>
    thread_create_user_argv_locked name entry stk prio aspace pager argc argv envp hb si s = (r, s') \<Longrightarrow> sched_reach s'"
| fork: "sched_reach s \<Longrightarrow> inbox_path (tcbs s) (wake_inbox s) ib \<Longrightarrow> dead_unlinked s ib \<Longrightarrow>
    unat prio < SCHED_PRIO_LEVELS \<Longrightarrow>
    thread_create_forked_locked name aspace pager prio parent s = (r, s') \<Longrightarrow> sched_reach s'"

lemma sched_inv_inbox: "sched_inv s q ib \<Longrightarrow> inbox_path (tcbs s) (wake_inbox s) ib' \<Longrightarrow> ib' = ib"
  by (auto simp: sched_defs intro: inbox_path_unique)

lemma sched_reach_has_inv: "sched_reach s \<Longrightarrow> \<exists>q ib. sched_inv s q ib"
proof (induction rule: sched_reach.induct)
  case (boot idle_entry idle_stack cpu online fpu)
  show ?case using sched_init_inv(1) [OF refl] by blast
next
  case (wake s t ib cpu)
  then obtain q where "sched_inv s q ib" using sched_inv_inbox by blast
  from sched_wake_inv [OF this wake.hyps(2,4)] show ?case by blast
next
  case (dispatch s cpu)
  then show ?case using schedule_spec(1) by blast
next
  case (block s why cpu)
  then show ?case using sched_block_inv by blast
next
  case (sleep s cpu n)
  then show ?case using sched_sleep_inv by blast
next
  case (yield s cpu)
  then show ?case using sched_yield_inv by blast
next
  case (switch s dest cpu)
  then show ?case using sched_direct_switch_inv by blast
next
  case (ready s t)
  then obtain q ib where i: "sched_inv s q ib" by blast
  then have "sched_wf s q ib" "no_lost s ib (user_threads - {t})" by (auto simp: sched_inv_def no_lost_def)
  then show ?case using sched_ready_now_inv(1) ready.hyps(2) by blast
next
  case (reap s t)
  then show ?case using sched_reap_inv by blast
next
  case (create s ib prio name entry stack_top r s')
  then obtain q where "sched_inv s q ib" using sched_inv_inbox by blast
  from thread_create_inv(1) [OF this create.hyps(3,4,5)] show ?case by blast
next
  case (create_user s ib prio name entry stk aspace pager argc argv envp hb si r s')
  then obtain q where "sched_inv s q ib" using sched_inv_inbox by blast
  from thread_create_inv(3) [OF this create_user.hyps(3,4,5)] show ?case by blast
next
  case (fork s ib prio name aspace pager parent r s')
  then obtain q where "sched_inv s q ib" using sched_inv_inbox by blast
  from thread_create_inv(4) [OF this fork.hyps(3,4,5)] show ?case by blast
qed

section \<open>The choice of the next thread\<close>

text \<open>The ready threads in the order in which they get the processor: by falling priority, and in
  the order of their queue within a priority.\<close>

definition run_order :: "(nat \<Rightarrow> tptr list) \<Rightarrow> tptr list" where
  "run_order q = concat (rev (map q [0..<SCHED_PRIO_LEVELS]))"

definition requeued :: "sched \<Rightarrow> nat \<Rightarrow> (nat \<Rightarrow> tptr list) \<Rightarrow> nat \<Rightarrow> tptr list" where
  "requeued s cpu q =
     (let prev = current_thread s cpu
      in if prev \<noteq> Idle cpu \<and> t_state (tcbs s prev) \<in> {THREAD_STATE_RUNNING, THREAD_STATE_READY}
            \<and> prev \<notin> set (run_order q)
         then q(prio_of s prev := q (prio_of s prev) @ [prev]) else q)"

text \<open>The queues get the threads of the inbox and then the previous thread; the first ready thread in
  the running order is next.\<close>

definition next_thread :: "sched \<Rightarrow> nat \<Rightarrow> (nat \<Rightarrow> tptr list) \<Rightarrow> tptr list \<Rightarrow> tptr" where
  "next_thread s cpu q ib =
     (let prev = current_thread s cpu;
          runnable = (\<lambda>x. t_state (tcbs s x) = THREAD_STATE_READY
                        \<or> x = prev \<and> t_state (tcbs s x) = THREAD_STATE_RUNNING)
      in case find runnable (run_order (requeued s cpu (\<lambda>p. q p @ drained s ib p))) of
           None \<Rightarrow> Idle cpu | Some t \<Rightarrow> t)"

lemma set_run_order: "x \<in> set (run_order q) \<longleftrightarrow> (\<exists>p < SCHED_PRIO_LEVELS. x \<in> set (q p))"
  by (auto simp: run_order_def)

lemma find_append: "find P (xs @ ys) = (case find P xs of None \<Rightarrow> find P ys | Some x \<Rightarrow> Some x)"
  by (induction xs) auto

lemma picks_find:
  assumes "picks s q t p ys"
  shows "find (\<lambda>x. t_state (tcbs s x) = THREAD_STATE_READY) (run_order q) = Some t"
proof -
  let ?P = "\<lambda>x. t_state (tcbs s x) = THREAD_STATE_READY"
  from assms obtain xs where p: "p < SCHED_PRIO_LEVELS" "?P t" "q p = xs @ t # ys" "\<forall>x \<in> set xs. \<not> ?P x"
    and hi: "\<And>r x. r < SCHED_PRIO_LEVELS \<Longrightarrow> p < r \<Longrightarrow> x \<in> set (q r) \<Longrightarrow> \<not> ?P x" by (auto simp: picks_def)
  have "[0..<SCHED_PRIO_LEVELS] = [0..<p] @ p # [Suc p..<SCHED_PRIO_LEVELS]"
    using p(1) by (metis upt_conv_Cons upt_add_eq_append less_imp_add_positive less_imp_le_nat zero_le)
  then have o: "run_order q = concat (rev (map q [Suc p..<SCHED_PRIO_LEVELS])) @ (xs @ t # ys) @ concat (rev (map q [0..<p]))"
    by (simp add: run_order_def p(3))
  have "find ?P (concat (rev (map q [Suc p..<SCHED_PRIO_LEVELS]))) = None"
    using hi by (auto simp: find_None_iff)
  moreover have "find ?P xs = None" using p(4) by (auto simp: find_None_iff)
  ultimately show ?thesis using p(2) by (simp add: o find_append)
qed

lemma sched_inv_lists:
  assumes i: "sched_inv s q' ib" and r: "rq_inv s q"
  shows "sched_inv s q ib"
proof -
  have "set (q p) \<subseteq> user_threads" if "p < SCHED_PRIO_LEVELS" for p
  proof
    fix x assume "x \<in> set (q p)"
    with r that have "t_in_ready_q (tcbs s x)" by (auto simp: rq_inv_def)
    with i show "x \<in> user_threads" by (auto simp: sched_defs rq_inv_def)
  qed
  with i r show ?thesis by (simp add: sched_defs)
qed

lemma requeued_inv:
  assumes inv: "sched_inv s q ib"
  shows "sched_inv (sched_requeue cpu s) (requeued s cpu q) ib"
proof -
  let ?p = "current_thread s cpu" and ?f = "\<lambda>c. c\<lparr>t_state := THREAD_STATE_READY\<rparr>"
  have r: "rq_inv s q" and pr: "prio_of s ?p < SCHED_PRIO_LEVELS" using inv by (auto simp: sched_defs)
  have inq: "t_in_ready_q (tcbs s ?p) \<longleftrightarrow> ?p \<in> set (run_order q)" using r by (simp add: rq_inv_def set_run_order)
  obtain q' where i': "sched_inv (sched_requeue cpu s) q' ib" using sched_requeue_inv [OF inv] by blast
  have u: "rq_inv (upd t ?f s) q" for t using r by (subst rq_inv_upd) auto
  have pu: "prio_of (upd t ?f s) x = prio_of s x" for t x by (simp add: prio_of_def)
  consider "?p = Idle cpu" | "?p \<noteq> Idle cpu" "t_state (tcbs s ?p) \<in> {THREAD_STATE_RUNNING, THREAD_STATE_READY}"
    | "?p \<noteq> Idle cpu" "t_state (tcbs s ?p) \<notin> {THREAD_STATE_RUNNING, THREAD_STATE_READY}" by blast
  then have "rq_inv (sched_requeue cpu s) (requeued s cpu q)"
  proof cases
    case 1
    then show ?thesis by (simp add: sched_requeue_cases(1) requeued_def u)
  next
    case 2
    show ?thesis
    proof (cases "?p \<in> set (run_order q)")
      case True
      with 2 inq show ?thesis by (simp add: sched_requeue_cases(2) requeued_def sched_ready_now_def rq_push_in u)
    next
      case False
      have "rq_inv (rq_push ?p (upd ?p ?f s)) (q(prio_of s ?p := q (prio_of s ?p) @ [?p]))"
        using rq_push_inv(1) [OF u, of ?p ?p] False inq pr by (simp add: pu)
      with 2 False show ?thesis by (simp add: sched_requeue_cases(2) requeued_def sched_ready_now_def Let_def)
    qed
  next
    case 3
    then show ?thesis by (auto simp: sched_requeue_cases(3) requeued_def Let_def r)
  qed
  then show ?thesis by (rule sched_inv_lists [OF i'])
qed

lemma schedule_next_thread:
  assumes inv: "sched_inv s q ib"
  shows "current_thread (schedule cpu s) cpu = next_thread s cpu q ib"
proof -
  let ?s1 = "drain_inbox s" and ?s2 = "sched_requeue cpu (drain_inbox s)"
  let ?q1 = "\<lambda>p. q p @ drained s ib p" and ?R = "\<lambda>s x. t_state (tcbs s x) = THREAD_STATE_READY"
  note d = drain_inbox_inv [OF inv]
  note fd = drain_frame_fields [OF d(2)]
  have cd: "current_thread ?s1 = current_thread s" using d(2) by (simp add: drain_frame_def)
  have rq: "requeued ?s1 cpu ?q1 = requeued s cpu ?q1" by (simp add: requeued_def Let_def cd fd)
  have i2: "sched_inv ?s2 (requeued s cpu ?q1) []" using requeued_inv [OF d(1), of cpu] by (simp add: rq)
  note rf = sched_requeue_fields [OF d(1), of cpu]
  obtain r s3 where p: "rq_pop_highest cpu ?s2 = (r, s3)" by (cases "rq_pop_highest cpu ?s2")
  note sp = rq_pop_highest_spec [OF i2 p]
  have r: "r = find (?R ?s2) (run_order (requeued s cpu ?q1))"
  proof (cases r)
    case None
    have "x \<in> user_threads" if "x \<in> set (run_order (requeued s cpu ?q1))" for x
      using that i2 by (auto simp: set_run_order sched_defs)
    with sp(2) [OF None] have "find (?R ?s2) (run_order (requeued s cpu ?q1)) = None"
      unfolding find_None_iff by blast
    with None show ?thesis by simp
  next
    case (Some t)
    from sp(3) [OF Some] obtain p ys where "picks ?s2 (requeued s cpu ?q1) t p ys" by blast
    from picks_find [OF this] Some show ?thesis by simp
  qed
  have "find (?R ?s2) (run_order (requeued s cpu ?q1)) = find (\<lambda>x. ?R s x \<or> x = current_thread s cpu
      \<and> t_state (tcbs s x) = THREAD_STATE_RUNNING) (run_order (requeued s cpu ?q1))"
  proof (rule find_cong [OF refl])
    fix x assume "x \<in> set (run_order (requeued s cpu ?q1))"
    with i2 have "x \<in> user_threads" by (auto simp: set_run_order sched_defs)
    then have "x \<noteq> Idle cpu" by auto
    then show "?R ?s2 x = (?R s x \<or> x = current_thread s cpu \<and> t_state (tcbs s x) = THREAD_STATE_RUNNING)"
      by (auto simp: rf(3) cd fd)
  qed
  then show ?thesis unfolding schedule_def Let_def p by (simp add: sched_enter_fields next_thread_def Let_def r)
qed

section \<open>Properties of the dispatcher\<close>


text \<open>A booted scheduler with one thread, which has run and waits for a message.\<close>

definition sched_ex0 :: sched where
  "sched_ex0 = sched_init 0 (\<lambda>_. 0) 0 (sched_boot (\<lambda>_. False) (replicate 512 0))"

definition sched_ex1 :: sched where
  "sched_ex1 = sched_block 0 THREAD_STATE_WAIT_RECV
     (schedule 0 (snd (thread_create ''init'' 0x1000 0x9000 10 sched_ex0)))"

lemma sched_ex0_inv: "sched_inv sched_ex0 (\<lambda>_. []) []" "dead_unlinked sched_ex0 []" "sched_reach sched_ex0"
  unfolding sched_ex0_def by (rule sched_init_inv [OF refl] sched_reach.boot)+

lemma sched_ex1_reach: "sched_reach sched_ex1"
proof -
  let ?c = "thread_create ''init'' 0x1000 0x9000 10 sched_ex0"
  have "inbox_path (tcbs sched_ex0) (wake_inbox sched_ex0) []" using sched_ex0_inv(1) by (simp add: sched_defs)
  then have "sched_reach (snd ?c)"
    by (rule sched_reach.create [OF sched_ex0_inv(3) _ sched_ex0_inv(2), of 10 _ _ _ "fst ?c"]) (simp_all add: SCHED_PRIO_LEVELS_def)
  then show ?thesis unfolding sched_ex1_def by (auto intro: sched_reach.intros)
qed



text \<open>Two threads that wait and are woken: thread 3 first, then thread 2.\<close>

definition sched_ex2 :: sched where
  "sched_ex2 = upd (Thread 3) (\<lambda>c. c\<lparr>t_state := THREAD_STATE_WAIT_RECV\<rparr>)
     (upd (Thread 2) (\<lambda>c. c\<lparr>t_state := THREAD_STATE_WAIT_RECV\<rparr>) sched_ex0)"

definition sched_ex3 :: sched where
  "sched_ex3 = sched_wake 0 (Thread 2) (sched_wake 0 (Thread 3) sched_ex2)"

lemma user_thread_iff: "Thread i \<in> user_threads \<longleftrightarrow> 1 \<le> i \<and> i < 64"
  by (auto simp: user_threads_def SCHED_MAX_THREADS_def)

lemmas sched_ex0_fields = sched_init_fields [OF sched_ex0_def]

lemma sched_ex2_fields:
  "t_state (tcbs sched_ex2 (Thread 2)) = THREAD_STATE_WAIT_RECV" "t_state (tcbs sched_ex2 (Thread 3)) = THREAD_STATE_WAIT_RECV"
  "\<not> t_in_ready_q (tcbs sched_ex2 x)" "prio_of sched_ex2 x = 0" "current_thread sched_ex2 = Idle"
  "\<not> not_wakeable (tcbs sched_ex2 (Thread 3))"
  by (simp_all add: sched_ex2_def sched_ex0_fields prio_of_def not_wakeable_def)

lemma sched_ex2_inv: "sched_inv sched_ex2 (\<lambda>_. []) []"
  unfolding sched_ex2_def by (intro sched_inv_upd sched_ex0_inv) (auto simp: keeps_links_def)

lemma sched_ex3_inv: "sched_inv sched_ex3 (\<lambda>_. []) [Thread 2, Thread 3]"
proof -
  let ?w = "sched_wake 0 (Thread 3) sched_ex2"
  note n2 = sched_ex2_fields(6)
  note q2 = sched_ex2_fields(3)
  have i2: "sched_inv ?w (\<lambda>_. []) [Thread 3]"
    using sched_wake_inv [OF sched_ex2_inv, of "Thread 3" 0] n2 q2 by (simp add: user_thread_iff)
  note w = sched_wake_sel(1) [OF n2, of 0]
  have "\<not> not_wakeable (tcbs ?w (Thread 2))" by (simp add: w not_wakeable_def sched_ex2_fields)
  moreover have "\<not> t_in_ready_q (tcbs ?w (Thread 2))" by (simp add: w q2)
  ultimately show ?thesis unfolding sched_ex3_def
    using sched_wake_inv [OF i2, of "Thread 2" 0] by (simp add: user_thread_iff)
qed

lemma sched_ex3_fields:
  "t_state (tcbs sched_ex3 (Thread 2)) = THREAD_STATE_READY" "t_state (tcbs sched_ex3 (Thread 3)) = THREAD_STATE_READY"
  "\<not> t_in_ready_q (tcbs sched_ex3 x)" "prio_of sched_ex3 x = 0" "current_thread sched_ex3 0 = Idle 0"
proof -
  note n2 = sched_ex2_fields(6)
  note w = sched_wake_sel [OF n2, of 0]
  have n1: "\<not> not_wakeable (tcbs (sched_wake 0 (Thread 3) sched_ex2) (Thread 2))"
    by (simp add: w not_wakeable_def sched_ex2_fields)
  note v = sched_wake_sel [OF n1, of 0]
  show "t_state (tcbs sched_ex3 (Thread 2)) = THREAD_STATE_READY" "t_state (tcbs sched_ex3 (Thread 3)) = THREAD_STATE_READY"
    "\<not> t_in_ready_q (tcbs sched_ex3 x)" "prio_of sched_ex3 x = 0" "current_thread sched_ex3 0 = Idle 0"
    unfolding sched_ex3_def prio_of_def v by (simp_all add: w sched_ex2_fields sched_ex2_fields(4) [unfolded prio_of_def])
qed


text \<open>C17. A waiting thread that is woken and has a higher priority than every other thread that could
  run gets the processor at the next run of \<^verbatim>\<open>schedule\<close>.\<close>

theorem woken_thread_runs:
  assumes "sched_reach s" "t \<in> user_threads" "inbox_path (tcbs s) (wake_inbox s) ib" "t \<notin> set ib"
    and "t_state (tcbs s t) \<notin> {THREAD_STATE_DEAD, THREAD_STATE_ZOMBIE, THREAD_STATE_RUNNING, THREAD_STATE_READY}"
    and "\<forall>x \<in> user_threads - {t}. t_state (tcbs s x) = THREAD_STATE_READY \<or> x = current_thread s cpu \<longrightarrow>
      prio_of s x < prio_of s t"
  shows "current_thread (schedule cpu (sched_wake cpu t s)) cpu = t"
proof (rule ccontr)
  let ?w = "sched_wake cpu t s"
  let ?c = "current_thread (schedule cpu ?w) cpu"
  assume ne: "?c \<noteq> t"
  have nw: "\<not> not_wakeable (tcbs s t)" using assms(5) by (simp add: not_wakeable_def)
  note w = sched_wake_sel [OF nw, of cpu]
  obtain q where "sched_inv s q ib" using sched_reach_has_inv [OF assms(1)] sched_inv_inbox [OF _ assms(3)] by blast
  from sched_wake_inv [OF this assms(2,4), of cpu] obtain ib' where i: "sched_inv ?w q ib'" by blast
  note sp = schedule_spec [where cpu = cpu, OF i refl refl]
  have pr: "prio_of ?w x = prio_of s x" for x by (simp add: prio_of_def w(1))
  have "t_state (tcbs (schedule cpu ?w) t) = THREAD_STATE_READY" using ne unfolding sp(8) by (simp add: w(1))
  then have c: "?c \<noteq> Idle cpu" "prio_of s t \<le> prio_of s ?c" using sp(7) [OF assms(2)] by (simp_all add: pr)
  have "t_state (tcbs ?w ?c) = THREAD_STATE_READY \<or> ?c = current_thread s cpu" using sp(9) [OF c(1)] by (auto simp: w(6))
  then have "t_state (tcbs s ?c) = THREAD_STATE_READY \<or> ?c = current_thread s cpu" using ne by (simp add: w(1))
  moreover have "?c \<in> user_threads - {t}" using sp(5) c(1) ne by blast
  ultimately have "prio_of s ?c < prio_of s t" using assms(6) by blast
  with c(2) show False by simp
qed

lemma rq_push_keeps: "t_state (tcbs (rq_push t s) x) = t_state (tcbs s x)" "current_thread (rq_push t s) = current_thread s"
  by (simp_all add: rq_push_def Let_def split: option.splits)

lemma sched_ex1_fields:
  "t_state (tcbs sched_ex1 (Thread 1)) = THREAD_STATE_WAIT_RECV" "current_thread sched_ex1 0 = Thread 1"
  "x \<in> user_threads \<Longrightarrow> t_state (tcbs sched_ex1 x) \<noteq> THREAD_STATE_READY" "wake_inbox sched_ex1 = None"
proof -
  define c where "c = snd (thread_create ''init'' 0x1000 0x9000 10 sched_ex0)"
  let ?P = "\<lambda>i. t_state (tcbs sched_ex0 (Thread i)) = THREAD_STATE_DEAD"
  have P: "?P i" if "1 \<le> i" "i < 64" for i using that by (intro sched_ex0_fields(1)) (simp add: user_thread_iff)
  have "[1..<SCHED_MAX_THREADS] = 1 # [Suc 1..<SCHED_MAX_THREADS]" by (rule upt_conv_Cons) (simp add: SCHED_MAX_THREADS_def)
  then have "first_slot ?P [1..<SCHED_MAX_THREADS] = Some 0" using P [of 1] by simp
  then obtain f where c: "c = sched_ready_now (Thread 1) (upd (Thread 1) f sched_ex0)"
    and f: "\<And>t. \<not> t_in_ready_q (f t)" "\<And>t. t_prio (f t) = 10"
    unfolding c_def by (simp add: thread_create_def alloc_tcb_def upd_upd Let_def tcb_zero_def)
  obtain q where i: "sched_inv c q []"
    unfolding c using fresh_ready_inv [OF sched_ex0_inv(1,2), of "Thread 1" f] f P [of 1]
    by (auto simp: user_thread_iff SCHED_PRIO_LEVELS_def)
  have st: "t_state (tcbs c x) = (if x = Thread 1 then THREAD_STATE_READY else t_state (tcbs sched_ex0 x))"
    and cc: "current_thread c = Idle" for x
    by (simp_all add: c sched_ready_now_def rq_push_keeps sched_ex0_fields)
  note sp = schedule_spec [where cpu = 0, OF i refl refl]
  have cur: "current_thread (schedule 0 c) 0 = Thread 1"
  proof (rule ccontr)
    assume ne: "current_thread (schedule 0 c) 0 \<noteq> Thread 1"
    then have "t_state (tcbs (schedule 0 c) (Thread 1)) = THREAD_STATE_READY" unfolding sp(8) by (simp add: st)
    then have u: "current_thread (schedule 0 c) 0 \<noteq> Idle 0" using sp(7) [of "Thread 1"] by (simp add: user_thread_iff)
    with sp(5) have "current_thread (schedule 0 c) 0 \<in> user_threads" by blast
    with sp(9) [OF u] ne show False by (simp add: st cc sched_ex0_fields)
  qed
  have ex: "sched_ex1 = sched_block 0 THREAD_STATE_WAIT_RECV (schedule 0 c)" by (simp add: sched_ex1_def c_def)
  show "t_state (tcbs sched_ex1 (Thread 1)) = THREAD_STATE_WAIT_RECV" "current_thread sched_ex1 0 = Thread 1"
    using cur by (simp_all add: ex sched_block_def)
  show "t_state (tcbs sched_ex1 x) \<noteq> THREAD_STATE_READY" if "x \<in> user_threads"
    using cur sp(8) [of x] that by (auto simp: ex sched_block_def st cc sched_ex0_fields)
  show "wake_inbox sched_ex1 = None" using sp(1) by (auto simp: ex sched_block_def sched_defs)
qed

theorem woken_thread_runs_witness:
  "sched_reach sched_ex1 \<and> t_state (tcbs sched_ex1 (Thread 1)) = THREAD_STATE_WAIT_RECV \<and>
   current_thread (schedule 0 (sched_wake 0 (Thread 1) sched_ex1)) 0 = Thread 1"
  using woken_thread_runs [OF sched_ex1_reach, of "Thread 1" "[]" 0] sched_ex1_reach
  by (simp add: sched_ex1_fields [unfolded One_nat_def] user_thread_iff)

lemma drain_list_None: "drain_list n None s = s"
  by (cases n) simp_all

text \<open>C34. The inbox does not survive a second wake of a thread that is in front of another one: the
  thread behind it is ready afterwards, but neither in a ready queue nor in the inbox, so it is never
  run again.\<close>

theorem sched_wake_twice_loses:
  assumes "sched_inv s q (t # a # ib)" "t_state (tcbs s t) = THREAD_STATE_READY" "\<not> t_in_ready_q (tcbs s t)"
    and "t_state (tcbs s a) = THREAD_STATE_READY" "\<not> t_in_ready_q (tcbs s a)"
  shows "let s' = drain_inbox (sched_wake cpu t s)
         in t_state (tcbs s' a) = THREAD_STATE_READY \<and> \<not> t_in_ready_q (tcbs s' a) \<and> wake_inbox s' = None"
proof -
  let ?w = "sched_wake cpu t s"
  have nw: "\<not> not_wakeable (tcbs s t)" using assms(2,3) by (simp add: not_wakeable_def)
  note w = sched_wake_sel [OF nw, of cpu]
  have ib: "wake_inbox s = Some t" and ne: "a \<noteq> t" using assms(1) by (auto simp: sched_defs)
  define s1 where "s1 = upd t (\<lambda>c. c\<lparr>t_inbox_next := None\<rparr>) (?w\<lparr>wake_inbox := None\<rparr>)"
  have r0: "rq_inv s q" and pr: "prio_of s t < SCHED_PRIO_LEVELS" using assms(1) by (auto simp: sched_defs)
  have h: "tcbs s1 x = (if x = t then (tcbs s t)\<lparr>t_inbox_next := None\<rparr> else tcbs s x)" for x
    using assms(3) by (simp add: s1_def w(1) state_idem [OF assms(2)])
  have "rq_inv (upd t (\<lambda>c. c\<lparr>t_inbox_next := None\<rparr>) s) q" using r0 by (subst rq_inv_upd) auto
  moreover have "tcbs s1 = tcbs (upd t (\<lambda>c. c\<lparr>t_inbox_next := None\<rparr>) s)" by (auto simp: fun_eq_iff h)
  ultimately have r: "rq_inv s1 q" by (rule rq_inv_cong) (simp_all add: s1_def w)
  have n1: "\<not> t_in_ready_q (tcbs s1 t)" "prio_of s1 t < SCHED_PRIO_LEVELS" using assms(3) pr by (simp_all add: h prio_of_def)
  note p = rq_push_inv [OF r n1]
  define s2 where "s2 = upd t (\<lambda>c. c\<lparr>t_inbox_next := None\<rparr>) (rq_push t s1)"
  have "t_in_ready_q (tcbs (rq_push t s1) t)" using p(1) n1(2) unfolding rq_inv_def by force
  then have q2: "rq_push t s2 = s2" by (intro rq_push_in) (simp add: s2_def)
  have st: "t_state (tcbs s1 t) = THREAD_STATE_READY" "t_state (tcbs s2 t) = THREAD_STATE_READY"
    using assms(2) by (simp_all add: h s2_def rq_frame_fields [OF p(2)])
  have "drain_inbox ?w = drain_list (Suc (Suc (Suc 78))) (Some t) (?w\<lparr>wake_inbox := None\<rparr>)"
    using assms(3) by (simp add: drain_inbox_def w(2) SCHED_MAX_THREADS_def MAX_CPUS_def)
  also have "\<dots> = drain_list (Suc (Suc 78)) (Some t) (rq_push t s1)"
    using st(1) assms(2,3) ib by (subst drain_list.simps(2)) (simp add: Let_def w(1) s1_def [symmetric])
  also have "\<dots> = s2"
    using st(2) q2 by (subst drain_list.simps(2)) (simp add: Let_def s2_def [symmetric] rq_frame_fields [OF p(2)] h drain_list_None)
  finally have e: "drain_inbox ?w = s2" .
  have "\<not> t_in_ready_q (tcbs s2 a)"
    using rq_push_other_flag [OF r n1 ne] assms(5) ne by (simp add: s2_def h)
  moreover have "t_state (tcbs s2 a) = THREAD_STATE_READY" using ne assms(4) by (simp add: s2_def rq_frame_fields [OF p(2)] h)
  moreover have "wake_inbox s2 = None" by (simp add: s2_def rq_frame_rest [OF p(2)]) (simp add: s1_def)
  ultimately show ?thesis by (simp add: e)
qed

theorem sched_wake_twice_loses_witness:
  "let s' = drain_inbox (sched_wake 0 (Thread 2) sched_ex3)
   in t_state (tcbs s' (Thread 3)) = THREAD_STATE_READY \<and> \<not> t_in_ready_q (tcbs s' (Thread 3)) \<and> wake_inbox s' = None"
  by (rule sched_wake_twice_loses [OF sched_ex3_inv]) (simp_all add: sched_ex3_fields)

text \<open>The clamped minimum of the time slice and the time to the next deadline.\<close>

lemma arm_clamp:
  fixes a b l m :: "'a :: linorder"
  assumes n_def: "n = (let n = (if b < a then b else a); n = (if n > m then m else n) in if n < l then l else n)" and m: "l \<le> m"
  shows "l \<le> n" "n \<le> m" "l \<le> a \<Longrightarrow> n \<le> a" "l \<le> b \<Longrightarrow> n \<le> b"
  using m by (auto simp: n_def Let_def)

text \<open>C36. The timer is armed for at least one and at most 500 ticks, not beyond the time slice of the
  current thread, and on the first processor not beyond the next deadline of a sleeper.\<close>

theorem sched_arm_bounds:
  "let s' = sched_arm_next_deadline cpu s; n = armed_ticks s' cpu; cur = current_thread s cpu
   in 1 \<le> n \<and> n \<le> SCHED_MAX_ARM_TICKS
      \<and> (cur \<noteq> Idle cpu \<longrightarrow> 0 < t_timeslice_left (tcbs s cur) \<longrightarrow> t_timeslice_left (tcbs s cur) < 2 ^ 31 \<longrightarrow>
           int (unat n) \<le> t_timeslice_left (tcbs s cur))
      \<and> (cpu = 0 \<longrightarrow> next_deadline s \<noteq> -1 \<longrightarrow> now_ticks s < next_deadline s \<longrightarrow> n \<le> next_deadline s - now_ticks s)
      \<and> (\<forall>c. c \<noteq> cpu \<longrightarrow> armed_ticks s' c = armed_ticks s c)"
proof -
  let ?cur = "current_thread s cpu" and ?n = "armed_ticks (sched_arm_next_deadline cpu s) cpu"
  let ?x = "t_timeslice_left (tcbs s ?cur)"
  define a :: u64 where "a = (if ?cur = Idle cpu then SCHED_MAX_ARM_TICKS else if 0 < ?x then word_of_int ?x else 1)"
  define b :: u64 where "b = (if cpu = 0 \<and> next_deadline s \<noteq> -1
     then if next_deadline s > now_ticks s then next_deadline s - now_ticks s else 1 else a)"
  have e: "?n = arm_ticks cpu s" by (simp add: sched_arm_next_deadline_def)
  have n: "?n = (let n = (if b < a then b else a); n = (if n > SCHED_MAX_ARM_TICKS then SCHED_MAX_ARM_TICKS else n)
      in if n < 1 then 1 else n)"
    unfolding e arm_ticks_def Let_def a_def b_def
    by (cases "cpu = 0 \<and> next_deadline s \<noteq> -1") (simp_all only: simp_thms if_True if_False less_irrefl)
  have m: "1 \<le> SCHED_MAX_ARM_TICKS" by (simp add: SCHED_MAX_ARM_TICKS_def)
  note c = arm_clamp [OF n m]
  have "int (unat ?n) \<le> ?x" if "?cur \<noteq> Idle cpu" "0 < ?x" "?x < 2 ^ 31"
  proof -
    have u: "int (unat a) = ?x" using that by (simp add: a_def unsigned_of_int take_bit_int_eq_self)
    then have "1 \<le> unat a" using that by linarith
    then have "1 \<le> a" by (simp add: word_le_nat_alt)
    from c(3) [OF this] u show ?thesis unfolding word_le_nat_alt by linarith
  qed
  moreover have "?n \<le> next_deadline s - now_ticks s" if "cpu = 0" "next_deadline s \<noteq> -1" "now_ticks s < next_deadline s"
  proof -
    have "b = next_deadline s - now_ticks s" using that by (simp add: b_def)
    moreover have "b \<noteq> 0" using that calculation by auto
    then have "1 \<le> b" by (simp add: word_le_nat_alt unat_gt_0 Suc_le_eq)
    ultimately show ?thesis using c(4) by simp
  qed
  moreover have "armed_ticks (sched_arm_next_deadline cpu s) c = armed_ticks s c" if "c \<noteq> cpu" for c
    using that by (simp add: sched_arm_next_deadline_def Let_def)
  ultimately show ?thesis using c(1,2) by (simp add: Let_def)
qed

definition sched_ex5 :: sched where
  "sched_ex5 = upd (Thread 2) (\<lambda>c. c\<lparr>t_timeslice_left := 7\<rparr>)
     (sched_ex0\<lparr>current_thread := (\<lambda>_. Thread 2), next_deadline := 105, now_ticks := 100\<rparr>)"

theorem sched_arm_bounds_witness:
  "1 \<le> armed_ticks (sched_arm_next_deadline 0 sched_ex5) 0 \<and> armed_ticks (sched_arm_next_deadline 0 sched_ex5) 0 \<le> 5
    \<and> int (unat (armed_ticks (sched_arm_next_deadline 0 sched_ex5) 0)) \<le> 7"
proof -
  have "current_thread sched_ex5 0 = Thread 2" "t_timeslice_left (tcbs sched_ex5 (Thread 2)) = 7"
    "next_deadline sched_ex5 = 105" "now_ticks sched_ex5 = 100" by (simp_all add: sched_ex5_def upd_def)
  then show ?thesis using sched_arm_bounds [of 0 sched_ex5] by (simp add: Let_def)
qed

text \<open>C35. \<^verbatim>\<open>alloc_tcb\<close> hands out a dead thread control block that is still linked at the head of a ready queue
  (a thread that was killed while it was ready): clearing it cuts that queue, and the ready thread
  behind it is marked as queued but no longer in its queue.\<close>

theorem thread_create_cuts_queue:
  assumes "rq_inv s q" "p < SCHED_PRIO_LEVELS" "q p = t # x # xs" "unat prio < SCHED_PRIO_LEVELS"
    and "thread_create name entry stack_top prio s = (Some t, s')" "t_state (tcbs s x) = THREAD_STATE_READY"
  shows "t_state (tcbs s' x) = THREAD_STATE_READY \<and> t_in_ready_q (tcbs s' x)
     \<and> rq_path (tcbs s') (ready_head s' (prio_of s' x)) [t]"
proof -
  obtain s1 where a: "alloc_tcb name prio s = (Some t, s1)"
    using assms(5) by (auto simp: thread_create_def split: prod.splits option.splits)
  note b = alloc_tcb_Some [OF a]
  define f :: "tcb \<Rightarrow> tcb" where "f = (\<lambda>c. (tcb_zero\<lparr>t_tid := t_tid c, t_name := name, t_prio := prio, t_pgid := t_tid c,
      t_sid := t_tid c, t_timeslice_left := int SCHED_TIMESLICE_TICKS, t_last_cpu := -1, t_fpu_state := fpu_default_state s\<rparr>)
      \<lparr>t_uctx := arch_uctx_init entry stack_top, t_kstack_top := stack_top, t_kstack_size := STACK_SIZE,
       t_state := THREAD_STATE_READY\<rparr>)"
  define s2 where "s2 = upd t f s"
  have s': "s' = rq_push t s2"
    using assms(5) a b(3) by (simp add: thread_create_def sched_ready_now_def s2_def upd_upd f_def comp_def)
  have lv: "rq_level s p (t # x # xs)" using rq_inv_level [OF assms(1,2)] by (simp add: assms(3))
  have hp: "ready_head s2 p = Some t" "ready_tail s2 p = Some (last (x # xs))" "t \<noteq> x" "last (x # xs) \<noteq> t" "prio_of s x = p"
    using lv last_in_set [of "x # xs"] by (auto simp: rq_level_def s2_def last_ConsR simp del: last.simps)
  have t: "\<not> t_in_ready_q (tcbs s2 t)" "tcbs s2 x = tcbs s x" "prio_of s2 t = unat prio"
    using hp(3) by (auto simp: s2_def f_def tcb_zero_def prio_of_def)
  have inq: "t_in_ready_q (tcbs s x)" using assms(1-3) by (force simp: rq_inv_def)
  have nt: "ready_tail s2 (prio_of s2 t) \<noteq> Some t"
  proof (cases "unat prio = p")
    case False
    have "t \<notin> set (q (unat prio))"
      using rq_inv_disjoint [OF assms(1) _ assms(4), of t] rq_inv_disjoint [OF assms(1) _ assms(2), of t] False assms(3) by auto
    then show ?thesis unfolding t(3) using rq_inv_level [OF assms(1,4)] last_in_set [of "q (unat prio)"]
      by (auto simp: rq_level_def s2_def split: if_splits)
  qed (use hp in \<open>simp add: t(3)\<close>)
  note e = rq_push_eq [OF t(1) nt]
  show ?thesis unfolding s' e using hp t inq assms(6) nt
    by (auto simp: prio_of_def split: option.splits)
qed

text \<open>Threads 2 and 3 are queued, then thread 2 is killed while thread 1 waits.\<close>

definition sched_ex4 :: sched where
  "sched_ex4 = upd (Thread 2) (\<lambda>c. c\<lparr>t_state := THREAD_STATE_DEAD\<rparr>)
     (upd (Thread 1) (\<lambda>c. c\<lparr>t_state := THREAD_STATE_WAIT_RECV\<rparr>) (drain_inbox sched_ex3))"

theorem thread_create_cuts_queue_witness:
  "let s' = snd (thread_create ''new'' 0 0 5 sched_ex4)
   in fst (thread_create ''new'' 0 0 5 sched_ex4) = Some (Thread 2)
      \<and> t_state (tcbs s' (Thread 3)) = THREAD_STATE_READY \<and> t_in_ready_q (tcbs s' (Thread 3))
      \<and> rq_path (tcbs s') (ready_head s' (prio_of s' (Thread 3))) [Thread 2]"
proof -
  let ?q = "\<lambda>p. [] @ drained sched_ex3 [Thread 2, Thread 3] p"
  note d = drain_inbox_inv [OF sched_ex3_inv]
  have r: "rq_inv sched_ex4 ?q" unfolding sched_ex4_def using d(1) by (simp add: rq_inv_upd sched_defs)
  have q0: "?q 0 = [Thread 2, Thread 3]" by (simp add: drained_def sched_ex3_fields)
  have st: "t_state (tcbs sched_ex4 (Thread 1)) = THREAD_STATE_WAIT_RECV" "t_state (tcbs sched_ex4 (Thread 2)) = THREAD_STATE_DEAD"
    "t_state (tcbs sched_ex4 (Thread 3)) = THREAD_STATE_READY"
    using drain_frame_fields(1) [OF d(2)] by (simp_all add: sched_ex4_def sched_ex3_fields)
  have "[1..<SCHED_MAX_THREADS] = 1 # 2 # [3..<SCHED_MAX_THREADS]"
    by (simp add: upt_conv_Cons SCHED_MAX_THREADS_def numeral_eq_Suc)
  then have "fst (alloc_tcb ''new'' 5 sched_ex4) = Some (Thread 2)" using st by (simp add: alloc_tcb_def Let_def numeral_2_eq_2)
  then have f: "fst (thread_create ''new'' 0 0 5 sched_ex4) = Some (Thread 2)"
    by (auto simp: thread_create_def split: prod.splits option.splits)
  then have "thread_create ''new'' 0 0 5 sched_ex4 = (Some (Thread 2), snd (thread_create ''new'' 0 0 5 sched_ex4))"
    by (metis prod.collapse)
  from thread_create_cuts_queue [OF r _ q0 _ this st(3)] f show ?thesis by (simp add: SCHED_PRIO_LEVELS_def)
qed

end
