(* ===== verification/Phys.thy ===== *)
theory Phys
  imports Prelude
begin

text \<open>
  Physical memory as the kernel sees it through its identity map: one byte per address, with the
  little-endian 64-bit accesses that the allocators and the page tables use, and the memory fill
  \<^verbatim>\<open>memset(p, 0, n)\<close> of \<^verbatim>\<open>src/lib/klib.c\<close>.
\<close>

type_synonym mem = "u64 \<Rightarrow> u8"

definition load64 :: "mem \<Rightarrow> u64 \<Rightarrow> u64" where
  "load64 m a = word_rcat (map (\<lambda>i. m (a + of_nat i)) (rev [0..<8]))"

definition store64 :: "mem \<Rightarrow> u64 \<Rightarrow> u64 \<Rightarrow> mem" where
  "store64 m a v = (\<lambda>x. if x - a < 8 then ucast (drop_bit (8 * unat (x - a)) v) else m x)"

definition zero_range :: "mem \<Rightarrow> u64 \<Rightarrow> u64 \<Rightarrow> mem" where
  "zero_range m a len = (\<lambda>x. if x - a < len then 0 else m x)"

section \<open>Lemmas on accesses\<close>

lemma unat_of_nat_8: "i < 8 \<Longrightarrow> unat (of_nat i :: u64) = i"
  by (rule word_of_nat_less_lt) simp

lemma load64_cong: "(\<And>i. i < 8 \<Longrightarrow> m (a + of_nat i) = m' (a + of_nat i)) \<Longrightarrow> load64 m a = load64 m' a"
  unfolding load64_def by (rule arg_cong [where f = word_rcat], rule map_cong) auto

lemma load64_store64 [simp]: "load64 (store64 m a v) a = v"
proof -
  have "map (\<lambda>i. store64 m a v (a + of_nat i)) (rev [0..<8]) = map (\<lambda>i. ucast (drop_bit (8 * i) v)) (rev [0..<8])"
    by (rule map_cong) (auto simp: store64_def unat_of_nat_8 word_less_nat_alt)
  then have "load64 (store64 m a v) a = word_rcat (map (\<lambda>i. ucast (drop_bit (8 * i) v) :: u8) (rev [0..<8]))"
    by (simp only: load64_def)
  also have "\<dots> = v"
    unfolding word_rcat_def o_def rev_map rev_rev_ident
    by (rule bit_word_eqI)
      (auto simp: bit_simps bit_horner_sum_uint_exp_iff [where ?'a = 8, simplified] less_mult_imp_div_less)
  finally show ?thesis .
qed

text \<open>Accesses to different aligned cells do not interfere.\<close>

definition aligned8 :: "u64 \<Rightarrow> bool" where
  "aligned8 a \<longleftrightarrow> 8 dvd unat a"

definition aligned4k :: "u64 \<Rightarrow> bool" where
  "aligned4k a \<longleftrightarrow> 4096 dvd unat a"

lemma dvd_diff_word:
  fixes a b :: u64
  assumes "d dvd unat a" "d dvd unat b" "d dvd 2 ^ 64"
  shows "d dvd unat (a - b)"
proof (cases "b \<le> a")
  case True
  then have "unat (a - b) = unat a - unat b" by (simp add: unat_sub)
  with assms show ?thesis by simp
next
  case False
  then have "\<not> unat b \<le> unat a" by (simp add: word_le_nat_alt)
  then have "unat (a - b) = unat a + 2 ^ 64 - unat b" by (simp add: unat_sub_if')
  with assms show ?thesis by (auto intro: dvd_diff_nat)
qed

lemma dvd_gap:
  fixes a b x :: u64
  assumes "d dvd unat a" "d dvd unat b" "d dvd 2 ^ 64" "a \<noteq> b" "unat x < d"
  shows "d \<le> unat (b + x - a)"
proof -
  have k: "d dvd unat (b - a)" by (rule dvd_diff_word) (use assms in auto)
  moreover have "unat (b - a) \<noteq> 0" using assms(4) by (simp add: unat_eq_zero)
  ultimately have ge: "d \<le> unat (b - a)" by (auto dest: dvd_imp_le)
  obtain q where q: "unat (b - a) = d * q" using k by auto
  obtain r where r: "2 ^ 64 = d * r" using assms(3) by (rule dvdE)
  have "unat (b - a) < 2 ^ 64" by (rule order_less_le_trans [OF unsigned_less]) simp
  then have "d * q < d * r" using q r by simp
  then have "q < r" by simp
  then have "d * Suc q \<le> d * r" by (intro mult_le_mono2) simp
  then have "unat (b - a) + unat x < 2 ^ 64" using q r assms(5) by simp
  then have u: "unat ((b - a) + x) = unat (b - a) + unat x" by (subst unat_add_lem [THEN iffD1]) simp_all
  have e: "b + x - a = (b - a) + x" by simp
  show ?thesis unfolding e u using ge by simp
qed

lemma load64_store64_other:
  assumes "aligned8 a" "aligned8 b" "a \<noteq> b"
  shows "load64 (store64 m a v) b = load64 m b"
proof (rule load64_cong)
  fix i :: nat
  assume i: "i < 8"
  have "8 \<le> unat (b + of_nat i - a)"
    by (rule dvd_gap) (use assms i in \<open>auto simp: aligned8_def unat_of_nat_8\<close>)
  then have "\<not> b + of_nat i - a < 8" by (simp add: word_less_nat_alt)
  then show "store64 m a v (b + of_nat i) = m (b + of_nat i)" by (simp add: store64_def)
qed

lemma aligned4k_8: "aligned4k a \<Longrightarrow> aligned8 a"
  unfolding aligned4k_def aligned8_def by (rule dvd_trans [of _ 4096]) simp_all

end
