(* ===== verification/Pmm.thy ===== *)
theory Pmm
  imports Phys
begin

text \<open>
  The physical frame allocator, \<^verbatim>\<open>src/core/pmm.c\<close>: one singly linked free list per cache colour,
  threaded through the first word of each free frame. The state is the allocator's static data
  together with physical memory. The address of the end of the kernel image, which the linker
  provides, is an argument of \<open>pmm_init\<close>.
\<close>

section \<open>State\<close>

definition PMM_NUM_COLORS :: nat where "PMM_NUM_COLORS = 8"
definition PMM_COLOR_ANY :: int where "PMM_COLOR_ANY = -1"
definition PMM_MAX_RESERVED_REGIONS :: nat where "PMM_MAX_RESERVED_REGIONS = 16"
definition ROBU_IDENTITY_MAP_LIMIT :: u64 where "ROBU_IDENTITY_MAP_LIMIT = 0x40000000"

record pmm =
  free_head :: "paddr list"
  next_color :: nat
  total_frames :: u64
  free_frames :: u64
  free_by_color :: "u64 list"
  alloc_calls :: u64
  free_calls :: u64

type_synonym pmm_st = "pmm \<times> mem"

section \<open>Operations\<close>

definition color_of :: "paddr \<Rightarrow> nat" where
  "color_of frame = unat (drop_bit 12 frame AND 7)"

definition pmm_free :: "paddr \<Rightarrow> pmm_st \<Rightarrow> pmm_st" where
  "pmm_free frame st =
     (let (p, m) = st; c = color_of frame
      in (p\<lparr>free_head := (free_head p)[c := frame], free_frames := free_frames p + 1,
            free_by_color := (free_by_color p)[c := free_by_color p ! c + 1],
            free_calls := free_calls p + 1\<rparr>,
          store64 m frame (free_head p ! c)))"

text \<open>The search for a colour with a free frame, round robin from \<open>next_color\<close>.\<close>

fun pmm_pick :: "nat \<Rightarrow> pmm \<Rightarrow> pmm \<times> nat option" where
  "pmm_pick 0 p = (p, None)"
| "pmm_pick (Suc i) p =
     (let c = next_color p; p1 = p\<lparr>next_color := (c + 1) mod PMM_NUM_COLORS\<rparr>
      in if free_head p ! c \<noteq> 0 then (p1, Some c) else pmm_pick i p1)"

definition pmm_take :: "nat \<Rightarrow> pmm_st \<Rightarrow> paddr \<times> pmm_st" where
  "pmm_take c st =
     (let (p, m) = st; frame = free_head p ! c
      in if frame = 0 then (0, p, m)
         else (frame,
               p\<lparr>free_head := (free_head p)[c := load64 m frame], free_frames := free_frames p - 1,
                 free_by_color := (free_by_color p)[c := free_by_color p ! c - 1],
                 alloc_calls := alloc_calls p + 1\<rparr>,
               zero_range m frame PAGE_SIZE_4K))"

definition pmm_alloc :: "int \<Rightarrow> pmm_st \<Rightarrow> paddr \<times> pmm_st" where
  "pmm_alloc color st =
     (if color = PMM_COLOR_ANY
      then (case pmm_pick PMM_NUM_COLORS (fst st) of
              (p, None) \<Rightarrow> (0, p, snd st)
            | (p, Some c) \<Rightarrow> pmm_take c (p, snd st))
      else pmm_take (nat color) st)"

definition frame_reserved :: "(paddr \<times> u64) list \<Rightarrow> paddr \<Rightarrow> bool" where
  "frame_reserved reserves f \<longleftrightarrow>
     (\<exists>(b, l) \<in> set reserves. l \<noteq> 0 \<and> f + PAGE_SIZE_4K > b \<and> f < b + l)"

text \<open>The frames that the loop \<^verbatim>\<open>for (f = floor; f < ceiling; f += PAGE_SIZE_4K)\<close> visits.\<close>

definition pmm_loop_frames :: "paddr \<Rightarrow> paddr \<Rightarrow> paddr list" where
  "pmm_loop_frames lo hi =
     map (\<lambda>i. lo + of_nat i * PAGE_SIZE_4K) [0..<(unat hi - unat lo + 4095) div 4096]"

definition pmm_init :: "paddr \<Rightarrow> paddr \<Rightarrow> u64 \<Rightarrow> (paddr \<times> u64) list \<Rightarrow> mem \<Rightarrow> pmm_st" where
  "pmm_init kernel_end base len reserves m =
     (let p = \<lparr>free_head = replicate PMM_NUM_COLORS 0, next_color = 0, total_frames = 0, free_frames = 0,
               free_by_color = replicate PMM_NUM_COLORS 0, alloc_calls = 0, free_calls = 0\<rparr>;
          lo = align_up kernel_end PAGE_SIZE_4K;
          lo = (if lo < base then base else lo);
          hi = base + len;
          hi = (if hi > ROBU_IDENTITY_MAP_LIMIT then ROBU_IDENTITY_MAP_LIMIT else hi)
      in if lo \<ge> hi then (p, m)
         else (let reserves = take PMM_MAX_RESERVED_REGIONS reserves;
                   usable = filter (\<lambda>f. \<not> frame_reserved reserves f) (pmm_loop_frames lo hi);
                   (p, m) = fold pmm_free usable (p, m)
               in (p\<lparr>total_frames := of_nat (length usable), free_calls := 0\<rparr>, m)))"

section \<open>Contract of a frame allocator\<close>

text \<open>\<open>rep s F\<close> reads: in state \<open>s\<close>, \<open>F\<close> is the set of free frames. The two list operations are the
  loops of clients that take or return several frames.\<close>

fun take_frames :: "('s \<Rightarrow> paddr \<times> 's) \<Rightarrow> nat \<Rightarrow> 's \<Rightarrow> paddr list \<times> 's" where
  "take_frames alloc 0 s = ([], s)"
| "take_frames alloc (Suc n) s =
     (case alloc s of (f, s1) \<Rightarrow>
        if f = 0 then ([], s1)
        else (case take_frames alloc n s1 of (fs, s2) \<Rightarrow> (f # fs, s2)))"

definition in_page :: "paddr \<Rightarrow> paddr \<Rightarrow> bool" where
  "in_page f x \<longleftrightarrow> x - f < PAGE_SIZE_4K"

locale frame_allocator =
  fixes rep :: "'s \<Rightarrow> paddr set \<Rightarrow> bool"
    and alloc :: "'s \<Rightarrow> paddr \<times> 's"
    and free :: "paddr \<Rightarrow> 's \<Rightarrow> 's"
    and mem_of :: "'s \<Rightarrow> mem"
  assumes rep_finite: "rep s F \<Longrightarrow> finite F"
    and rep_frame: "rep s F \<Longrightarrow> f \<in> F \<Longrightarrow> aligned4k f \<and> f \<noteq> 0"
    and alloc_none: "rep s {} \<Longrightarrow> alloc s = (f, s') \<Longrightarrow> f = 0 \<and> rep s' {} \<and> mem_of s' = mem_of s"
    and alloc_some: "rep s F \<Longrightarrow> F \<noteq> {} \<Longrightarrow> alloc s = (f, s') \<Longrightarrow> f \<in> F \<and> rep s' (F - {f})
       \<and> mem_of s' = zero_range (mem_of s) f PAGE_SIZE_4K"
    and free_rep: "rep s F \<Longrightarrow> aligned4k f \<Longrightarrow> f \<noteq> 0 \<Longrightarrow> f \<notin> F \<Longrightarrow> rep (free f s) (insert f F)"
    and free_mem: "rep s F \<Longrightarrow> aligned4k f \<Longrightarrow> \<not> in_page f x \<Longrightarrow> mem_of (free f s) x = mem_of s x"
begin

lemma alloc_cases:
  assumes "rep s F" "alloc s = (f, s')"
  shows "if f = 0 then F = {} \<and> rep s' {} \<and> mem_of s' = mem_of s
     else f \<in> F \<and> aligned4k f \<and> rep s' (F - {f}) \<and> mem_of s' = zero_range (mem_of s) f PAGE_SIZE_4K"
  using assms alloc_none [of s f s'] alloc_some [OF assms(1) _ assms(2)] rep_frame [of s F f]
  by (cases "F = {}") auto

lemma take_frames_spec:
  assumes "rep s F" "take_frames alloc n s = (fs, s')"
  shows "distinct fs \<and> set fs \<subseteq> F \<and> rep s' (F - set fs) \<and> length fs = min n (card F)"
  using assms
proof (induction n arbitrary: s F fs s')
  case 0
  then show ?case by simp
next
  case (Suc n)
  obtain f s1 where a: "alloc s = (f, s1)" by (cases "alloc s")
  note c = alloc_cases [OF Suc.prems(1) a]
  show ?case
  proof (cases "f = 0")
    case True
    with c a Suc.prems show ?thesis by auto
  next
    case False
    obtain gs s2 where t: "take_frames alloc n s1 = (gs, s2)" by (cases "take_frames alloc n s1")
    from Suc.prems(2) a False t have e: "fs = f # gs" "s' = s2" by auto
    from c False have r: "rep s1 (F - {f})" and f: "f \<in> F" by auto
    note ih = Suc.IH [OF r t]
    have "card F = Suc (card (F - {f}))" using card_Suc_Diff1 [OF rep_finite [OF Suc.prems(1)] f] by simp
    moreover have "F - {f} - set gs = F - set (f # gs)" by auto
    ultimately show ?thesis using ih f unfolding e by auto
  qed
qed

text \<open>Giving back what was taken restores the free set.\<close>

lemma free_all:
  assumes "rep s F" "distinct fs" "\<forall>f \<in> set fs. aligned4k f \<and> f \<noteq> 0 \<and> f \<notin> F"
  shows "rep (fold free fs s) (F \<union> set fs)"
  using assms
proof (induction fs arbitrary: s F)
  case Nil
  then show ?case by simp
next
  case (Cons f fs)
  then have "rep (free f s) (insert f F)" by (intro free_rep) auto
  from Cons.IH [OF this] Cons.prems have "rep (fold free fs (free f s)) (insert f F \<union> set fs)" by auto
  then show ?case by simp
qed

lemma take_free_roundtrip:
  assumes "rep s F" "take_frames alloc n s = (fs, s')"
  shows "rep (fold free fs s') F"
proof -
  note t = take_frames_spec [OF assms]
  have "rep (fold free fs s') (F - set fs \<union> set fs)"
    by (rule free_all) (use t rep_frame [OF assms(1)] in auto)
  with t show ?thesis by (simp add: Un_absorb2)
qed

end

section \<open>The free lists represent a set of frames\<close>

fun frame_list :: "mem \<Rightarrow> paddr \<Rightarrow> paddr list \<Rightarrow> bool" where
  "frame_list m h [] \<longleftrightarrow> h = 0"
| "frame_list m h (f # fs) \<longleftrightarrow> h = f \<and> f \<noteq> 0 \<and> frame_list m (load64 m f) fs"

definition color_list :: "pmm_st \<Rightarrow> nat \<Rightarrow> paddr list \<Rightarrow> bool" where
  "color_list st c fs \<longleftrightarrow> frame_list (snd st) (free_head (fst st) ! c) fs \<and> distinct fs
     \<and> (\<forall>f \<in> set fs. aligned4k f \<and> color_of f = c) \<and> free_by_color (fst st) ! c = of_nat (length fs)"

definition pmm_lists :: "pmm_st \<Rightarrow> (nat \<Rightarrow> paddr list) \<Rightarrow> bool" where
  "pmm_lists st fs \<longleftrightarrow> length (free_head (fst st)) = PMM_NUM_COLORS \<and> length (free_by_color (fst st)) = PMM_NUM_COLORS
     \<and> next_color (fst st) < PMM_NUM_COLORS \<and> (\<forall>c < PMM_NUM_COLORS. color_list st c (fs c))
     \<and> free_frames (fst st) = (\<Sum>c < PMM_NUM_COLORS. of_nat (length (fs c)))"

definition pmm_rep :: "pmm_st \<Rightarrow> paddr set \<Rightarrow> bool" where
  "pmm_rep st F \<longleftrightarrow> (\<exists>fs. pmm_lists st fs \<and> F = (\<Union>c < PMM_NUM_COLORS. set (fs c)))"

lemma color_of_less: "color_of f < PMM_NUM_COLORS"
proof -
  have m: "(7 :: u64) = mask 3" by (simp add: mask_eq_exp_minus_1)
  show ?thesis unfolding color_of_def m unat_and_mask by (simp add: PMM_NUM_COLORS_def)
qed

lemma frame_list_nonzero: "frame_list m h fs \<Longrightarrow> f \<in> set fs \<Longrightarrow> f \<noteq> 0"
  by (induction fs arbitrary: h) auto

lemma frame_list_head: "frame_list m h fs \<Longrightarrow> h \<noteq> 0 \<Longrightarrow> \<exists>gs. fs = h # gs"
  by (cases fs) auto

lemma frame_list_zero: "frame_list m 0 fs \<Longrightarrow> fs = []"
  by (cases fs) auto

lemma frame_list_cong:
  "frame_list m h fs \<Longrightarrow> (\<And>f. f \<in> set fs \<Longrightarrow> load64 m' f = load64 m f) \<Longrightarrow> frame_list m' h fs"
  by (induction fs arbitrary: h) auto

lemma load64_outside_page:
  assumes "aligned4k a" "aligned4k b" "a \<noteq> b" "\<And>x. \<not> in_page a x \<Longrightarrow> m' x = m x"
  shows "load64 m' b = load64 m b"
proof (rule load64_cong)
  fix i :: nat
  assume i: "i < 8"
  have "4096 \<le> unat (b + of_nat i - a)"
    by (rule dvd_gap) (use assms i in \<open>auto simp: aligned4k_def unat_of_nat_8\<close>)
  then have "\<not> in_page a (b + of_nat i)" by (simp add: in_page_def PAGE_SIZE_4K_def word_less_nat_alt)
  then show "m' (b + of_nat i) = m (b + of_nat i)" by (rule assms(4))
qed

lemma zero_range_outside: "\<not> in_page f x \<Longrightarrow> zero_range m f PAGE_SIZE_4K x = m x"
  by (simp add: zero_range_def in_page_def)

lemma store64_outside: "\<not> in_page f x \<Longrightarrow> store64 m f v x = m x"
proof -
  assume "\<not> in_page f x"
  then have "\<not> x - f < 8" by (simp add: in_page_def PAGE_SIZE_4K_def word_less_nat_alt)
  then show ?thesis by (simp add: store64_def)
qed

text \<open>A change of one frame outside a list, of the head of another colour and of the counters keeps
  the list.\<close>

lemma color_list_other:
  assumes "color_list (p, m) c fs" "aligned4k f" "f \<notin> set fs" "\<And>x. \<not> in_page f x \<Longrightarrow> m' x = m x"
    and "free_head p' ! c = free_head p ! c" "free_by_color p' ! c = free_by_color p ! c"
  shows "color_list (p', m') c fs"
proof -
  have "load64 m' g = load64 m g" if "g \<in> set fs" for g
    using assms that by (intro load64_outside_page [of f]) (auto simp: color_list_def)
  with assms show ?thesis by (auto simp: color_list_def intro: frame_list_cong)
qed

lemma sum_update_add:
  "c < (n :: nat) \<Longrightarrow> (\<Sum>d < n. of_nat (length ((fs(c := x # fs c)) d))) = (\<Sum>d < n. of_nat (length (fs d))) + (1 :: u64)"
  by (subst sum.remove [of _ c]; simp) (subst (2) sum.remove [of _ c]; simp)

lemma pmm_lists_free:
  assumes l: "pmm_lists (p, m) fs" and f: "aligned4k f" "f \<noteq> 0" "f \<notin> set (fs (color_of f))"
  shows "pmm_lists (pmm_free f (p, m)) (fs(color_of f := f # fs (color_of f)))"
proof -
  let ?c = "color_of f"
  note cl = color_of_less [of f]
  obtain p' m' where st: "pmm_free f (p, m) = (p', m')" by (cases "pmm_free f (p, m)")
  have p': "free_head p' = (free_head p)[?c := f]" "free_by_color p' = (free_by_color p)[?c := free_by_color p ! ?c + 1]"
    "next_color p' = next_color p" "free_frames p' = free_frames p + 1" and m': "m' = store64 m f (free_head p ! ?c)"
    using st by (auto simp: pmm_free_def Let_def)
  have out: "\<And>x. \<not> in_page f x \<Longrightarrow> m' x = m x" unfolding m' by (rule store64_outside)
  have len: "length (free_head p) = PMM_NUM_COLORS" "length (free_by_color p) = PMM_NUM_COLORS"
    using l by (auto simp: pmm_lists_def)
  have "color_list (p', m') d ((fs(?c := f # fs ?c)) d)" if d: "d < PMM_NUM_COLORS" for d
  proof (cases "d = ?c")
    case True
    have old: "color_list (p, m) ?c (fs ?c)" using l cl by (simp add: pmm_lists_def)
    then have "load64 m' g = load64 m g" if "g \<in> set (fs ?c)" for g
      using f that out by (intro load64_outside_page [of f]) (auto simp: color_list_def)
    then have "frame_list m' (free_head p ! ?c) (fs ?c)"
      using old by (auto simp: color_list_def intro!: frame_list_cong [of m])
    with old f True p' len cl m' show ?thesis by (simp add: color_list_def)
  next
    case False
    have old: "color_list (p, m) d (fs d)" using l d by (simp add: pmm_lists_def)
    with False have "f \<notin> set (fs d)" by (auto simp: color_list_def)
    with False show ?thesis using color_list_other [OF old f(1) _ out] p' by simp
  qed
  moreover have "free_frames p' = (\<Sum>d < PMM_NUM_COLORS. of_nat (length ((fs(?c := f # fs ?c)) d)))"
    unfolding sum_update_add [OF cl] using l p' by (simp add: pmm_lists_def)
  ultimately show ?thesis using l p' unfolding st by (simp add: pmm_lists_def)
qed

lemma sum_update_tl:
  assumes "c < (n :: nat)" "fs c = f # gs"
  shows "(\<Sum>d < n. of_nat (length ((fs(c := gs)) d))) = (\<Sum>d < n. of_nat (length (fs d))) - (1 :: u64)"
  using sum_update_add [OF assms(1), of "fs(c := gs)" f] assms(2) by (simp add: fun_upd_idem)

lemma pmm_lists_take:
  assumes l: "pmm_lists (p, m) fs" and c: "c < PMM_NUM_COLORS" and nz: "free_head p ! c \<noteq> 0"
  shows "\<exists>f gs p' m'. pmm_take c (p, m) = (f, p', m') \<and> fs c = f # gs \<and> f \<noteq> 0 \<and> m' = zero_range m f PAGE_SIZE_4K
     \<and> pmm_lists (p', m') (fs(c := gs))"
proof -
  let ?f = "free_head p ! c"
  have old: "color_list (p, m) c (fs c)" using l c by (simp add: pmm_lists_def)
  then obtain gs where gs: "fs c = ?f # gs" using frame_list_head nz by (force simp: color_list_def)
  let ?m = "zero_range m ?f PAGE_SIZE_4K"
  obtain p' where t: "pmm_take c (p, m) = (?f, p', ?m)"
    and p': "free_head p' = (free_head p)[c := load64 m ?f]" "free_by_color p' = (free_by_color p)[c := free_by_color p ! c - 1]"
    "next_color p' = next_color p" "free_frames p' = free_frames p - 1"
    using nz by (auto simp: pmm_take_def Let_def)
  have f: "aligned4k ?f" using old gs by (simp add: color_list_def)
  have len: "length (free_head p) = PMM_NUM_COLORS" "length (free_by_color p) = PMM_NUM_COLORS"
    using l by (auto simp: pmm_lists_def)
  note out = zero_range_outside [of ?f _ m]
  have "color_list (p', ?m) d ((fs(c := gs)) d)" if d: "d < PMM_NUM_COLORS" for d
  proof (cases "d = c")
    case True
    have "load64 ?m g = load64 m g" if "g \<in> set gs" for g
      using that old gs f by (intro load64_outside_page [of ?f] out) (auto simp: color_list_def)
    then have "frame_list ?m (load64 m ?f) gs" using old gs by (auto simp: color_list_def intro!: frame_list_cong [of m])
    with old gs True p' len c show ?thesis by (simp add: color_list_def)
  next
    case False
    have od: "color_list (p, m) d (fs d)" using l d by (simp add: pmm_lists_def)
    with False old gs have "?f \<notin> set (fs d)" by (auto simp: color_list_def)
    with False show ?thesis using color_list_other [OF od f _ out] p' by simp
  qed
  moreover have "free_frames p' = (\<Sum>d < PMM_NUM_COLORS. of_nat (length ((fs(c := gs)) d)))"
    unfolding sum_update_tl [where fs = fs, OF c gs] using l p' by (simp add: pmm_lists_def)
  ultimately have "pmm_lists (p', ?m) (fs(c := gs))" using l p' by (simp add: pmm_lists_def)
  with t gs nz show ?thesis by blast
qed

text \<open>The colour search finds a non-empty list if there is one: eight steps visit all colours.\<close>

lemma pmm_pick_none:
  "next_color p < PMM_NUM_COLORS \<Longrightarrow> pmm_pick n p = (p', None) \<Longrightarrow> j < n \<Longrightarrow>
    free_head p ! ((next_color p + j) mod PMM_NUM_COLORS) = 0"
proof (induction n arbitrary: p j)
  case 0
  then show ?case by simp
next
  case (Suc n)
  let ?c = "next_color p" and ?p = "p\<lparr>next_color := (next_color p + 1) mod PMM_NUM_COLORS\<rparr>"
  from Suc.prems(2) have z: "free_head p ! ?c = 0" and r: "pmm_pick n ?p = (p', None)"
    by (auto simp: Let_def split: if_splits)
  show ?case
  proof (cases j)
    case 0
    with z Suc.prems(1) show ?thesis by simp
  next
    case (Suc i)
    from Suc.IH [of ?p i] r Suc Suc.prems have "free_head ?p ! ((next_color ?p + i) mod PMM_NUM_COLORS) = 0"
      by (simp add: PMM_NUM_COLORS_def)
    then show ?thesis using Suc by (simp add: mod_add_left_eq)
  qed
qed

lemma pmm_pick_keeps:
  "next_color p < PMM_NUM_COLORS \<Longrightarrow> pmm_pick n p = (p', r) \<Longrightarrow>
    next_color p' < PMM_NUM_COLORS \<and> p' = p\<lparr>next_color := next_color p'\<rparr>
    \<and> (\<forall>c. r = Some c \<longrightarrow> c < PMM_NUM_COLORS \<and> free_head p ! c \<noteq> 0)"
proof (induction n arbitrary: p)
  case 0
  then show ?case by simp
next
  case (Suc n)
  let ?p = "p\<lparr>next_color := (next_color p + 1) mod PMM_NUM_COLORS\<rparr>"
  have nc: "next_color ?p < PMM_NUM_COLORS" by (simp add: PMM_NUM_COLORS_def)
  show ?case
  proof (cases "free_head p ! next_color p = 0")
    case True
    with Suc.prems have "pmm_pick n ?p = (p', r)" by (simp add: Let_def)
    from Suc.IH [OF nc this] show ?thesis by simp
  next
    case False
    with Suc.prems nc show ?thesis by (auto simp: Let_def)
  qed
qed

lemma pmm_lists_next_color:
  "pmm_lists (p, m) fs \<Longrightarrow> n < PMM_NUM_COLORS \<Longrightarrow> pmm_lists (p\<lparr>next_color := n\<rparr>, m) fs"
  by (simp add: pmm_lists_def color_list_def)

lemma pmm_all_empty:
  assumes "pmm_lists (p, m) fs" "pmm_pick PMM_NUM_COLORS p = (p', None)" "c < PMM_NUM_COLORS"
  shows "fs c = []"
proof -
  have nc: "next_color p < PMM_NUM_COLORS" using assms(1) by (simp add: pmm_lists_def)
  define j where "j = (c + PMM_NUM_COLORS - next_color p) mod PMM_NUM_COLORS"
  have "j < PMM_NUM_COLORS" by (simp add: j_def PMM_NUM_COLORS_def)
  from pmm_pick_none [OF nc assms(2) this] have "free_head p ! ((next_color p + j) mod PMM_NUM_COLORS) = 0" .
  moreover have "(next_color p + j) mod PMM_NUM_COLORS = c"
    using nc assms(3) by (simp add: j_def mod_add_right_eq)
  ultimately have "free_head p ! c = 0" by simp
  then show ?thesis using assms(1,3) by (auto simp: pmm_lists_def color_list_def dest!: frame_list_zero)
qed

lemma pmm_rep_take:
  assumes l: "pmm_lists (p, m) fs" and c: "c < PMM_NUM_COLORS" "free_head p ! c \<noteq> 0"
    and F: "F = (\<Union>c < PMM_NUM_COLORS. set (fs c))" and t: "pmm_take c (p, m) = (f, st')"
  shows "f \<in> F \<and> f \<noteq> 0 \<and> color_of f = c \<and> pmm_rep st' (F - {f}) \<and> snd st' = zero_range m f PAGE_SIZE_4K"
proof -
  from pmm_lists_take [OF l c] t obtain gs where gs: "fs c = f # gs" "f \<noteq> 0" "snd st' = zero_range m f PAGE_SIZE_4K"
    "pmm_lists st' (fs(c := gs))" by auto
  have cl: "color_list (p, m) d (fs d)" if "d < PMM_NUM_COLORS" for d using l that by (simp add: pmm_lists_def)
  have col: "color_of f = c" and nin: "f \<notin> set gs" using cl [OF c(1)] gs(1) by (auto simp: color_list_def)
  have "f \<notin> set (fs d)" if "d < PMM_NUM_COLORS" "d \<noteq> c" for d using cl [OF that(1)] col that(2) by (auto simp: color_list_def)
  then have "(\<Union>d < PMM_NUM_COLORS. set ((fs(c := gs)) d)) \<subseteq> F - {f}"
    using gs(1) nin c(1) unfolding F by (auto split: if_splits)
  moreover have "x \<in> (\<Union>d < PMM_NUM_COLORS. set ((fs(c := gs)) d))" if x: "x \<in> F - {f}" for x
  proof -
    from x obtain d where d: "d < PMM_NUM_COLORS" "x \<in> set (fs d)" by (auto simp: F)
    with x gs(1) show ?thesis by (intro UN_I [of d]) auto
  qed
  ultimately have "(\<Union>d < PMM_NUM_COLORS. set ((fs(c := gs)) d)) = F - {f}" by blast
  then have "pmm_rep st' (F - {f})" using gs(4) unfolding pmm_rep_def by metis
  moreover have "f \<in> F" unfolding F using gs(1) c(1) by (intro UN_I [of c]) auto
  ultimately show ?thesis using gs col by simp
qed

lemma pmm_alloc_any:
  assumes "pmm_rep st F" "pmm_alloc PMM_COLOR_ANY st = (f, st')"
  shows "if f = 0 then F = {} \<and> pmm_rep st' F \<and> snd st' = snd st
     else f \<in> F \<and> pmm_rep st' (F - {f}) \<and> snd st' = zero_range (snd st) f PAGE_SIZE_4K"
proof -
  obtain p m where st: "st = (p, m)" by (cases st)
  obtain fs where l: "pmm_lists (p, m) fs" and F: "F = (\<Union>c < PMM_NUM_COLORS. set (fs c))"
    using assms(1) by (auto simp: pmm_rep_def st)
  obtain p1 r where p: "pmm_pick PMM_NUM_COLORS p = (p1, r)" by (cases "pmm_pick PMM_NUM_COLORS p")
  have "next_color p < PMM_NUM_COLORS" using l by (simp add: pmm_lists_def)
  note k = pmm_pick_keeps [OF this p]
  have p1: "p1 = p\<lparr>next_color := next_color p1\<rparr>" using k by blast
  have l1: "pmm_lists (p1, m) fs" by (subst p1, rule pmm_lists_next_color [OF l]) (use k in blast)
  show ?thesis
  proof (cases r)
    case None
    then have "f = 0" "st' = (p1, m)" using assms(2) p by (auto simp: pmm_alloc_def st)
    moreover have "F = {}" using pmm_all_empty [OF l] p None by (auto simp: F)
    ultimately show ?thesis using l1 F by (auto simp: pmm_rep_def st)
  next
    case (Some c)
    then have t: "pmm_take c (p1, m) = (f, st')" using assms(2) p by (auto simp: pmm_alloc_def st)
    have "free_head p1 = free_head p" by (subst p1) simp
    then have c: "c < PMM_NUM_COLORS" "free_head p1 ! c \<noteq> 0" using k Some by auto
    from pmm_rep_take [OF l1 c F t] show ?thesis by (simp add: st)
  qed
qed

lemma pmm_free_rep:
  assumes "pmm_rep st F" "aligned4k f" "f \<noteq> 0" "f \<notin> F"
  shows "pmm_rep (pmm_free f st) (insert f F)"
proof -
  obtain p m where st: "st = (p, m)" by (cases st)
  obtain fs where l: "pmm_lists (p, m) fs" and F: "F = (\<Union>c < PMM_NUM_COLORS. set (fs c))"
    using assms(1) by (auto simp: pmm_rep_def st)
  note cl = color_of_less [of f]
  have "f \<notin> set (fs (color_of f))" using assms(4) cl by (auto simp: F)
  from pmm_lists_free [OF l assms(2,3) this]
  have "pmm_lists (pmm_free f st) (fs(color_of f := f # fs (color_of f)))" by (simp add: st)
  moreover have "(\<Union>c < PMM_NUM_COLORS. set ((fs(color_of f := f # fs (color_of f))) c)) = insert f F"
    using cl unfolding F by (auto split: if_splits)
  ultimately show ?thesis unfolding pmm_rep_def by metis
qed

interpretation pmm_frames: frame_allocator pmm_rep "pmm_alloc PMM_COLOR_ANY" pmm_free snd
proof unfold_locales
  fix st F f x and st' :: pmm_st
  assume r: "pmm_rep st F"
  then show "finite F" by (auto simp: pmm_rep_def)
  show "f \<in> F \<Longrightarrow> aligned4k f \<and> f \<noteq> 0"
    using r by (auto simp: pmm_rep_def pmm_lists_def color_list_def dest: frame_list_nonzero)
  show "F \<noteq> {} \<Longrightarrow> pmm_alloc PMM_COLOR_ANY st = (f, st') \<Longrightarrow>
      f \<in> F \<and> pmm_rep st' (F - {f}) \<and> snd st' = zero_range (snd st) f PAGE_SIZE_4K"
    using pmm_alloc_any [OF r] by (auto split: if_splits)
  show "aligned4k f \<Longrightarrow> f \<noteq> 0 \<Longrightarrow> f \<notin> F \<Longrightarrow> pmm_rep (pmm_free f st) (insert f F)"
    using pmm_free_rep [OF r] by blast
  show "aligned4k f \<Longrightarrow> \<not> in_page f x \<Longrightarrow> snd (pmm_free f st) x = snd st x"
    by (simp add: pmm_free_def Let_def store64_outside split_beta)
next
  fix st f and st' :: pmm_st
  assume "pmm_rep st {}" "pmm_alloc PMM_COLOR_ANY st = (f, st')"
  from pmm_alloc_any [OF this] show "f = 0 \<and> pmm_rep st' {} \<and> snd st' = snd st" by (auto split: if_splits)
qed

section \<open>Initialisation\<close>

lemma unat_loop_frame:
  assumes "unat hi \<le> 2 ^ 30" "i < (unat hi - unat lo + 4095) div 4096" "lo < hi"
  shows "unat (lo + of_nat i * PAGE_SIZE_4K) = unat lo + i * 4096" "unat lo + i * 4096 < unat hi"
proof -
  have lt: "unat lo < unat hi" using assms(3) by (simp add: word_less_nat_alt)
  have "Suc i \<le> (unat hi - unat lo + 4095) div 4096" using assms(2) by simp
  then have "Suc i * 4096 \<le> unat hi - unat lo + 4095" by (simp add: less_eq_div_iff_mult_less_eq)
  then show b: "unat lo + i * 4096 < unat hi" using lt by simp
  have i: "i < 2 ^ 30" using b assms(1) by simp
  have "unat (of_nat i :: u64) = i" using i by (intro word_of_nat_less_lt) simp
  then have "unat (of_nat i * PAGE_SIZE_4K :: u64) = i * 4096"
    using i by (simp add: PAGE_SIZE_4K_def unat_word_ariths)
  moreover from this b assms(1) have "unat (lo + of_nat i * PAGE_SIZE_4K) = unat lo + unat (of_nat i * PAGE_SIZE_4K :: u64)"
    by (subst unat_add_lem [THEN iffD1]) simp_all
  ultimately show "unat (lo + of_nat i * PAGE_SIZE_4K) = unat lo + i * 4096" by simp
qed

lemma pmm_loop_frames_set:
  assumes "aligned4k lo" "lo < hi" "unat hi \<le> 2 ^ 30"
  shows "set (pmm_loop_frames lo hi) = {f. aligned4k f \<and> lo \<le> f \<and> f < hi}" "distinct (pmm_loop_frames lo hi)"
proof -
  let ?k = "(unat hi - unat lo + 4095) div 4096" and ?f = "\<lambda>i. lo + of_nat i * PAGE_SIZE_4K :: u64"
  note u = unat_loop_frame [OF assms(3) _ assms(2)]
  show "distinct (pmm_loop_frames lo hi)" unfolding pmm_loop_frames_def distinct_map
    by (auto intro!: inj_onI dest!: arg_cong [where f = unat] simp: u)
  have "?f i \<in> {f. aligned4k f \<and> lo \<le> f \<and> f < hi}" if "i < ?k" for i
    using u [OF that] assms(1) by (simp add: aligned4k_def word_le_nat_alt word_less_nat_alt)
  moreover have "f \<in> ?f ` {..< ?k}" if f: "aligned4k f" "lo \<le> f" "f < hi" for f
  proof -
    have le: "unat lo \<le> unat f" "unat f < unat hi" using f by (simp_all add: word_le_nat_alt word_less_nat_alt)
    have "4096 dvd unat f - unat lo" using f(1) assms(1) by (simp add: aligned4k_def)
    then obtain i where i: "unat f = unat lo + i * 4096" using le by (auto simp: dvd_def) (metis le_add_diff_inverse mult.commute)
    have "i * 4096 < unat hi - unat lo" using i le by simp
    then have "i < ?k" by (simp add: less_eq_div_iff_mult_less_eq Suc_le_eq [symmetric])
    then show ?thesis using u [of i] i by (intro image_eqI [of _ _ i]) (simp_all add: word_unat_eq_iff)
  qed
  ultimately show "set (pmm_loop_frames lo hi) = {f. aligned4k f \<and> lo \<le> f \<and> f < hi}"
    unfolding pmm_loop_frames_def by (auto simp: atLeast0LessThan)
qed

lemma pmm_rep_empty:
  "pmm_rep (\<lparr>free_head = replicate PMM_NUM_COLORS 0, next_color = 0, total_frames = a, free_frames = 0,
      free_by_color = replicate PMM_NUM_COLORS 0, alloc_calls = b, free_calls = c\<rparr>, m) {}"
  unfolding pmm_rep_def
  by (intro exI [of _ "\<lambda>_. []"]) (auto simp: pmm_lists_def color_list_def PMM_NUM_COLORS_def)

lemma pmm_rep_stats: "pmm_rep (p, m) F \<Longrightarrow> pmm_rep (p\<lparr>total_frames := a, free_calls := b\<rparr>, m) F"
  by (simp add: pmm_rep_def pmm_lists_def color_list_def)

text \<open>The bounds that \<open>pmm_init\<close> computes.\<close>

definition pmm_lo :: "paddr \<Rightarrow> paddr \<Rightarrow> paddr" where
  "pmm_lo kernel_end base = (let lo = align_up kernel_end PAGE_SIZE_4K in if lo < base then base else lo)"

definition pmm_hi :: "paddr \<Rightarrow> u64 \<Rightarrow> paddr" where
  "pmm_hi base len = (if base + len > ROBU_IDENTITY_MAP_LIMIT then ROBU_IDENTITY_MAP_LIMIT else base + len)"

lemma pmm_lo_aligned:
  assumes "aligned4k base" "0 < kernel_end" "unat kernel_end < 2 ^ 63"
  shows "aligned4k (pmm_lo kernel_end base)" "pmm_lo kernel_end base \<noteq> 0"
proof -
  let ?u = "(kernel_end + 4095) AND NOT 4095"
  have e: "align_up kernel_end PAGE_SIZE_4K = ?u" by (simp add: align_up_def PAGE_SIZE_4K_def algebra_simps)
  have "unat (kernel_end + 4095) = unat kernel_end + 4095" using assms(3) by (subst unat_add_lem [THEN iffD1]) simp_all
  then have u: "unat ?u = unat kernel_end + 4095 - (unat kernel_end + 4095) mod 4096"
    using unat_page_round [of "kernel_end + 4095"] by simp
  then have "4096 dvd unat ?u" by (simp add: minus_mod_eq_mult_div)
  then have a: "aligned4k ?u" by (simp add: aligned4k_def)
  have "(unat kernel_end + 4095) mod 4096 \<le> 4095" using mod_less_divisor [of 4096 "unat kernel_end + 4095"] by linarith
  moreover have "0 < unat kernel_end" using assms(2) by (simp add: word_less_nat_alt)
  ultimately have "unat ?u \<noteq> 0" using u by linarith
  then have nz: "?u \<noteq> 0" by (simp add: unat_eq_zero)
  show "aligned4k (pmm_lo kernel_end base)" using a assms(1) by (simp add: pmm_lo_def e Let_def)
  show "pmm_lo kernel_end base \<noteq> 0" using nz by (auto simp: pmm_lo_def e Let_def)
qed

section \<open>Examples\<close>

text \<open>An allocator with two free frames.\<close>

definition pmm_ex :: pmm_st where
  "pmm_ex = pmm_free 0x6000 (pmm_free 0x5000
     (\<lparr>free_head = replicate PMM_NUM_COLORS 0, next_color = 0, total_frames = 0, free_frames = 0,
       free_by_color = replicate PMM_NUM_COLORS 0, alloc_calls = 0, free_calls = 0\<rparr>, \<lambda>_. 1))"

lemma pmm_ex_rep: "pmm_rep pmm_ex {0x5000, 0x6000}"
proof -
  have "pmm_rep pmm_ex {0x6000, 0x5000}" unfolding pmm_ex_def
    by (intro pmm_free_rep pmm_rep_empty) (simp_all add: aligned4k_def)
  then show ?thesis by (simp add: insert_commute)
qed

lemma pmm_ex_usable:
  "{f :: u64. aligned4k f \<and> pmm_lo 0x1234 0 \<le> f \<and> f < pmm_hi 0 0x5000
      \<and> \<not> frame_reserved (take PMM_MAX_RESERVED_REGIONS [(0x3000, 1)]) f} = {0x2000, 0x4000}"
proof -
  have b: "pmm_lo 0x1234 0 = 0x2000" "pmm_hi 0 0x5000 = 0x5000"
    by (simp_all add: pmm_lo_def pmm_hi_def align_up_def PAGE_SIZE_4K_def ROBU_IDENTITY_MAP_LIMIT_def)
  have "{f. aligned4k f \<and> 0x2000 \<le> f \<and> f < 0x5000} = set (pmm_loop_frames 0x2000 0x5000)"
    by (subst pmm_loop_frames_set) (simp_all add: aligned4k_def)
  also have "\<dots> = {0x2000, 0x3000, 0x4000}"
    by (simp add: pmm_loop_frames_def PAGE_SIZE_4K_def upt_rec)
  finally have s: "aligned4k f \<and> 0x2000 \<le> f \<and> f < 0x5000 \<longleftrightarrow> f = 0x2000 \<or> f = 0x3000 \<or> f = 0x4000" for f by blast
  have r: "frame_reserved (take PMM_MAX_RESERVED_REGIONS [(0x3000, 1)]) f \<longleftrightarrow> f + 0x1000 > 0x3000 \<and> f < 0x3001" for f
    by (simp add: frame_reserved_def PMM_MAX_RESERVED_REGIONS_def PAGE_SIZE_4K_def)
  have "{f. aligned4k f \<and> 0x2000 \<le> f \<and> f < 0x5000 \<and> \<not> (f + 0x1000 > 0x3000 \<and> f < 0x3001)} = {0x2000, 0x4000 :: u64}"
  proof (rule set_eqI)
    fix f :: u64
    show "f \<in> {f. aligned4k f \<and> 0x2000 \<le> f \<and> f < 0x5000 \<and> \<not> (f + 0x1000 > 0x3000 \<and> f < 0x3001)} \<longleftrightarrow> f \<in> {0x2000, 0x4000}"
      using s [of f] by auto
  qed
  then show ?thesis unfolding b r .
qed

section \<open>Properties\<close>

text \<open>C10. Allocation hands out a frame that was free and is free no longer: with \<open>F\<close> the set of free
  frames, \<open>pmm_alloc(PMM_COLOR_ANY)\<close> fails exactly when \<open>F\<close> is empty; otherwise the frame is page
  aligned, comes from \<open>F\<close>, every byte of it reads 0, all other memory is unchanged, and the free
  lists represent exactly the remaining frames.\<close>

theorem pmm_alloc_fresh:
  assumes "pmm_rep st F" "pmm_alloc PMM_COLOR_ANY st = (f, st')"
  shows "(f = 0 \<longleftrightarrow> F = {})
     \<and> (f \<noteq> 0 \<longrightarrow> f \<in> F \<and> aligned4k f \<and> pmm_rep st' (F - {f})
          \<and> (\<forall>x. snd st' x = (if in_page f x then 0 else snd st x)))"
proof (cases "f = 0")
  case True
  with pmm_frames.alloc_cases [OF assms] show ?thesis by simp
next
  case False
  with pmm_frames.alloc_cases [OF assms] have a: "f \<in> F" "aligned4k f" "pmm_rep st' (F - {f})"
    "snd st' = zero_range (snd st) f PAGE_SIZE_4K" by simp_all
  then have "F \<noteq> {}" by auto
  with a False show ?thesis by (simp add: zero_range_def in_page_def)
qed

theorem pmm_alloc_fresh_witness:
  "\<exists>f st'. pmm_rep pmm_ex {0x5000, 0x6000} \<and> pmm_alloc PMM_COLOR_ANY pmm_ex = (f, st')
     \<and> f \<in> {0x5000, 0x6000} \<and> pmm_rep st' ({0x5000, 0x6000} - {f}) \<and> snd st' (f + 9) = 0"
proof -
  obtain f st' where a: "pmm_alloc PMM_COLOR_ANY pmm_ex = (f, st')" by (cases "pmm_alloc PMM_COLOR_ANY pmm_ex")
  from pmm_alloc_fresh [OF pmm_ex_rep a] have "f \<in> {0x5000, 0x6000}" "pmm_rep st' ({0x5000, 0x6000} - {f})"
    "\<forall>x. snd st' x = (if in_page f x then 0 else snd pmm_ex x)" by auto
  with a pmm_ex_rep show ?thesis by (auto simp: in_page_def PAGE_SIZE_4K_def)
qed

text \<open>Taking frames and giving them back loses nothing: allocating up to \<open>n\<close> frames yields
  \<open>min n |F|\<close> pairwise distinct frames of \<open>F\<close>, and freeing these restores the free set \<open>F\<close>.\<close>

theorem pmm_take_free_roundtrip:
  assumes "pmm_rep st F" "take_frames (pmm_alloc PMM_COLOR_ANY) n st = (fs, st')"
  shows "distinct fs \<and> set fs \<subseteq> F \<and> length fs = min n (card F) \<and> pmm_rep st' (F - set fs)
     \<and> pmm_rep (fold pmm_free fs st') F"
  using pmm_frames.take_frames_spec [OF assms] pmm_frames.take_free_roundtrip [OF assms] by blast

theorem pmm_take_free_roundtrip_witness:
  "\<exists>fs st'. take_frames (pmm_alloc PMM_COLOR_ANY) 5 pmm_ex = (fs, st') \<and> length fs = 2 \<and> distinct fs
     \<and> pmm_rep (fold pmm_free fs st') {0x5000, 0x6000}"
proof -
  obtain fs st' where t: "take_frames (pmm_alloc PMM_COLOR_ANY) 5 pmm_ex = (fs, st')"
    by (cases "take_frames (pmm_alloc PMM_COLOR_ANY) 5 pmm_ex")
  from pmm_take_free_roundtrip [OF pmm_ex_rep t] t show ?thesis by auto
qed

text \<open>C33. After \<open>pmm_init\<close> the free frames are exactly the page-aligned frames from the end of the
  kernel image (or the start of the region) up to the end of the region or the identity-map limit
  that no reserved region touches, and the statistics count them.\<close>

theorem pmm_init_frames:
  assumes "aligned4k base" "0 < kernel_end" "unat kernel_end < 2 ^ 63"
    and F_def: "F = {f. aligned4k f \<and> pmm_lo kernel_end base \<le> f \<and> f < pmm_hi base len
                  \<and> \<not> frame_reserved (take PMM_MAX_RESERVED_REGIONS reserves) f}"
  shows "pmm_rep (pmm_init kernel_end base len reserves m) F
     \<and> total_frames (fst (pmm_init kernel_end base len reserves m)) = of_nat (card F)"
proof -
  let ?lo = "pmm_lo kernel_end base" and ?hi = "pmm_hi base len" and ?r = "take PMM_MAX_RESERVED_REGIONS reserves"
  let ?p = "\<lparr>free_head = replicate PMM_NUM_COLORS 0, next_color = 0, total_frames = 0, free_frames = 0,
      free_by_color = replicate PMM_NUM_COLORS 0, alloc_calls = 0, free_calls = 0\<rparr> :: pmm"
  note al = pmm_lo_aligned [OF assms(1-3)]
  have hi: "unat ?hi \<le> 2 ^ 30" by (auto simp: pmm_hi_def ROBU_IDENTITY_MAP_LIMIT_def word_less_nat_alt not_less)
  show ?thesis
  proof (cases "?lo \<ge> ?hi")
    case True
    then have "F = {}" by (auto simp: F_def)
    moreover have "pmm_init kernel_end base len reserves m = (?p, m)"
      using True by (simp add: pmm_init_def pmm_lo_def pmm_hi_def Let_def)
    ultimately show ?thesis using pmm_rep_empty by simp
  next
    case False
    define us where "us = filter (\<lambda>f. \<not> frame_reserved ?r f) (pmm_loop_frames ?lo ?hi)"
    have us: "set us = F" "distinct us"
      using pmm_loop_frames_set [OF al(1) _ hi] False by (auto simp: us_def F_def)
    have "aligned4k f \<and> f \<noteq> 0" if "f \<in> set us" for f
      using that us(1) al(2) F_def by (cases "f = 0") simp_all
    then have ok: "\<forall>f \<in> set us. aligned4k f \<and> f \<noteq> 0 \<and> f \<notin> {}" by blast
    have "pmm_rep (fold pmm_free us (?p, m)) ({} \<union> set us)"
      by (rule pmm_frames.free_all [OF pmm_rep_empty us(2) ok])
    moreover obtain p' m' where f: "fold pmm_free us (?p, m) = (p', m')" by (cases "fold pmm_free us (?p, m)")
    moreover have "pmm_init kernel_end base len reserves m = (p'\<lparr>total_frames := of_nat (length us), free_calls := 0\<rparr>, m')"
      using False f unfolding us_def by (simp add: pmm_init_def pmm_lo_def pmm_hi_def Let_def)
    ultimately show ?thesis using us pmm_rep_stats distinct_card [OF us(2)] by simp
  qed
qed

theorem pmm_init_frames_witness:
  "pmm_rep (pmm_init 0x1234 0 0x5000 [(0x3000, 1)] (\<lambda>_. 0)) {0x2000, 0x4000}"
proof -
  have *: "{f :: u64. aligned4k f \<and> pmm_lo 0x1234 0 \<le> f \<and> f < pmm_hi 0 0x5000
      \<and> \<not> frame_reserved (take PMM_MAX_RESERVED_REGIONS [(0x3000, 1)]) f} = {0x2000, 0x4000}"
    by (rule pmm_ex_usable)
  have "aligned4k 0" "(0 :: u64) < 0x1234" "unat (0x1234 :: u64) < 2 ^ 63" by (simp_all add: aligned4k_def)
  from pmm_init_frames [OF this * [symmetric]] show ?thesis by blast
qed

end
