(* ===== verification/Klib.thy ===== *)
theory Klib
  imports Phys
begin

text \<open>
  The memory and string functions of \<^verbatim>\<open>src/lib/klib.c\<close> on physical memory, byte by byte as the C
  loops run, and the block forms (\<open>zero_range\<close>, \<open>copy_range\<close>) that the other theories use for
  \<^verbatim>\<open>memset\<close> and \<^verbatim>\<open>memcpy\<close>, with the lemmas that relate the two.
\<close>

section \<open>The functions\<close>

fun memset :: "mem \<Rightarrow> u64 \<Rightarrow> u8 \<Rightarrow> nat \<Rightarrow> mem" where
  "memset m p c 0 = m"
| "memset m p c (Suc n) = memset (m(p := c)) (p + 1) c n"

fun memcpy :: "mem \<Rightarrow> u64 \<Rightarrow> u64 \<Rightarrow> nat \<Rightarrow> mem" where
  "memcpy m d s 0 = m"
| "memcpy m d s (Suc n) = memcpy (m(d := m s)) (d + 1) (s + 1) n"

text \<open>The second loop of \<^verbatim>\<open>memmove\<close> copies from the ends \<^verbatim>\<open>d + n\<close> and \<^verbatim>\<open>s + n\<close> downwards.\<close>

fun memcpy_down :: "mem \<Rightarrow> u64 \<Rightarrow> u64 \<Rightarrow> nat \<Rightarrow> mem" where
  "memcpy_down m d s 0 = m"
| "memcpy_down m d s (Suc n) = memcpy_down (m(d - 1 := m (s - 1))) (d - 1) (s - 1) n"

definition memmove :: "mem \<Rightarrow> u64 \<Rightarrow> u64 \<Rightarrow> nat \<Rightarrow> mem" where
  "memmove m d s n =
     (if d < s then memcpy m d s n
      else if d > s then memcpy_down m (d + of_nat n) (s + of_nat n) n
      else m)"

text \<open>\<^verbatim>\<open>strlen\<close> runs until it meets a zero byte, so it has no result in a memory without one.\<close>

partial_function (option) strlen_from :: "mem \<Rightarrow> u64 \<Rightarrow> nat \<Rightarrow> nat option" where
  "strlen_from m p n = (if m p = 0 then Some n else strlen_from m (p + 1) (n + 1))"

definition strlen :: "mem \<Rightarrow> u64 \<Rightarrow> nat option" where
  "strlen m s = strlen_from m s 0"

fun strncmp :: "mem \<Rightarrow> u64 \<Rightarrow> u64 \<Rightarrow> nat \<Rightarrow> int" where
  "strncmp m a b 0 = 0"
| "strncmp m a b (Suc n) =
     (if m a \<noteq> m b then uint (m a) - uint (m b)
      else if m a = 0 then 0
      else strncmp m (a + 1) (b + 1) n)"

fun memcmp :: "mem \<Rightarrow> u64 \<Rightarrow> u64 \<Rightarrow> nat \<Rightarrow> int" where
  "memcmp m a b 0 = 0"
| "memcmp m a b (Suc n) = (if m a \<noteq> m b then uint (m a) - uint (m b) else memcmp m (a + 1) (b + 1) n)"

section \<open>Block forms\<close>

definition copy_range :: "mem \<Rightarrow> u64 \<Rightarrow> u64 \<Rightarrow> u64 \<Rightarrow> mem" where
  "copy_range m d s len = (\<lambda>x. if x - d < len then m (s + (x - d)) else m x)"

text \<open>Bytes of a range, as lists.\<close>

definition bytes_at :: "mem \<Rightarrow> u64 \<Rightarrow> nat \<Rightarrow> u8 list" where
  "bytes_at m a n = map (\<lambda>i. m (a + of_nat i)) [0..<n]"

definition store_bytes :: "mem \<Rightarrow> u64 \<Rightarrow> u8 list \<Rightarrow> mem" where
  "store_bytes m a bs = (\<lambda>x. if unat (x - a) < length bs then bs ! unat (x - a) else m x)"

lemma length_bytes_at [simp]: "length (bytes_at m a n) = n"
  by (simp add: bytes_at_def)

lemma bytes_at_nth [simp]: "i < n \<Longrightarrow> bytes_at m a n ! i = m (a + of_nat i)"
  by (simp add: bytes_at_def)

lemma unat_add1_sub:
  fixes x d :: u64
  assumes "x \<noteq> d"
  shows "unat (x - (d + 1)) = unat (x - d) - 1"
proof -
  have e: "x - (d + 1) = (x - d) - 1" by simp
  show ?thesis unfolding e by (rule unat_minus_one) (use assms in simp)
qed

lemma sub_pos: "x \<noteq> (d::u64) \<Longrightarrow> 0 < unat (x - d)"
  using unat_eq_zero [of "x - d"] by (cases "unat (x - d)") auto

lemma memset_eq: "n < 2 ^ 64 \<Longrightarrow> memset m p c n = (\<lambda>x. if unat (x - p) < n then c else m x)"
proof (induction n arbitrary: m p)
  case 0
  then show ?case by (simp add: fun_eq_iff)
next
  case (Suc n)
  have ih: "memset (m(p := c)) (p + 1) c n = (\<lambda>x. if unat (x - (p + 1)) < n then c else (m(p := c)) x)"
    using Suc by simp
  have "(if unat (x - (p + 1)) < n then c else (m(p := c)) x) = (if unat (x - p) < Suc n then c else m x)" for x
    using unat_add1_sub [of x p] sub_pos [of x p] by (cases "x = p") auto
  then show ?case by (simp add: ih)
qed

lemma memset_zero_range: "memset m p 0 (unat len) = zero_range m p len"
  by (simp add: memset_eq unsigned_less [of len, simplified] zero_range_def word_less_nat_alt)

text \<open>The upward copy reads a byte before it writes over it as long as the destination starts below
  the source or the ranges are disjoint; the downward copy in the other case.\<close>

lemma memcpy_eq:
  "n < 2 ^ 64 \<Longrightarrow> (\<And>i j. i < n \<Longrightarrow> j < n \<Longrightarrow> i < j \<Longrightarrow> d + of_nat i \<noteq> s + of_nat j) \<Longrightarrow>
    memcpy m d s n = (\<lambda>x. if unat (x - d) < n then m (s + (x - d)) else m x)"
proof (induction n arbitrary: m d s)
  case 0
  then show ?case by (simp add: fun_eq_iff)
next
  case (Suc n)
  let ?m = "m(d := m s)"
  have ih: "memcpy ?m (d + 1) (s + 1) n = (\<lambda>x. if unat (x - (d + 1)) < n then ?m (s + 1 + (x - (d + 1))) else ?m x)"
  proof (rule Suc.IH)
    show "n < 2 ^ 64" using Suc.prems(1) by simp
    fix i j :: nat assume "i < n" "j < n" "i < j"
    then show "d + 1 + of_nat i \<noteq> s + 1 + of_nat j" using Suc.prems(2) [of "Suc i" "Suc j"] by (simp add: add_ac)
  qed
  have "(if unat (x - (d + 1)) < n then ?m (s + 1 + (x - (d + 1))) else ?m x) =
      (if unat (x - d) < Suc n then m (s + (x - d)) else m x)" for x
  proof (cases "x = d")
    case False
    have e: "s + 1 + (x - (d + 1)) = s + (x - d)" by simp
    have "s + (x - d) \<noteq> d" if "unat (x - d) < Suc n"
      using Suc.prems(2) [of 0 "unat (x - d)"] that sub_pos [OF False] by auto
    then show ?thesis unfolding e using unat_add1_sub [OF False] sub_pos [OF False] False by auto
  qed simp
  then show ?case by (simp add: ih)
qed

lemma memcpy_down_eq:
  "n < 2 ^ 64 \<Longrightarrow> (\<And>i j. 0 < i \<Longrightarrow> i < j \<Longrightarrow> j \<le> n \<Longrightarrow> d - of_nat i \<noteq> s - of_nat j) \<Longrightarrow>
    memcpy_down m d s n = (\<lambda>x. if unat (x - (d - of_nat n)) < n then m (x + (s - d)) else m x)"
proof (induction n arbitrary: m d s)
  case 0
  then show ?case by (simp add: fun_eq_iff)
next
  case (Suc n)
  let ?m = "m(d - 1 := m (s - 1))" and ?b = "d - of_nat (Suc n)"
  have b: "d - 1 - of_nat n = ?b" and e: "s - 1 - (d - 1) = s - d" by simp_all
  have ih: "memcpy_down ?m (d - 1) (s - 1) n = (\<lambda>x. if unat (x - ?b) < n then ?m (x + (s - d)) else ?m x)"
    unfolding b [symmetric] e [symmetric]
  proof (rule Suc.IH)
    show "n < 2 ^ 64" using Suc.prems(1) by simp
    fix i j :: nat assume "0 < i" "i < j" "j \<le> n"
    then show "d - 1 - of_nat i \<noteq> s - 1 - of_nat j" using Suc.prems(2) [of "Suc i" "Suc j"] by (simp add: algebra_simps)
  qed
  have n: "unat (of_nat n :: u64) = n" using Suc.prems(1) by (intro word_of_nat_less_lt) simp
  have "(if unat (x - ?b) < n then ?m (x + (s - d)) else ?m x) =
      (if unat (x - ?b) < Suc n then m (x + (s - d)) else m x)" for x
  proof (cases "x = d - 1")
    case True
    then show ?thesis by (simp add: n)
  next
    case False
    have "unat (x - ?b) \<noteq> n"
    proof
      assume "unat (x - ?b) = n"
      then have "x - ?b = of_nat n" using n by (metis word_unat_eq_iff)
      then have "x = ?b + of_nat n" by (metis diff_add_cancel add.commute)
      with False show False by simp
    qed
    moreover have "x + (s - d) \<noteq> d - 1" if "unat (x - ?b) < n"
    proof -
      let ?j = "Suc n - unat (x - ?b)"
      have j: "1 < ?j" "?j \<le> Suc n" using that by auto
      have "of_nat ?j = of_nat (Suc n) - (x - ?b)" using that by (simp add: of_nat_diff)
      then have e2: "s - of_nat ?j = x + (s - d)" by simp
      have "d - of_nat 1 \<noteq> s - of_nat ?j" by (rule Suc.prems(2)) (use j in auto)
      then show ?thesis unfolding e2 of_nat_1 by metis
    qed
    ultimately show ?thesis using False by auto
  qed
  then show ?case by (simp add: ih)
qed

lemma unat_add_nat:
  fixes a :: u64
  assumes "unat a + i < 2 ^ 64"
  shows "unat (a + of_nat i) = unat a + i"
proof -
  have "unat (of_nat i :: u64) = i" using assms by (intro word_of_nat_less_lt) simp
  with assms show ?thesis by (subst unat_add_lem [THEN iffD1]) simp_all
qed

text \<open>C37. \<^verbatim>\<open>memmove\<close> copies any two ranges of the address space, overlapping or not: every byte of the
  destination is the byte that the source held before the call, and no other byte changes.\<close>

theorem memmove_correct:
  assumes "unat d + n \<le> 2 ^ 64" "unat s + n \<le> 2 ^ 64" "n < 2 ^ 64"
  shows "memmove m d s n = (\<lambda>x. if unat (x - d) < n then m (s + (x - d)) else m x)"
proof -
  consider "d < s" | "d > s" | "d = s" by force
  then show ?thesis
  proof cases
    case 1
    have "d + of_nat i \<noteq> s + of_nat j" if "i < n" "j < n" "i < j" for i j
    proof -
      have "unat (d + of_nat i) = unat d + i" "unat (s + of_nat j) = unat s + j"
        using assms that by (auto intro!: unat_add_nat)
      with 1 that show ?thesis by (auto simp: word_less_nat_alt)
    qed
    with 1 assms(3) show ?thesis by (simp add: memmove_def memcpy_eq)
  next
    case 2
    have ne: "d + of_nat n - of_nat i \<noteq> s + of_nat n - of_nat j" if "0 < i" "i < j" "j \<le> n" for i j
    proof -
      have e: "d + of_nat n - of_nat i = d + of_nat (n - i)" "s + of_nat n - of_nat j = s + of_nat (n - j)"
        using that by (simp_all add: of_nat_diff)
      have "unat (d + of_nat (n - i)) = unat d + (n - i)" "unat (s + of_nat (n - j)) = unat s + (n - j)"
        by (rule unat_add_nat, use assms that in simp)+
      moreover have "unat s + (n - j) < unat d + (n - i)" using 2 that by (simp add: word_less_nat_alt)
      ultimately show ?thesis unfolding e by (metis less_irrefl)
    qed
    have "memcpy_down m (d + of_nat n) (s + of_nat n) n =
        (\<lambda>x. if unat (x - d) < n then m (x + (s - d)) else m x)"
      using memcpy_down_eq [OF assms(3) ne, of m] by (simp only: add_diff_cancel_right add_diff_cancel_right')
    then show ?thesis using 2 by (auto simp: memmove_def fun_eq_iff algebra_simps)
  next
    case 3
    then show ?thesis by (simp add: memmove_def fun_eq_iff)
  qed
qed

theorem memmove_correct_witness:
  "map (memmove (\<lambda>x. ucast x) 0x101 0x100 3) [0x100, 0x101, 0x102, 0x103, 0x104] = [0, 0, 1, 2, 4]"
  by (subst memmove_correct) (simp_all add: unsigned_minus_1_eq_mask mask_eq_exp_minus_1)

lemma memcpy_copy_range:
  assumes "unat d + unat n \<le> unat s \<or> unat s + unat n \<le> unat d" "unat d + unat n \<le> 2 ^ 64" "unat s + unat n \<le> 2 ^ 64"
  shows "memcpy m d s (unat n) = copy_range m d s n"
proof -
  have lt: "unat n < 2 ^ 64" using unsigned_less [of n] by simp
  have "d + of_nat i \<noteq> s + of_nat j" if "i < unat n" "j < unat n" "i < j" for i j
  proof -
    have "unat (d + of_nat i) = unat d + i" "unat (s + of_nat j) = unat s + j"
      using assms that by (auto intro!: unat_add_nat)
    with assms(1) that show ?thesis by auto
  qed
  with lt show ?thesis by (simp add: memcpy_eq copy_range_def word_less_nat_alt)
qed

end
