(* ===== verification/Bump.thy ===== *)
theory Bump
  imports Phys
begin

text \<open>
  The two regions that are only ever handed out: untyped memory for kernel objects
  (\<^verbatim>\<open>src/core/untyped.c\<close>) and the DMA region for drivers (\<^verbatim>\<open>src/core/dma.c\<close>). Both move a
  watermark over 64-bit offsets. Their common contract is the locale \<open>bump_region\<close>.
\<close>

section \<open>Untyped memory\<close>

record untyped =
  region_base :: paddr
  region_size :: u64
  watermark :: u64

definition untyped_init :: "paddr \<Rightarrow> u64 \<Rightarrow> untyped" where
  "untyped_init base sz = \<lparr>region_base = base, region_size = sz, watermark = 0\<rparr>"

text \<open>The address 0 stands for failure; a fresh range is zeroed.\<close>

definition untyped_alloc :: "u64 \<Rightarrow> untyped \<times> mem \<Rightarrow> paddr \<times> untyped \<times> mem" where
  "untyped_alloc sz st =
     (let (r, m) = st;
          aligned = (sz + PAGE_SIZE_4K - 1) AND NOT (PAGE_SIZE_4K - 1);
          aligned = (if aligned = 0 then PAGE_SIZE_4K else aligned)
      in if watermark r + aligned > region_size r then (0, r, m)
         else (let frame = region_base r + watermark r
               in (frame, r\<lparr>watermark := watermark r + aligned\<rparr>, zero_range m frame aligned)))"

definition untyped_range :: "untyped \<Rightarrow> paddr \<times> u64" where
  "untyped_range r = (region_base r, region_size r)"

section \<open>The DMA region\<close>

record dma_region =
  dma_base :: paddr
  dma_size :: u64
  dma_used :: u64

definition dma_region_init :: "paddr \<Rightarrow> u64 \<Rightarrow> dma_region" where
  "dma_region_init base sz = \<lparr>dma_base = base, dma_size = sz, dma_used = 0\<rparr>"

definition dma_region_alloc :: "u64 \<Rightarrow> dma_region \<Rightarrow> paddr \<times> dma_region" where
  "dma_region_alloc bytes r =
     (let start = (dma_used r + 4095) AND NOT 4095;
          stop = start + ((bytes + 4095) AND NOT 4095)
      in if stop > dma_size r then (0, r)
         else (dma_base r + start, r\<lparr>dma_used := stop\<rparr>))"

definition dma_range :: "dma_region \<Rightarrow> paddr \<times> u64" where
  "dma_range r = (dma_base r, dma_size r)"

section \<open>Contract of a bump allocator\<close>

text \<open>A run of requests, with the ranges that were granted.\<close>

fun bump_run :: "(u64 \<Rightarrow> 'r \<Rightarrow> paddr \<times> 'r) \<Rightarrow> u64 list \<Rightarrow> 'r \<Rightarrow> (paddr \<times> u64) list \<times> 'r" where
  "bump_run alloc [] r = ([], r)"
| "bump_run alloc (n # ns) r =
     (case alloc n r of (a, r1) \<Rightarrow>
        (case bump_run alloc ns r1 of (bs, r2) \<Rightarrow> (if a = 0 then bs else (a, n) # bs, r2)))"

definition range_before :: "paddr \<times> u64 \<Rightarrow> paddr \<times> u64 \<Rightarrow> bool" where
  "range_before x y \<longleftrightarrow> unat (fst x) + unat (snd x) \<le> unat (fst y)"

locale bump_region =
  fixes alloc :: "u64 \<Rightarrow> 'r \<Rightarrow> paddr \<times> 'r"
    and top :: "'r \<Rightarrow> nat"
    and lim :: "'r \<Rightarrow> nat"
    and inv :: "'r \<Rightarrow> bool"
    and small :: "u64 \<Rightarrow> bool"
  assumes top_lim: "inv r \<Longrightarrow> top r \<le> lim r"
    and alloc_grant: "inv r \<Longrightarrow> small n \<Longrightarrow> alloc n r = (a, r') \<Longrightarrow>
       inv r' \<and> lim r' = lim r \<and> top r \<le> top r'
       \<and> (a \<noteq> 0 \<longrightarrow> top r \<le> unat a \<and> unat a + unat n \<le> top r' \<and> aligned4k a)"
begin

lemma run_ranges:
  assumes "inv r" "\<forall>n \<in> set ns. small n" "bump_run alloc ns r = (bs, r')"
  shows "inv r' \<and> lim r' = lim r \<and> top r \<le> top r' \<and> sorted_wrt range_before bs
     \<and> (\<forall>(a, n) \<in> set bs. top r \<le> unat a \<and> unat a + unat n \<le> top r' \<and> aligned4k a)"
  using assms
proof (induction ns arbitrary: r bs r')
  case Nil
  then show ?case by simp
next
  case (Cons n ns)
  obtain a r1 where a: "alloc n r = (a, r1)" by (cases "alloc n r")
  obtain cs r2 where c: "bump_run alloc ns r1 = (cs, r2)" by (cases "bump_run alloc ns r1")
  from Cons.prems(3) a c have e: "r' = r2" "bs = (if a = 0 then cs else (a, n) # cs)" by auto
  from Cons.prems(2) have s: "small n" "\<forall>n \<in> set ns. small n" by auto
  note g = alloc_grant [OF Cons.prems(1) s(1) a]
  from g have i1: "inv r1" by blast
  note ih = Cons.IH [OF i1 s(2) c]
  show ?case
    using g ih unfolding e by (auto simp: range_before_def)
qed

lemma run_within:
  assumes "inv r" "\<forall>n \<in> set ns. small n" "bump_run alloc ns r = (bs, r')" "(a, n) \<in> set bs"
  shows "top r \<le> unat a \<and> unat a + unat n \<le> lim r \<and> aligned4k a"
  using run_ranges [OF assms(1-3)] assms(4) top_lim [of r'] by fastforce

end

section \<open>The regions keep the contract\<close>

text \<open>Regions lie below 2^62 and start on a page boundary; so do requests. The kernel's regions are
  8 and 32 MiB below 1 GiB.\<close>

definition untyped_ok :: "untyped \<times> mem \<Rightarrow> bool" where
  "untyped_ok st \<longleftrightarrow> (let r = fst st in aligned4k (region_base r) \<and> 4096 dvd unat (watermark r)
     \<and> watermark r \<le> region_size r \<and> unat (region_base r) + unat (region_size r) < 2 ^ 62)"

definition untyped_top :: "untyped \<times> mem \<Rightarrow> nat" where
  "untyped_top st = unat (region_base (fst st)) + unat (watermark (fst st))"

definition untyped_lim :: "untyped \<times> mem \<Rightarrow> nat" where
  "untyped_lim st = unat (region_base (fst st)) + unat (region_size (fst st))"

definition dma_ok :: "dma_region \<Rightarrow> bool" where
  "dma_ok r \<longleftrightarrow> aligned4k (dma_base r) \<and> dma_used r \<le> dma_size r
     \<and> unat (dma_base r) + unat (dma_size r) < 2 ^ 62"

definition dma_top :: "dma_region \<Rightarrow> nat" where
  "dma_top r = unat (dma_base r) + unat (dma_used r)"

definition dma_lim :: "dma_region \<Rightarrow> nat" where
  "dma_lim r = unat (dma_base r) + unat (dma_size r)"

definition small_request :: "u64 \<Rightarrow> bool" where
  "small_request n \<longleftrightarrow> unat n < 2 ^ 62"

lemma unat_plus_small:
  fixes a b :: u64
  shows "unat a + unat b < 2 ^ 64 \<Longrightarrow> unat (a + b) = unat a + unat b"
  by (subst unat_add_lem [THEN iffD1]) simp_all

text \<open>Rounding up to pages, without overflow.\<close>

lemma page_up:
  fixes w :: u64
  assumes "unat w < 2 ^ 63"
  shows "unat ((w + 4095) AND NOT 4095) = (unat w + 4095) - (unat w + 4095) mod 4096"
proof -
  have "unat (w + 4095) = unat w + 4095" using assms by (subst unat_plus_small) simp_all
  then show ?thesis using unat_page_round [of "w + 4095"] by simp
qed

lemma page_up_bounds:
  fixes w :: u64
  assumes "unat w < 2 ^ 63"
  shows "unat w \<le> unat ((w + 4095) AND NOT 4095)" "unat ((w + 4095) AND NOT 4095) \<le> unat w + 4095"
    "4096 dvd unat ((w + 4095) AND NOT 4095)"
proof -
  have d: "(unat w + 4095) - (unat w + 4095) mod 4096 = 4096 * ((unat w + 4095) div 4096)"
    by (simp add: minus_mod_eq_mult_div)
  have "(unat w + 4095) mod 4096 \<le> 4095" using mod_less_divisor [of 4096 "unat w + 4095"] by linarith
  then show "unat w \<le> unat ((w + 4095) AND NOT 4095)" unfolding page_up [OF assms] by linarith
  show "unat ((w + 4095) AND NOT 4095) \<le> unat w + 4095" unfolding page_up [OF assms] by simp
  show "4096 dvd unat ((w + 4095) AND NOT 4095)" unfolding page_up [OF assms] d by simp
qed

lemma untyped_alloc_eq:
  assumes ok: "untyped_ok (r, m)" and n: "small_request n" and al: "untyped_alloc n (r, m) = (a, r', m')"
  shows "\<exists>g. 4096 dvd unat g \<and> unat n \<le> unat g \<and> unat g \<noteq> 0 \<and> unat g < 2 ^ 63
     \<and> (if unat (watermark r) + unat g > unat (region_size r) then a = 0 \<and> r' = r \<and> m' = m
         else a = region_base r + watermark r \<and> r' = r\<lparr>watermark := watermark r + g\<rparr> \<and> m' = zero_range m a g)"
proof -
  let ?u = "(n + 4095) AND NOT 4095"
  define g where "g = (if ?u = 0 then 0x1000 else ?u)"
  have n63: "unat n < 2 ^ 63" using n by (simp add: small_request_def)
  note b = page_up_bounds [OF n63]
  have g: "4096 dvd unat g" "unat n \<le> unat g" "unat g \<noteq> 0" "unat g < 2 ^ 62 + 4096"
    using b n by (auto simp: g_def small_request_def unat_eq_zero)
  have w: "unat (watermark r) < 2 ^ 62"
    using ok by (simp add: untyped_ok_def Let_def word_le_nat_alt)
  have "unat (watermark r + g) = unat (watermark r) + unat g"
    using w g(4) by (intro unat_plus_small) simp
  then have c: "(watermark r + g > region_size r) = (unat (watermark r) + unat g > unat (region_size r))"
    by (simp add: word_less_nat_alt)
  have e: "(n + PAGE_SIZE_4K - 1) AND NOT (PAGE_SIZE_4K - 1) = ?u"
    by (simp add: PAGE_SIZE_4K_def algebra_simps)
  have "untyped_alloc n (r, m) = (if watermark r + g > region_size r then (0, r, m)
      else (region_base r + watermark r, r\<lparr>watermark := watermark r + g\<rparr>, zero_range m (region_base r + watermark r) g))"
    unfolding untyped_alloc_def Let_def case_prod_conv e by (simp add: g_def PAGE_SIZE_4K_def)
  with al c g show ?thesis by (intro exI [of _ g]) (auto split: if_splits)
qed

lemma dvd_unat_add:
  fixes a b :: u64
  shows "aligned4k a \<Longrightarrow> 4096 dvd unat b \<Longrightarrow> unat a + unat b < 2 ^ 64 \<Longrightarrow> aligned4k (a + b)"
  by (simp add: aligned4k_def unat_plus_small)

lemma untyped_grant:
  assumes ok: "untyped_ok st" and n: "small_request n" and al: "untyped_alloc n st = (a, st')"
  shows "untyped_ok st' \<and> untyped_lim st' = untyped_lim st \<and> untyped_top st \<le> untyped_top st'
     \<and> (a \<noteq> 0 \<longrightarrow> untyped_top st \<le> unat a \<and> unat a + unat n \<le> untyped_top st' \<and> aligned4k a)"
proof -
  obtain r m r' m' where st: "st = (r, m)" "st' = (r', m')" by (cases st, cases st')
  obtain g where g: "4096 dvd unat g" "unat n \<le> unat g" "unat g < 2 ^ 63"
    and c: "if unat (watermark r) + unat g > unat (region_size r) then a = 0 \<and> r' = r \<and> m' = m
         else a = region_base r + watermark r \<and> r' = r\<lparr>watermark := watermark r + g\<rparr> \<and> m' = zero_range m a g"
    using untyped_alloc_eq [of r m n a r' m'] ok n al st by auto
  have o: "aligned4k (region_base r)" "4096 dvd unat (watermark r)" "unat (watermark r) \<le> unat (region_size r)"
    "unat (region_base r) + unat (region_size r) < 2 ^ 62"
    using ok st by (auto simp: untyped_ok_def Let_def word_le_nat_alt)
  show ?thesis
  proof (cases "unat (watermark r) + unat g > unat (region_size r)")
    case True
    with c ok st show ?thesis by simp
  next
    case False
    have a: "a = region_base r + watermark r" and r': "r' = r\<lparr>watermark := watermark r + g\<rparr>" using c False by auto
    have u: "unat a = unat (region_base r) + unat (watermark r)" unfolding a using o by (intro unat_plus_small) simp
    have w: "unat (watermark r + g) = unat (watermark r) + unat g" using False o by (intro unat_plus_small) simp
    have "aligned4k a" unfolding a using o by (intro dvd_unat_add) simp_all
    with u w r' g o False st show ?thesis
      by (simp add: untyped_ok_def untyped_lim_def untyped_top_def Let_def word_le_nat_alt)
  qed
qed

interpretation untyped: bump_region untyped_alloc untyped_top untyped_lim untyped_ok small_request
proof unfold_locales
  fix st :: "untyped \<times> mem"
  assume "untyped_ok st"
  then show "untyped_top st \<le> untyped_lim st"
    by (simp add: untyped_ok_def untyped_top_def untyped_lim_def Let_def word_le_nat_alt)
qed (rule untyped_grant)

lemma dma_grant:
  assumes ok: "dma_ok r" and n: "small_request n" and al: "dma_region_alloc n r = (a, r')"
  shows "dma_ok r' \<and> dma_lim r' = dma_lim r \<and> dma_top r \<le> dma_top r'
     \<and> (a \<noteq> 0 \<longrightarrow> dma_top r \<le> unat a \<and> unat a + unat n \<le> dma_top r' \<and> aligned4k a)"
proof -
  let ?s = "(dma_used r + 4095) AND NOT 4095" and ?g = "(n + 4095) AND NOT 4095"
  have o: "aligned4k (dma_base r)" "unat (dma_used r) \<le> unat (dma_size r)"
    "unat (dma_base r) + unat (dma_size r) < 2 ^ 62"
    using ok by (auto simp: dma_ok_def word_le_nat_alt)
  have s: "unat (dma_used r) \<le> unat ?s" "unat ?s \<le> unat (dma_used r) + 4095" "4096 dvd unat ?s"
    using page_up_bounds [of "dma_used r"] o by simp_all
  have g: "unat n \<le> unat ?g" "unat ?g \<le> unat n + 4095"
    using page_up_bounds [of n] n by (simp_all add: small_request_def)
  have e: "unat (?s + ?g) = unat ?s + unat ?g"
    using s g o n by (intro unat_plus_small) (simp add: small_request_def)
  show ?thesis
  proof (cases "?s + ?g > dma_size r")
    case True
    with al ok show ?thesis by (simp add: dma_region_alloc_def Let_def)
  next
    case False
    then have a: "a = dma_base r + ?s" and r': "r' = r\<lparr>dma_used := ?s + ?g\<rparr>"
      using al by (auto simp: dma_region_alloc_def Let_def)
    have le: "unat ?s + unat ?g \<le> unat (dma_size r)" using False e by (simp add: word_less_nat_alt)
    have u: "unat a = unat (dma_base r) + unat ?s" unfolding a using le o by (intro unat_plus_small) simp
    have "aligned4k a" unfolding a using o le s by (intro dvd_unat_add) simp_all
    with u e le s g o r' False show ?thesis by (simp add: dma_ok_def dma_top_def dma_lim_def word_le_nat_alt)
  qed
qed

interpretation dma: bump_region dma_region_alloc dma_top dma_lim dma_ok small_request
proof unfold_locales
  fix r :: dma_region
  assume "dma_ok r"
  then show "dma_top r \<le> dma_lim r" by (simp add: dma_ok_def dma_top_def dma_lim_def word_le_nat_alt)
qed (rule dma_grant)

section \<open>Properties\<close>

text \<open>C32. Kernel objects never overlap: over any sequence of requests, the ranges that the untyped
  allocator grants are pairwise disjoint (each ends before the next begins), page aligned and inside
  the region, whatever requests failed in between.\<close>

theorem untyped_ranges_disjoint:
  assumes "untyped_ok st" "\<forall>n \<in> set ns. small_request n" "bump_run untyped_alloc ns st = (bs, st')"
  shows "sorted_wrt range_before bs
     \<and> (\<forall>(a, n) \<in> set bs. untyped_top st \<le> unat a \<and> unat a + unat n \<le> untyped_lim st \<and> aligned4k a)"
  using untyped.run_ranges [OF assms] untyped.run_within [OF assms] by blast

theorem untyped_ranges_disjoint_witness:
  "\<exists>a b st'. bump_run untyped_alloc [100, 5000] (untyped_init 0x100000 0x10000, \<lambda>_. 7) = ([(a, 100), (b, 5000)], st')
     \<and> a = 0x100000 \<and> b = 0x101000 \<and> range_before (a, 100) (b, 5000) \<and> aligned4k b"
proof -
  let ?st = "(untyped_init 0x100000 0x10000, \<lambda>_. 7) :: untyped \<times> mem"
  have ok: "untyped_ok ?st" by (simp add: untyped_ok_def untyped_init_def aligned4k_def)
  have sm: "\<forall>n \<in> set [100, 5000]. small_request n" by (simp add: small_request_def)
  obtain st' where r: "bump_run untyped_alloc [100, 5000] ?st = ([(0x100000, 100), (0x101000, 5000)], st')"
    by (simp add: untyped_alloc_def untyped_init_def PAGE_SIZE_4K_def)
  from untyped_ranges_disjoint [OF ok sm r] r show ?thesis by auto
qed

text \<open>DMA buffers never overlap, as long as requests are below 2^62 bytes: the granted ranges are
  pairwise disjoint, page aligned and inside the region.\<close>

theorem dma_ranges_disjoint:
  assumes "dma_ok r" "\<forall>n \<in> set ns. small_request n" "bump_run dma_region_alloc ns r = (bs, r')"
  shows "sorted_wrt range_before bs
     \<and> (\<forall>(a, n) \<in> set bs. dma_top r \<le> unat a \<and> unat a + unat n \<le> dma_lim r \<and> aligned4k a)"
  using dma.run_ranges [OF assms] dma.run_within [OF assms] by blast

theorem dma_ranges_disjoint_witness:
  "\<exists>r'. bump_run dma_region_alloc [1, 8192] (dma_region_init 0x200000 0x800000) = ([(0x200000, 1), (0x201000, 8192)], r')
     \<and> range_before (0x200000, 1) (0x201000, 8192) \<and> aligned4k 0x201000"
proof -
  let ?r = "dma_region_init 0x200000 0x800000"
  have ok: "dma_ok ?r" by (simp add: dma_ok_def dma_region_init_def aligned4k_def)
  have sm: "\<forall>n \<in> set [1, 8192]. small_request n" by (simp add: small_request_def)
  obtain r' where r: "bump_run dma_region_alloc [1, 8192] ?r = ([(0x200000, 1), (0x201000, 8192)], r')"
    by (simp add: dma_region_alloc_def dma_region_init_def)
  from dma_ranges_disjoint [OF ok sm r] r show ?thesis by auto
qed

text \<open>A huge DMA request wraps the bound check: once any page is in use, asking for the two's
  complement of the used amount is granted, resets the watermark to 0, and the next request gets
  memory that is already in use.\<close>

theorem dma_alloc_wraps:
  assumes "dma_ok r" "4096 dvd unat (dma_used r)" "dma_used r \<noteq> 0" "4096 \<le> unat (dma_size r)" "dma_base r \<noteq> 0"
  shows "\<exists>r1 r2. dma_region_alloc (- dma_used r) r = (dma_base r + dma_used r, r1) \<and> dma_used r1 = 0
     \<and> dma_region_alloc 4096 r1 = (dma_base r, r2)"
proof -
  let ?u = "dma_used r"
  have id: "(w + 4095) AND NOT 4095 = w" if w: "4096 dvd unat w" "unat w + 4095 < 2 ^ 64" for w :: u64
  proof (rule word_unat_eq_iff [THEN iffD2])
    have "unat (w + 4095) = unat w + 4095" using w by (subst unat_plus_small) simp_all
    moreover have "(unat w + 4095) mod 4096 = 4095" using w(1) by (auto simp: dvd_def)
    ultimately show "unat ((w + 4095) AND NOT 4095) = unat w" using unat_page_round [of "w + 4095"] by simp
  qed
  have b: "unat ?u < 2 ^ 62" using assms(1) by (simp add: dma_ok_def word_le_nat_alt)
  have "unat (- ?u) = 2 ^ 64 - unat ?u" using assms(3) unat_sub_if' [of 0 ?u] by (simp add: unat_eq_zero)
  moreover have "4096 \<le> unat ?u" using dvd_imp_le [OF assms(2)] assms(3) unat_eq_zero [of ?u] by simp
  moreover have "4096 dvd 2 ^ 64 - unat ?u" using assms(2) by (intro dvd_diff_nat) simp_all
  ultimately have n: "(- ?u + 4095) AND NOT 4095 = - ?u" using b by (intro id) simp_all
  have u: "(?u + 4095) AND NOT 4095 = ?u" using assms(2) b by (intro id) simp_all
  have "dma_region_alloc (- ?u) r = (dma_base r + ?u, r\<lparr>dma_used := 0\<rparr>)"
    unfolding dma_region_alloc_def n u Let_def by simp
  moreover have "dma_region_alloc 4096 (r\<lparr>dma_used := 0\<rparr>) = (dma_base r, r\<lparr>dma_used := 4096\<rparr>)"
    using assms(4) by (simp add: dma_region_alloc_def word_less_nat_alt)
  ultimately show ?thesis by auto
qed

theorem dma_alloc_wraps_witness:
  "\<exists>r1 r2. dma_region_alloc (- 0x3000) \<lparr>dma_base = 0x200000, dma_size = 0x800000, dma_used = 0x3000\<rparr> = (0x203000, r1)
     \<and> dma_used r1 = 0 \<and> dma_region_alloc 4096 r1 = (0x200000, r2)"
  using dma_alloc_wraps [of "\<lparr>dma_base = 0x200000, dma_size = 0x800000, dma_used = 0x3000\<rparr>"]
  by (simp add: dma_ok_def aligned4k_def)

end
