(* ===== verification/Paging.thy ===== *)
theory Paging
  imports Pmm Klib Bump
begin

text \<open>
  The x86-64 page tables of \<^verbatim>\<open>arch/x86_64/src/vm_arch.c\<close>: a table is a page of 512 entries in physical
  memory, a walk reads them with \<^verbatim>\<open>load64\<close>, and new tables come from the frame allocator of \<open>Pmm\<close>.
  The state is the one of the allocator, a pair of its lists and the memory. Loading \<^verbatim>\<open>cr3\<close> and
  invalidating a TLB entry are hardware effects; \<open>arch_vm_activate\<close> keeps the loaded value.
\<close>

section \<open>Entries\<close>

definition X86_PTE_P :: u64 where "X86_PTE_P = 0x1"
definition X86_PTE_RW :: u64 where "X86_PTE_RW = 0x2"
definition X86_PTE_US :: u64 where "X86_PTE_US = 0x4"
definition X86_PTE_PWT :: u64 where "X86_PTE_PWT = 0x8"
definition X86_PTE_PCD :: u64 where "X86_PTE_PCD = 0x10"
definition X86_PTE_PS :: u64 where "X86_PTE_PS = 0x80"
definition X86_PTE_NX :: u64 where "X86_PTE_NX = 0x8000000000000000"
definition PAGE_MASK_4K :: u64 where "PAGE_MASK_4K = NOT (PAGE_SIZE_4K - 1)"
definition PAGE_MASK_2M :: u64 where "PAGE_MASK_2M = NOT (PAGE_SIZE_2M - 1)"

definition PML4_INDEX :: "vaddr \<Rightarrow> u64" where "PML4_INDEX v = drop_bit 39 v AND 0x1FF"
definition PDPT_INDEX :: "vaddr \<Rightarrow> u64" where "PDPT_INDEX v = drop_bit 30 v AND 0x1FF"
definition PD_INDEX :: "vaddr \<Rightarrow> u64" where "PD_INDEX v = drop_bit 21 v AND 0x1FF"
definition PT_INDEX :: "vaddr \<Rightarrow> u64" where "PT_INDEX v = drop_bit 12 v AND 0x1FF"

definition VM_PROT_READ :: u32 where "VM_PROT_READ = 1"
definition VM_PROT_WRITE :: u32 where "VM_PROT_WRITE = 2"
definition VM_PROT_EXEC :: u32 where "VM_PROT_EXEC = 4"
definition VM_PROT_USER :: u32 where "VM_PROT_USER = 8"
definition VM_MAP_LARGE :: u32 where "VM_MAP_LARGE = 16"

definition LAPIC_PADDR :: u64 where "LAPIC_PADDR = 0xFEE00000"
definition KINFO_VA :: u64 where "KINFO_VA = 0x80000000"
definition FRAMEBUFFER_VA :: u64 where "FRAMEBUFFER_VA = 0x88000000"
definition HW_MMIO_USER_VA_BASE :: u64 where "HW_MMIO_USER_VA_BASE = 0x1A0000000"
definition HW_MMIO_MAP_MAX :: u64 where "HW_MMIO_MAP_MAX = 0x1000000"

text \<open>The address of entry \<open>i\<close> of a table, and the entry.\<close>

definition pte_at :: "paddr \<Rightarrow> u64 \<Rightarrow> u64" where "pte_at table i = table + 8 * i"
definition pte :: "mem \<Rightarrow> paddr \<Rightarrow> u64 \<Rightarrow> u64" where "pte m table i = load64 m (pte_at table i)"
definition present :: "u64 \<Rightarrow> bool" where "present e \<longleftrightarrow> e AND X86_PTE_P \<noteq> 0"
definition large :: "u64 \<Rightarrow> bool" where "large e \<longleftrightarrow> e AND X86_PTE_PS \<noteq> 0"

section \<open>Mapping\<close>

definition alloc_table :: "pmm_st \<Rightarrow> paddr \<times> pmm_st" where
  "alloc_table st = pmm_alloc PMM_COLOR_ANY st"

text \<open>A failed allocation is not noticed: address 0 is cleared and installed as the table.\<close>

definition get_next_level :: "paddr \<Rightarrow> u64 \<Rightarrow> pmm_st \<Rightarrow> paddr \<times> pmm_st" where
  "get_next_level table index st =
     (let (p, m) =
        (if present (pte (snd st) table index) then st
         else (let (new_table, p, m) = alloc_table st;
                   m = zero_range m new_table PAGE_SIZE_4K
               in (p, store64 m (pte_at table index)
                        (new_table OR X86_PTE_P OR X86_PTE_RW OR X86_PTE_US))))
      in (pte m table index AND PAGE_MASK_4K, p, m))"

definition prot_bits :: "u32 \<Rightarrow> u64" where
  "prot_bits flags =
     (if flags AND VM_PROT_WRITE \<noteq> 0 then X86_PTE_RW else 0)
     OR (if flags AND VM_PROT_USER \<noteq> 0 then X86_PTE_US else 0)
     OR (if flags AND VM_PROT_EXEC = 0 then X86_PTE_NX else 0)"

definition arch_vm_map_large_page :: "paddr \<Rightarrow> vaddr \<Rightarrow> paddr \<Rightarrow> u32 \<Rightarrow> pmm_st \<Rightarrow> int \<times> pmm_st" where
  "arch_vm_map_large_page aspace va pa flags st =
     (let (pdpt, st) = get_next_level aspace (PML4_INDEX va) st;
          (pd, p, m) = get_next_level pdpt (PDPT_INDEX va) st;
          e = (pa AND PAGE_MASK_2M) OR (X86_PTE_P OR X86_PTE_PS OR prot_bits flags)
      in (0, p, store64 m (pte_at pd (PD_INDEX va)) e))"

text \<open>The walk down to the page table, with the missing levels filled in, that the three functions for
  4 KiB pages share.\<close>

definition ensure_pt :: "paddr \<Rightarrow> vaddr \<Rightarrow> pmm_st \<Rightarrow> paddr \<times> pmm_st" where
  "ensure_pt aspace va st =
     (let (pdpt, st) = get_next_level aspace (PML4_INDEX va) st;
          (pd, st) = get_next_level pdpt (PDPT_INDEX va) st
      in get_next_level pd (PD_INDEX va) st)"

definition set_pte :: "paddr \<Rightarrow> vaddr \<Rightarrow> u64 \<Rightarrow> pmm_st \<Rightarrow> int \<times> pmm_st" where
  "set_pte aspace va e st =
     (let (pt, p, m) = ensure_pt aspace va st
      in (0, p, store64 m (pte_at pt (PT_INDEX va)) e))"

definition arch_vm_map_page :: "paddr \<Rightarrow> vaddr \<Rightarrow> paddr \<Rightarrow> u32 \<Rightarrow> pmm_st \<Rightarrow> int \<times> pmm_st" where
  "arch_vm_map_page aspace va pa flags st =
     set_pte aspace va ((pa AND PAGE_MASK_4K) OR (X86_PTE_P OR prot_bits flags)) st"

definition arch_vm_map_framebuffer_page :: "paddr \<Rightarrow> vaddr \<Rightarrow> paddr \<Rightarrow> pmm_st \<Rightarrow> int \<times> pmm_st" where
  "arch_vm_map_framebuffer_page aspace va pa st =
     set_pte aspace va ((pa AND PAGE_MASK_4K) OR X86_PTE_P OR X86_PTE_RW OR X86_PTE_US OR X86_PTE_PWT
       OR X86_PTE_NX) st"

definition arch_vm_map_device_page :: "paddr \<Rightarrow> vaddr \<Rightarrow> paddr \<Rightarrow> pmm_st \<Rightarrow> int \<times> pmm_st" where
  "arch_vm_map_device_page aspace va pa st =
     set_pte aspace va ((pa AND PAGE_MASK_4K) OR X86_PTE_P OR X86_PTE_RW OR X86_PTE_US OR X86_PTE_PWT
       OR X86_PTE_PCD OR X86_PTE_NX) st"

section \<open>Walking\<close>

definition walk_to_pte :: "mem \<Rightarrow> paddr \<Rightarrow> vaddr \<Rightarrow> u64 option" where
  "walk_to_pte m pml4 va =
     (let e4 = pte m pml4 (PML4_INDEX va)
      in if \<not> present e4 then None
         else (let pdpt = e4 AND PAGE_MASK_4K; e3 = pte m pdpt (PDPT_INDEX va)
               in if \<not> present e3 then None
                  else (let pd = e3 AND PAGE_MASK_4K; e2 = pte m pd (PD_INDEX va)
                        in if \<not> present e2 then None
                           else if large e2 then Some (pte_at pd (PD_INDEX va))
                           else Some (pte_at (e2 AND PAGE_MASK_4K) (PT_INDEX va)))))"

definition leaf_mask :: "u64 \<Rightarrow> u64" where
  "leaf_mask e = (if large e then PAGE_MASK_2M else PAGE_MASK_4K)"

definition arch_vm_unmap_page :: "paddr \<Rightarrow> vaddr \<Rightarrow> pmm_st \<Rightarrow> paddr \<times> pmm_st" where
  "arch_vm_unmap_page aspace va st =
     (let (p, m) = st
      in case walk_to_pte m aspace va of
           None \<Rightarrow> (0, st)
         | Some a \<Rightarrow>
             (let e = load64 m a
              in if \<not> present e then (0, st) else (e AND leaf_mask e, p, store64 m a 0)))"

definition arch_vm_translate :: "mem \<Rightarrow> paddr \<Rightarrow> vaddr \<Rightarrow> paddr" where
  "arch_vm_translate m aspace va =
     (case walk_to_pte m aspace va of
        None \<Rightarrow> 0
      | Some a \<Rightarrow>
          (let e = load64 m a
           in if \<not> present e then 0 else e AND leaf_mask e AND NOT X86_PTE_NX))"

section \<open>Address spaces\<close>

definition copy_kernel_entry :: "paddr \<Rightarrow> paddr \<Rightarrow> vaddr \<Rightarrow> mem \<Rightarrow> mem" where
  "copy_kernel_entry boot_pdpt pdpt va m =
     (let e = pte m boot_pdpt (PDPT_INDEX va)
      in if e \<noteq> 0 then store64 m (pte_at pdpt (PDPT_INDEX va)) e else m)"

definition arch_vm_create_address_space :: "paddr \<Rightarrow> pmm_st \<Rightarrow> paddr \<times> pmm_st" where
  "arch_vm_create_address_space boot_pdpt st =
     (let (pml4, st) = alloc_table st;
          (pdpt, p, m) = alloc_table st
      in if pml4 = 0 \<or> pdpt = 0 then (0, p, m)
         else
           (let m = zero_range m pml4 PAGE_SIZE_4K;
                m = zero_range m pdpt PAGE_SIZE_4K;
                m = store64 m (pte_at pdpt 0) (pte m boot_pdpt 0);
                m = copy_kernel_entry boot_pdpt pdpt LAPIC_PADDR m;
                m = copy_kernel_entry boot_pdpt pdpt KINFO_VA m;
                m = copy_kernel_entry boot_pdpt pdpt FRAMEBUFFER_VA m;
                m = store64 m (pte_at pml4 0) (pdpt OR X86_PTE_P OR X86_PTE_RW OR X86_PTE_US)
            in (pml4, p, m)))"

text \<open>The physical ranges that are never returned to the frame allocator: untyped memory, the DMA region
  and the frame buffer (of length 0 when there is none).\<close>

record phys_ranges =
  untyped_base :: paddr
  untyped_size :: u64
  dma_base_r :: paddr
  dma_size_r :: u64
  fb_base :: paddr
  fb_len :: u64

definition leaf_freed :: "phys_ranges \<Rightarrow> paddr \<Rightarrow> bool" where
  "leaf_freed r leaf \<longleftrightarrow>
     (leaf < untyped_base r \<or> leaf \<ge> untyped_base r + untyped_size r)
     \<and> (leaf < dma_base_r r \<or> leaf \<ge> dma_base_r r + dma_size_r r)
     \<and> (fb_len r = 0 \<or> leaf < fb_base r \<or> leaf \<ge> fb_base r + fb_len r)"

definition va_of :: "nat \<Rightarrow> nat \<Rightarrow> nat \<Rightarrow> vaddr" where
  "va_of i j k = push_bit 30 (of_nat i) OR push_bit 21 (of_nat j) OR push_bit 12 (of_nat k)"

definition in_mmio_window :: "vaddr \<Rightarrow> bool" where
  "in_mmio_window va \<longleftrightarrow> va \<ge> HW_MMIO_USER_VA_BASE \<and> va < HW_MMIO_USER_VA_BASE + HW_MMIO_MAP_MAX"

definition destroy_pt :: "phys_ranges \<Rightarrow> nat \<Rightarrow> nat \<Rightarrow> paddr \<Rightarrow> pmm_st \<Rightarrow> pmm_st" where
  "destroy_pt r i j pt st =
     pmm_free pt (fold (\<lambda>k st.
       let e = pte (snd st) pt (of_nat k); leaf = e AND PAGE_MASK_4K AND NOT X86_PTE_NX
       in if present e \<and> leaf_freed r leaf \<and> \<not> in_mmio_window (va_of i j k) then pmm_free leaf st else st)
       [0..<512] st)"

definition destroy_pd :: "phys_ranges \<Rightarrow> nat \<Rightarrow> paddr \<Rightarrow> pmm_st \<Rightarrow> pmm_st" where
  "destroy_pd r i pd st =
     pmm_free pd (fold (\<lambda>j st.
       let e = pte (snd st) pd (of_nat j)
       in if \<not> present e then st
          else if large e
          then (let leaf = e AND PAGE_MASK_2M AND NOT X86_PTE_NX
                in if leaf_freed r leaf then pmm_free leaf st else st)
          else destroy_pt r i j (e AND PAGE_MASK_4K) st)
       [0..<512] st)"

definition kernel_entry :: "mem \<Rightarrow> paddr \<Rightarrow> paddr \<Rightarrow> nat \<Rightarrow> bool" where
  "kernel_entry m boot_pdpt pdpt i \<longleftrightarrow>
     pte m pdpt (of_nat i) AND PAGE_MASK_4K = pte m boot_pdpt (of_nat i) AND PAGE_MASK_4K"

definition arch_vm_destroy_address_space :: "paddr \<Rightarrow> phys_ranges \<Rightarrow> paddr \<Rightarrow> pmm_st \<Rightarrow> pmm_st" where
  "arch_vm_destroy_address_space boot_pdpt r aspace st =
     (let e4 = pte (snd st) aspace 0;
          st = (if present e4
                then (let pdpt = e4 AND PAGE_MASK_4K
                      in pmm_free pdpt (fold (\<lambda>i st.
                           let e = pte (snd st) pdpt (of_nat i)
                           in if \<not> present e \<or> kernel_entry (snd st) boot_pdpt pdpt i then st
                              else destroy_pd r i (e AND PAGE_MASK_4K) st)
                           [0..<512] st))
                else st)
      in pmm_free aspace st)"

definition prot_of_pte :: "u64 \<Rightarrow> u32" where
  "prot_of_pte e =
     VM_PROT_READ
     OR (if e AND X86_PTE_RW \<noteq> 0 then VM_PROT_WRITE else 0)
     OR (if e AND X86_PTE_US \<noteq> 0 then VM_PROT_USER else 0)
     OR (if e AND X86_PTE_NX = 0 then VM_PROT_EXEC else 0)"

text \<open>Copying one page; \<open>False\<close> when no frame is left, which ends the whole clone.\<close>

definition clone_leaf :: "phys_ranges \<Rightarrow> paddr \<Rightarrow> nat \<Rightarrow> nat \<Rightarrow> nat \<Rightarrow> paddr \<Rightarrow> pmm_st \<Rightarrow> bool \<times> pmm_st" where
  "clone_leaf r dst i j k src_pt st =
     (let e = pte (snd st) src_pt (of_nat k);
          src_frame = e AND PAGE_MASK_4K AND NOT X86_PTE_NX;
          va = va_of i j k
      in if \<not> present e then (True, st)
         else if fb_len r \<noteq> 0 \<and> src_frame \<ge> fb_base r \<and> src_frame < fb_base r + fb_len r then (True, st)
         else if src_frame \<ge> dma_base_r r \<and> src_frame < dma_base_r r + dma_size_r r then (True, st)
         else if in_mmio_window va then (True, st)
         else
           (let (dst_frame, p, m) = pmm_alloc PMM_COLOR_ANY st
            in if dst_frame = 0 then (False, p, m)
               else (True, snd (arch_vm_map_page dst va dst_frame (prot_of_pte e)
                                  (p, copy_range m dst_frame src_frame PAGE_SIZE_4K)))))"

text \<open>A loop that an inner \<^verbatim>\<open>return\<close> ends.\<close>

fun loop_until_fail :: "('a \<Rightarrow> 's \<Rightarrow> bool \<times> 's) \<Rightarrow> 'a list \<Rightarrow> 's \<Rightarrow> bool \<times> 's" where
  "loop_until_fail f [] s = (True, s)"
| "loop_until_fail f (x # xs) s = (case f x s of (ok, s) \<Rightarrow> if ok then loop_until_fail f xs s else (False, s))"

definition clone_pd :: "phys_ranges \<Rightarrow> paddr \<Rightarrow> nat \<Rightarrow> paddr \<Rightarrow> pmm_st \<Rightarrow> bool \<times> pmm_st" where
  "clone_pd r dst i src_pd =
     loop_until_fail (\<lambda>j st.
       let e = pte (snd st) src_pd (of_nat j)
       in if \<not> present e \<or> large e then (True, st)
          else loop_until_fail (\<lambda>k. clone_leaf r dst i j k (e AND PAGE_MASK_4K)) [0..<512] st)
       [0..<512]"

definition arch_vm_clone_address_space :: "paddr \<Rightarrow> phys_ranges \<Rightarrow> paddr \<Rightarrow> pmm_st \<Rightarrow> paddr \<times> pmm_st" where
  "arch_vm_clone_address_space boot_pdpt r src st =
     (let (dst, st) = arch_vm_create_address_space boot_pdpt st
      in if dst = 0 then (0, st)
         else
           (let e4 = pte (snd st) src 0
            in if \<not> present e4 then (dst, st)
               else
                 (let src_pdpt = e4 AND PAGE_MASK_4K;
                      (ok, st) = loop_until_fail (\<lambda>i st.
                        let e = pte (snd st) src_pdpt (of_nat i)
                        in if \<not> present e \<or> kernel_entry (snd st) boot_pdpt src_pdpt i then (True, st)
                           else clone_pd r dst i (e AND PAGE_MASK_4K) st)
                        [0..<512] st
                  in (if ok then dst else 0, st))))"

section \<open>Activation\<close>

record vm_activate_stats =
  va_loads :: u64
  va_skips :: u64

text \<open>The loaded \<^verbatim>\<open>cr3\<close> of a processor and the counters.\<close>

definition arch_vm_activate :: "paddr \<Rightarrow> paddr \<Rightarrow> paddr \<Rightarrow> vm_activate_stats \<Rightarrow> paddr \<times> vm_activate_stats" where
  "arch_vm_activate boot_pml4 aspace loaded_cr3 vs =
     (let target = (if aspace \<noteq> 0 then aspace else boot_pml4)
      in if target = loaded_cr3 then (loaded_cr3, vs\<lparr>va_skips := va_skips vs + 1\<rparr>)
         else (target, vs\<lparr>va_loads := va_loads vs + 1\<rparr>))"

end
