(* ===== verification/PageTree.thy ===== *)
theory PageTree
  imports Paging
begin

text \<open>
  What the page tables of \<open>Paging\<close> mean: the tables of an address space form a tree, a path of
  indices names a table, and a translation is a lookup in that tree. Mapping a page fills in missing
  tables from the free frames and changes the translation of one page only; unmapping removes it.
\<close>

section \<open>Entries of different tables and slots\<close>

lemma aligned4k_mask: "aligned4k t \<Longrightarrow> t AND PAGE_MASK_4K = t"
proof -
  assume a: "aligned4k t"
  have "unat (t AND NOT 0xFFF) = unat t" unfolding unat_page_round using a by (simp add: aligned4k_def)
  then have "t AND NOT 0xFFF = t" by (simp add: word_unat_eq_iff)
  moreover have "PAGE_MASK_4K = NOT (0xFFF :: u64)" by (simp add: PAGE_MASK_4K_def PAGE_SIZE_4K_def)
  ultimately show ?thesis by simp
qed

lemma mask_aligned4k: "aligned4k (x AND PAGE_MASK_4K)"
proof -
  have m: "PAGE_MASK_4K = NOT (0xFFF :: u64)" by (simp add: PAGE_MASK_4K_def PAGE_SIZE_4K_def)
  have "4096 dvd unat x - unat x mod 4096" by (simp add: minus_mod_eq_mult_div)
  then show ?thesis unfolding m aligned4k_def unat_page_round .
qed

lemma unat_pte_at:
  assumes "aligned4k t" "i < 512"
  shows "unat (pte_at t i) = unat t + 8 * unat i"
proof -
  have i: "unat i < 512" using assms(2) by (simp add: word_less_nat_alt)
  then have e: "unat (8 * i) = 8 * unat i" by (subst unat_mult_lem [THEN iffD1]) simp_all
  obtain k where k: "unat t = 4096 * k" using assms(1) by (auto simp: aligned4k_def)
  have "unat t < 2 ^ 64" using unsigned_less [of t] by simp
  then have "k < 2 ^ 52" using k by simp
  then have "unat t + 8 * unat i < 2 ^ 64" using k i by simp
  then show ?thesis unfolding pte_at_def by (subst unat_add_lem [THEN iffD1]) (simp_all add: e)
qed

lemma pte_at_inj:
  assumes "aligned4k t" "aligned4k t'" "i < 512" "j < 512" "pte_at t i = pte_at t' j"
  shows "t = t' \<and> i = j"
proof -
  have i: "unat i < 512" "unat j < 512" using assms(3,4) by (simp_all add: word_less_nat_alt)
  have e: "unat t + 8 * unat i = unat t' + 8 * unat j"
    using unat_pte_at [OF assms(1,3)] unat_pte_at [OF assms(2,4)] assms(5) by simp
  obtain k where k: "unat t = 4096 * k" using assms(1) unfolding aligned4k_def by (rule dvdE)
  obtain k' where k': "unat t' = 4096 * k'" using assms(2) unfolding aligned4k_def by (rule dvdE)
  have "k = k'" using e k k' i by linarith
  with e k k' show ?thesis by (simp add: word_unat_eq_iff)
qed

lemma aligned8_pte_at: "aligned4k t \<Longrightarrow> i < 512 \<Longrightarrow> aligned8 (pte_at t i)"
proof -
  assume t: "aligned4k t" and i: "i < 512"
  have "8 dvd unat t" using aligned4k_8 [OF t] by (simp add: aligned8_def)
  then show ?thesis unfolding aligned8_def unat_pte_at [OF t i] by simp
qed

lemma pte_store_same [simp]: "pte (store64 m (pte_at t i) v) t i = v"
  by (simp add: pte_def)

lemma pte_store_other:
  assumes "aligned4k t" "aligned4k t'" "i < 512" "j < 512" "t \<noteq> t' \<or> i \<noteq> j"
  shows "pte (store64 m (pte_at t i) v) t' j = pte m t' j"
  unfolding pte_def
  by (rule load64_store64_other) (use assms aligned8_pte_at pte_at_inj in blast)+

lemma pte_outside_page:
  assumes "aligned4k f" "aligned4k t" "f \<noteq> t" "j < 512" "\<And>x. \<not> in_page f x \<Longrightarrow> m' x = m x"
  shows "pte m' t j = pte m t j"
  unfolding pte_def
proof (rule load64_cong)
  fix i :: nat
  assume i: "i < 8"
  have j: "unat j < 512" using assms(4) by (simp add: word_less_nat_alt)
  have u: "unat (8 * j + of_nat i) = 8 * unat j + i"
  proof -
    have e: "unat (8 * j) = 8 * unat j" using j by (subst unat_mult_lem [THEN iffD1]) simp_all
    show ?thesis using i j by (subst unat_add_lem [THEN iffD1]) (simp_all add: e unat_of_nat_8)
  qed
  have "4096 \<le> unat (t + (8 * j + of_nat i) - f)"
    by (rule dvd_gap) (use assms i j u in \<open>auto simp: aligned4k_def\<close>)
  then have "\<not> in_page f (t + (8 * j + of_nat i))" by (simp add: in_page_def PAGE_SIZE_4K_def word_less_nat_alt)
  then show "m' (pte_at t j + of_nat i) = m (pte_at t j + of_nat i)" using assms(5) by (simp add: pte_at_def add.assoc)
qed

lemma pte_zero:
  assumes "aligned4k t" "j < 512"
  shows "pte (zero_range m t PAGE_SIZE_4K) t j = 0"
proof -
  have j: "unat j < 512" using assms(2) by (simp add: word_less_nat_alt)
  have "load64 (zero_range m t PAGE_SIZE_4K) (pte_at t j) = load64 (\<lambda>_. 0) (pte_at t j)"
  proof (rule load64_cong)
    fix i :: nat
    assume i: "i < 8"
    have e: "unat (8 * j) = 8 * unat j" using j by (subst unat_mult_lem [THEN iffD1]) simp_all
    have "unat (8 * j + of_nat i) = 8 * unat j + i" using i j by (subst unat_add_lem [THEN iffD1]) (simp_all add: e unat_of_nat_8)
    then have "8 * j + of_nat i < (4096 :: u64)" using i j by (simp add: word_less_nat_alt)
    moreover have "pte_at t j + of_nat i - t = 8 * j + of_nat i" by (simp add: pte_at_def)
    ultimately show "zero_range m t PAGE_SIZE_4K (pte_at t j + of_nat i) = 0"
      by (simp only: zero_range_def PAGE_SIZE_4K_def if_True)
  qed
  also have "\<dots> = 0" by (simp add: load64_def word_rcat_def upt_rec)
  finally show ?thesis by (simp add: pte_def)
qed

lemma index_bounds:
  "PML4_INDEX v < 512" "PDPT_INDEX v < 512" "PD_INDEX v < 512" "PT_INDEX v < 512"
proof -
  have m: "(0x1FF :: u64) = mask 9" by (simp add: mask_eq_exp_minus_1)
  have "w AND 0x1FF < (512 :: u64)" for w :: u64
    unfolding m word_less_nat_alt unat_and_mask by simp
  then show "PML4_INDEX v < 512" "PDPT_INDEX v < 512" "PD_INDEX v < 512" "PT_INDEX v < 512"
    by (simp_all add: PML4_INDEX_def PDPT_INDEX_def PD_INDEX_def PT_INDEX_def)
qed

text \<open>The entry that \<open>get_next_level\<close> installs.\<close>

lemma table_entry:
  assumes "aligned4k t"
  defines "e \<equiv> t OR X86_PTE_P OR X86_PTE_RW OR X86_PTE_US"
  shows "present e" "\<not> large e" "e AND PAGE_MASK_4K = t"
proof -
  have m: "t AND PAGE_MASK_4K = t" by (rule aligned4k_mask [OF assms(1)])
  have "e AND PAGE_MASK_4K = (t AND PAGE_MASK_4K) OR ((X86_PTE_P OR X86_PTE_RW OR X86_PTE_US) AND PAGE_MASK_4K)"
    unfolding e_def by (simp add: and.commute [of _ PAGE_MASK_4K] bit.conj_disj_distrib or.assoc)
  also have "\<dots> = t" unfolding m
    by (simp add: X86_PTE_P_def X86_PTE_RW_def X86_PTE_US_def PAGE_MASK_4K_def PAGE_SIZE_4K_def)
  finally show "e AND PAGE_MASK_4K = t" .
  have "e AND X86_PTE_PS = ((t AND PAGE_MASK_4K) AND X86_PTE_PS) OR ((X86_PTE_P OR X86_PTE_RW OR X86_PTE_US) AND X86_PTE_PS)"
    unfolding e_def m by (simp add: and.commute [of _ X86_PTE_PS] bit.conj_disj_distrib or.assoc)
  then show "\<not> large e"
    by (simp add: large_def and.assoc X86_PTE_P_def X86_PTE_RW_def X86_PTE_US_def X86_PTE_PS_def PAGE_MASK_4K_def PAGE_SIZE_4K_def)
  have "bit e 0" by (simp add: e_def bit_simps X86_PTE_P_def)
  moreover have "bit (e AND X86_PTE_P) 0 = bit e 0" by (simp add: bit_simps X86_PTE_P_def)
  ultimately show "present e" unfolding present_def by (metis bit_0_eq bot_apply bot_bool_def)
qed

section \<open>The tree of tables\<close>

text \<open>The table at a path of indices, below a root.\<close>

fun walk :: "mem \<Rightarrow> paddr \<Rightarrow> u64 list \<Rightarrow> paddr option" where
  "walk m t [] = Some t"
| "walk m t (i # is) =
     (if present (pte m t i) \<and> \<not> large (pte m t i) then walk m (pte m t i AND PAGE_MASK_4K) is else None)"

definition vpath :: "u64 list \<Rightarrow> bool" where
  "vpath p \<longleftrightarrow> length p \<le> 3 \<and> (\<forall>i \<in> set p. i < 512)"

text \<open>The tables form a tree that lies outside the free frames \<open>F\<close>, and only page directories hold large
  pages.\<close>

definition aspace_ok :: "mem \<Rightarrow> paddr \<Rightarrow> paddr set \<Rightarrow> bool" where
  "aspace_ok m root F \<longleftrightarrow>
     (\<forall>p q t. vpath p \<longrightarrow> vpath q \<longrightarrow> walk m root p = Some t \<longrightarrow> walk m root q = Some t \<longrightarrow> p = q)
     \<and> (\<forall>p t. vpath p \<longrightarrow> walk m root p = Some t \<longrightarrow> aligned4k t \<and> t \<notin> F)
     \<and> (\<forall>p t i. vpath p \<longrightarrow> length p < 2 \<longrightarrow> i < 512 \<longrightarrow> walk m root p = Some t \<longrightarrow> present (pte m t i) \<longrightarrow> \<not> large (pte m t i))"

lemma aspace_okD:
  assumes "aspace_ok m root F" "vpath p" "walk m root p = Some t"
  shows "aligned4k t" "t \<notin> F" "\<And>q. vpath q \<Longrightarrow> walk m root q = Some t \<Longrightarrow> q = p"
    "\<And>i. length p < 2 \<Longrightarrow> i < 512 \<Longrightarrow> present (pte m t i) \<Longrightarrow> \<not> large (pte m t i)"
  using assms unfolding aspace_ok_def by blast+

lemma vpath_prefix: "vpath (p @ q) \<Longrightarrow> vpath p"
  by (auto simp: vpath_def)

lemma walk_append: "walk m t (p @ q) = (case walk m t p of None \<Rightarrow> None | Some t' \<Rightarrow> walk m t' q)"
  by (induction p arbitrary: t) auto

lemma walk_snoc:
  "walk m t (p @ [i]) = (case walk m t p of None \<Rightarrow> None
     | Some t' \<Rightarrow> if present (pte m t' i) \<and> \<not> large (pte m t' i) then Some (pte m t' i AND PAGE_MASK_4K) else None)"
  by (auto simp: walk_append split: option.splits)

text \<open>A walk depends only on the entries it reads.\<close>

lemma walk_cong:
  "(\<And>p i r t. q = p @ i # r \<Longrightarrow> walk m root p = Some t \<Longrightarrow> pte m' t i = pte m t i) \<Longrightarrow> walk m' root q = walk m root q"
proof (induction q arbitrary: root)
  case Nil
  then show ?case by simp
next
  case (Cons j q)
  have e: "pte m' root j = pte m root j" using Cons.prems [of "[]" j q root] by simp
  show ?case
  proof (cases "present (pte m root j) \<and> \<not> large (pte m root j)")
    case True
    have "walk m' (pte m root j AND PAGE_MASK_4K) q = walk m (pte m root j AND PAGE_MASK_4K) q"
      by (rule Cons.IH) (use Cons.prems [of "j # _"] True in auto)
    with True e show ?thesis by simp
  next
    case False
    with e show ?thesis by auto
  qed
qed

section \<open>Adding a table\<close>

lemma add_table_walk:
  assumes ok: "aspace_ok m root F" and p: "vpath (p @ [i])" "walk m root p = Some t"
    and absent: "\<not> present (pte m t i)" and nt: "nt \<in> F" "aligned4k nt" and q: "vpath q"
    and m'_def: "m' = store64 (zero_range m nt PAGE_SIZE_4K) (pte_at t i) (nt OR X86_PTE_P OR X86_PTE_RW OR X86_PTE_US)"
  shows "walk m' root q = (if \<exists>r. q = p @ i # r then (if q = p @ [i] then Some nt else None) else walk m root q)"
proof -
  have vp: "vpath p" and i: "i < 512" using p(1) by (auto simp: vpath_def)
  have t: "aligned4k t" "t \<notin> F" using aspace_okD [OF ok vp p(2)] by auto
  have ne: "nt \<noteq> t" using nt t by auto
  have other: "pte m' t' j = pte m t' j" if "aligned4k t'" "j < 512" "t' \<noteq> nt" "t' \<noteq> t \<or> j \<noteq> i" for t' j
  proof -
    have "pte m' t' j = pte (zero_range m nt PAGE_SIZE_4K) t' j"
      unfolding m'_def by (rule pte_store_other) (use t i that in auto)
    also have "\<dots> = pte m t' j"
      by (rule pte_outside_page [OF nt(2) that(1) _ that(2)]) (use that zero_range_outside in auto)
    finally show ?thesis .
  qed
  have keep: "walk m' root q' = walk m root q'" if q': "vpath q'" "\<nexists>r. q' = p @ i # r" for q'
  proof (rule walk_cong)
    fix p' j r t'
    assume a: "q' = p' @ j # r" "walk m root p' = Some t'"
    have v: "vpath p'" "j < 512" using q' a(1) by (auto simp: vpath_def)
    note d = aspace_okD [OF ok v(1) a(2)]
    have "t' \<noteq> t \<or> j \<noteq> i" using d(3) [OF vp] p(2) q'(2) a(1) by auto
    with d nt v show "pte m' t' j = pte m t' j" by (intro other) auto
  qed
  have slot: "pte m' t i = nt OR X86_PTE_P OR X86_PTE_RW OR X86_PTE_US" by (simp add: m'_def)
  have "walk m' root p = Some t" using keep [OF vp] p(2) by auto
  then have new: "walk m' root (p @ [i]) = Some nt"
    using table_entry [OF nt(2)] by (simp add: walk_snoc slot)
  have below: "\<not> present (pte m' nt j)" if "j < 512" for j
  proof -
    have "pte m' nt j = pte (zero_range m nt PAGE_SIZE_4K) nt j"
      unfolding m'_def by (rule pte_store_other) (use t i nt that ne in auto)
    then show ?thesis using pte_zero [OF nt(2) that] by (simp add: present_def)
  qed
  show ?thesis
  proof (cases "\<exists>r. q = p @ i # r")
    case True
    then obtain r where r: "q = p @ i # r" by blast
    then have q2: "q = (p @ [i]) @ r" by simp
    have "walk m' root q = walk m' nt r" unfolding q2 walk_append [of m' root "p @ [i]" r] new by simp
    then show ?thesis using r q below by (cases r) (auto simp: vpath_def)
  next
    case False
    with keep [OF q] show ?thesis by simp
  qed
qed

lemma add_table_ok:
  assumes ok: "aspace_ok m root F" and p: "vpath (p @ [i])" "walk m root p = Some t"
    and absent: "\<not> present (pte m t i)" and nt: "nt \<in> F" "aligned4k nt"
    and m'_def: "m' = store64 (zero_range m nt PAGE_SIZE_4K) (pte_at t i) (nt OR X86_PTE_P OR X86_PTE_RW OR X86_PTE_US)"
  shows "aspace_ok m' root (F - {nt})"
proof -
  have w: "walk m' root q = (if \<exists>r. q = p @ i # r then (if q = p @ [i] then Some nt else None) else walk m root q)"
    if "vpath q" for q by (rule add_table_walk [OF ok p absent nt that m'_def])
  have vp: "vpath p" and i: "i < 512" using p(1) by (auto simp: vpath_def)
  have t: "aligned4k t" "t \<notin> F" using aspace_okD [OF ok vp p(2)] by auto
  have pi: "walk m root (p @ [i]) = None" unfolding walk_snoc p(2) using absent by simp
  have cases: "walk m' root q = Some t' \<Longrightarrow> q = p @ [i] \<and> t' = nt \<or> walk m root q = Some t' \<and> t' \<noteq> nt" if "vpath q" for q t'
    using w [OF that] nt(1) aspace_okD(2) [OF ok that] by (auto split: if_splits)
  show ?thesis unfolding aspace_ok_def
  proof (intro conjI allI impI)
    fix q q' t' assume a: "vpath q" "vpath q'" "walk m' root q = Some t'" "walk m' root q' = Some t'"
    show "q = q'" using cases [OF a(1,3)] cases [OF a(2,4)] aspace_okD(3) [OF ok a(2) _ a(1)] by auto
  next
    fix q t' assume a: "vpath q" "walk m' root q = Some t'"
    show "aligned4k t'" using cases [OF a] nt(2) aspace_okD(1) [OF ok a(1)] by auto
    show "t' \<notin> F - {nt}" using cases [OF a] aspace_okD(2) [OF ok a(1)] by auto
  next
    fix q t' j assume a: "vpath q" "length q < 2" "j < 512" "walk m' root q = Some t'" "present (pte m' t' j)"
    have st: "pte m' t' j = pte (zero_range m nt PAGE_SIZE_4K) t' j" if "t' \<noteq> t \<or> j \<noteq> i" "aligned4k t'"
      unfolding m'_def by (rule pte_store_other) (use t i that a in auto)
    show "\<not> large (pte m' t' j)"
      using cases [OF a(1,4)]
    proof
      assume "q = p @ [i] \<and> t' = nt"
      moreover have "nt \<noteq> t" using nt t by auto
      ultimately have "pte m' t' j = 0" using st pte_zero [OF nt(2) a(3)] nt by simp
      then show ?thesis by (simp add: large_def)
    next
      assume o: "walk m root q = Some t' \<and> t' \<noteq> nt"
      note d = aspace_okD [OF ok a(1), of t']
      show ?thesis
      proof (cases "t' = t \<and> j = i")
        case True
        then show ?thesis using table_entry(2) [OF nt(2)] by (simp add: m'_def)
      next
        case False
        have "pte (zero_range m nt PAGE_SIZE_4K) t' j = pte m t' j"
          by (rule pte_outside_page [OF nt(2)]) (use o d a(3) zero_range_outside in auto)
        with st False o d have "pte m' t' j = pte m t' j" by auto
        with d(4) a(2,3,5) o show ?thesis by auto
      qed
    qed
  qed
qed

section \<open>Lookup of an entry\<close>

text \<open>The present leaf entry that a walk ends at, 0 if there is none.\<close>

fun look :: "mem \<Rightarrow> paddr \<Rightarrow> u64 list \<Rightarrow> u64" where
  "look m t [] = 0"
| "look m t (i # is) =
     (let e = pte m t i
      in if \<not> present e then 0 else if is = [] \<or> large e then e else look m (e AND PAGE_MASK_4K) is)"

definition dir_path :: "vaddr \<Rightarrow> u64 list" where
  "dir_path va = [PML4_INDEX va, PDPT_INDEX va, PD_INDEX va]"

definition va_path :: "vaddr \<Rightarrow> u64 list" where
  "va_path va = dir_path va @ [PT_INDEX va]"

definition frame_of :: "u64 \<Rightarrow> paddr" where
  "frame_of e = (if present e then e AND leaf_mask e AND NOT X86_PTE_NX else 0)"

lemma vpath_dir: "vpath (dir_path va)"
  by (simp add: vpath_def dir_path_def index_bounds)

lemma not_present_0 [simp]: "\<not> present 0" "\<not> large 0"
  by (simp_all add: present_def large_def)

lemma aspace_ok_root: "aspace_ok m root F \<Longrightarrow> aligned4k root"
  using aspace_okD(1) [of m root F "[]" root] by (simp add: vpath_def)

lemma aspace_ok_upper:
  assumes "aspace_ok m root F" "present (pte m root (PML4_INDEX va))"
  shows "\<not> large (pte m root (PML4_INDEX va))"
    "present (pte m (pte m root (PML4_INDEX va) AND PAGE_MASK_4K) (PDPT_INDEX va)) \<Longrightarrow>
      \<not> large (pte m (pte m root (PML4_INDEX va) AND PAGE_MASK_4K) (PDPT_INDEX va))"
proof -
  show a: "\<not> large (pte m root (PML4_INDEX va))"
    using aspace_okD(4) [OF assms(1), of "[]" root] assms(2) index_bounds by (simp add: vpath_def)
  show "\<not> large (pte m (pte m root (PML4_INDEX va) AND PAGE_MASK_4K) (PDPT_INDEX va))"
    if "present (pte m (pte m root (PML4_INDEX va) AND PAGE_MASK_4K) (PDPT_INDEX va))"
    using aspace_okD(4) [OF assms(1), of "[PML4_INDEX va]"] that a assms(2) index_bounds by (simp add: vpath_def)
qed

lemma walk_to_pte_look:
  assumes "aspace_ok m root F"
  shows "(case walk_to_pte m root va of None \<Rightarrow> look m root (va_path va) = 0
      | Some a \<Rightarrow> look m root (va_path va) = (if present (load64 m a) then load64 m a else 0))"
  using aspace_ok_upper [OF assms, of va]
  by (auto simp: walk_to_pte_def va_path_def dir_path_def Let_def pte_def)

lemma translate_look: "aspace_ok m root F \<Longrightarrow> arch_vm_translate m root va = frame_of (look m root (va_path va))"
  using walk_to_pte_look [of m root F va]
  by (auto simp: arch_vm_translate_def frame_of_def Let_def split: option.splits)

lemma look_cong:
  "(\<And>p i r t. q = p @ i # r \<Longrightarrow> walk m root p = Some t \<Longrightarrow> pte m' t i = pte m t i) \<Longrightarrow> look m' root q = look m root q"
proof (induction q arbitrary: root)
  case Nil
  then show ?case by simp
next
  case (Cons j q)
  have e: "pte m' root j = pte m root j" using Cons.prems [of "[]" j q root] by simp
  show ?case
  proof (cases "present (pte m root j) \<and> \<not> large (pte m root j)")
    case True
    have "look m' (pte m root j AND PAGE_MASK_4K) q = look m (pte m root j AND PAGE_MASK_4K) q"
      by (rule Cons.IH) (use Cons.prems [of "j # _"] True in auto)
    with True e show ?thesis by (simp add: Let_def)
  next
    case False
    with e show ?thesis by (auto simp: Let_def)
  qed
qed

lemma look_append: "walk m root p = Some t \<Longrightarrow> r \<noteq> [] \<Longrightarrow> look m root (p @ r) = look m t r"
  by (induction p arbitrary: root) (auto simp: Let_def split: if_splits)

lemma look_none: "walk m root p = Some t \<Longrightarrow> \<not> present (pte m t i) \<Longrightarrow> look m root (p @ i # r) = 0"
  by (simp add: look_append Let_def)

lemma look_zero: "\<forall>i \<in> set r. \<not> present (pte m t i) \<Longrightarrow> look m t r = 0"
  by (cases r) (auto simp: Let_def)

lemma add_table_look:
  assumes ok: "aspace_ok m root F" and p: "vpath (p @ [i])" "walk m root p = Some t"
    and absent: "\<not> present (pte m t i)" and nt: "nt \<in> F" "aligned4k nt"
    and m'_def: "m' = store64 (zero_range m nt PAGE_SIZE_4K) (pte_at t i) (nt OR X86_PTE_P OR X86_PTE_RW OR X86_PTE_US)"
    and q: "length q = 4" "\<forall>j \<in> set q. j < 512"
  shows "look m' root q = look m root q"
proof -
  have vp: "vpath p" and i: "i < 512" using p(1) by (auto simp: vpath_def)
  have t: "aligned4k t" "t \<notin> F" using aspace_okD [OF ok vp p(2)] by auto
  have st: "pte m' t' j = pte (zero_range m nt PAGE_SIZE_4K) t' j" if "t' \<noteq> t \<or> j \<noteq> i" "aligned4k t'" "j < 512" for t' j
    unfolding m'_def by (rule pte_store_other) (use t i that in auto)
  show ?thesis
  proof (cases "\<exists>r. q = p @ i # r")
    case True
    then obtain r where r: "q = (p @ [i]) @ r" by auto
    have "r \<noteq> []" using r q p(1) by (auto simp: vpath_def)
    have "walk m' root (p @ [i]) = Some nt" using add_table_walk [OF ok p absent nt p(1) m'_def] by simp
    from look_append [OF this \<open>r \<noteq> []\<close>] have "look m' root q = look m' nt r" unfolding r .
    also have "\<dots> = 0"
    proof (rule look_zero, intro ballI)
      fix j assume "j \<in> set r"
      then have j: "j < 512" using r q by auto
      have "nt \<noteq> t" using nt t by auto
      then show "\<not> present (pte m' nt j)" using st [of nt j] j nt(2) pte_zero [OF nt(2) j] by simp
    qed
    also have "0 = look m root q" using look_none [OF p(2) absent] by (simp add: r)
    finally show ?thesis .
  next
    case False
    show ?thesis
    proof (rule look_cong)
      fix p' j r t' assume a: "q = p' @ j # r" "walk m root p' = Some t'"
      have v: "vpath p'" "j < 512" using a(1) q by (auto simp: vpath_def)
      note d = aspace_okD [OF ok v(1) a(2)]
      have ne: "t' \<noteq> t \<or> j \<noteq> i" using d(3) [OF vp] p(2) False a(1) by auto
      have "pte (zero_range m nt PAGE_SIZE_4K) t' j = pte m t' j"
        by (rule pte_outside_page [OF nt(2)]) (use d v nt zero_range_outside in auto)
      with st [OF ne] d v show "pte m' t' j = pte m t' j" by auto
    qed
  qed
qed

section \<open>Filling in the levels\<close>

lemma pmm_rep_mem:
  assumes "pmm_rep (p, m) F" "\<And>f. f \<in> F \<Longrightarrow> load64 m' f = load64 m f"
  shows "pmm_rep (p, m') F"
proof -
  obtain fs where l: "pmm_lists (p, m) fs" and F: "F = (\<Union>c < PMM_NUM_COLORS. set (fs c))"
    using assms(1) by (auto simp: pmm_rep_def)
  have "color_list (p, m') c (fs c)" if "c < PMM_NUM_COLORS" for c
  proof -
    have "color_list (p, m) c (fs c)" using l that by (simp add: pmm_lists_def)
    then show ?thesis using assms(2) that unfolding color_list_def
      by (auto simp: F intro: frame_list_cong [of m])
  qed
  then have "pmm_lists (p, m') fs" using l by (simp add: pmm_lists_def)
  with F show ?thesis by (auto simp: pmm_rep_def)
qed

lemma pmm_rep_pte:
  assumes rep: "pmm_rep (p, m) F" and t: "aligned4k t" "t \<notin> F" "i < 512"
  shows "pmm_rep (p, store64 m (pte_at t i) v) F"
proof (rule pmm_rep_mem [OF rep])
  fix f assume "f \<in> F"
  then have f: "aligned4k f" "f \<noteq> t" using pmm_frames.rep_frame [OF rep] t by auto
  have "pte (store64 m (pte_at t i) v) f 0 = pte m f 0" by (rule pte_store_other) (use f t in auto)
  then show "load64 (store64 m (pte_at t i) v) f = load64 m f" by (simp add: pte_def pte_at_def)
qed

text \<open>One step down: the table below \<open>t\<close> exists afterwards, and no lookup changes.\<close>

lemma get_next_level_ok:
  assumes rep: "pmm_rep (pm, m) F" and ok: "aspace_ok m root F" and p: "vpath (p @ [i])" "walk m root p = Some t"
    and fr: "F \<noteq> {}" and nl: "present (pte m t i) \<Longrightarrow> \<not> large (pte m t i)"
    and g: "get_next_level t i (pm, m) = (t', pm', m')"
  shows "\<exists>F'. F' \<subseteq> F \<and> card F \<le> Suc (card F') \<and> pmm_rep (pm', m') F' \<and> aspace_ok m' root F'
     \<and> walk m' root (p @ [i]) = Some t' \<and> (\<forall>q. length q = 4 \<longrightarrow> (\<forall>j \<in> set q. j < 512) \<longrightarrow> look m' root q = look m root q)"
proof (cases "present (pte m t i)")
  case True
  with g have e: "m' = m" "pm' = pm" "t' = pte m t i AND PAGE_MASK_4K" by (auto simp: get_next_level_def Let_def)
  have "walk m root (p @ [i]) = Some t'" unfolding walk_snoc p(2) e using True nl by simp
  with rep ok show ?thesis unfolding e by (intro exI [of _ F]) auto
next
  case False
  have vp: "vpath p" and i: "i < 512" using p(1) by (auto simp: vpath_def)
  have t: "aligned4k t" "t \<notin> F" using aspace_okD [OF ok vp p(2)] by auto
  obtain nt st where a: "pmm_alloc PMM_COLOR_ANY (pm, m) = (nt, st)" by (cases "pmm_alloc PMM_COLOR_ANY (pm, m)")
  have nt: "nt \<in> F" "pmm_rep st (F - {nt})" "snd st = zero_range m nt PAGE_SIZE_4K"
    using pmm_frames.alloc_some [OF rep fr a] by auto
  have al: "aligned4k nt" using pmm_frames.rep_frame [OF rep nt(1)] by simp
  have zz: "zero_range (zero_range m nt PAGE_SIZE_4K) nt PAGE_SIZE_4K = zero_range m nt PAGE_SIZE_4K"
    by (simp add: zero_range_def fun_eq_iff)
  let ?e = "nt OR X86_PTE_P OR X86_PTE_RW OR X86_PTE_US"
  have e: "m' = store64 (zero_range m nt PAGE_SIZE_4K) (pte_at t i) ?e" "pm' = fst st" "t' = pte m' t i AND PAGE_MASK_4K"
    using g False a nt(3) zz by (cases st; auto simp: get_next_level_def alloc_table_def Let_def)+
  have t': "t' = nt" unfolding e(3) by (simp add: e(1) table_entry(3) [OF al])
  have w: "walk m' root (p @ [i]) = Some t'"
    using add_table_walk [OF ok p False nt(1) al p(1) e(1)] by (simp add: t')
  have r: "pmm_rep (fst st, zero_range m nt PAGE_SIZE_4K) (F - {nt})" using nt(2,3) by (cases st) auto
  have "pmm_rep (pm', m') (F - {nt})" unfolding e(1,2) by (rule pmm_rep_pte [OF r]) (use t i in auto)
  moreover have "card F \<le> Suc (card (F - {nt}))"
    using card_Suc_Diff1 [OF pmm_frames.rep_finite [OF rep] nt(1)] by simp
  moreover note add_table_ok [OF ok p False nt(1) al e(1)] add_table_look [OF ok p False nt(1) al e(1)] w
  ultimately show ?thesis by (intro exI [of _ "F - {nt}"]) auto
qed

text \<open>Replacing a leaf entry changes one lookup.\<close>

lemma leaf_store:
  assumes ok: "aspace_ok m root F" and w: "walk m root (dir_path va) = Some pt"
    and m'_def: "m' = store64 m (pte_at pt (PT_INDEX va)) e"
  shows "aspace_ok m' root F"
    and "length q = 4 \<Longrightarrow> \<forall>j \<in> set q. j < 512 \<Longrightarrow>
      look m' root q = (if q = va_path va then (if present e then e else 0) else look m root q)"
proof -
  note d = aspace_okD [OF ok vpath_dir w]
  have len: "length (dir_path va) = 3" by (simp add: dir_path_def)
  have other: "pte m' t j = pte m t j" if "aligned4k t" "j < 512" "t \<noteq> pt \<or> j \<noteq> PT_INDEX va" for t j
    unfolding m'_def by (rule pte_store_other) (use d that index_bounds in auto)
  have wk: "walk m' root q = walk m root q" if q: "vpath q" for q
  proof (rule walk_cong)
    fix p j r t assume a: "q = p @ j # r" "walk m root p = Some t"
    have v: "vpath p" "j < 512" "length p < 3" using q a(1) by (auto simp: vpath_def)
    have "t \<noteq> pt" using aspace_okD(3) [OF ok v(1) a(2) vpath_dir] w v(3) len by auto
    then show "pte m' t j = pte m t j" using aspace_okD(1) [OF ok v(1) a(2)] v by (intro other) auto
  qed
  show "aspace_ok m' root F"
    unfolding aspace_ok_def
  proof (intro conjI allI impI)
    fix p q t assume "vpath p" "vpath q" "walk m' root p = Some t" "walk m' root q = Some t"
    then show "p = q" using aspace_okD(3) [OF ok, of q t p] by (simp add: wk)
  next
    fix p t assume "vpath p" "walk m' root p = Some t"
    then show "aligned4k t" "t \<notin> F" using aspace_okD(1,2) [OF ok, of p t] by (simp_all add: wk)
  next
    fix p t j assume a: "vpath p" "length p < 2" "j < 512" "walk m' root p = Some t" "present (pte m' t j)"
    have wp: "walk m root p = Some t" using a by (simp add: wk)
    have "t \<noteq> pt" using aspace_okD(3) [OF ok a(1) wp vpath_dir] w a(2) len by auto
    then have "pte m' t j = pte m t j" using aspace_okD(1) [OF ok a(1) wp] a by (intro other) auto
    then show "\<not> large (pte m' t j)" using aspace_okD(4) [OF ok a(1) wp a(2,3)] a(5) by simp
  qed
  show "look m' root q = (if q = va_path va then (if present e then e else 0) else look m root q)"
    if q: "length q = 4" "\<forall>j \<in> set q. j < 512"
  proof (cases "q = va_path va")
    case True
    have "walk m' root (dir_path va) = Some pt" using wk [OF vpath_dir] w by simp
    then show ?thesis by (simp add: True va_path_def look_append m'_def Let_def)
  next
    case False
    have "look m' root q = look m root q"
    proof (rule look_cong)
      fix p j r t assume a: "q = p @ j # r" "walk m root p = Some t"
      have v: "vpath p" "j < 512" using q a(1) by (auto simp: vpath_def)
      have "t \<noteq> pt \<or> j \<noteq> PT_INDEX va"
        using aspace_okD(3) [OF ok v(1) a(2) vpath_dir] w False a(1) q len by (auto simp: va_path_def)
      then show "pte m' t j = pte m t j" using aspace_okD(1) [OF ok v(1) a(2)] v by (intro other) auto
    qed
    with False show ?thesis by simp
  qed
qed

lemma va_path_bounds: "length (va_path va) = 4" "\<forall>j \<in> set (va_path va). j < 512"
  by (simp_all add: va_path_def dir_path_def index_bounds)

lemma ensure_pt_ok:
  assumes rep: "pmm_rep (pm, m) F" and ok: "aspace_ok m root F" and fr: "3 \<le> card F"
    and nl: "\<not> large (look m root (va_path va))" and e: "ensure_pt root va (pm, m) = (pt, pm', m')"
  shows "\<exists>F'. F' \<subseteq> F \<and> pmm_rep (pm', m') F' \<and> aspace_ok m' root F' \<and> walk m' root (dir_path va) = Some pt
     \<and> (\<forall>q. length q = 4 \<longrightarrow> (\<forall>j \<in> set q. j < 512) \<longrightarrow> look m' root q = look m root q)"
proof -
  let ?i4 = "PML4_INDEX va" and ?i3 = "PDPT_INDEX va" and ?i2 = "PD_INDEX va"
  obtain t1 p1 m1 where g1: "get_next_level root ?i4 (pm, m) = (t1, p1, m1)" by (cases "get_next_level root ?i4 (pm, m)") auto
  obtain t2 p2 m2 where g2: "get_next_level t1 ?i3 (p1, m1) = (t2, p2, m2)" by (cases "get_next_level t1 ?i3 (p1, m1)") auto
  have g3: "get_next_level t2 ?i2 (p2, m2) = (pt, pm', m')" using e by (simp add: ensure_pt_def Let_def g1 g2)
  have v: "vpath [?i4]" "vpath [?i4, ?i3]" "vpath [?i4, ?i3, ?i2]" by (simp_all add: vpath_def index_bounds)
  have nl1: "present (pte m root ?i4) \<Longrightarrow> \<not> large (pte m root ?i4)"
    using aspace_okD(4) [OF ok, of "[]" root] index_bounds by (simp add: vpath_def)
  have F0: "F \<noteq> {}" using fr by auto
  obtain F1 where s1: "F1 \<subseteq> F" "card F \<le> Suc (card F1)" "pmm_rep (p1, m1) F1" "aspace_ok m1 root F1"
    "walk m1 root [?i4] = Some t1" "\<And>q. length q = 4 \<Longrightarrow> \<forall>j \<in> set q. j < 512 \<Longrightarrow> look m1 root q = look m root q"
    using get_next_level_ok [OF rep ok, of "[]" ?i4 root] v nl1 F0 g1 by auto
  have F1: "F1 \<noteq> {}" using s1(2) fr by auto
  have nl2: "present (pte m1 t1 ?i3) \<Longrightarrow> \<not> large (pte m1 t1 ?i3)"
    using aspace_okD(4) [OF s1(4) v(1) s1(5)] index_bounds by simp
  obtain F2 where s2: "F2 \<subseteq> F1" "card F1 \<le> Suc (card F2)" "pmm_rep (p2, m2) F2" "aspace_ok m2 root F2"
    "walk m2 root [?i4, ?i3] = Some t2" "\<And>q. length q = 4 \<Longrightarrow> \<forall>j \<in> set q. j < 512 \<Longrightarrow> look m2 root q = look m1 root q"
    using get_next_level_ok [OF s1(3,4), of "[?i4]" ?i3 t1] v s1(5) nl2 F1 g2 by auto
  have F2: "F2 \<noteq> {}" using s1(2) s2(2) fr by auto
  have l2: "look m2 root (va_path va) = look m root (va_path va)"
    using s1(6) [OF va_path_bounds] s2(6) [OF va_path_bounds] by simp
  have "look m2 root (va_path va) = look m2 t2 [?i2, PT_INDEX va]"
    using look_append [OF s2(5), of "[?i2, PT_INDEX va]"] by (simp add: va_path_def dir_path_def)
  then have nl3: "present (pte m2 t2 ?i2) \<Longrightarrow> \<not> large (pte m2 t2 ?i2)" using nl l2 by (auto simp: Let_def split: if_splits)
  obtain F3 where s3: "F3 \<subseteq> F2" "pmm_rep (pm', m') F3" "aspace_ok m' root F3"
    "walk m' root [?i4, ?i3, ?i2] = Some pt" "\<And>q. length q = 4 \<Longrightarrow> \<forall>j \<in> set q. j < 512 \<Longrightarrow> look m' root q = look m2 root q"
    using get_next_level_ok [OF s2(3,4), of "[?i4, ?i3]" ?i2 t2] v s2(5) nl3 F2 g3 by auto
  show ?thesis
    by (rule exI [of _ F3]) (use s1 s2 s3 in \<open>auto simp: dir_path_def\<close>)
qed

text \<open>The entry that \<open>arch_vm_map_page\<close> writes.\<close>

lemma prot_bits_masks:
  "prot_bits flags AND PAGE_MASK_4K = (if flags AND VM_PROT_EXEC = 0 then X86_PTE_NX else 0)"
  "prot_bits flags AND X86_PTE_PS = 0"
  by (simp_all add: prot_bits_def X86_PTE_RW_def X86_PTE_US_def X86_PTE_NX_def X86_PTE_PS_def PAGE_MASK_4K_def PAGE_SIZE_4K_def)

lemma map_entry:
  assumes e_def: "e = (pa AND PAGE_MASK_4K) OR (X86_PTE_P OR prot_bits flags)"
  shows "present e" "\<not> large e"
    "e AND PAGE_MASK_4K = (pa AND PAGE_MASK_4K) OR (if flags AND VM_PROT_EXEC = 0 then X86_PTE_NX else 0)"
    "frame_of e = pa AND PAGE_MASK_4K AND NOT X86_PTE_NX"
proof -
  have pm: "X86_PTE_P AND PAGE_MASK_4K = 0" "X86_PTE_P AND X86_PTE_PS = 0" "PAGE_MASK_4K AND X86_PTE_PS = 0"
    by (simp_all add: X86_PTE_P_def X86_PTE_PS_def PAGE_MASK_4K_def PAGE_SIZE_4K_def)
  have d: "e AND x = (pa AND PAGE_MASK_4K AND x) OR ((X86_PTE_P AND x) OR (prot_bits flags AND x))" for x
    unfolding e_def by (simp add: and.commute [of _ x] bit.conj_disj_distrib and.left_commute)
  show "\<not> large e" unfolding large_def d by (simp add: pm prot_bits_masks and.assoc)
  have "bit (e AND X86_PTE_P) 0" unfolding d by (simp add: bit_simps X86_PTE_P_def)
  then show pr: "present e" unfolding present_def by (metis bit_0_eq bot_apply bot_bool_def)
  show m: "e AND PAGE_MASK_4K = (pa AND PAGE_MASK_4K) OR (if flags AND VM_PROT_EXEC = 0 then X86_PTE_NX else 0)"
    unfolding d by (simp add: pm prot_bits_masks)
  have nx: "X86_PTE_NX AND NOT X86_PTE_NX = 0" by simp
  have "e AND PAGE_MASK_4K AND NOT X86_PTE_NX = pa AND PAGE_MASK_4K AND NOT X86_PTE_NX"
    unfolding m [unfolded and.assoc] and.assoc [symmetric] m by (simp add: bit.conj_disj_distrib2)
  then show "frame_of e = pa AND PAGE_MASK_4K AND NOT X86_PTE_NX"
    using pr \<open>\<not> large e\<close> by (simp add: frame_of_def leaf_mask_def)
qed

section \<open>Examples\<close>

text \<open>An empty address space at \<open>0x1000\<close> and four free frames.\<close>

lemma aspace_ok_empty:
  assumes "aligned4k root" "root \<notin> F" "\<And>i. i < 512 \<Longrightarrow> pte m root i = 0"
  shows "aspace_ok m root F"
proof -
  have "walk m root q = Some t \<longleftrightarrow> q = [] \<and> t = root" if "vpath q" for q t
    using that assms(3) by (cases q) (auto simp: vpath_def)
  with assms show ?thesis unfolding aspace_ok_def by auto
qed

definition pt_ex :: pmm_st where
  "pt_ex = pmm_free 0x5000 (pmm_free 0x4000 (pmm_free 0x3000 (pmm_free 0x2000
     (\<lparr>free_head = replicate PMM_NUM_COLORS 0, next_color = 0, total_frames = 0, free_frames = 0,
       free_by_color = replicate PMM_NUM_COLORS 0, alloc_calls = 0, free_calls = 0\<rparr>, \<lambda>_. 0))))"

definition pt_ex_frames :: "paddr set" where
  "pt_ex_frames = {0x5000, 0x4000, 0x3000, 0x2000}"

lemma pt_ex_rep: "pmm_rep pt_ex pt_ex_frames" "3 \<le> card pt_ex_frames"
proof -
  show "pmm_rep pt_ex pt_ex_frames" unfolding pt_ex_def pt_ex_frames_def
    by (intro pmm_free_rep pmm_rep_empty) (simp_all add: aligned4k_def)
  show "3 \<le> card pt_ex_frames" by (simp add: pt_ex_frames_def)
qed

lemma pte_free:
  assumes "aligned4k f" "aligned4k t" "f \<noteq> t" "j < 512"
  shows "pte (snd (pmm_free f st)) t j = pte (snd st) t j"
proof (rule pte_outside_page [OF assms])
  fix x assume "\<not> in_page f x"
  then show "snd (pmm_free f st) x = snd st x" unfolding pmm_free_def Let_def split_beta snd_conv by (rule store64_outside)
qed

lemma pt_ex_pte: "i < 512 \<Longrightarrow> pte (snd pt_ex) 0x1000 i = 0"
proof -
  assume i: "i < 512"
  have "pte (snd pt_ex) 0x1000 i = pte (\<lambda>_. 0) 0x1000 i" using i by (simp add: pt_ex_def pte_free aligned4k_def)
  also have "\<dots> = 0" by (simp add: pte_def load64_def word_rcat_def upt_rec)
  finally show ?thesis .
qed

lemma pt_ex_ok: "aspace_ok (snd pt_ex) 0x1000 pt_ex_frames"
  by (rule aspace_ok_empty) (simp_all add: aligned4k_def pt_ex_frames_def pt_ex_pte)

lemma pt_ex_look: "look (snd pt_ex) 0x1000 (va_path va) = 0"
  by (simp add: va_path_def dir_path_def Let_def pt_ex_pte index_bounds)

section \<open>Mapping and unmapping a page\<close>

lemma map_page_look:
  assumes "pmm_rep (pm, m) F" "aspace_ok m root F" "3 \<le> card F" "\<not> large (look m root (va_path va))"
    and "arch_vm_map_page root va pa flags (pm, m) = (rc, pm', m')"
  shows "\<exists>F' e. F' \<subseteq> F \<and> pmm_rep (pm', m') F' \<and> aspace_ok m' root F' \<and> rc = 0
     \<and> e = (pa AND PAGE_MASK_4K) OR (X86_PTE_P OR prot_bits flags)
     \<and> (\<forall>q. length q = 4 \<longrightarrow> (\<forall>j \<in> set q. j < 512) \<longrightarrow> look m' root q = (if q = va_path va then e else look m root q))"
proof -
  let ?e = "(pa AND PAGE_MASK_4K) OR (X86_PTE_P OR prot_bits flags)"
  obtain pt p1 m1 where en: "ensure_pt root va (pm, m) = (pt, p1, m1)" by (cases "ensure_pt root va (pm, m)") auto
  have m': "m' = store64 m1 (pte_at pt (PT_INDEX va)) ?e" "pm' = p1" "rc = 0"
    using assms(5) by (auto simp: arch_vm_map_page_def set_pte_def en)
  obtain F' where F': "F' \<subseteq> F" "pmm_rep (p1, m1) F'" "aspace_ok m1 root F'" "walk m1 root (dir_path va) = Some pt"
    "\<And>q. length q = 4 \<Longrightarrow> \<forall>j \<in> set q. j < 512 \<Longrightarrow> look m1 root q = look m root q"
    using ensure_pt_ok [OF assms(1-4) en] by blast
  note l = leaf_store [OF F'(3,4) m'(1)]
  have pt: "aligned4k pt" "pt \<notin> F'" using aspace_okD(1,2) [OF F'(3) vpath_dir F'(4)] .
  have r: "pmm_rep (pm', m') F'" unfolding m'(1,2) by (rule pmm_rep_pte [OF F'(2) pt]) (simp add: index_bounds)
  have "look m' root q = (if q = va_path va then ?e else look m root q)" if "length q = 4" "\<forall>j \<in> set q. j < 512" for q
    using l(2) [OF that] F'(5) [OF that] map_entry(1) [OF refl, of pa flags] by simp
  with F'(1) r l(1) m'(3) show ?thesis by blast
qed

text \<open>C6. Mapping a page with \<^verbatim>\<open>arch_vm_map_page\<close>: afterwards the address translates to the mapped frame,
  every other page of the address space translates as before, and the tables still form a tree that
  is disjoint from the free frames. Three free frames for missing levels are enough.\<close>

theorem map_then_translate:
  assumes "pmm_rep (pm, m) F" "aspace_ok m root F" "3 \<le> card F" "\<not> large (look m root (va_path va))"
    and "arch_vm_map_page root va pa flags (pm, m) = (rc, pm', m')"
  shows "arch_vm_translate m' root va = pa AND PAGE_MASK_4K AND NOT X86_PTE_NX
     \<and> (\<forall>va'. va_path va' \<noteq> va_path va \<longrightarrow> arch_vm_translate m' root va' = arch_vm_translate m root va')
     \<and> (\<exists>F' \<subseteq> F. pmm_rep (pm', m') F' \<and> aspace_ok m' root F')"
proof -
  obtain F' e where F': "F' \<subseteq> F" "pmm_rep (pm', m') F'" "aspace_ok m' root F'"
    and e: "e = (pa AND PAGE_MASK_4K) OR (X86_PTE_P OR prot_bits flags)"
    and l: "\<And>q. length q = 4 \<Longrightarrow> \<forall>j \<in> set q. j < 512 \<Longrightarrow> look m' root q = (if q = va_path va then e else look m root q)"
    using map_page_look [OF assms] by blast
  show ?thesis using F' l [OF va_path_bounds] map_entry(4) [OF e]
    by (auto simp: translate_look [OF F'(3)] translate_look [OF assms(2)])
qed

theorem map_then_translate_witness:
  "arch_vm_translate (snd (snd (arch_vm_map_page 0x1000 0x40201000 0x9000 (VM_PROT_READ OR VM_PROT_WRITE) pt_ex)))
     0x1000 0x40201000 = 0x9000"
proof -
  obtain rc pm' m' where e: "arch_vm_map_page 0x1000 0x40201000 0x9000 (VM_PROT_READ OR VM_PROT_WRITE) pt_ex = (rc, pm', m')"
    by (cases "arch_vm_map_page 0x1000 0x40201000 0x9000 (VM_PROT_READ OR VM_PROT_WRITE) pt_ex") auto
  have "arch_vm_translate m' 0x1000 0x40201000 = 0x9000 AND PAGE_MASK_4K AND NOT X86_PTE_NX"
    using map_then_translate [of "fst pt_ex" "snd pt_ex", OF _ pt_ex_ok pt_ex_rep(2) _, of "0x40201000"] pt_ex_rep(1) e
    by (simp add: pt_ex_look)
  then show ?thesis by (simp add: e PAGE_MASK_4K_def PAGE_SIZE_4K_def X86_PTE_NX_def)
qed

lemma walk_to_pte_dir:
  assumes ok: "aspace_ok m root F" and w: "walk_to_pte m root va = Some a" and nl: "\<not> large (load64 m a)"
  shows "\<exists>pt. walk m root (dir_path va) = Some pt \<and> a = pte_at pt (PT_INDEX va)"
proof -
  define e4 where "e4 = pte m root (PML4_INDEX va)"
  define e3 where "e3 = pte m (e4 AND PAGE_MASK_4K) (PDPT_INDEX va)"
  define e2 where "e2 = pte m (e3 AND PAGE_MASK_4K) (PD_INDEX va)"
  have p4: "present e4" using w by (simp add: walk_to_pte_def Let_def e4_def split: if_splits)
  have p3: "present e3" using w p4 by (simp add: walk_to_pte_def Let_def e4_def e3_def split: if_splits)
  have p2: "present e2" using w p4 p3 by (simp add: walk_to_pte_def Let_def e4_def e3_def e2_def split: if_splits)
  have a: "a = (if large e2 then pte_at (e3 AND PAGE_MASK_4K) (PD_INDEX va) else pte_at (e2 AND PAGE_MASK_4K) (PT_INDEX va))"
    using w p4 p3 p2 by (simp add: walk_to_pte_def Let_def e4_def e3_def e2_def split: if_splits)
  have l2: "\<not> large e2" using a nl by (auto simp: e2_def pte_def)
  have "\<not> large e4" "\<not> large e3"
    using aspace_ok_upper [OF ok] p4 p3 by (simp_all add: e4_def e3_def)
  with p4 p3 p2 l2 have "walk m root (dir_path va) = Some (e2 AND PAGE_MASK_4K)"
    by (simp add: dir_path_def e4_def e3_def e2_def)
  with a l2 show ?thesis by simp
qed

lemma look_walk_to_pte:
  assumes "aspace_ok m root F" "look m root (va_path va) = e" "e \<noteq> 0"
  shows "\<exists>a. walk_to_pte m root va = Some a \<and> present e \<and> load64 m a = e"
proof (cases "walk_to_pte m root va")
  case None
  with walk_to_pte_look [OF assms(1), of va] assms(2,3) show ?thesis by simp
next
  case (Some a)
  have "e = (if present (load64 m a) then load64 m a else 0)"
    using walk_to_pte_look [OF assms(1), of va] assms(2) by (simp only: Some option.case)
  with assms(3) have "present (load64 m a)" "load64 m a = e" by presburger+
  with Some show ?thesis by blast
qed



text \<open>Unmapping right after mapping gives back the frame, but with the no-execute bit of the entry
  still set in the address: \<^verbatim>\<open>arch_vm_unmap_page\<close> does not clear it as \<^verbatim>\<open>arch_vm_translate\<close> does.\<close>

theorem map_unmap_keeps_nx:
  assumes "pmm_rep (pm, m) F" "aspace_ok m root F" "3 \<le> card F" "\<not> large (look m root (va_path va))"
    and "arch_vm_map_page root va pa flags (pm, m) = (rc, st)"
  shows "fst (arch_vm_unmap_page root va st) = (pa AND PAGE_MASK_4K) OR (if flags AND VM_PROT_EXEC = 0 then X86_PTE_NX else 0)"
proof -
  obtain pm' m' where st: "st = (pm', m')" by (cases st)
  obtain F' e where ok: "aspace_ok m' root F'"
    and e: "e = (pa AND PAGE_MASK_4K) OR (X86_PTE_P OR prot_bits flags)"
    and l: "\<And>q. length q = 4 \<Longrightarrow> \<forall>j \<in> set q. j < 512 \<Longrightarrow> look m' root q = (if q = va_path va then e else look m root q)"
    using map_page_look [OF assms(1-4)] assms(5) st by blast
  have "look m' root (va_path va) = e" using l [OF va_path_bounds] by simp
  moreover have "e \<noteq> 0" using map_entry(1) [OF e] by auto
  ultimately obtain a where "walk_to_pte m' root va = Some a" "load64 m' a = e"
    using look_walk_to_pte [OF ok] by blast
  then have "fst (arch_vm_unmap_page root va st) = e AND leaf_mask e"
    using map_entry(1) [OF e] by (simp add: arch_vm_unmap_page_def st Let_def)
  then show ?thesis using map_entry(2,3) [OF e] by (simp add: leaf_mask_def)
qed

theorem map_unmap_keeps_nx_witness:
  "fst (arch_vm_unmap_page 0x1000 0x40201000
     (snd (arch_vm_map_page 0x1000 0x40201000 0x9000 VM_PROT_READ pt_ex))) = 0x8000000000009000"
  using map_unmap_keeps_nx [of "fst pt_ex" "snd pt_ex", OF _ pt_ex_ok pt_ex_rep(2) _, of "0x40201000" "0x9000" VM_PROT_READ
      "fst (arch_vm_map_page 0x1000 0x40201000 0x9000 VM_PROT_READ pt_ex)"
      "snd (arch_vm_map_page 0x1000 0x40201000 0x9000 VM_PROT_READ pt_ex)"] pt_ex_rep(1)
  by (simp add: pt_ex_look PAGE_MASK_4K_def PAGE_SIZE_4K_def X86_PTE_NX_def VM_PROT_READ_def VM_PROT_EXEC_def)

end
