(* ===== verification/Kheap.thy ===== *)
theory Kheap
  imports Klib
begin

text \<open>
  The kernel heap, \<^verbatim>\<open>src/core/kheap.c\<close>: a first-fit allocator whose free blocks are linked through
  physical memory, each with its size and the address of the next block in its first two words. An
  allocated block keeps its size in its first word, in front of the address that the caller gets.
\<close>

section \<open>State and operations\<close>

definition KHEAP_ALIGN :: u64 where "KHEAP_ALIGN = 16"
definition KHEAP_MIN_BLOCK :: u64 where "KHEAP_MIN_BLOCK = 16"

record kheap =
  heap_start :: u64
  heap_end :: u64
  free_list :: u64

type_synonym kheap_st = "kheap \<times> mem"

definition blk_size :: "mem \<Rightarrow> u64 \<Rightarrow> u64" where "blk_size m b = load64 m b"
definition blk_next :: "mem \<Rightarrow> u64 \<Rightarrow> u64" where "blk_next m b = load64 m (b + 8)"

definition kheap_init :: "paddr \<Rightarrow> u64 \<Rightarrow> mem \<Rightarrow> kheap_st" where
  "kheap_init base sz m =
     (\<lparr>heap_start = base, heap_end = base + sz, free_list = base\<rparr>,
      store64 (store64 m base sz) (base + 8) 0)"

text \<open>Writing through \<^verbatim>\<open>prev\<close>, which points to \<open>free_list\<close> (\<open>None\<close>) or to the link of a block.\<close>

definition set_link :: "u64 option \<Rightarrow> u64 \<Rightarrow> kheap_st \<Rightarrow> kheap_st" where
  "set_link prev v st =
     (case prev of None \<Rightarrow> ((fst st)\<lparr>free_list := v\<rparr>, snd st) | Some b \<Rightarrow> (fst st, store64 (snd st) (b + 8) v))"

definition kmalloc_take :: "u64 option \<Rightarrow> u64 \<Rightarrow> u64 \<Rightarrow> kheap_st \<Rightarrow> u64 \<times> kheap_st" where
  "kmalloc_take prev cur need st =
     (let (h, m) = st; remaining = blk_size m cur - need
      in if remaining \<ge> KHEAP_MIN_BLOCK + KHEAP_ALIGN
         then (let rest = cur + need;
                   m = store64 m rest remaining;
                   m = store64 m (rest + 8) (blk_next m cur);
                   (h, m) = set_link prev rest (h, m)
               in (cur + 8, h, store64 m cur need))
         else (let take = blk_size m cur;
                   (h, m) = set_link prev (blk_next m cur) (h, m)
               in (cur + 8, h, store64 m cur take)))"

partial_function (option) kmalloc_walk ::
    "u64 option \<Rightarrow> u64 \<Rightarrow> u64 \<Rightarrow> kheap_st \<Rightarrow> (u64 \<times> kheap_st) option" where
  "kmalloc_walk prev cur need st =
     (if cur = 0 then Some (0, st)
      else if blk_size (snd st) cur \<ge> need then Some (kmalloc_take prev cur need st)
      else kmalloc_walk (Some cur) (blk_next (snd st) cur) need st)"

definition kmalloc_need :: "u64 \<Rightarrow> u64" where
  "kmalloc_need n = align_up (n + 8) KHEAP_ALIGN"

definition kmalloc :: "u64 \<Rightarrow> kheap_st \<Rightarrow> (u64 \<times> kheap_st) option" where
  "kmalloc n st = (if n = 0 then Some (0, st) else kmalloc_walk None (free_list (fst st)) (kmalloc_need n) st)"

definition kmalloc_zeroed :: "u64 \<Rightarrow> kheap_st \<Rightarrow> (u64 \<times> kheap_st) option" where
  "kmalloc_zeroed n st =
     (case kmalloc n st of
        None \<Rightarrow> None
      | Some (p, h, m) \<Rightarrow> Some (if p = 0 then (0, h, m) else (p, h, zero_range m p n)))"

definition kfree :: "u64 \<Rightarrow> kheap_st \<Rightarrow> kheap_st" where
  "kfree ptr st =
     (let (h, m) = st
      in if ptr = 0 \<or> ptr < heap_start h \<or> ptr \<ge> heap_end h then st
         else (let hdr = ptr - 8; sz = load64 m hdr; m = store64 m hdr sz; m = store64 m (hdr + 8) (free_list h)
               in (h\<lparr>free_list := hdr\<rparr>, m)))"

section \<open>What the heap holds\<close>

text \<open>A chain of blocks with their sizes, from \<open>b\<close> to \<open>c\<close>.\<close>

fun seg :: "mem \<Rightarrow> u64 \<Rightarrow> (u64 \<times> nat) list \<Rightarrow> u64 \<Rightarrow> bool" where
  "seg m b [] c \<longleftrightarrow> b = c"
| "seg m b (x # bs) c \<longleftrightarrow> b = fst x \<and> b \<noteq> 0 \<and> unat (blk_size m b) = snd x \<and> seg m (blk_next m b) bs c"

definition apart :: "u64 \<times> nat \<Rightarrow> u64 \<times> nat \<Rightarrow> bool" where
  "apart x y \<longleftrightarrow> unat (fst x) + snd x \<le> unat (fst y) \<or> unat (fst y) + snd y \<le> unat (fst x)"

definition blk_ok :: "kheap \<Rightarrow> u64 \<times> nat \<Rightarrow> bool" where
  "blk_ok h x \<longleftrightarrow> 16 dvd unat (fst x) \<and> 16 dvd snd x \<and> 16 \<le> snd x
     \<and> unat (heap_start h) \<le> unat (fst x) \<and> unat (fst x) + snd x \<le> unat (heap_end h)"

text \<open>\<open>fl\<close> are the free blocks in list order, \<open>al\<close> the allocated ones, whose headers hold their sizes.\<close>

definition heap_rep :: "kheap_st \<Rightarrow> (u64 \<times> nat) list \<Rightarrow> (u64 \<times> nat) list \<Rightarrow> bool" where
  "heap_rep st fl al \<longleftrightarrow>
     seg (snd st) (free_list (fst st)) fl 0 \<and> (\<forall>x \<in> set al. unat (blk_size (snd st) (fst x)) = snd x)
     \<and> (\<forall>x \<in> set (fl @ al). blk_ok (fst st) x) \<and> distinct (fl @ al) \<and> pairwise apart (set (fl @ al))
     \<and> 0 < heap_start (fst st)"

lemma apart_sym: "apart x y \<Longrightarrow> apart y x"
  by (auto simp: apart_def)

lemma seg_append: "seg m b (xs @ ys) c \<longleftrightarrow> (\<exists>d. seg m b xs d \<and> seg m d ys c)"
  by (induction xs arbitrary: b) auto

lemma seg_cong:
  "(\<And>x. x \<in> set xs \<Longrightarrow> blk_size m' (fst x) = blk_size m (fst x) \<and> blk_next m' (fst x) = blk_next m (fst x)) \<Longrightarrow>
    seg m' b xs c = seg m b xs c"
proof (induction xs arbitrary: b)
  case (Cons x xs)
  then have "seg m' b' xs c = seg m b' xs c" for b' by simp
  moreover have "blk_size m' (fst x) = blk_size m (fst x)" "blk_next m' (fst x) = blk_next m (fst x)" using Cons.prems by auto
  ultimately show ?case by (cases "b = fst x") simp_all
qed simp

text \<open>The two words of blocks at different multiples of 16 do not overlap.\<close>

definition al16 :: "u64 \<Rightarrow> bool" where
  "al16 a \<longleftrightarrow> 16 dvd unat a"

lemma unat_add_8: "al16 a \<Longrightarrow> unat (a + 8) = unat a + 8"
proof -
  assume "al16 a"
  then obtain k where k: "unat a = 16 * k" unfolding al16_def by (rule dvdE)
  have "unat a < 2 ^ 64" using unsigned_less [of a] by simp
  then have "unat a + 8 < 2 ^ 64" using k by simp
  then show ?thesis using unat_add_nat [of a 8] by simp
qed

lemma cells:
  assumes "al16 a"
  shows "aligned8 a" "aligned8 (a + 8)"
proof -
  obtain k where k: "unat a = 16 * k" using assms unfolding al16_def by (rule dvdE)
  show "aligned8 a" using k by (auto simp: aligned8_def)
  show "aligned8 (a + 8)" unfolding aligned8_def unat_add_8 [OF assms] using k by auto
qed

lemma cells_ne:
  assumes "al16 a" "al16 b"
  shows "a + 8 \<noteq> b" "a \<noteq> b + 8"
proof -
  obtain k where k: "unat a = 16 * k" using assms(1) unfolding al16_def by (rule dvdE)
  obtain l where l: "unat b = 16 * l" using assms(2) unfolding al16_def by (rule dvdE)
  have "16 * k + 8 \<noteq> 16 * l" "16 * k \<noteq> 16 * l + 8" by presburger+
  then show "a + 8 \<noteq> b" "a \<noteq> b + 8"
    using unat_add_8 [OF assms(1)] unat_add_8 [OF assms(2)] k l by auto
qed

lemma blk_store_other:
  assumes "al16 a" "al16 b" "a \<noteq> b"
  shows "blk_size (store64 m a v) b = blk_size m b" "blk_next (store64 m a v) b = blk_next m b"
    "blk_size (store64 m (a + 8) v) b = blk_size m b" "blk_next (store64 m (a + 8) v) b = blk_next m b"
  unfolding blk_size_def blk_next_def
  using assms cells [OF assms(1)] cells [OF assms(2)] cells_ne [OF assms(1,2)]
  by (simp_all add: load64_store64_other)

lemma blk_store_same:
  assumes "al16 a"
  shows "blk_size (store64 m a v) a = v" "blk_next (store64 m a v) a = blk_next m a"
    "blk_size (store64 m (a + 8) v) a = blk_size m a" "blk_next (store64 m (a + 8) v) a = v"
  unfolding blk_size_def blk_next_def
  using assms cells [OF assms(1)] cells_ne [OF assms assms]
  by (simp_all add: load64_store64_other)

lemma seg_store_other:
  assumes "al16 a" "\<forall>x \<in> set xs. al16 (fst x) \<and> fst x \<noteq> a"
  shows "seg (store64 m a v) b xs c = seg m b xs c" "seg (store64 m (a + 8) v) b xs c = seg m b xs c"
  using assms by (auto intro!: seg_cong simp: blk_store_other)

section \<open>The search\<close>

text \<open>The address of the link in front of the rest of a chain: \<open>None\<close> for the head of the free list.\<close>

definition link_of :: "u64 option \<Rightarrow> (u64 \<times> nat) list \<Rightarrow> u64 option" where
  "link_of prev xs = (if xs = [] then prev else Some (fst (last xs)))"

lemma kmalloc_walk_found:
  "seg m cur (xs @ (a, n) # ys) 0 \<Longrightarrow> \<forall>x \<in> set xs. snd x < unat need \<Longrightarrow> unat need \<le> n \<Longrightarrow>
    kmalloc_walk prev cur need (h, m) = Some (kmalloc_take (link_of prev xs) a need (h, m))"
proof (induction xs arbitrary: cur prev)
  case Nil
  then show ?case by (subst kmalloc_walk.simps) (auto simp: link_of_def word_le_nat_alt)
next
  case (Cons x xs)
  then have "\<not> need \<le> blk_size m cur" "cur = fst x" "cur \<noteq> 0" by (auto simp: word_le_nat_alt)
  then have "kmalloc_walk prev cur need (h, m) = kmalloc_walk (Some (fst x)) (blk_next m cur) need (h, m)"
    by (subst kmalloc_walk.simps) simp
  also have "\<dots> = Some (kmalloc_take (link_of (Some (fst x)) xs) a need (h, m))"
    by (rule Cons.IH) (use Cons.prems in auto)
  finally show ?case by (simp add: link_of_def)
qed

lemma kmalloc_walk_none:
  "seg m cur xs 0 \<Longrightarrow> \<forall>x \<in> set xs. snd x < unat need \<Longrightarrow> kmalloc_walk prev cur need (h, m) = Some (0, h, m)"
proof (induction xs arbitrary: cur prev)
  case Nil
  then show ?case by (subst kmalloc_walk.simps) simp
next
  case (Cons x xs)
  then have "\<not> need \<le> blk_size m cur" "cur = fst x" "cur \<noteq> 0" by (auto simp: word_le_nat_alt)
  then show ?case using Cons by (subst kmalloc_walk.simps) simp
qed

section \<open>Taking a block\<close>

definition keeps :: "(u64 \<times> nat) list \<Rightarrow> mem \<Rightarrow> mem \<Rightarrow> bool" where
  "keeps al m m' \<longleftrightarrow> (\<forall>x \<in> set al. \<forall>j < snd x. m' (fst x + of_nat j) = m (fst x + of_nat j))"

lemma keeps_trans: "keeps al m m1 \<Longrightarrow> keeps al m1 m2 \<Longrightarrow> keeps al m m2"
  by (simp add: keeps_def)

lemma keeps_refl [simp]: "keeps al m m"
  by (simp add: keeps_def)

lemma apart_sub:
  "apart (a, n) y \<Longrightarrow> unat a \<le> unat b \<Longrightarrow> unat b + k \<le> unat a + n \<Longrightarrow> apart (b, k) y"
  by (auto simp: apart_def)

text \<open>A store into a word of one block leaves the blocks apart from it alone.\<close>

lemma keeps_store:
  assumes "\<And>x. x \<in> set al \<Longrightarrow> apart (b, n) x \<and> unat (fst x) + snd x < 2 ^ 64"
    and "unat b \<le> unat c" "unat c + 8 \<le> unat b + n" "unat b + n < 2 ^ 64"
  shows "keeps al m (store64 m c v)"
  unfolding keeps_def
proof (intro ballI allI impI)
  fix x j assume x: "x \<in> set al" "j < snd x"
  have u: "unat (fst x + of_nat j) = unat (fst x) + j" using assms(1) [OF x(1)] x(2) by (intro unat_add_nat) simp
  have "8 \<le> unat (fst x + of_nat j - c)"
  proof (cases "c \<le> fst x + of_nat j")
    case True
    then have "unat (fst x + of_nat j - c) = unat (fst x) + j - unat c" by (simp add: unat_sub u)
    moreover have "unat c \<le> unat (fst x) + j" using True by (simp add: word_le_nat_alt u)
    ultimately show ?thesis using assms(1) [OF x(1)] assms(2,3) x(2) by (auto simp: apart_def)
  next
    case False
    then have lt: "unat (fst x) + j < unat c" by (simp add: word_le_nat_alt u)
    then have "unat (fst x + of_nat j - c) = unat (fst x) + j + 2 ^ 64 - unat c"
      by (simp add: unat_sub_if' u)
    moreover have "unat c + 8 \<le> 2 ^ 64" using assms(3,4) by simp
    ultimately show ?thesis by linarith
  qed
  then show "store64 m c v (fst x + of_nat j) = m (fst x + of_nat j)" by (simp add: store64_def word_less_nat_alt)
qed

lemma keeps_size:
  assumes "keeps al m m'" "x \<in> set al" "8 \<le> snd x"
  shows "blk_size m' (fst x) = blk_size m (fst x)"
  unfolding blk_size_def by (rule load64_cong) (use assms in \<open>auto simp: keeps_def\<close>)

lemma relink:
  assumes "seg m (free_list h) xs d" "seg m v zs 0" "\<forall>x \<in> set (xs @ zs). al16 (fst x)" "distinct (map fst (xs @ zs))"
    and "set_link (link_of None xs) v (h, m) = (h', m')"
  shows "seg m' (free_list h') (xs @ zs) 0" "heap_start h' = heap_start h" "heap_end h' = heap_end h"
    "m' = (if xs = [] then m else store64 m (fst (last xs) + 8) v)"
proof -
  have "seg m' (free_list h') (xs @ zs) 0 \<and> heap_start h' = heap_start h \<and> heap_end h' = heap_end h
     \<and> m' = (if xs = [] then m else store64 m (fst (last xs) + 8) v)"
  proof (cases xs rule: rev_cases)
    case Nil
    with assms show ?thesis by (auto simp: set_link_def link_of_def)
  next
    case (snoc ws x)
    then have e: "h' = h" "m' = store64 m (fst x + 8) v" using assms(5) by (auto simp: set_link_def link_of_def)
    obtain c where w: "seg m (free_list h) ws c" "seg m c [x] d" using assms(1) by (auto simp: snoc seg_append)
    have a: "al16 (fst x)" "\<forall>y \<in> set ws. al16 (fst y) \<and> fst y \<noteq> fst x" "\<forall>y \<in> set zs. al16 (fst y) \<and> fst y \<noteq> fst x"
      using assms(3,4) by (auto simp: snoc) (metis fst_conv image_eqI)+
    have "seg m' (free_list h) ws c" unfolding e using seg_store_other(2) [OF a(1,2)] w(1) by simp
    moreover have "seg m' c [x] v" unfolding e using w(2) blk_store_same [OF a(1)] by auto
    moreover have "seg m' v zs 0" unfolding e using seg_store_other(2) [OF a(1,3)] assms(2) by simp
    ultimately show ?thesis using e by (auto simp: snoc seg_append)
  qed
  then show "seg m' (free_list h') (xs @ zs) 0" "heap_start h' = heap_start h" "heap_end h' = heap_end h"
    "m' = (if xs = [] then m else store64 m (fst (last xs) + 8) v)" by blast+
qed

lemma distinct_fst:
  "distinct xs \<Longrightarrow> pairwise apart (set xs) \<Longrightarrow> \<forall>x \<in> set xs. 0 < snd x \<Longrightarrow> distinct (map fst xs)"
  unfolding distinct_map inj_on_def
proof (intro conjI ballI impI)
  fix x y assume a: "pairwise apart (set xs)" "\<forall>x \<in> set xs. 0 < snd x" "x \<in> set xs" "y \<in> set xs" "fst x = fst y"
  show "x = y"
  proof (rule ccontr)
    assume "x \<noteq> y"
    with a have "apart x y" by (simp add: pairwise_def)
    with a show False by (auto simp: apart_def)
  qed
qed

lemma heap_repD:
  assumes "heap_rep (h, m) fl al"
  shows "seg m (free_list h) fl 0" "distinct (map fst (fl @ al))"
    "x \<in> set (fl @ al) \<Longrightarrow> blk_ok h x \<and> al16 (fst x) \<and> unat (fst x) + snd x < 2 ^ 64 \<and> 16 \<le> snd x \<and> fst x \<noteq> 0"
    "x \<in> set (fl @ al) \<Longrightarrow> y \<in> set (fl @ al) \<Longrightarrow> x \<noteq> y \<Longrightarrow> apart x y"
    "x \<in> set al \<Longrightarrow> unat (blk_size m (fst x)) = snd x"
proof -
  have e: "unat (heap_end h) < 2 ^ 64" using unsigned_less [of "heap_end h"] by simp
  have ok: "blk_ok h x" if "x \<in> set (fl @ al)" for x using assms that by (auto simp: heap_rep_def)
  show "seg m (free_list h) fl 0" using assms by (simp add: heap_rep_def)
  show "distinct (map fst (fl @ al))"
  proof (rule distinct_fst)
    show "distinct (fl @ al)" "pairwise apart (set (fl @ al))" using assms by (simp_all add: heap_rep_def)
    show "\<forall>x \<in> set (fl @ al). 0 < snd x"
    proof
      fix x assume "x \<in> set (fl @ al)"
      from ok [OF this] show "0 < snd x" by (simp add: blk_ok_def)
    qed
  qed
  have "0 < unat (heap_start h)" using assms by (simp add: heap_rep_def word_less_nat_alt)
  then show "blk_ok h x \<and> al16 (fst x) \<and> unat (fst x) + snd x < 2 ^ 64 \<and> 16 \<le> snd x \<and> fst x \<noteq> 0" if "x \<in> set (fl @ al)"
    using ok [OF that] e by (auto simp: blk_ok_def al16_def)
  show "x \<in> set (fl @ al) \<Longrightarrow> y \<in> set (fl @ al) \<Longrightarrow> x \<noteq> y \<Longrightarrow> apart x y"
    using assms by (auto simp: heap_rep_def pairwise_def)
  show "x \<in> set al \<Longrightarrow> unat (blk_size m (fst x)) = snd x" using assms by (simp add: heap_rep_def)
qed

lemma seg_keeps:
  assumes "keeps xs m m'" "\<forall>x \<in> set xs. 16 \<le> snd x"
  shows "seg m' b xs c = seg m b xs c"
proof (rule seg_cong)
  fix x assume x: "x \<in> set xs"
  have k: "m' (fst x + of_nat j) = m (fst x + of_nat j)" if "j < 16" for j
  proof -
    have "j < snd x" using assms(2) x that by (meson less_le_trans)
    then show ?thesis using assms(1) x by (simp add: keeps_def)
  qed
  have "m' (fst x + 8 + of_nat i) = m (fst x + 8 + of_nat i)" if "i < 8" for i
    using k [of "8 + i"] that by (simp add: add.assoc)
  then show "blk_size m' (fst x) = blk_size m (fst x) \<and> blk_next m' (fst x) = blk_next m (fst x)"
    unfolding blk_size_def blk_next_def using k by (auto intro!: load64_cong)
qed

text \<open>A block \<open>(a, n)\<close> gives its first \<open>k\<close> bytes; \<open>R\<close> is what is left of it, at most one block.\<close>

definition pieces :: "kheap \<Rightarrow> u64 \<Rightarrow> nat \<Rightarrow> nat \<Rightarrow> (u64 \<times> nat) list \<Rightarrow> bool" where
  "pieces h a n k R \<longleftrightarrow> 16 \<le> k \<and> 16 dvd k \<and> k \<le> n \<and> length R \<le> 1
     \<and> (\<forall>z \<in> set R. blk_ok h z \<and> unat a + k \<le> unat (fst z) \<and> unat (fst z) + snd z \<le> unat a + n)"

lemma front_apart:
  assumes p: "pieces h a n k R" and o: "pairwise apart (set os)" and d: "\<forall>y \<in> set os. apart (a, n) y \<and> 0 < snd y" "distinct os"
  shows "pairwise apart (set (R @ (a, k) # os))" "distinct (R @ (a, k) # os)"
proof -
  have R: "z \<in> set R \<Longrightarrow> unat a + k \<le> unat (fst z) \<and> unat (fst z) + snd z \<le> unat a + n \<and> 16 \<le> snd z" for z
    using p by (auto simp: pieces_def blk_ok_def)
  have k: "16 \<le> k" "k \<le> n" "length R \<le> 1" using p by (auto simp: pieces_def)
  have Ro: "apart z y" if z: "z \<in> set R" and y: "y \<in> set os" for z y
    using apart_sub [of a n y "fst z" "snd z"] d(1) y R [OF z] by auto
  have ko: "apart (a, k) y" if "y \<in> set os" for y by (rule apart_sub [of a n]) (use d(1) that k in auto)
  have kR: "apart (a, k) z" if "z \<in> set R" for z using R [OF that] by (simp add: apart_def)
  have RR: "x \<in> set R \<Longrightarrow> y \<in> set R \<Longrightarrow> x = y" for x y using k(3) by (cases R) auto
  have half: "apart x y" if "x \<in> set R \<or> x = (a, k)" "y \<in> set (R @ (a, k) # os)" "x \<noteq> y" for x y
    using that Ro [of x y] ko [of y] kR [of y] kR [of x] RR [of x y] apart_sym [of "(a, k)" x] by auto
  show "pairwise apart (set (R @ (a, k) # os))"
  proof (rule pairwiseI)
    fix x y assume xy: "x \<in> set (R @ (a, k) # os)" "y \<in> set (R @ (a, k) # os)" "x \<noteq> y"
    consider "x \<in> set R \<or> x = (a, k)" | "y \<in> set R \<or> y = (a, k)" | "x \<in> set os" "y \<in> set os" using xy by auto
    then show "apart x y"
    proof cases
      case 2
      then show ?thesis using half [of y x] xy apart_sym [of y x] by auto
    next
      case 3
      then show ?thesis using o xy(3) by (simp add: pairwise_def)
    qed (use half xy in auto)
  qed
  have "z \<notin> set os" if "z \<in> set R" for z using Ro [OF that, of z] R [OF that] by (auto simp: apart_def)
  moreover have "(a, k) \<notin> set os" using ko [of "(a, k)"] k by (auto simp: apart_def)
  moreover have "(a, k) \<notin> set R" using R [of "(a, k)"] k by auto
  moreover have "distinct R" using k(3) by (cases R) auto
  ultimately show "distinct (R @ (a, k) # os)" using d(2) by auto
qed

lemma front_layout:
  assumes rep: "heap_rep (h, m) (xs @ (a, n) # ys) al" and p: "pieces h a n k R"
  shows "distinct ((xs @ R @ ys) @ (a, k) # al)" "pairwise apart (set ((xs @ R @ ys) @ (a, k) # al))"
    "z \<in> set ((xs @ R @ ys) @ (a, k) # al) \<Longrightarrow> blk_ok h z \<and> al16 (fst z)"
    "z \<in> set (xs @ ys @ al) \<Longrightarrow> apart (a, n) z" "distinct (map fst ((xs @ R @ ys) @ (a, k) # al))"
proof -
  note d = heap_repD [OF rep]
  have ap: "apart (a, n) z" if "z \<in> set (xs @ ys @ al)" for z
  proof -
    have "fst z \<noteq> a" using d(2) that by auto
    then have "(a, n) \<noteq> z" by auto
    then show ?thesis using d(4) [of "(a, n)" z] that by auto
  qed
  then show "z \<in> set (xs @ ys @ al) \<Longrightarrow> apart (a, n) z" by blast
  have pw: "pairwise apart (set (xs @ ys @ al))" using rep by (auto simp: heap_rep_def pairwise_def)
  have di: "distinct (xs @ ys @ al)" using rep by (auto simp: heap_rep_def)
  have ok: "blk_ok h z" if "z \<in> set (xs @ (a, n) # ys @ al)" for z using d(3) [of z] that by auto
  then have "\<forall>y \<in> set (xs @ ys @ al). apart (a, n) y \<and> 0 < snd y" using ap by (force simp: blk_ok_def)
  from front_apart [OF p pw this di]
  have f: "pairwise apart (set (R @ (a, k) # xs @ ys @ al))" "distinct (R @ (a, k) # xs @ ys @ al)" by blast+
  have s: "set ((xs @ R @ ys) @ (a, k) # al) = set (R @ (a, k) # xs @ ys @ al)" by auto
  show "distinct ((xs @ R @ ys) @ (a, k) # al)" using f(2) by auto
  show "pairwise apart (set ((xs @ R @ ys) @ (a, k) # al))" using f(1) s by simp
  have "blk_ok h (a, k)" using ok [of "(a, n)"] p by (auto simp: blk_ok_def pieces_def)
  then have o: "blk_ok h z \<and> al16 (fst z)" if "z \<in> set ((xs @ R @ ys) @ (a, k) # al)" for z
    using ok [of z] p that by (auto simp: pieces_def blk_ok_def al16_def)
  then show "z \<in> set ((xs @ R @ ys) @ (a, k) # al) \<Longrightarrow> blk_ok h z \<and> al16 (fst z)" by blast
  have "\<forall>x \<in> set (R @ (a, k) # xs @ ys @ al). 0 < snd x"
  proof
    fix x assume "x \<in> set (R @ (a, k) # xs @ ys @ al)"
    then show "0 < snd x" using o [of x] s by (auto simp: blk_ok_def)
  qed
  from distinct_fst [OF f(2,1) this] show "distinct (map fst ((xs @ R @ ys) @ (a, k) # al))" by auto
qed

lemma take_front:
  assumes rep: "heap_rep (h, m) (xs @ (a, n) # ys) al" and p: "pieces h a n (unat k) R"
    and m2: "keeps (xs @ al) m m2" "seg m2 v (R @ ys) 0"
    and sl: "set_link (link_of None xs) v (h, m2) = (h', m1)" and m'_def: "m' = store64 m1 a k"
  shows "heap_rep (h', m') (xs @ R @ ys) ((a, unat k) # al)" "keeps al m m'"
proof -
  note d = heap_repD [OF rep] and f = front_layout [OF rep p]
  let ?free = "xs @ R @ ys" and ?new = "(xs @ R @ ys) @ (a, unat k) # al"
  have a: "al16 a" "unat a + n < 2 ^ 64" "16 \<le> n" using d(3) [of "(a, n)"] by auto
  have df: "distinct (map fst ?free)" using f(5) by auto
  have al: "\<forall>x \<in> set ?free. al16 (fst x) \<and> fst x \<noteq> a"
  proof
    fix x assume "x \<in> set ?free"
    then show "al16 (fst x) \<and> fst x \<noteq> a" using f(3) [of x] f(5) by auto
  qed
  obtain c where "seg m (free_list h) xs c" using d(1) by (auto simp: seg_append)
  moreover have "\<forall>x \<in> set xs. 16 \<le> snd x" using d(3) by auto
  ultimately have sx: "seg m2 (free_list h) xs c" using m2(1) seg_keeps [of xs m m2] by (auto simp: keeps_def)
  have "\<forall>x \<in> set ?free. al16 (fst x)" using al by blast
  note r = relink [OF sx m2(2) this df sl]
  have s': "seg m' (free_list h') ?free 0" unfolding m'_def using seg_store_other(1) [OF a(1) al] r(1) by simp
  have k1: "keeps al m2 m1"
  proof (cases xs rule: rev_cases)
    case Nil
    then show ?thesis using r(4) by simp
  next
    case (snoc ws x)
    have x: "x \<in> set ((xs @ (a, n) # ys) @ al)" by (simp add: snoc)
    have "keeps al m2 (store64 m2 (fst x + 8) v)"
    proof (rule keeps_store [of _ "fst x" "snd x"])
      fix z assume z: "z \<in> set al"
      then have z': "z \<in> set ((xs @ (a, n) # ys) @ al)" by auto
      have "fst x \<noteq> fst z" using d(2) z by (auto simp: snoc)
      then have "x \<noteq> z" by auto
      from d(4) [OF x z' this] d(3) [OF z'] show "apart (fst x, snd x) z \<and> unat (fst z) + snd z < 2 ^ 64" by simp
    qed (use d(3) [OF x] unat_add_8 [of "fst x"] in auto)
    then show ?thesis using r(4) snoc by simp
  qed
  have "keeps al m1 m'" unfolding m'_def
  proof (rule keeps_store [of _ a n])
    fix z assume "z \<in> set al"
    then show "apart (a, n) z \<and> unat (fst z) + snd z < 2 ^ 64" using f(4) [of z] d(3) [of z] by simp
  qed (use a in auto)
  then show kp: "keeps al m m'" using k1 m2(1) by (simp add: keeps_def)
  have hd: "unat (blk_size m' (fst z)) = snd z" if "z \<in> set ((a, unat k) # al)" for z
  proof (cases "z \<in> set al")
    case True
    then show ?thesis using keeps_size [OF kp True] d(5) [OF True] d(3) [of z] by simp
  next
    case False
    with that have "z = (a, unat k)" by simp
    then show ?thesis by (simp add: m'_def blk_store_same(1) [OF a(1)])
  qed
  have "\<forall>z \<in> set ?new. blk_ok h' z" using f(3) r(2,3) by (simp add: blk_ok_def)
  moreover have "0 < heap_start h'" using rep r(2) by (simp add: heap_rep_def)
  ultimately show "heap_rep (h', m') ?free ((a, unat k) # al)"
    unfolding heap_rep_def fst_conv snd_conv using s' hd f(1,2) by blast
qed

section \<open>Allocation and release\<close>

lemma kmalloc_need_spec:
  assumes "unat n + 24 \<le> 2 ^ 64"
  shows "16 dvd unat (kmalloc_need n)" "unat n + 8 \<le> unat (kmalloc_need n)" "unat (kmalloc_need n) < unat n + 24"
proof -
  have e: "kmalloc_need n = (n + 23) AND NOT (mask 4)"
    by (simp add: kmalloc_need_def align_up_def KHEAP_ALIGN_def mask_eq_exp_minus_1 algebra_simps)
  have u: "unat (n + 23) = unat n + 23" using unat_add_nat [of n 23] assms by simp
  have v: "unat (kmalloc_need n) = unat n + 23 - (unat n + 23) mod 16" unfolding e unat_and_not_mask u by simp
  show "16 dvd unat (kmalloc_need n)" unfolding v by (simp add: minus_mod_eq_mult_div)
  have "(unat n + 23) mod 16 \<le> 15" using mod_less_divisor [of 16 "unat n + 23"] by linarith
  then show "unat n + 8 \<le> unat (kmalloc_need n)" "unat (kmalloc_need n) < unat n + 24" unfolding v by linarith+
qed

text \<open>The header that a split writes into what is left of the block.\<close>

definition rest_hdr :: "mem \<Rightarrow> u64 \<Rightarrow> u64 \<Rightarrow> mem" where
  "rest_hdr m a need =
     (let m1 = store64 m (a + need) (blk_size m a - need) in store64 m1 (a + need + 8) (blk_next m1 a))"

lemma rest_hdr_spec:
  assumes rep: "heap_rep (h, m) (xs @ (a, n) # ys) al" and k: "16 \<le> unat need" "16 dvd unat need" "unat need + 32 \<le> n"
  shows "pieces h a n (unat need) [(a + need, n - unat need)]" "keeps (xs @ al) m (rest_hdr m a need)"
    "seg (rest_hdr m a need) (a + need) ((a + need, n - unat need) # ys) 0"
proof -
  note d = heap_repD [OF rep]
  let ?r = "a + need" let ?m1 = "store64 m ?r (blk_size m a - need)"
  have a: "blk_ok h (a, n)" "al16 a" "unat a + n < 2 ^ 64" using d(3) [of "(a, n)"] by auto
  have c: "unat (blk_size m a) = n" "seg m (blk_next m a) ys 0" using d(1) by (auto simp: seg_append)
  have r: "unat (blk_size m a - need) = n - unat need" using c(1) k(3) by (simp add: unat_sub word_le_nat_alt)
  have ur: "unat ?r = unat a + unat need" using unat_add_nat [of a "unat need"] a(3) k(3) by simp
  have ar: "al16 ?r" using a(2) k(2) by (simp add: al16_def ur)
  have ne: "?r \<noteq> a" "?r \<noteq> 0" using ur k(1) by auto
  show p: "pieces h a n (unat need) [(?r, n - unat need)]"
    using a k ur dvd_diff_nat [of 16 n "unat need"] by (auto simp: pieces_def blk_ok_def)
  note f = front_layout [OF rep p]
  have "keeps (xs @ al) m0 (store64 m0 w v)" if "w = ?r \<or> w = ?r + 8" for m0 w v
  proof (rule keeps_store [of _ a n])
    fix z assume "z \<in> set (xs @ al)"
    then show "apart (a, n) z \<and> unat (fst z) + snd z < 2 ^ 64" using f(4) [of z] d(3) [of z] by auto
  next
    show "unat a \<le> unat w" "unat w + 8 \<le> unat a + n" using that unat_add_8 [OF ar] ur k by auto
  qed (rule a(3))
  then show "keeps (xs @ al) m (rest_hdr m a need)" unfolding rest_hdr_def Let_def by (blast intro: keeps_trans)
  have y: "\<forall>x \<in> set ys. al16 (fst x) \<and> fst x \<noteq> ?r"
  proof
    fix x assume x: "x \<in> set ys"
    then have "fst x \<in> fst ` set ys" by simp
    moreover have "?r \<notin> fst ` set ys" using f(5) by simp
    ultimately have "fst x \<noteq> ?r" by metis
    then show "al16 (fst x) \<and> fst x \<noteq> ?r" using d(3) [of x] x by simp
  qed
  have "blk_next ?m1 a = blk_next m a" using blk_store_other [OF ar a(2) ne(1)] by simp
  then show "seg (rest_hdr m a need) ?r ((?r, n - unat need) # ys) 0"
    using c(2) ne(2) seg_store_other [OF ar y] blk_store_same [OF ar] r by (simp add: rest_hdr_def Let_def)
qed

lemma take_block:
  assumes rep: "heap_rep (h, m) (xs @ (a, n) # ys) al" and k: "16 \<le> unat need" "16 dvd unat need" "unat need \<le> n"
    and t: "kmalloc_take (link_of None xs) a need (h, m) = (p, h', m')"
  shows "p = a + 8 \<and> (\<exists>fl k. unat need \<le> k \<and> heap_rep (h', m') fl ((a, k) # al)) \<and> keeps al m m'"
proof -
  have c: "unat (blk_size m a) = n" "seg m (blk_next m a) ys 0" using heap_repD(1) [OF rep] by (auto simp: seg_append)
  have r: "unat (blk_size m a - need) = n - unat need" using c(1) k(3) by (simp add: unat_sub word_le_nat_alt)
  show ?thesis
  proof (cases "blk_size m a - need \<ge> KHEAP_MIN_BLOCK + KHEAP_ALIGN")
    case False
    obtain h1 m1 where s: "set_link (link_of None xs) (blk_next m a) (h, m) = (h1, m1)" by fastforce
    then have e: "p = a + 8" "h' = h1" "m' = store64 m1 a (blk_size m a)"
      using t False unfolding kmalloc_take_def by (simp_all add: Let_def)
    have "blk_ok h (a, n)" using heap_repD(3) [OF rep, of "(a, n)"] by simp
    then have "pieces h a n (unat (blk_size m a)) []" by (simp add: pieces_def blk_ok_def c(1))
    from take_front [OF rep this _ _ s e(3)] c have "heap_rep (h1, m') (xs @ ys) ((a, n) # al)" "keeps al m m'" by simp_all
    then show ?thesis using e k(3) by blast
  next
    case True
    have "32 \<le> n - unat need" using True r by (simp add: KHEAP_MIN_BLOCK_def KHEAP_ALIGN_def word_le_nat_alt)
    then have ge: "unat need + 32 \<le> n" by simp
    obtain h1 m1 where s: "set_link (link_of None xs) (a + need) (h, rest_hdr m a need) = (h1, m1)" by fastforce
    then have e: "p = a + 8" "h' = h1" "m' = store64 m1 a need"
      using t True unfolding kmalloc_take_def by (simp_all add: Let_def rest_hdr_def)
    note q = rest_hdr_spec [OF rep k(1,2) ge]
    from take_front [OF rep q(1,2) _ s e(3)] q(3)
    have "heap_rep (h1, m') (xs @ [(a + need, n - unat need)] @ ys) ((a, unat need) # al)" "keeps al m m'" by simp_all
    then show ?thesis using e by blast
  qed
qed

text \<open>
  The search ends on every heap the allocator built. Without a block that is big enough it leaves the heap
  as it is; otherwise the caller gets a fresh block and the contents of the allocated blocks are kept.
\<close>

lemma kmalloc_cases:
  assumes rep: "heap_rep (h, m) fl al" and n: "0 < n" "unat n + 24 \<le> 2 ^ 64"
  obtains (none) "kmalloc n (h, m) = Some (0, h, m)" "\<forall>x \<in> set fl. snd x < unat (kmalloc_need n)"
  | (some) a k fl' h' m' where "kmalloc n (h, m) = Some (a + 8, h', m')" "unat n + 8 \<le> k"
      "heap_rep (h', m') fl' ((a, k) # al)" "keeps al m m'"
proof (cases "\<forall>x \<in> set fl. snd x < unat (kmalloc_need n)")
  case True
  then show ?thesis
    using none kmalloc_walk_none [OF heap_repD(1) [OF rep] True] n by (simp add: kmalloc_def)
next
  case False
  then have "\<exists>x \<in> set fl. unat (kmalloc_need n) \<le> snd x" by (auto simp: not_less)
  then obtain xs x ys where fl: "fl = xs @ x # ys" "unat (kmalloc_need n) \<le> snd x" "\<forall>y \<in> set xs. \<not> unat (kmalloc_need n) \<le> snd y"
    by (rule split_list_first_propE)
  obtain a k where x: "x = (a, k)" by fastforce
  note q = kmalloc_need_spec [OF n(2)]
  obtain p h' m' where t: "kmalloc_take (link_of None xs) a (kmalloc_need n) (h, m) = (p, h', m')" by (metis prod_cases3)
  have "16 \<le> unat (kmalloc_need n)" using q(1,2) n(1) by (auto simp: word_less_nat_alt elim!: dvdE)
  from take_block [OF rep [unfolded fl x] this q(1) _ t] fl(2) x
  obtain fl' j where r: "p = a + 8" "unat (kmalloc_need n) \<le> j" "heap_rep (h', m') fl' ((a, j) # al)" "keeps al m m'" by auto
  have "kmalloc n (h, m) = Some (a + 8, h', m')"
    using kmalloc_walk_found [of m "free_list h" xs a k ys "kmalloc_need n" None h] heap_repD(1) [OF rep] fl x n t r(1)
    by (auto simp: kmalloc_def not_le)
  then show ?thesis by (rule some [OF _ _ r(3,4)]) (use r(2) q(2) in linarith)
qed

lemma kheap_init_rep:
  assumes "aligned4k base" "0 < base" "16 dvd unat sz" "16 \<le> unat sz" "unat base + unat sz < 2 ^ 64"
  shows "heap_rep (kheap_init base sz m) [(base, unat sz)] []"
proof -
  have "16 dvd unat base" using assms(1) unfolding aligned4k_def by (rule dvd_trans [rotated]) simp
  moreover from this have "al16 base" by (simp add: al16_def)
  moreover have "unat (base + sz) = unat base + unat sz" using assms(5) by (subst unat_add_lem [THEN iffD1]) simp_all
  ultimately show ?thesis using assms
    by (auto simp: heap_rep_def kheap_init_def blk_store_same blk_ok_def pairwise_def)
qed

lemma kfree_eq:
  assumes rep: "heap_rep (h, m) fl al" and x: "(a, k) \<in> set al"
  shows "kfree (a + 8) (h, m) = (h\<lparr>free_list := a\<rparr>, store64 (store64 m a (blk_size m a)) (a + 8) (free_list h))"
proof -
  note d = heap_repD(3) [OF rep, of "(a, k)"]
  have "al16 a" using d x by simp
  note u = unat_add_8 [OF this]
  have "unat (heap_start h) \<le> unat a" "unat a + 16 \<le> unat (heap_end h)" using d x by (auto simp: blk_ok_def)
  then have "\<not> a + 8 < heap_start h" "\<not> heap_end h \<le> a + 8" "a + 8 \<noteq> 0"
    unfolding word_less_nat_alt word_le_nat_alt u using u by (auto simp del: unat_eq_zero)
  then show ?thesis by (simp add: kfree_def blk_size_def Let_def)
qed

lemma kfree_rep:
  assumes rep: "heap_rep (h, m) fl al" and x: "(a, k) \<in> set al"
  shows "heap_rep (kfree (a + 8) (h, m)) ((a, k) # fl) (remove1 (a, k) al)"
    "keeps (remove1 (a, k) al) m (snd (kfree (a + 8) (h, m)))"
proof -
  note d = heap_repD [OF rep] and e = kfree_eq [OF rep x]
  let ?al = "remove1 (a, k) al" let ?m1 = "store64 m a (blk_size m a)" let ?m' = "store64 ?m1 (a + 8) (free_list h)"
  have a: "al16 a" "unat a + k < 2 ^ 64" "16 \<le> k" "a \<noteq> 0" "unat (blk_size m a) = k" using d(3) [of "(a, k)"] d(5) x by auto
  have di: "distinct (fl @ al)" using rep by (simp add: heap_rep_def)
  then have sub: "set ?al = set al - {(a, k)}" by (simp add: set_remove1_eq)
  have se: "set (((a, k) # fl) @ ?al) = set (fl @ al)" using x sub by auto
  have ap: "apart (a, k) z \<and> unat (fst z) + snd z < 2 ^ 64" if "z \<in> set ?al" for z
    using d(4) [of "(a, k)" z] d(3) [of z] that x sub by auto
  have "keeps ?al m0 (store64 m0 w v)" if "w = a \<or> w = a + 8" for m0 w v
    by (rule keeps_store [of _ a k]) (use ap that unat_add_8 [OF a(1)] a in auto)
  then have kp: "keeps ?al m ?m'" by (blast intro: keeps_trans)
  then show "keeps ?al m (snd (kfree (a + 8) (h, m)))" by (simp add: e)
  have y: "\<forall>z \<in> set fl. al16 (fst z) \<and> fst z \<noteq> a"
  proof
    fix z assume z: "z \<in> set fl"
    have "fst z \<in> fst ` set fl" "a \<in> fst ` set al" using z image_eqI [of a fst "(a, k)"] x by simp_all
    moreover have "fst ` set fl \<inter> fst ` set al = {}" using d(2) by simp
    ultimately have "fst z \<noteq> a" by (metis disjoint_iff)
    then show "al16 (fst z) \<and> fst z \<noteq> a" using d(3) [of z] z by simp
  qed
  have "seg ?m' (free_list h) fl 0" using seg_store_other [OF a(1) y] d(1) by simp
  then have "seg ?m' a ((a, k) # fl) 0" using a by (simp add: blk_store_same [OF a(1)])
  moreover have "unat (blk_size ?m' (fst z)) = snd z" if z: "z \<in> set ?al" for z
    using keeps_size [OF kp z] d(3) [of z] d(5) [of z] z sub by auto
  moreover have "distinct (((a, k) # fl) @ ?al)" using di x sub by auto
  moreover have "pairwise apart (set (((a, k) # fl) @ ?al))" "\<forall>z \<in> set (((a, k) # fl) @ ?al). blk_ok h z" "0 < heap_start h"
    using rep unfolding se by (auto simp: heap_rep_def)
  ultimately show "heap_rep (kfree (a + 8) (h, m)) ((a, k) # fl) ?al"
    unfolding e heap_rep_def by (simp add: blk_ok_def)
qed

text \<open>A caller writes only the bytes behind the header of its block.\<close>

definition in_user :: "u64 \<times> nat \<Rightarrow> u64 \<Rightarrow> bool" where
  "in_user x p \<longleftrightarrow> unat (fst x) + 8 \<le> unat p \<and> unat p < unat (fst x) + snd x"

lemma user_write_rep:
  assumes rep: "heap_rep (h, m) fl al" and x: "x \<in> set al" and w: "\<And>p. \<not> in_user x p \<Longrightarrow> m' p = m p"
  shows "heap_rep (h, m') fl al" "keeps (remove1 x al) m m'"
proof -
  note d = heap_repD [OF rep]
  have u: "unat (fst z + of_nat i) = unat (fst z) + i" if "z \<in> set (fl @ al)" "i < snd z" for z i
    using d(3) [OF that(1)] that(2) by (intro unat_add_nat) simp
  have ne: "m' (fst z + of_nat i) = m (fst z + of_nat i)" if z: "z \<in> set (fl @ al)" "z \<noteq> x" "i < snd z" for z i
  proof (rule w)
    have "apart z x" using d(4) [of z x] z x by simp
    then show "\<not> in_user x (fst z + of_nat i)" using u [OF z(1,3)] z(3) by (auto simp: apart_def in_user_def)
  qed
  have "z \<noteq> x" if "z \<in> set fl" for z using rep x that by (auto simp: heap_rep_def)
  then have kf: "keeps fl m m'" using ne by (simp add: keeps_def)
  have "blk_size m' (fst z) = blk_size m (fst z)" if z: "z \<in> set al" for z
    unfolding blk_size_def
  proof (rule load64_cong)
    fix i :: nat assume i: "i < 8"
    then have "i < snd z" using z d(3) [of z] by simp
    then show "m' (fst z + of_nat i) = m (fst z + of_nat i)"
      using ne [of z i] u [of z i] z i w by (cases "z = x") (simp_all add: in_user_def)
  qed
  moreover have "seg m' (free_list h) fl 0" using seg_keeps [OF kf] d(1,3) by simp
  ultimately show "heap_rep (h, m') fl al" using rep by (simp add: heap_rep_def)
  have "set (remove1 x al) = set al - {x}" using rep by (simp add: heap_rep_def set_remove1_eq)
  then show "keeps (remove1 x al) m m'" using ne by (auto simp: keeps_def)
qed

lemma kmalloc_zeroed_cases:
  assumes rep: "heap_rep (h, m) fl al" and n: "0 < n" "unat n + 24 \<le> 2 ^ 64"
  obtains (none) "kmalloc_zeroed n (h, m) = Some (0, h, m)"
  | (some) a k fl' h' m' where "kmalloc_zeroed n (h, m) = Some (a + 8, h', m')" "unat n + 8 \<le> k"
      "heap_rep (h', m') fl' ((a, k) # al)" "keeps al m m'" "\<forall>j < unat n. m' (a + 8 + of_nat j) = 0"
  using rep n
proof (cases rule: kmalloc_cases)
  case none
  then show ?thesis using that(1) by (simp add: kmalloc_zeroed_def)
next
  case (some a k fl' h' m')
  note d = heap_repD(3) [OF some(3), of "(a, k)"]
  have u: "unat (a + 8) = unat a + 8" using d unat_add_8 by simp
  let ?m = "zero_range m' (a + 8) n"
  have z: "kmalloc_zeroed n (h, m) = Some (a + 8, h', ?m)" using some(1) u by (auto simp: kmalloc_zeroed_def)
  have w: "?m p = m' p" if "\<not> in_user (a, k) p" for p
  proof -
    have "\<not> p - (a + 8) < n"
    proof
      assume "p - (a + 8) < n"
      moreover have "p = (a + 8) + of_nat (unat (p - (a + 8)))" by simp
      moreover have lt: "unat (p - (a + 8)) < unat n" using calculation(1) by (simp add: word_less_nat_alt)
      moreover have "unat ((a + 8) + of_nat (unat (p - (a + 8)))) = unat (a + 8) + unat (p - (a + 8))"
        by (rule unat_add_nat) (use d some(2) u lt in simp)
      ultimately have "unat p = unat a + 8 + unat (p - (a + 8))" using u by metis
      then show False using that lt some(2) by (simp add: in_user_def)
    qed
    then show ?thesis by (simp add: zero_range_def)
  qed
  have r: "heap_rep (h', ?m) fl' ((a, k) # al)" "keeps al m' ?m"
    using user_write_rep [OF some(3), of "(a, k)" ?m] w by simp_all
  have "?m (a + 8 + of_nat j) = 0" if j: "j < unat n" for j
  proof -
    have "unat (of_nat j :: u64) = j" using j unsigned_less [of n] by (intro word_of_nat_less_lt) (rule less_trans, auto)
    then show ?thesis using j by (simp add: zero_range_def word_less_nat_alt)
  qed
  then show ?thesis using that(2) [OF z some(2) r(1) keeps_trans [OF some(4) r(2)]] by blast
qed

section \<open>Any use of the heap\<close>

text \<open>
  The states that a kernel reaches which asks for memory, frees what it got, and writes only inside its
  blocks. \<open>live\<close> maps the pointers it holds to the sizes it asked for.
\<close>

inductive heap_run :: "kheap_st \<Rightarrow> (u64 \<rightharpoonup> u64) \<Rightarrow> bool" where
  init: "aligned4k base \<Longrightarrow> 0 < base \<Longrightarrow> 16 dvd unat sz \<Longrightarrow> 16 \<le> unat sz \<Longrightarrow> unat base + unat sz < 2 ^ 64 \<Longrightarrow>
    heap_run (kheap_init base sz m) Map.empty"
| alloc: "heap_run st live \<Longrightarrow> 0 < n \<Longrightarrow> unat n + 24 \<le> 2 ^ 64 \<Longrightarrow> kmalloc n st = Some (p, st') \<Longrightarrow>
    heap_run st' (if p = 0 then live else live(p \<mapsto> n))"
| zeroed: "heap_run st live \<Longrightarrow> 0 < n \<Longrightarrow> unat n + 24 \<le> 2 ^ 64 \<Longrightarrow> kmalloc_zeroed n st = Some (p, st') \<Longrightarrow>
    heap_run st' (if p = 0 then live else live(p \<mapsto> n))"
| free: "heap_run st live \<Longrightarrow> live p = Some n \<Longrightarrow> heap_run (kfree p st) (live(p := None))"
| store: "heap_run (h, m) live \<Longrightarrow> live p = Some n \<Longrightarrow> unat p \<le> unat q \<Longrightarrow> unat q < unat p + unat n \<Longrightarrow>
    heap_run (h, m(q := v)) live"

text \<open>Every pointer held is the address behind the header of an allocated block.\<close>

definition backed :: "(u64 \<rightharpoonup> u64) \<Rightarrow> (u64 \<times> nat) list \<Rightarrow> bool" where
  "backed live bs \<longleftrightarrow> (\<forall>p n. live p = Some n \<longrightarrow> (\<exists>k. (p - 8, k) \<in> set bs \<and> 0 < n \<and> unat n + 8 \<le> k))"

lemma backed_alloc:
  "backed live bs \<Longrightarrow> 0 < n \<Longrightarrow> unat n + 8 \<le> k \<Longrightarrow> backed (live(a + 8 \<mapsto> n)) ((a, k) # bs)"
  by (auto simp: backed_def)

lemma backed_free:
  assumes "backed live bs" "(p - 8, k) \<in> set bs"
  shows "backed (live(p := None)) (remove1 (p - 8, k) bs)"
  unfolding backed_def
proof (intro allI impI)
  fix q n assume "(live(p := None)) q = Some n"
  then have q: "live q = Some n" "q \<noteq> p" by (auto split: if_splits)
  then obtain j where j: "(q - 8, j) \<in> set bs" "0 < n" "unat n + 8 \<le> j" using assms(1) by (auto simp: backed_def)
  then have "(q - 8, j) \<in> set (remove1 (p - 8, k) bs)" using q(2) by (simp add: in_set_remove1)
  with j show "\<exists>k'. (q - 8, k') \<in> set (remove1 (p - 8, k) bs) \<and> 0 < n \<and> unat n + 8 \<le> k'" by blast
qed

lemma ptr_ne: "heap_rep st fl ((a, k) # bs) \<Longrightarrow> a + 8 \<noteq> 0"
  using heap_repD(3) [of "fst st" "snd st" fl "(a, k) # bs" "(a, k)"] unat_add_8 [of a] by auto

lemma backed_step:
  assumes "heap_rep st fl ((a, k) # bs)" "backed live bs" "0 < n" "unat n + 8 \<le> k" "p = a + 8"
  shows "\<exists>fl bs. heap_rep st fl bs \<and> backed (if p = 0 then live else live(p \<mapsto> n)) bs"
  unfolding assms(5) if_not_P [OF ptr_ne [OF assms(1)]]
  by (intro exI conjI, rule assms(1), rule backed_alloc [OF assms(2-4)])

lemma heap_run_rep: "heap_run st live \<Longrightarrow> \<exists>fl bs. heap_rep st fl bs \<and> backed live bs"
proof (induction rule: heap_run.induct)
  case (init base sz m)
  from kheap_init_rep [OF this] show ?case by (auto simp: backed_def)
next
  case (alloc st live n p st')
  then obtain fl bs where r: "heap_rep st fl bs" "backed live bs" by blast
  obtain h m where st: "st = (h, m)" by fastforce
  show ?case using r(1) [unfolded st] alloc.hyps(2,3)
  proof (cases rule: kmalloc_cases)
    case none
    then show ?thesis using alloc.hyps(4) r st by auto
  next
    case (some a k fl' h' m')
    have e: "p = a + 8" "st' = (h', m')" using alloc.hyps(4) st some(1) by simp_all
    show ?thesis unfolding e(2) by (rule backed_step [OF some(3) r(2) alloc.hyps(2) some(2) e(1)])
  qed
next
  case (zeroed st live n p st')
  then obtain fl bs where r: "heap_rep st fl bs" "backed live bs" by blast
  obtain h m where st: "st = (h, m)" by fastforce
  show ?case using r(1) [unfolded st] zeroed.hyps(2,3)
  proof (cases rule: kmalloc_zeroed_cases)
    case none
    then show ?thesis using zeroed.hyps(4) r st by auto
  next
    case (some a k fl' h' m')
    have e: "p = a + 8" "st' = (h', m')" using zeroed.hyps(4) st some(1) by simp_all
    show ?thesis unfolding e(2) by (rule backed_step [OF some(3) r(2) zeroed.hyps(2) some(2) e(1)])
  qed
next
  case (free st live p n)
  then obtain fl bs where r: "heap_rep st fl bs" "backed live bs" by blast
  then obtain k where k: "(p - 8, k) \<in> set bs" using free.hyps(2) by (auto simp: backed_def)
  obtain h m where st: "st = (h, m)" by fastforce
  have "heap_rep (kfree p st) ((p - 8, k) # fl) (remove1 (p - 8, k) bs)"
    using kfree_rep(1) [OF r(1) [unfolded st] k] st by simp
  with backed_free [OF r(2) k] show ?case by blast
next
  case (store h m live p n q v)
  then obtain fl bs where r: "heap_rep (h, m) fl bs" "backed live bs" by blast
  then obtain k where k: "(p - 8, k) \<in> set bs" "unat n + 8 \<le> k" using store.hyps(2) by (auto simp: backed_def)
  have "unat p = unat (p - 8) + 8" using heap_repD(3) [OF r(1), of "(p - 8, k)"] k(1) unat_add_8 [of "p - 8"] by simp
  then have "in_user (p - 8, k) q" using store.hyps(3,4) k(2) by (simp add: in_user_def)
  then have "heap_rep (h, m(q := v)) fl bs" by (intro user_write_rep(1) [OF r(1) k(1)]) auto
  with r(2) show ?case by blast
qed

text \<open>Where a pointer that is held lies.\<close>

lemma live_block:
  assumes "heap_rep st fl bs" "backed live bs" "live p = Some n"
  obtains k where "(p - 8, k) \<in> set bs" "unat p = unat (p - 8) + 8" "0 < n" "unat n + 8 \<le> k" "16 dvd k" "16 dvd unat (p - 8)"
    "unat (heap_start (fst st)) \<le> unat (p - 8)" "unat (p - 8) + k \<le> unat (heap_end (fst st))" "unat n + 24 \<le> 2 ^ 64"
proof -
  from assms obtain k where k: "(p - 8, k) \<in> set bs" "0 < n" "unat n + 8 \<le> k" by (auto simp: backed_def)
  note d = heap_repD(3) [of "fst st" "snd st" fl bs "(p - 8, k)"]
  have d: "blk_ok (fst st) (p - 8, k)" "al16 (p - 8)" "unat (p - 8) + k < 2 ^ 64" "p - 8 \<noteq> 0" using d assms(1) k(1) by auto
  have "unat (p - 8) \<noteq> 0" using d(4) by (simp only: unat_eq_zero not_False_eq_True)
  then have "16 \<le> unat (p - 8)" using d(2) unfolding al16_def by (auto elim!: dvdE)
  then show thesis using that [OF k(1) _ k(2,3)] d unat_add_8 [OF d(2)] k(3) by (simp add: blk_ok_def)
qed

section \<open>Properties\<close>

text \<open>C5. Blocks do not overlap: whatever the kernel allocates, frees and writes in its own blocks, two pointers
  it holds are the starts of disjoint byte ranges inside the heap, at the sizes it asked for.
\<close>

theorem heap_blocks_disjoint:
  assumes "heap_run st live" "live p = Some n" "live q = Some k" "p \<noteq> q"
  shows "(unat p + unat n \<le> unat q \<or> unat q + unat k \<le> unat p)
    \<and> unat (heap_start (fst st)) \<le> unat p \<and> unat p + unat n \<le> unat (heap_end (fst st))"
proof -
  obtain fl bs where r: "heap_rep st fl bs" "backed live bs" using heap_run_rep [OF assms(1)] by blast
  obtain i where i: "(p - 8, i) \<in> set bs" "unat p = unat (p - 8) + 8" "unat n + 8 \<le> i"
      "unat (heap_start (fst st)) \<le> unat (p - 8)" "unat (p - 8) + i \<le> unat (heap_end (fst st))"
    using live_block [OF r assms(2)] by metis
  obtain j where j: "(q - 8, j) \<in> set bs" "unat q = unat (q - 8) + 8" "unat k + 8 \<le> j"
    using live_block [OF r assms(3)] by metis
  have "apart (p - 8, i) (q - 8, j)"
    using heap_repD(4) [of "fst st" "snd st" fl bs "(p - 8, i)" "(q - 8, j)"] r(1) i(1) j(1) assms(4) by simp
  then have "unat p + unat n \<le> unat q \<or> unat q + unat k \<le> unat p" using i j by (auto simp: apart_def)
  moreover have "unat (heap_start (fst st)) \<le> unat p" "unat p + unat n \<le> unat (heap_end (fst st))" using i by linarith+
  ultimately show ?thesis by blast
qed

text \<open>C23. On such a heap the first-fit search of \<^verbatim>\<open>kmalloc\<close> ends: it returns NULL and changes nothing, or a
  pointer that nobody holds, and every byte of every block held keeps its value.
\<close>

theorem kmalloc_ends_and_keeps:
  assumes "heap_run st live" "0 < n" "unat n + 24 \<le> 2 ^ 64"
  shows "\<exists>p st'. kmalloc n st = Some (p, st') \<and> (p = 0 \<longrightarrow> st' = st) \<and> (p \<noteq> 0 \<longrightarrow> live p = None)
    \<and> (\<forall>q k j. live q = Some k \<longrightarrow> j < unat k \<longrightarrow> snd st' (q + of_nat j) = snd st (q + of_nat j))"
proof -
  obtain h m where st: "st = (h, m)" by fastforce
  obtain fl bs where r: "heap_rep (h, m) fl bs" "backed live bs" using heap_run_rep [OF assms(1)] st by blast
  show ?thesis using r(1) assms(2,3)
  proof (cases rule: kmalloc_cases)
    case none
    then show ?thesis using st by auto
  next
    case (some a k fl' h' m')
    have f: "live (a + 8) = None"
    proof (rule ccontr)
      assume "live (a + 8) \<noteq> None"
      then obtain i where "(a + 8 - 8, i) \<in> set bs" using r(2) unfolding backed_def by blast
      then have "(a, i) \<in> set bs" by simp
      then show False using heap_repD(2) [OF some(3)] by force
    qed
    have "m' (q + of_nat j) = m (q + of_nat j)" if q: "live q = Some l" "j < unat l" for q l j
    proof -
      obtain i where i: "(q - 8, i) \<in> set bs" "unat l + 8 \<le> i" using r(2) q by (auto simp: backed_def)
      moreover have "8 + j < i" using i(2) q(2) by linarith
      ultimately have "m' (q - 8 + of_nat (8 + j)) = m (q - 8 + of_nat (8 + j))" using some(4) unfolding keeps_def by force
      then show ?thesis by simp
    qed
    then show ?thesis using st some(1) f ptr_ne [OF some(3)] by auto
  qed
qed

text \<open>Freed memory can be allocated again: after \<^verbatim>\<open>kfree\<close> of a block, a request of the same size succeeds.\<close>

theorem kfree_then_kmalloc:
  assumes "heap_run st live" "live p = Some n"
  shows "\<exists>q st'. kmalloc n (kfree p st) = Some (q, st') \<and> q \<noteq> 0"
proof -
  obtain h m where st: "st = (h, m)" by fastforce
  obtain fl bs where r: "heap_rep (h, m) fl bs" "backed live bs" using heap_run_rep [OF assms(1)] st by blast
  obtain k where k: "(p - 8, k) \<in> set bs" "0 < n" "unat n + 8 \<le> k" "16 dvd k" "unat n + 24 \<le> 2 ^ 64"
    using live_block [OF r assms(2)] by metis
  obtain h2 m2 where e: "kfree p st = (h2, m2)" by fastforce
  have "heap_rep (h2, m2) ((p - 8, k) # fl) (remove1 (p - 8, k) bs)"
    using kfree_rep(1) [OF r(1) k(1)] e st by simp
  then show ?thesis using k(2,5)
  proof (cases rule: kmalloc_cases)
    case none
    then have "k < unat (kmalloc_need n)" by simp
    with kmalloc_need_spec(1,3) [OF k(5)] k(3,4) show ?thesis by (auto elim!: dvdE)
  next
    case (some a i fl' h' m')
    then show ?thesis using e ptr_ne [OF some(3)] by auto
  qed
qed

text \<open>The size computation overflows: a request for the largest \<open>u64\<close> is not refused. It is answered with
  the first free block, however small that is.
\<close>

theorem kmalloc_size_wraps:
  assumes "heap_rep (h, m) ((a, k) # fl) al"
  shows "\<exists>st'. kmalloc (- 1) (h, m) = Some (a + 8, st') \<and> a + 8 \<noteq> 0 \<and> k < unat (- 1 :: u64)"
proof -
  note d = heap_repD [OF assms]
  have b: "16 \<le> k" "unat a + k < 2 ^ 64" "al16 a" "a \<noteq> 0" using d(3) [of "(a, k)"] by auto
  have n: "kmalloc_need (- 1) = 16"
    by (simp add: kmalloc_need_def align_up_def KHEAP_ALIGN_def)
  have "kmalloc (- 1) (h, m) = Some (kmalloc_take None a 16 (h, m))"
    using kmalloc_walk_found [of m "free_list h" "[]" a k fl 16 None h] d(1) b(1) n by (auto simp: kmalloc_def link_of_def)
  moreover have "fst (kmalloc_take None a 16 (h, m)) = a + 8" by (simp add: kmalloc_take_def Let_def split: prod.splits)
  ultimately have "\<exists>st'. kmalloc (- 1) (h, m) = Some (a + 8, st')" by (metis prod.collapse)
  moreover have "a + 8 \<noteq> 0" using unat_add_8 [OF b(3)] by auto
  moreover have "k < unat (- 1 :: u64)"
  proof -
    have "0 < unat a" using b(4) by (simp add: unat_gt_0)
    then show ?thesis using b(2) by (simp add: unsigned_minus_1_eq_mask mask_eq_exp_minus_1)
  qed
  ultimately show ?thesis by blast
qed

section \<open>Examples\<close>

text \<open>A heap of one page from which 100 and then 50 bytes are taken.\<close>

definition heap_ex0 :: kheap_st where
  "heap_ex0 = kheap_init 0x1000 0x1000 (\<lambda>_. 0)"

definition heap_ex1 :: kheap_st where
  "heap_ex1 = snd (the (kmalloc 100 heap_ex0))"

definition heap_ex2 :: kheap_st where
  "heap_ex2 = snd (the (kmalloc 50 heap_ex1))"

lemma heap_ex0_run: "heap_run heap_ex0 Map.empty" "heap_rep heap_ex0 [(0x1000, 0x1000)] []"
  using heap_run.init [of "0x1000" "0x1000" "\<lambda>_. 0"] kheap_init_rep [of "0x1000" "0x1000" "\<lambda>_. 0"]
  by (simp_all add: heap_ex0_def aligned4k_def)

lemma kmalloc_first:
  assumes "free_list (fst st) = a" "a \<noteq> 0" "kmalloc_need n \<le> blk_size (snd st) a" "0 < n"
  shows "kmalloc n st = Some (kmalloc_take None a (kmalloc_need n) st)"
  using assms unfolding kmalloc_def by (subst kmalloc_walk.simps) auto

lemma heap_ex_blks:
  "kmalloc_need 100 = 0x70" "kmalloc_need 50 = 0x40"
  "fst heap_ex0 = \<lparr>heap_start = 0x1000, heap_end = 0x2000, free_list = 0x1000\<rparr>"
  "blk_size (snd heap_ex0) 0x1000 = 0x1000"
  using blk_store_same [of "0x1000"]
  by (simp_all add: kmalloc_need_def align_up_def KHEAP_ALIGN_def heap_ex0_def kheap_init_def al16_def)

lemma heap_ex1_eq: "kmalloc 100 heap_ex0 = Some (0x1008, heap_ex1)" "free_list (fst heap_ex1) = 0x1070"
  "blk_size (snd heap_ex1) 0x1070 = 0xF90"
proof -
  have "kmalloc 100 heap_ex0 = Some (kmalloc_take None 0x1000 0x70 heap_ex0)"
    using kmalloc_first [of heap_ex0 "0x1000" 100] by (simp add: heap_ex_blks)
  moreover have "kmalloc_take None 0x1000 0x70 heap_ex0 = (0x1008, (fst heap_ex0)\<lparr>free_list := 0x1070\<rparr>,
      store64 (rest_hdr (snd heap_ex0) 0x1000 0x70) 0x1000 0x70)"
    using heap_ex_blks
    by (simp add: kmalloc_take_def rest_hdr_def set_link_def Let_def KHEAP_MIN_BLOCK_def KHEAP_ALIGN_def case_prod_beta)
  ultimately have e: "kmalloc 100 heap_ex0 = Some (0x1008, (fst heap_ex0)\<lparr>free_list := 0x1070\<rparr>,
      store64 (rest_hdr (snd heap_ex0) 0x1000 0x70) 0x1000 0x70)" by simp
  show "kmalloc 100 heap_ex0 = Some (0x1008, heap_ex1)" "free_list (fst heap_ex1) = 0x1070" using e by (simp_all add: heap_ex1_def)
  have al: "al16 0x1000" "al16 0x1070" by (simp_all add: al16_def)
  show "blk_size (snd heap_ex1) 0x1070 = 0xF90"
    unfolding heap_ex1_def e using blk_store_other [OF al] blk_store_same [OF al(2)] heap_ex_blks
    by (simp add: rest_hdr_def Let_def)
qed

lemma heap_ex2_eq: "kmalloc 50 heap_ex1 = Some (0x1078, heap_ex2)"
proof -
  have e: "kmalloc 50 heap_ex1 = Some (kmalloc_take None 0x1070 0x40 heap_ex1)"
    using kmalloc_first [of heap_ex1 "0x1070" 50] by (simp add: heap_ex_blks heap_ex1_eq)
  moreover have "fst (kmalloc_take None 0x1070 0x40 heap_ex1) = 0x1078"
    by (simp add: kmalloc_take_def Let_def split: prod.splits)
  ultimately show ?thesis unfolding heap_ex2_def e by (simp add: prod_eq_iff)
qed

lemma heap_ex2_run: "heap_run heap_ex2 [0x1008 \<mapsto> 100, 0x1078 \<mapsto> 50]"
proof -
  have "heap_run heap_ex1 [0x1008 \<mapsto> 100]" using heap_run.alloc [OF heap_ex0_run(1) _ _ heap_ex1_eq(1)] by simp
  from heap_run.alloc [OF this _ _ heap_ex2_eq] show ?thesis by simp
qed

theorem heap_blocks_disjoint_witness:
  "heap_run heap_ex2 [0x1008 \<mapsto> 100, 0x1078 \<mapsto> 50] \<and> unat (0x1008 :: u64) + unat (100 :: u64) \<le> unat (0x1078 :: u64)"
  using heap_ex2_run heap_blocks_disjoint [OF heap_ex2_run, of "0x1008" 100 "0x1078" 50] by simp

theorem kmalloc_ends_and_keeps_witness:
  "\<exists>p st'. kmalloc 4000 heap_ex2 = Some (p, st') \<and> (p = 0 \<longrightarrow> st' = heap_ex2) \<and> snd st' 0x1008 = snd heap_ex2 0x1008"
proof -
  obtain p st' where k: "kmalloc 4000 heap_ex2 = Some (p, st')" "p = 0 \<longrightarrow> st' = heap_ex2"
    "\<forall>q k j. [0x1008 \<mapsto> 100, 0x1078 \<mapsto> 50] q = Some (k :: u64) \<longrightarrow> j < unat k \<longrightarrow> snd st' (q + of_nat j) = snd heap_ex2 (q + of_nat j)"
  proof -
    have "0 < (4000 :: u64)" "unat (4000 :: u64) + 24 \<le> 2 ^ 64" by simp_all
    from kmalloc_ends_and_keeps [OF heap_ex2_run this] show thesis by (elim exE conjE) (rule that)
  qed
  from k(3) [rule_format, of "0x1008" 100 0] k(1,2) show ?thesis by simp
qed

theorem kfree_then_kmalloc_witness: "\<exists>q st'. kmalloc 50 (kfree 0x1078 heap_ex2) = Some (q, st') \<and> q \<noteq> 0"
  using kfree_then_kmalloc [OF heap_ex2_run, of "0x1078" 50] by simp

theorem kmalloc_size_wraps_witness: "\<exists>st'. kmalloc (- 1) heap_ex0 = Some (0x1008, st')"
  using kmalloc_size_wraps [of "fst heap_ex0" "snd heap_ex0" "0x1000" "0x1000" "[]" "[]"] heap_ex0_run(2) by auto

end
