(* ===== verification/Machine.thy ===== *)
theory Machine
  imports Dispatch PageTree Kheap
begin

text \<open>
  The parts of the kernel that every service works on, in one record: the scheduler, physical memory
  with its frame allocator, the untyped and the DMA region, the heap, and the addresses that the boot
  code fixes. The service theories extend this record with their own tables, in a chain that ends in
  the state of the whole kernel, so that an operation of one service can be applied in any state that
  has its tables. Output (\<^verbatim>\<open>kprintf\<close>, \<^verbatim>\<open>TRACE\<close>) and the flush of remote TLBs (\<^verbatim>\<open>arch_tlb_shootdown\<close>)
  have no effect on this state.
\<close>

record kmach =
  k_sched :: sched
  k_pmm :: pmm
  k_mem :: mem
  k_untyped :: untyped
  k_dma :: dma_region
  k_heap :: kheap
  k_boot_pml4 :: paddr
  k_boot_pdpt :: paddr
  k_fb :: "paddr \<times> u64"

section \<open>Applying an operation to its part of the state\<close>

definition on_sched :: "(sched \<Rightarrow> sched) \<Rightarrow> 'a kmach_scheme \<Rightarrow> 'a kmach_scheme" where
  "on_sched f k = k\<lparr>k_sched := f (k_sched k)\<rparr>"

definition with_sched :: "(sched \<Rightarrow> 'r \<times> sched) \<Rightarrow> 'a kmach_scheme \<Rightarrow> 'r \<times> 'a kmach_scheme" where
  "with_sched f k = (case f (k_sched k) of (r, s) \<Rightarrow> (r, k\<lparr>k_sched := s\<rparr>))"

definition with_pm :: "(pmm_st \<Rightarrow> 'r \<times> pmm_st) \<Rightarrow> 'a kmach_scheme \<Rightarrow> 'r \<times> 'a kmach_scheme" where
  "with_pm f k = (case f (k_pmm k, k_mem k) of (r, p, m) \<Rightarrow> (r, k\<lparr>k_pmm := p, k_mem := m\<rparr>))"

definition on_pm :: "(pmm_st \<Rightarrow> pmm_st) \<Rightarrow> 'a kmach_scheme \<Rightarrow> 'a kmach_scheme" where
  "on_pm f k = (case f (k_pmm k, k_mem k) of (p, m) \<Rightarrow> k\<lparr>k_pmm := p, k_mem := m\<rparr>)"

definition with_untyped :: "(untyped \<times> mem \<Rightarrow> 'r \<times> untyped \<times> mem) \<Rightarrow> 'a kmach_scheme \<Rightarrow> 'r \<times> 'a kmach_scheme" where
  "with_untyped f k = (case f (k_untyped k, k_mem k) of (r, u, m) \<Rightarrow> (r, k\<lparr>k_untyped := u, k_mem := m\<rparr>))"

text \<open>Writing through a pointer to a thread control block.\<close>

definition k_upd :: "tptr \<Rightarrow> (tcb \<Rightarrow> tcb) \<Rightarrow> 'a kmach_scheme \<Rightarrow> 'a kmach_scheme" where
  "k_upd t f = on_sched (upd t f)"

abbreviation k_tcb :: "'a kmach_scheme \<Rightarrow> tptr \<Rightarrow> tcb" where
  "k_tcb k t \<equiv> tcbs (k_sched k) t"

abbreviation k_current :: "'a kmach_scheme \<Rightarrow> nat \<Rightarrow> tptr" where
  "k_current k cpu \<equiv> current_thread (k_sched k) cpu"

text \<open>Writing to the saved user registers of a thread.\<close>

definition k_uctx :: "tptr \<Rightarrow> (arch_uctx \<Rightarrow> arch_uctx) \<Rightarrow> 'a kmach_scheme \<Rightarrow> 'a kmach_scheme" where
  "k_uctx t f = k_upd t (\<lambda>c. c\<lparr>t_uctx := f (t_uctx c)\<rparr>)"

definition k_ranges :: "'a kmach_scheme \<Rightarrow> phys_ranges" where
  "k_ranges k = \<lparr>untyped_base = fst (untyped_range (k_untyped k)), untyped_size = snd (untyped_range (k_untyped k)),
     dma_base_r = fst (dma_range (k_dma k)), dma_size_r = snd (dma_range (k_dma k)),
     fb_base = fst (k_fb k), fb_len = snd (k_fb k)\<rparr>"

named_theorems kmach_simps
lemmas [kmach_simps] = on_sched_def with_sched_def with_pm_def on_pm_def with_untyped_def k_upd_def k_uctx_def upd_def

end
