(* ===== verification/Ring.thy ===== *)
theory Ring
  imports Prelude
begin

text \<open>
  Ring buffers. Five tables of the kernel are rings over a fixed array: the pipes, the socket
  receive buffers, the console input of each virtual terminal, the mouse events and the queue of
  page faults. This theory has the abstraction from an array with a head and a count to the list of
  queued elements, and the two contracts the users of a ring rely on: an element queue
  (\<open>bounded_fifo\<close>) and a byte stream moved in chunks (\<open>chunk_stream\<close>). The component
  theories interpret them on their own definitions.
\<close>

section \<open>The queued elements of a ring\<close>

definition ring_view :: "'a list \<Rightarrow> nat \<Rightarrow> nat \<Rightarrow> 'a list" where
  "ring_view buf h c = map (\<lambda>i. buf ! ((h + i) mod length buf)) [0..<c]"

text \<open>The copy loop \<^verbatim>\<open>ring[(tail + i) % SIZE] = in[i]\<close>.\<close>

fun ring_write :: "'a list \<Rightarrow> nat \<Rightarrow> 'a list \<Rightarrow> 'a list" where
  "ring_write buf pos [] = buf"
| "ring_write buf pos (x # xs) = ring_write (buf[pos mod length buf := x]) (Suc pos) xs"

text \<open>Popping up to \<open>n\<close> elements: the loop of a reader with room for \<open>n\<close>.\<close>

fun pops :: "nat \<Rightarrow> ('q \<Rightarrow> ('a \<times> 'q) option) \<Rightarrow> 'q \<Rightarrow> 'a list \<times> 'q" where
  "pops 0 pop q = ([], q)"
| "pops (Suc n) pop q =
     (case pop q of
        None \<Rightarrow> ([], q)
      | Some (x, q') \<Rightarrow> (let (xs, q'') = pops n pop q' in (x # xs, q'')))"

text \<open>A history of chunked writes and reads of one stream.\<close>

datatype 'a stream_op = SWrite "'a list" | SRead nat

fun stream_run ::
  "('a list \<Rightarrow> 'q \<Rightarrow> nat \<times> 'q) \<Rightarrow> (nat \<Rightarrow> 'q \<Rightarrow> 'a list \<times> 'q) \<Rightarrow> 'a stream_op list \<Rightarrow> 'q
     \<Rightarrow> 'a list \<times> 'a list \<times> 'q" where
  "stream_run wr rd [] q = ([], [], q)"
| "stream_run wr rd (SWrite xs # ops) q =
     (let (n, q') = wr xs q; (acc, out, q'') = stream_run wr rd ops q'
      in (take n xs @ acc, out, q''))"
| "stream_run wr rd (SRead k # ops) q =
     (let (ys, q') = rd k q; (acc, out, q'') = stream_run wr rd ops q'
      in (acc, ys @ out, q''))"

section \<open>Lemmas on the abstraction\<close>

lemma length_ring_view [simp]: "length (ring_view buf h c) = c"
  by (simp add: ring_view_def)

lemma ring_view_0 [simp]: "ring_view buf h 0 = []"
  by (simp add: ring_view_def)

lemma nth_ring_view [simp]: "i < c \<Longrightarrow> ring_view buf h c ! i = buf ! ((h + i) mod length buf)"
  by (simp add: ring_view_def)

lemma length_ring_write [simp]: "length (ring_write buf pos xs) = length buf"
  by (induction buf pos xs rule: ring_write.induct) auto

lemma mod_add_left_cong: "(a mod n + b) mod n = (a + b) mod (n::nat)"
  by (simp add: mod_add_left_eq)

lemma ring_slot_neq:
  fixes h i j n :: nat
  assumes "i < j" "j < n"
  shows "(h + i) mod n \<noteq> (h + j) mod n"
proof
  assume eq: "(h + i) mod n = (h + j) mod n"
  then have "n dvd (h + j) - (h + i)"
    using assms(1) by (metis mod_eq_dvd_iff_nat nat_add_left_cancel_le less_imp_le)
  moreover have "(h + j) - (h + i) = j - i" using assms(1) by simp
  ultimately have "n dvd j - i" by simp
  with assms show False by (auto dest: dvd_imp_le)
qed

lemma ring_view_push:
  assumes "c < length buf"
  shows "ring_view (buf[(h + c) mod length buf := x]) h (Suc c) = ring_view buf h c @ [x]"
proof (rule nth_equalityI)
  show "length (ring_view (buf[(h + c) mod length buf := x]) h (Suc c)) =
      length (ring_view buf h c @ [x])" by simp
next
  fix i
  assume "i < length (ring_view (buf[(h + c) mod length buf := x]) h (Suc c))"
  then have i: "i < Suc c" by simp
  show "ring_view (buf[(h + c) mod length buf := x]) h (Suc c) ! i = (ring_view buf h c @ [x]) ! i"
  proof (cases "i = c")
    case True
    have "(h + c) mod length buf < length buf" using assms by (intro mod_less_divisor) linarith
    with True show ?thesis by (simp add: nth_append)
  next
    case False
    with i have "i < c" by simp
    with ring_slot_neq [OF this assms, of h] show ?thesis by (simp add: nth_append)
  qed
qed

lemma ring_view_write:
  assumes "c + length xs \<le> length buf"
  shows "ring_view (ring_write buf (h + c) xs) h (c + length xs) = ring_view buf h c @ xs"
  using assms
proof (induction xs arbitrary: buf c)
  case Nil
  then show ?case by simp
next
  case (Cons x xs)
  let ?b = "buf[(h + c) mod length buf := x]"
  from Cons.prems have c: "c < length buf" and room: "Suc c + length xs \<le> length ?b" by simp_all
  from Cons.IH [OF room]
  have "ring_view (ring_write ?b (h + Suc c) xs) h (Suc c + length xs) =
      ring_view ?b h (Suc c) @ xs" .
  with ring_view_push [OF c, of h x] show ?case by simp
qed

lemma ring_write_cong:
  "p mod length buf = q mod length buf \<Longrightarrow> ring_write buf p xs = ring_write buf q xs"
proof (induction xs arbitrary: buf p q)
  case Nil
  then show ?case by simp
next
  case (Cons x xs)
  from Cons.prems have "Suc (p mod length buf) mod length buf = Suc (q mod length buf) mod length buf"
    by simp
  then have step: "Suc p mod length buf = Suc q mod length buf" by (simp only: mod_Suc_eq)
  show ?case using Cons.IH [where buf = "buf[p mod length buf := x]" and p = "Suc p" and q = "Suc q"] step Cons.prems by simp
qed

lemma ring_write_mod [simp]: "ring_write buf (p mod length buf) xs = ring_write buf p xs"
  by (rule ring_write_cong) simp

lemma ring_view_take: "k \<le> c \<Longrightarrow> take k (ring_view buf h c) = ring_view buf h k"
  by (rule nth_equalityI) simp_all

lemma ring_view_drop:
  "k \<le> c \<Longrightarrow> drop k (ring_view buf h c) = ring_view buf ((h + k) mod length buf) (c - k)"
  by (rule nth_equalityI) (simp_all add: mod_add_left_eq add.assoc)

lemma ring_view_Cons:
  "0 < c \<Longrightarrow> h < length buf \<Longrightarrow>
    ring_view buf h c = buf ! h # ring_view buf ((h + 1) mod length buf) (c - 1)"
  by (rule nth_equalityI) (auto simp: nth_Cons mod_add_left_eq split: nat.splits)

section \<open>A ring with a head and a tail\<close>

text \<open>The elements lie from the tail up to the head; one cell stays empty, so that equal indices mean that
  the ring has no elements.\<close>

definition ht_count :: "nat \<Rightarrow> nat \<Rightarrow> nat \<Rightarrow> nat" where
  "ht_count n h t = (if t \<le> h then h - t else h + n - t)"

definition ht_view :: "'a list \<Rightarrow> nat \<Rightarrow> nat \<Rightarrow> 'a list" where
  "ht_view buf h t = ring_view buf t (ht_count (length buf) h t)"

lemma suc_mod: "h < n \<Longrightarrow> Suc h mod n = (if Suc h = n then 0 else Suc h)"
  by auto

lemma ht_count_less: "h < n \<Longrightarrow> t < n \<Longrightarrow> ht_count n h t < n"
  by (auto simp: ht_count_def)

lemma length_ht_view [simp]: "length (ht_view buf h t) = ht_count (length buf) h t"
  by (simp add: ht_view_def)

lemma ht_view_empty: "h < length buf \<Longrightarrow> t < length buf \<Longrightarrow> ht_view buf h t = [] \<longleftrightarrow> h = t"
  by (auto simp: ht_view_def ht_count_def ring_view_def split: if_splits)

lemma ht_full: "h < n \<Longrightarrow> t < n \<Longrightarrow> (h + 1) mod n = t \<longleftrightarrow> ht_count n h t = n - 1"
  by (auto simp: suc_mod ht_count_def)

lemma ht_count_push: "h < n \<Longrightarrow> t < n \<Longrightarrow> (h + 1) mod n \<noteq> t \<Longrightarrow> ht_count n ((h + 1) mod n) t = ht_count n h t + 1"
  by (auto simp: suc_mod ht_count_def split: if_splits)

lemma ht_count_pop: "h < n \<Longrightarrow> t < n \<Longrightarrow> h \<noteq> t \<Longrightarrow> ht_count n h t = ht_count n h ((t + 1) mod n) + 1"
  by (auto simp: suc_mod ht_count_def split: if_splits)

lemma ht_slot: "h < n \<Longrightarrow> t < n \<Longrightarrow> (t + ht_count n h t) mod n = h"
  by (auto simp: ht_count_def)

lemma ht_push:
  assumes "h < length buf" "t < length buf" "(h + 1) mod length buf \<noteq> t"
  shows "ht_view (buf[h := x]) ((h + 1) mod length buf) t = ht_view buf h t @ [x]"
proof (rule nth_equalityI)
  let ?n = "length buf" and ?c = "ht_count (length buf) h t"
  have cnt: "ht_count ?n ((h + 1) mod ?n) t = ?c + 1" using assms by (rule ht_count_push)
  then show "length (ht_view (buf[h := x]) ((h + 1) mod ?n) t) = length (ht_view buf h t @ [x])" by simp
  fix i assume "i < length (ht_view (buf[h := x]) ((h + 1) mod ?n) t)"
  with cnt have i: "i < ?c + 1" by simp
  have slot: "(t + ?c) mod ?n = h" using assms by (simp add: ht_slot)
  show "ht_view (buf[h := x]) ((h + 1) mod ?n) t ! i = (ht_view buf h t @ [x]) ! i"
  proof (cases "i = ?c")
    case True
    then show ?thesis using assms(1) by (simp add: ht_view_def cnt [simplified] slot nth_append)
  next
    case False
    with i have i: "i < ?c" by simp
    have "(t + i) mod ?n \<noteq> (t + ?c) mod ?n"
      using i ht_count_less [OF assms(1,2)] by (rule ring_slot_neq)
    with slot have "(t + i) mod ?n \<noteq> h" by simp
    with i show ?thesis by (simp add: ht_view_def cnt [simplified] nth_append)
  qed
qed

lemma ht_pop:
  assumes "h < length buf" "t < length buf" "h \<noteq> t"
  shows "ht_view buf h t = buf ! t # ht_view buf h ((t + 1) mod length buf)"
proof (rule nth_equalityI)
  let ?n = "length buf"
  have cnt: "ht_count ?n h t = ht_count ?n h ((t + 1) mod ?n) + 1" using assms by (rule ht_count_pop)
  then show "length (ht_view buf h t) = length (buf ! t # ht_view buf h ((t + 1) mod ?n))" by simp
  fix i assume "i < length (ht_view buf h t)"
  then have i: "i < ht_count ?n h t" by simp
  show "ht_view buf h t ! i = (buf ! t # ht_view buf h ((t + 1) mod ?n)) ! i"
  proof (cases i)
    case 0
    with i assms(2) show ?thesis by (simp add: ht_view_def)
  next
    case (Suc j)
    with i cnt have j: "j < ht_count ?n h ((t + 1) mod ?n)" by simp
    have "((t + 1) mod ?n + j) mod ?n = (t + i) mod ?n" unfolding mod_add_left_cong Suc by simp
    with j i Suc show ?thesis by (simp add: ht_view_def)
  qed
qed

section \<open>An element queue\<close>

locale bounded_fifo =
  fixes view :: "'q \<Rightarrow> 'a list"
    and inv :: "'q \<Rightarrow> bool"
    and push :: "'a \<Rightarrow> 'q \<Rightarrow> 'q"
    and pop :: "'q \<Rightarrow> ('a \<times> 'q) option"
    and cap :: nat
  assumes view_bound: "inv q \<Longrightarrow> length (view q) \<le> cap"
    and view_push: "inv q \<Longrightarrow> length (view q) < cap \<Longrightarrow> view (push x q) = view q @ [x]"
    and push_full: "inv q \<Longrightarrow> length (view q) = cap \<Longrightarrow> push x q = q"
    and inv_push: "inv q \<Longrightarrow> inv (push x q)"
    and pop_empty: "inv q \<Longrightarrow> view q = [] \<Longrightarrow> pop q = None"
    and pop_cons: "inv q \<Longrightarrow> view q = x # xs \<Longrightarrow>
       \<exists>q'. pop q = Some (x, q') \<and> view q' = xs \<and> inv q'"
begin

lemma inv_pushes: "inv q \<Longrightarrow> inv (fold push xs q)"
  by (induction xs arbitrary: q) (auto intro: inv_push)

lemma view_pushes:
  "inv q \<Longrightarrow> view (fold push xs q) = view q @ take (cap - length (view q)) xs"
proof (induction xs arbitrary: q)
  case Nil
  then show ?case by simp
next
  case (Cons x xs)
  show ?case
  proof (cases "length (view q) < cap")
    case True
    with Cons.prems have "view (push x q) = view q @ [x]" by (rule view_push)
    with Cons.IH [OF inv_push [OF Cons.prems], of x] True show ?thesis
      by (simp add: take_Cons' Suc_diff_Suc [symmetric])
  next
    case False
    with view_bound [OF Cons.prems] have full: "length (view q) = cap" by simp
    with Cons show ?thesis by (simp add: push_full)
  qed
qed

lemma pops_view:
  "inv q \<Longrightarrow> pops n pop q = (ys, q') \<Longrightarrow>
    ys = take n (view q) \<and> view q' = drop n (view q) \<and> inv q'"
proof (induction n arbitrary: q ys q')
  case 0
  then show ?case by simp
next
  case (Suc n)
  show ?case
  proof (cases "view q")
    case Nil
    with Suc.prems pop_empty show ?thesis by simp
  next
    case (Cons x xs)
    with Suc.prems(1) obtain r where r: "pop q = Some (x, r)" "view r = xs" "inv r"
      using pop_cons by blast
    obtain zs q2 where z: "pops n pop r = (zs, q2)" by (cases "pops n pop r")
    from Suc.IH [OF r(3) z] have "zs = take n xs \<and> view q2 = drop n xs \<and> inv q2"
      by (simp add: r(2))
    moreover from Suc.prems(2) r(1) z have "ys = x # zs" "q' = q2" by simp_all
    ultimately show ?thesis using Cons by simp
  qed
qed

text \<open>What a producer feeds into an empty queue is what a consumer gets, in order.\<close>

lemma fifo_roundtrip:
  assumes "inv q" "view q = []" "length xs \<le> cap"
  shows "fst (pops (length xs) pop (fold push xs q)) = xs"
proof -
  obtain ys q' where p: "pops (length xs) pop (fold push xs q) = (ys, q')"
    by (cases "pops (length xs) pop (fold push xs q)")
  from pops_view [OF inv_pushes [OF assms(1)] p] view_pushes [OF assms(1)] assms(2,3)
  show ?thesis by (simp add: p)
qed

end

section \<open>A byte stream moved in chunks\<close>

locale chunk_stream =
  fixes view :: "'q \<Rightarrow> 'a list"
    and inv :: "'q \<Rightarrow> bool"
    and wr :: "'a list \<Rightarrow> 'q \<Rightarrow> nat \<times> 'q"
    and rd :: "nat \<Rightarrow> 'q \<Rightarrow> 'a list \<times> 'q"
  assumes wr_law: "inv q \<Longrightarrow> wr xs q = (n, q') \<Longrightarrow> view q' = view q @ take n xs \<and> inv q'"
    and rd_law: "inv q \<Longrightarrow> rd k q = (ys, q') \<Longrightarrow> view q = ys @ view q' \<and> inv q'"
begin

lemma stream_conserved:
  "inv q \<Longrightarrow> stream_run wr rd ops q = (acc, out, q') \<Longrightarrow>
    view q @ acc = out @ view q' \<and> inv q'"
proof (induction ops arbitrary: q acc out q')
  case Nil
  then show ?case by simp
next
  case (Cons op ops)
  show ?case
  proof (cases op)
    case (SWrite xs)
    obtain n r where w: "wr xs q = (n, r)" by (cases "wr xs q")
    obtain a b q2 where s: "stream_run wr rd ops r = (a, b, q2)"
      by (cases "stream_run wr rd ops r") auto
    from wr_law [OF Cons.prems(1) w] Cons.IH [OF _ s] Cons.prems(2) SWrite w s
    show ?thesis by auto
  next
    case (SRead k)
    obtain ys r where w: "rd k q = (ys, r)" by (cases "rd k q")
    obtain a b q2 where s: "stream_run wr rd ops r = (a, b, q2)"
      by (cases "stream_run wr rd ops r") auto
    from rd_law [OF Cons.prems(1) w] Cons.IH [OF _ s] Cons.prems(2) SRead w s
    show ?thesis by auto
  qed
qed

end

end
