(* ===== verification/Vm.thy ===== *)
theory Vm
  imports Machine Ring
begin

text \<open>
  Virtual memory services, \<^verbatim>\<open>src/core/vm.c\<close>: the queue of page faults that wait for a pager, the table of
  frame capabilities, mapping, moving and sharing runs of pages, and copying between the kernel and a
  user address space page by page. The page fault handler, which may end the faulting thread, is in the
  theory \<open>Kernel\<close>.
\<close>

section \<open>The queue of page faults\<close>

definition FAULT_QUEUE_SIZE :: u32 where "FAULT_QUEUE_SIZE = 16"

record vm_fault_msg =
  fault_address :: vaddr
  error_code :: u32
  faulting_thread :: tid

record vm_fault_queue =
  fq_entries :: "vm_fault_msg list"
  fq_head :: u32
  fq_tail :: u32

definition fault_queue_push :: "vm_fault_msg \<Rightarrow> vm_fault_queue \<Rightarrow> int \<times> vm_fault_queue" where
  "fault_queue_push msg q =
     (let next_head = (fq_head q + 1) AND (FAULT_QUEUE_SIZE - 1)
      in if next_head = fq_tail q then (- 1, q)
         else (0, q\<lparr>fq_entries := (fq_entries q)[unat (fq_head q) := msg], fq_head := next_head\<rparr>))"

definition fault_queue_pop :: "vm_fault_queue \<Rightarrow> (vm_fault_msg \<times> vm_fault_queue) option" where
  "fault_queue_pop q =
     (if fq_head q = fq_tail q then None
      else Some (fq_entries q ! unat (fq_tail q), q\<lparr>fq_tail := (fq_tail q + 1) AND (FAULT_QUEUE_SIZE - 1)\<rparr>))"

definition fault_queue_empty :: "vm_fault_queue \<Rightarrow> bool" where
  "fault_queue_empty q \<longleftrightarrow> fq_head q = fq_tail q"

section \<open>Frame capabilities\<close>

definition MAX_FRAME_CAPS :: nat where "MAX_FRAME_CAPS = 64"
definition CAP_PERM_MAP :: u32 where "CAP_PERM_MAP = 1"

record frame_cap =
  base_frame :: paddr
  frame_count :: u64
  permissions :: u32
  fc_owner :: tid

text \<open>The first \<^verbatim>\<open>cap_count\<close> entries of the table, as a list.\<close>

record vm_state = kmach +
  vm_faults :: vm_fault_queue
  vm_caps :: "frame_cap list"

definition vm_cap_grant :: "tid \<Rightarrow> paddr \<Rightarrow> u64 \<Rightarrow> u32 \<Rightarrow> 'a vm_state_scheme \<Rightarrow> int \<times> 'a vm_state_scheme" where
  "vm_cap_grant owner base count perms k =
     (if length (vm_caps k) \<ge> MAX_FRAME_CAPS then (- 1, k)
      else (0, k\<lparr>vm_caps := vm_caps k @ [\<lparr>base_frame = base, frame_count = count, permissions = perms, fc_owner = owner\<rparr>]\<rparr>))"

definition frame_cap_covers :: "tid \<Rightarrow> paddr \<Rightarrow> u32 \<Rightarrow> frame_cap \<Rightarrow> bool" where
  "frame_cap_covers owner pa perms cap \<longleftrightarrow>
     fc_owner cap = owner \<and> permissions cap AND perms = perms
     \<and> pa \<ge> base_frame cap \<and> pa < base_frame cap + frame_count cap * PAGE_SIZE_4K"

definition vm_cap_check :: "tid \<Rightarrow> paddr \<Rightarrow> u32 \<Rightarrow> 'a vm_state_scheme \<Rightarrow> int" where
  "vm_cap_check owner pa perms k = (if \<exists>cap \<in> set (vm_caps k). frame_cap_covers owner pa perms cap then 0 else - 1)"

section \<open>Runs of pages\<close>

definition VM_BATCH_MAX :: u32 where "VM_BATCH_MAX = 32"

record vm_map_msg =
  mm_vaddr :: vaddr
  mm_paddr :: paddr
  mm_flags :: u32
  mm_count :: u32

record vm_xfer_msg =
  xm_src_vaddr :: vaddr
  xm_dst_vaddr :: vaddr
  xm_flags :: u32
  xm_count :: u32

definition normalize_aspace :: "'a kmach_scheme \<Rightarrow> paddr \<Rightarrow> paddr" where
  "normalize_aspace k aspace = (if aspace \<noteq> 0 then aspace else k_boot_pml4 k)"

definition vm_batch_map :: "paddr \<Rightarrow> tid \<Rightarrow> vm_map_msg \<Rightarrow> 'a vm_state_scheme \<Rightarrow> int \<times> 'a vm_state_scheme" where
  "vm_batch_map aspace requester req k =
     (if mm_count req = 0 \<or> mm_count req > VM_BATCH_MAX then (- 1, k)
      else if vm_cap_check requester (mm_paddr req) CAP_PERM_MAP k \<noteq> 0 then (- 1, k)
      else
        (let real_aspace = normalize_aspace k aspace;
             large_pages = mm_flags req AND VM_MAP_LARGE \<noteq> 0;
             page_size = (if large_pages then PAGE_SIZE_2M else PAGE_SIZE_4K)
         in (0, fold (\<lambda>i. on_pm (\<lambda>st.
                  let va = mm_vaddr req + of_nat i * page_size; pa = mm_paddr req + of_nat i * page_size
                  in snd (if large_pages then arch_vm_map_large_page real_aspace va pa (mm_flags req) st
                          else arch_vm_map_page real_aspace va pa (mm_flags req) st)))
                [0..<unat (mm_count req)] k)))"

text \<open>Unmapping a run collects the frames; at a hole the pages taken so far are mapped back.\<close>

fun xfer_take :: "paddr \<Rightarrow> vaddr \<Rightarrow> nat \<Rightarrow> nat \<Rightarrow> paddr list \<Rightarrow> pmm_st \<Rightarrow> bool \<times> paddr list \<times> pmm_st" where
  "xfer_take src va i 0 frames st = (True, frames, st)"
| "xfer_take src va i (Suc n) frames st =
     (case arch_vm_unmap_page src (va + of_nat i * PAGE_SIZE_4K) st of
        (f, st) \<Rightarrow> if f = 0 then (False, frames, st) else xfer_take src va (Suc i) n (frames @ [f]) st)"

definition xfer_put :: "paddr \<Rightarrow> vaddr \<Rightarrow> u32 \<Rightarrow> paddr list \<Rightarrow> pmm_st \<Rightarrow> pmm_st" where
  "xfer_put dst va flags frames st =
     fold (\<lambda>i st. snd (arch_vm_map_page dst (va + of_nat i * PAGE_SIZE_4K) (frames ! i) flags st)) [0..<length frames] st"

definition vm_xfer_pages :: "paddr \<Rightarrow> paddr \<Rightarrow> vm_xfer_msg \<Rightarrow> 'a kmach_scheme \<Rightarrow> int \<times> 'a kmach_scheme" where
  "vm_xfer_pages src_aspace dst_aspace req k =
     (if xm_count req = 0 \<or> xm_count req > VM_BATCH_MAX then (- 1, k)
      else
        (let real_src = normalize_aspace k src_aspace; real_dst = normalize_aspace k dst_aspace
         in with_pm (\<lambda>st.
              case xfer_take real_src (xm_src_vaddr req) 0 (unat (xm_count req)) [] st of
                (ok, frames, st) \<Rightarrow>
                  if ok then (0, xfer_put real_dst (xm_dst_vaddr req) (xm_flags req) frames st)
                  else (- 1, xfer_put real_src (xm_src_vaddr req) (xm_flags req) frames st)) k))"

definition vm_share_pages :: "paddr \<Rightarrow> paddr \<Rightarrow> vm_xfer_msg \<Rightarrow> 'a kmach_scheme \<Rightarrow> int \<times> 'a kmach_scheme" where
  "vm_share_pages src_aspace dst_aspace req k =
     (if xm_count req = 0 \<or> xm_count req > VM_BATCH_MAX then (- 1, k)
      else
        (let real_src = normalize_aspace k src_aspace; real_dst = normalize_aspace k dst_aspace;
             (ok, k) = with_pm (loop_until_fail (\<lambda>i st.
               let frame = arch_vm_translate (snd st) real_src (xm_src_vaddr req + of_nat i * PAGE_SIZE_4K)
               in if frame = 0 then (False, st)
                  else (True, snd (arch_vm_map_page real_dst (xm_dst_vaddr req + of_nat i * PAGE_SIZE_4K) frame
                                     (xm_flags req) st)))
               [0..<unat (xm_count req)]) k
         in (if ok then 0 else - 1, k)))"

section \<open>Address spaces\<close>

definition vm_address_space_create :: "'a kmach_scheme \<Rightarrow> paddr \<times> 'a kmach_scheme" where
  "vm_address_space_create k = with_pm (arch_vm_create_address_space (k_boot_pdpt k)) k"

definition vm_address_space_destroy :: "paddr \<Rightarrow> 'a kmach_scheme \<Rightarrow> 'a kmach_scheme" where
  "vm_address_space_destroy aspace k = on_pm (arch_vm_destroy_address_space (k_boot_pdpt k) (k_ranges k) aspace) k"

definition vm_address_space_clone :: "paddr \<Rightarrow> 'a kmach_scheme \<Rightarrow> paddr \<times> 'a kmach_scheme" where
  "vm_address_space_clone src k = with_pm (arch_vm_clone_address_space (k_boot_pdpt k) (k_ranges k) src) k"

definition vm_init :: "'a vm_state_scheme \<Rightarrow> 'a vm_state_scheme" where
  "vm_init k = k\<lparr>vm_faults := (vm_faults k)\<lparr>fq_head := 0, fq_tail := 0\<rparr>, vm_caps := []\<rparr>"

section \<open>Copying to and from user space\<close>

definition page_of :: "vaddr \<Rightarrow> vaddr" where
  "page_of va = va AND NOT (PAGE_SIZE_4K - 1)"

definition user_chunk :: "vaddr \<Rightarrow> u64 \<Rightarrow> u64" where
  "user_chunk va left = (let chunk = PAGE_SIZE_4K - (va - page_of va) in if chunk > left then left else chunk)"

lemma page_off: "unat (va - page_of va) = unat va mod 4096"
proof -
  have m: "NOT (PAGE_SIZE_4K - 1) = NOT (mask 12 :: u64)" by (simp add: PAGE_SIZE_4K_def mask_12_u64)
  have "va - page_of va = va AND mask 12"
    unfolding page_of_def m and_not_mask_minus by simp
  then show ?thesis by (simp add: unat_and_mask)
qed

lemma user_chunk_bounds:
  assumes "0 < left"
  shows "0 < user_chunk va left" "user_chunk va left \<le> left"
proof -
  have "unat (va - page_of va) < 4096" by (simp add: page_off)
  then have "va - page_of va < PAGE_SIZE_4K" by (simp add: word_less_nat_alt PAGE_SIZE_4K_def)
  then have "0 < PAGE_SIZE_4K - (va - page_of va)" by (simp add: word_gt_0)
  then show "0 < user_chunk va left" using assms by (simp add: user_chunk_def Let_def)
  show "user_chunk va left \<le> left" by (simp add: user_chunk_def Let_def not_less)
qed

lemma user_chunk_less:
  assumes "copied < len"
  shows "unat (len - (copied + user_chunk va (len - copied))) < unat (len - copied)"
proof -
  have l: "0 < len - copied" using assms by (simp add: word_gt_0)
  note c = user_chunk_bounds [OF l, of va]
  have e: "len - (copied + user_chunk va (len - copied)) = (len - copied) - user_chunk va (len - copied)" by simp
  have "unat ((len - copied) - user_chunk va (len - copied)) = unat (len - copied) - unat (user_chunk va (len - copied))" using c(2) by (simp add: unat_sub)
  moreover have "0 < unat (user_chunk va (len - copied))" using c(1) by (simp add: word_less_nat_alt)
  moreover have "unat (user_chunk va (len - copied)) \<le> unat (len - copied)" using c(2) by (simp add: word_le_nat_alt)
  ultimately show ?thesis unfolding e by linarith
qed

text \<open>The loops. A chunk never crosses a page, and every round copies at least one byte.\<close>

function copy_from_loop :: "mem \<Rightarrow> paddr \<Rightarrow> vaddr \<Rightarrow> u64 \<Rightarrow> u64 \<Rightarrow> u8 list \<Rightarrow> int \<times> u8 list" where
  "copy_from_loop m as src len copied out =
     (if copied < len
      then (let va = src + copied; frame = arch_vm_translate m as (page_of va)
            in if frame = 0 then (- 1, out)
               else (let chunk = user_chunk va (len - copied)
                     in copy_from_loop m as src len (copied + chunk)
                          (out @ bytes_at m (frame + (va - page_of va)) (unat chunk))))
      else (0, out))"
  by pat_completeness auto
termination by (relation "measure (\<lambda>(m, as, src, len, copied, out). unat (len - copied))") (simp_all add: user_chunk_less)

declare copy_from_loop.simps [simp del]

function copy_to_loop :: "paddr \<Rightarrow> vaddr \<Rightarrow> u8 list \<Rightarrow> u64 \<Rightarrow> u64 \<Rightarrow> mem \<Rightarrow> int \<times> mem" where
  "copy_to_loop as dst src len copied m =
     (if copied < len
      then (let va = dst + copied; frame = arch_vm_translate m as (page_of va)
            in if frame = 0 then (- 1, m)
               else (let chunk = user_chunk va (len - copied)
                     in copy_to_loop as dst src len (copied + chunk)
                          (store_bytes m (frame + (va - page_of va)) (take (unat chunk) (drop (unat copied) src)))))
      else (0, m))"
  by pat_completeness auto
termination by (relation "measure (\<lambda>(as, dst, src, len, copied, m). unat (len - copied))") (simp_all add: user_chunk_less)

declare copy_to_loop.simps [simp del]

text \<open>The result code and the bytes that were copied before a failure.\<close>

definition vm_copy_from_user :: "mem \<Rightarrow> paddr \<Rightarrow> vaddr \<Rightarrow> u64 \<Rightarrow> int \<times> u8 list" where
  "vm_copy_from_user m as src len =
     (if len \<noteq> 0 \<and> src + len < src then (- 1, []) else copy_from_loop m as src len 0 [])"

definition vm_copy_to_user :: "paddr \<Rightarrow> vaddr \<Rightarrow> u8 list \<Rightarrow> mem \<Rightarrow> int \<times> mem" where
  "vm_copy_to_user as dst src m =
     (let len = of_nat (length src)
      in if len \<noteq> 0 \<and> dst + len < dst then (- 1, m) else copy_to_loop as dst src len 0 m)"

section \<open>Taking a queued fault\<close>

text \<open>Only the oldest fault is considered, also when it belongs to another pager.\<close>

definition vm_take_queued_fault :: "tptr \<Rightarrow> 'a vm_state_scheme \<Rightarrow> (vm_fault_msg \<times> 'a vm_state_scheme) option" where
  "vm_take_queued_fault rcv k =
     (if fault_queue_empty (vm_faults k) then None
      else
        (let hd = fq_entries (vm_faults k) ! unat (fq_tail (vm_faults k))
         in case sched_get_tcb (faulting_thread hd) (k_sched k) of
              None \<Rightarrow> None
            | Some faulter \<Rightarrow>
                if t_pager_tid (k_tcb k faulter) \<noteq> t_tid (k_tcb k rcv) then None
                else map_option (\<lambda>(msg, q). (msg, k\<lparr>vm_faults := q\<rparr>)) (fault_queue_pop (vm_faults k))))"

section \<open>The fault queue is a queue\<close>

definition fq_ok :: "vm_fault_queue \<Rightarrow> bool" where
  "fq_ok q \<longleftrightarrow> length (fq_entries q) = 16 \<and> fq_head q < 16 \<and> fq_tail q < 16"

definition fq_list :: "vm_fault_queue \<Rightarrow> vm_fault_msg list" where
  "fq_list q = ht_view (fq_entries q) (unat (fq_head q)) (unat (fq_tail q))"

lemma unat_and_15: "unat ((h + 1) AND (FAULT_QUEUE_SIZE - 1)) = (unat h + 1) mod 16" if "h < 16" for h :: u32
proof -
  have m: "(FAULT_QUEUE_SIZE - 1 :: u32) = mask 4" by (simp add: FAULT_QUEUE_SIZE_def mask_eq_exp_minus_1)
  have "unat h + 1 < 2 ^ 32" using that by (simp add: word_less_nat_alt)
  then have "unat (h + 1) = unat h + 1" using unat_add_lem [of h 1] by simp
  then show ?thesis unfolding m unat_and_mask by simp
qed

lemma fq_next_less: "h < 16 \<Longrightarrow> (h + 1) AND (FAULT_QUEUE_SIZE - 1) < (16 :: u32)"
  by (simp add: word_less_nat_alt unat_and_15)

interpretation fault_queue: bounded_fifo fq_list fq_ok "\<lambda>msg q. snd (fault_queue_push msg q)" fault_queue_pop 15
proof
  fix q :: vm_fault_queue and x y :: vm_fault_msg and xs
  assume ok: "fq_ok q"
  then have h: "unat (fq_head q) < length (fq_entries q)" and t: "unat (fq_tail q) < length (fq_entries q)"
    and len: "length (fq_entries q) = 16" and hd': "fq_head q < 16" and tl': "fq_tail q < 16"
    by (auto simp: fq_ok_def word_less_nat_alt)
  note step = unat_and_15 [OF hd'] unat_and_15 [OF tl']
  have full: "(fq_head q + 1) AND (FAULT_QUEUE_SIZE - 1) = fq_tail q \<longleftrightarrow> length (fq_list q) = 15"
    using ht_full [OF h t] by (simp only: word_unat_eq_iff step fq_list_def len length_ht_view) simp
  show "length (fq_list q) \<le> 15"
    using ht_count_less [OF h t] by (simp add: fq_list_def len)
  show "fq_list (snd (fault_queue_push x q)) = fq_list q @ [x]" if "length (fq_list q) < 15"
  proof -
    from that full have ne: "(fq_head q + 1) AND (FAULT_QUEUE_SIZE - 1) \<noteq> fq_tail q" by auto
    then have "(unat (fq_head q) + 1) mod length (fq_entries q) \<noteq> unat (fq_tail q)"
      by (simp only: word_unat_eq_iff step len) simp
    from ht_push [OF h t this, of x] ne step(1) show ?thesis
      unfolding fault_queue_push_def fq_list_def Let_def by (simp add: len)
  qed
  show "snd (fault_queue_push x q) = q" if "length (fq_list q) = 15"
    using that full by (simp add: fault_queue_push_def Let_def)
  show "fq_ok (snd (fault_queue_push x q))"
    using ok by (auto simp: fq_ok_def fault_queue_push_def Let_def fq_next_less)
  show "fault_queue_pop q = None" if "fq_list q = []"
    using that ht_view_empty [OF h t] by (auto simp: fault_queue_pop_def fq_list_def word_unat_eq_iff)
  show "\<exists>q'. fault_queue_pop q = Some (y, q') \<and> fq_list q' = xs \<and> fq_ok q'" if "fq_list q = y # xs"
  proof -
    from that ht_view_empty [OF h t] have ne: "fq_head q \<noteq> fq_tail q" by (auto simp: fq_list_def)
    then have "unat (fq_head q) \<noteq> unat (fq_tail q)" by (simp add: word_unat_eq_iff)
    from ht_pop [OF h t this] that ne ok show ?thesis
      unfolding fault_queue_pop_def fq_list_def
      by (simp add: fq_ok_def fq_next_less len) (simp only: step, simp)
  qed
qed

lemma fault_queue_push_full: "fq_ok q \<Longrightarrow> fst (fault_queue_push msg q) = (if length (fq_list q) = 15 then - 1 else 0)"
proof -
  assume ok: "fq_ok q"
  then have h: "unat (fq_head q) < length (fq_entries q)" and t: "unat (fq_tail q) < length (fq_entries q)"
    and len: "length (fq_entries q) = 16" and hd': "fq_head q < 16"
    by (auto simp: fq_ok_def word_less_nat_alt)
  have "(fq_head q + 1) AND (FAULT_QUEUE_SIZE - 1) = fq_tail q \<longleftrightarrow> length (fq_list q) = 15"
    using ht_full [OF h t] by (simp only: word_unat_eq_iff unat_and_15 [OF hd'] fq_list_def len length_ht_view) simp
  then show ?thesis by (simp add: fault_queue_push_def Let_def)
qed

text \<open>C40. Page faults reach the pager in the order in which they happened: from any well-formed queue, faults are
  appended as long as fewer than fifteen wait and are refused with an error after that, and taking faults out
  returns the oldest ones and leaves the others in order.\<close>

theorem fault_queue_order:
  assumes "fq_ok q" "pops n fault_queue_pop (fold (\<lambda>msg q. snd (fault_queue_push msg q)) msgs q) = (out, q')"
  shows "out = take n (fq_list q @ take (15 - length (fq_list q)) msgs)
    \<and> fq_list q' = drop n (fq_list q @ take (15 - length (fq_list q)) msgs) \<and> fq_ok q'
    \<and> fst (fault_queue_push msg q) = (if length (fq_list q) = 15 then - 1 else 0)"
  using fault_queue.pops_view [OF fault_queue.inv_pushes [OF assms(1)] assms(2)] fault_queue.view_pushes [OF assms(1), of msgs]
    fault_queue_push_full [OF assms(1)] by simp

theorem fault_queue_order_witness:
  "\<exists>q'. pops 1 fault_queue_pop
      (fold (\<lambda>msg q. snd (fault_queue_push msg q))
         [\<lparr>fault_address = 0x1000, error_code = 4, faulting_thread = 7\<rparr>, \<lparr>fault_address = 0x2000, error_code = 6, faulting_thread = 8\<rparr>]
         \<lparr>fq_entries = replicate 16 \<lparr>fault_address = 0, error_code = 0, faulting_thread = 0\<rparr>, fq_head = 15, fq_tail = 15\<rparr>)
      = ([\<lparr>fault_address = 0x1000, error_code = 4, faulting_thread = 7\<rparr>], q')
    \<and> fq_list q' = [\<lparr>fault_address = 0x2000, error_code = 6, faulting_thread = 8\<rparr>]"
proof -
  let ?q = "\<lparr>fq_entries = replicate 16 \<lparr>fault_address = 0, error_code = 0, faulting_thread = 0\<rparr>, fq_head = 15, fq_tail = 15\<rparr>"
  let ?ms = "[\<lparr>fault_address = 0x1000, error_code = 4, faulting_thread = 7\<rparr>, \<lparr>fault_address = 0x2000, error_code = 6, faulting_thread = 8\<rparr>]"
  have ok: "fq_ok ?q" "fq_list ?q = []" by (simp_all add: fq_ok_def fq_list_def ht_view_def ht_count_def)
  obtain out q' where p: "pops 1 fault_queue_pop (fold (\<lambda>msg q. snd (fault_queue_push msg q)) ?ms ?q) = (out, q')" by fastforce
  show ?thesis using fault_queue_order [OF ok(1) p] ok(2) p by auto
qed

end
