(* ===== verification/Caps.thy ===== *)
theory Caps
  imports Vm
begin

text \<open>
  The capability table and the objects behind it, \<^verbatim>\<open>src/core/captable.c\<close>: capabilities are entries of a
  growing table, found by their slot and checked for owner and kind; untyped memory is retyped into
  frames, address spaces, threads, notifications and timers; notifications collect bits for one waiter;
  timers signal notifications. Destroying a thread through its capability is in the theory \<open>Kernel\<close>.
\<close>

section \<open>State\<close>

datatype cap_kind =
    CAP_KIND_UNTYPED | CAP_KIND_FRAME | CAP_KIND_ADDRSPACE | CAP_KIND_TCB | CAP_KIND_NOTIFICATION
  | CAP_KIND_TIMER | CAP_KIND_INVALID

record kcap =
  c_kind :: cap_kind
  c_owner :: tid
  c_addr :: u64
  c_size :: u64
  c_mapped_va :: u64

record notification =
  n_word :: u64
  n_waiter :: tid

record timer_obj =
  tm_armed :: bool
  tm_deadline_tick :: u64
  tm_notif_idx :: int
  tm_signal_bits :: u64
  tm_period_ticks :: u64

definition MAX_NOTIFICATIONS :: nat where "MAX_NOTIFICATIONS = 16"
definition MAX_TIMERS :: nat where "MAX_TIMERS = 16"
definition ROOT_CHILD_PAGER_TID :: tid where "ROOT_CHILD_PAGER_TID = 1"
definition ROOT_CHILD_PRIO :: u8 where "ROOT_CHILD_PRIO = 5"
definition ROOT_OWN_FRAME_VA :: vaddr where "ROOT_OWN_FRAME_VA = 0x71000000"

text \<open>The entries in use of the three tables, as lists; entries are added at the end and
  never removed, so \<^verbatim>\<open>in_use\<close> is set in each of them.\<close>

record caps_state = vm_state +
  kcap_table :: "kcap list"
  kcap_capacity :: u32
  notif_table :: "notification list"
  timer_table :: "timer_obj list"

section \<open>Capabilities\<close>

text \<open>A full table moves to a new one of twice the size in untyped memory; the old one is not reused.\<close>

definition kcap_grant :: "tid \<Rightarrow> cap_kind \<Rightarrow> u64 \<Rightarrow> u64 \<Rightarrow> 'a caps_state_scheme \<Rightarrow> int \<times> 'a caps_state_scheme" where
  "kcap_grant owner kind addr sz k =
     (let (ok, k) =
        (if of_nat (length (kcap_table k)) \<ge> kcap_capacity k
         then (let new_cap = (if kcap_capacity k = 0 then 128 else kcap_capacity k * 2);
                   (new_table, k) = with_untyped (untyped_alloc (ucast new_cap * 32)) k
               in if new_table = 0 then (False, k) else (True, k\<lparr>kcap_capacity := new_cap\<rparr>))
         else (True, k))
      in if \<not> ok then (- 1, k)
         else (0, k\<lparr>kcap_table := kcap_table k @
                 [\<lparr>c_kind = kind, c_owner = owner, c_addr = addr, c_size = sz, c_mapped_va = 0\<rparr>]\<rparr>))"

definition kcap_next_slot :: "'a caps_state_scheme \<Rightarrow> u32" where
  "kcap_next_slot k = of_nat (length (kcap_table k))"

definition validate :: "tid \<Rightarrow> u32 \<Rightarrow> cap_kind \<Rightarrow> 'a caps_state_scheme \<Rightarrow> kcap option" where
  "validate caller slot want_kind k =
     (if unat slot \<ge> length (kcap_table k) then None
      else (let c = kcap_table k ! unat slot
            in if c_owner c \<noteq> caller \<or> c_kind c \<noteq> want_kind then None else Some c))"

section \<open>Notifications\<close>

definition upd_notif :: "nat \<Rightarrow> (notification \<Rightarrow> notification) \<Rightarrow> 'a caps_state_scheme \<Rightarrow> 'a caps_state_scheme" where
  "upd_notif i f k = k\<lparr>notif_table := (notif_table k)[i := f (notif_table k ! i)]\<rparr>"

definition notif_deliver :: "nat \<Rightarrow> nat \<Rightarrow> u64 \<Rightarrow> 'a caps_state_scheme \<Rightarrow> 'a caps_state_scheme" where
  "notif_deliver cpu idx bits k =
     (let k = upd_notif idx (\<lambda>n. n\<lparr>n_word := n_word n OR bits\<rparr>) k;
          n = notif_table k ! idx
      in if n_waiter n \<noteq> 0
         then (let k = (case sched_get_tcb (n_waiter n) (k_sched k) of
                          None \<Rightarrow> k
                        | Some w \<Rightarrow>
                            on_sched (sched_wake cpu w) (k_uctx w (\<lambda>u. u\<lparr>r8 := n_word n, rax := word_of_int IPC_ERR_NONE\<rparr>) k))
               in upd_notif idx (\<lambda>n. n\<lparr>n_word := 0, n_waiter := 0\<rparr>) k)
         else k)"

definition cap_notif_signal :: "nat \<Rightarrow> tid \<Rightarrow> u32 \<Rightarrow> u64 \<Rightarrow> 'a caps_state_scheme \<Rightarrow> int \<times> 'a caps_state_scheme" where
  "cap_notif_signal cpu caller notif_slot bits k =
     (case validate caller notif_slot CAP_KIND_NOTIFICATION k of
        None \<Rightarrow> (- 1, k)
      | Some cap \<Rightarrow> (0, notif_deliver cpu (unat (c_addr cap)) bits k))"

text \<open>\<open>None\<close> is the result -1, \<open>Some (Some bits)\<close> the result 1 and \<open>Some None\<close> the result 0.\<close>

definition cap_notif_wait_begin :: "tid \<Rightarrow> u32 \<Rightarrow> 'a caps_state_scheme \<Rightarrow> u64 option option \<times> 'a caps_state_scheme" where
  "cap_notif_wait_begin caller notif_slot k =
     (case validate caller notif_slot CAP_KIND_NOTIFICATION k of
        None \<Rightarrow> (None, k)
      | Some cap \<Rightarrow>
          (let i = unat (c_addr cap); n = notif_table k ! i
           in if n_word n \<noteq> 0 then (Some (Some (n_word n)), upd_notif i (\<lambda>n. n\<lparr>n_word := 0\<rparr>) k)
              else (Some None, upd_notif i (\<lambda>n. n\<lparr>n_waiter := caller\<rparr>) k)))"

text \<open>The result code, with the bits when it is 0.\<close>

definition cap_notif_poll :: "tid \<Rightarrow> u32 \<Rightarrow> 'a caps_state_scheme \<Rightarrow> int \<times> u64 \<times> 'a caps_state_scheme" where
  "cap_notif_poll caller notif_slot k =
     (case validate caller notif_slot CAP_KIND_NOTIFICATION k of
        None \<Rightarrow> (- 1, 0, k)
      | Some cap \<Rightarrow>
          (let i = unat (c_addr cap); n = notif_table k ! i
           in if n_word n = 0 then (- 2, 0, k) else (0, n_word n, upd_notif i (\<lambda>n. n\<lparr>n_word := 0\<rparr>) k)))"

section \<open>Retyping untyped memory\<close>

definition cap_kind_of :: "u32 \<Rightarrow> cap_kind option" where
  "cap_kind_of n =
     (if n = 1 then Some CAP_KIND_FRAME else if n = 2 then Some CAP_KIND_ADDRSPACE
      else if n = 3 then Some CAP_KIND_TCB else if n = 4 then Some CAP_KIND_NOTIFICATION
      else if n = 5 then Some CAP_KIND_TIMER else None)"

text \<open>The slot and the address of the new object, \<open>None\<close> for the result -1. A failure after the memory was
  taken does not give it back.\<close>

type_synonym 'k retyped = "(u64 \<times> u64) option \<times> 'k"

definition retype_grant :: "tid \<Rightarrow> cap_kind \<Rightarrow> u64 \<Rightarrow> u64 \<Rightarrow> 'a caps_state_scheme \<Rightarrow> 'a caps_state_scheme retyped" where
  "retype_grant caller kind addr sz k =
     (let (rc, k) = kcap_grant caller kind addr sz k
      in if rc \<noteq> 0 then (None, k) else (Some (of_nat (length (kcap_table k)) - 1, addr), k))"

definition retype_frame :: "tid \<Rightarrow> tptr \<Rightarrow> 'a caps_state_scheme \<Rightarrow> 'a caps_state_scheme retyped" where
  "retype_frame caller caller_tcb k =
     (let (frame, k) = with_untyped (untyped_alloc PAGE_SIZE_4K) k
      in if frame = 0 then (None, k)
         else
           (let as = t_address_space (k_tcb k caller_tcb);
                fresh = arch_vm_translate (k_mem k) as ROOT_OWN_FRAME_VA = 0;
                (rc, k) = (if fresh
                           then with_pm (arch_vm_map_page as ROOT_OWN_FRAME_VA frame
                                           (VM_PROT_READ OR VM_PROT_WRITE OR VM_PROT_USER)) k
                           else (0, k))
            in if rc \<noteq> 0 then (None, k)
               else
                 (let mapped_va = (if fresh then ROOT_OWN_FRAME_VA else 0);
                      (r, k) = retype_grant caller CAP_KIND_FRAME frame PAGE_SIZE_4K k
                  in case r of
                       None \<Rightarrow> (None, k)
                     | Some out \<Rightarrow>
                         (let i = length (kcap_table k) - 1
                          in (Some out, k\<lparr>kcap_table := (kcap_table k)[i := (kcap_table k ! i)\<lparr>c_mapped_va := mapped_va\<rparr>]\<rparr>)))))"

definition retype_addrspace :: "tid \<Rightarrow> 'a caps_state_scheme \<Rightarrow> 'a caps_state_scheme retyped" where
  "retype_addrspace caller k =
     (let (frame, k) = with_untyped (untyped_alloc PAGE_SIZE_4K) k
      in if frame = 0 then (None, k)
         else (let (as, k) = vm_address_space_create k
               in if as = 0 then (None, k) else retype_grant caller CAP_KIND_ADDRSPACE as 0 k))"

definition retype_tcb :: "tid \<Rightarrow> u64 \<Rightarrow> u64 \<Rightarrow> u64 \<Rightarrow> u64 \<Rightarrow> 'a caps_state_scheme \<Rightarrow> 'a caps_state_scheme retyped" where
  "retype_tcb caller as_slot entry stack frame_slot k =
     (case (validate caller (ucast as_slot) CAP_KIND_ADDRSPACE k, validate caller (ucast frame_slot) CAP_KIND_FRAME k) of
        (Some as_cap, Some frame_cap) \<Rightarrow>
          (let (mem, k) = with_untyped (untyped_alloc PAGE_SIZE_4K) k
           in if mem = 0 then (None, k)
              else
                (let (rc, k) = with_pm (arch_vm_map_page (c_addr as_cap) entry (c_addr frame_cap)
                                 (VM_PROT_READ OR VM_PROT_WRITE OR VM_PROT_EXEC OR VM_PROT_USER)) k
                 in if rc \<noteq> 0 then (None, k)
                    else
                      (let (t, k) = with_sched (thread_create_user_locked ''root-child'' entry stack ROOT_CHILD_PRIO
                                                  (c_addr as_cap) ROOT_CHILD_PAGER_TID) k
                       in case t of
                            None \<Rightarrow> (None, k)
                          | Some t \<Rightarrow> retype_grant caller CAP_KIND_TCB (ucast (t_tid (k_tcb k t))) 0 k)))
      | _ \<Rightarrow> (None, k))"

definition retype_notification :: "tid \<Rightarrow> 'a caps_state_scheme \<Rightarrow> 'a caps_state_scheme retyped" where
  "retype_notification caller k =
     (if length (notif_table k) \<ge> MAX_NOTIFICATIONS then (None, k)
      else
        (let (mem, k) = with_untyped (untyped_alloc PAGE_SIZE_4K) k
         in if mem = 0 then (None, k)
            else (let idx = length (notif_table k)
                  in retype_grant caller CAP_KIND_NOTIFICATION (of_nat idx) 0
                       (k\<lparr>notif_table := notif_table k @ [\<lparr>n_word = 0, n_waiter = 0\<rparr>]\<rparr>))))"

definition retype_timer :: "tid \<Rightarrow> 'a caps_state_scheme \<Rightarrow> 'a caps_state_scheme retyped" where
  "retype_timer caller k =
     (if length (timer_table k) \<ge> MAX_TIMERS then (None, k)
      else
        (let (mem, k) = with_untyped (untyped_alloc PAGE_SIZE_4K) k
         in if mem = 0 then (None, k)
            else (let idx = length (timer_table k)
                  in retype_grant caller CAP_KIND_TIMER (of_nat idx) 0
                       (k\<lparr>timer_table := timer_table k @
                            [\<lparr>tm_armed = False, tm_deadline_tick = 0, tm_notif_idx = - 1, tm_signal_bits = 0,
                              tm_period_ticks = 0\<rparr>]\<rparr>))))"

definition cap_retype ::
    "tid \<Rightarrow> u32 \<Rightarrow> u32 \<Rightarrow> u64 \<Rightarrow> u64 \<Rightarrow> u64 \<Rightarrow> u64 \<Rightarrow> 'a caps_state_scheme \<Rightarrow> 'a caps_state_scheme retyped" where
  "cap_retype caller untyped_slot kind as_slot entry stack frame_slot k =
     (if validate caller untyped_slot CAP_KIND_UNTYPED k = None then (None, k)
      else
        case sched_get_tcb caller (k_sched k) of
          None \<Rightarrow> (None, k)
        | Some caller_tcb \<Rightarrow>
            (case cap_kind_of kind of
               Some CAP_KIND_FRAME \<Rightarrow> retype_frame caller caller_tcb k
             | Some CAP_KIND_ADDRSPACE \<Rightarrow> retype_addrspace caller k
             | Some CAP_KIND_TCB \<Rightarrow> retype_tcb caller as_slot entry stack frame_slot k
             | Some CAP_KIND_NOTIFICATION \<Rightarrow> retype_notification caller k
             | Some CAP_KIND_TIMER \<Rightarrow> retype_timer caller k
             | _ \<Rightarrow> (None, k)))"

definition kcap_invalidate_tcb_death :: "tid \<Rightarrow> 'a caps_state_scheme \<Rightarrow> 'a caps_state_scheme" where
  "kcap_invalidate_tcb_death t k =
     k\<lparr>kcap_table := map (\<lambda>c. if c_kind c = CAP_KIND_TCB \<and> c_addr c = ucast t then c\<lparr>c_kind := CAP_KIND_INVALID\<rparr> else c)
                       (kcap_table k)\<rparr>"

definition notif_invalidate_waiter_death :: "tid \<Rightarrow> 'a caps_state_scheme \<Rightarrow> 'a caps_state_scheme" where
  "notif_invalidate_waiter_death t k =
     k\<lparr>notif_table := map (\<lambda>n. if n_waiter n = t then n\<lparr>n_waiter := 0\<rparr> else n) (notif_table k)\<rparr>"

definition cap_revoke_frame :: "tid \<Rightarrow> u32 \<Rightarrow> 'a caps_state_scheme \<Rightarrow> int \<times> 'a caps_state_scheme" where
  "cap_revoke_frame caller frame_slot k =
     (case validate caller frame_slot CAP_KIND_FRAME k of
        None \<Rightarrow> (- 1, k)
      | Some cap \<Rightarrow>
          if c_mapped_va cap = 0 then (- 1, k)
          else
            (case sched_get_tcb caller (k_sched k) of
               None \<Rightarrow> (- 1, k)
             | Some t \<Rightarrow>
                 (let k = snd (with_pm (arch_vm_unmap_page (t_address_space (k_tcb k t)) (c_mapped_va cap)) k);
                      i = unat frame_slot
                  in (0, k\<lparr>kcap_table := (kcap_table k)[i := (kcap_table k ! i)\<lparr>c_kind := CAP_KIND_INVALID\<rparr>]\<rparr>))))"

section \<open>Timers\<close>

definition cap_timer_arm ::
    "tid \<Rightarrow> u32 \<Rightarrow> u32 \<Rightarrow> u64 \<Rightarrow> u64 \<Rightarrow> u64 \<Rightarrow> 'a caps_state_scheme \<Rightarrow> int \<times> 'a caps_state_scheme" where
  "cap_timer_arm caller timer_slot notif_slot ticks_from_now bits period_ticks k =
     (case (validate caller timer_slot CAP_KIND_TIMER k, validate caller notif_slot CAP_KIND_NOTIFICATION k) of
        (Some timer_cap, Some notif_cap) \<Rightarrow>
          (let ticks = (if ticks_from_now < 1 then 1 else ticks_from_now);
               deadline = sched_now (k_sched k) + ticks;
               i = unat (c_addr timer_cap)
           in (0, on_sched (sched_note_deadline deadline)
                    (k\<lparr>timer_table := (timer_table k)[i := (timer_table k ! i)
                        \<lparr>tm_armed := True, tm_deadline_tick := deadline, tm_notif_idx := sint (ucast (c_addr notif_cap) :: 32 word),
                         tm_signal_bits := bits, tm_period_ticks := period_ticks\<rparr>]\<rparr>)))
      | _ \<Rightarrow> (- 1, k))"

definition cap_timer_disarm :: "tid \<Rightarrow> u32 \<Rightarrow> 'a caps_state_scheme \<Rightarrow> int \<times> 'a caps_state_scheme" where
  "cap_timer_disarm caller timer_slot k =
     (case validate caller timer_slot CAP_KIND_TIMER k of
        None \<Rightarrow> (- 1, k)
      | Some cap \<Rightarrow>
          (let i = unat (c_addr cap)
           in (0, k\<lparr>timer_table := (timer_table k)[i := (timer_table k ! i)\<lparr>tm_armed := False\<rparr>]\<rparr>)))"

text \<open>The next deadline of a periodic timer. The sum can wrap around, so the loop need not end.\<close>

partial_function (option) timer_reload :: "u64 \<Rightarrow> u64 \<Rightarrow> u64 \<Rightarrow> u64 option" where
  "timer_reload now period deadline =
     (if deadline \<le> now then timer_reload now period (deadline + period) else Some deadline)"

definition timer_fire :: "nat \<Rightarrow> u64 \<Rightarrow> nat \<Rightarrow> 'a caps_state_scheme \<Rightarrow> 'a caps_state_scheme option" where
  "timer_fire cpu now i k =
     (let t = timer_table k ! i;
          k = notif_deliver cpu (nat (tm_notif_idx t)) (tm_signal_bits t) k
      in if tm_period_ticks t \<noteq> 0
         then map_option (\<lambda>d. k\<lparr>timer_table := (timer_table k)[i := (timer_table k ! i)\<lparr>tm_deadline_tick := d\<rparr>]\<rparr>)
                (timer_reload now (tm_period_ticks t) (tm_deadline_tick t))
         else Some (k\<lparr>timer_table := (timer_table k)[i := (timer_table k ! i)\<lparr>tm_armed := False\<rparr>]\<rparr>))"

fun timer_scan :: "nat \<Rightarrow> u64 \<Rightarrow> nat list \<Rightarrow> u64 \<Rightarrow> 'a caps_state_scheme \<Rightarrow> (u64 \<times> 'a caps_state_scheme) option" where
  "timer_scan cpu now [] nxt k = Some (nxt, k)"
| "timer_scan cpu now (i # is) nxt k =
     (let t = timer_table k ! i
      in if \<not> tm_armed t then timer_scan cpu now is nxt k
         else
           (case (if tm_deadline_tick t \<le> now then timer_fire cpu now i k else Some k) of
              None \<Rightarrow> None
            | Some k \<Rightarrow>
                (let t = timer_table k ! i
                 in timer_scan cpu now is
                      (if tm_armed t \<and> tm_deadline_tick t < nxt then tm_deadline_tick t else nxt) k)))"

definition cap_timer_rescan :: "nat \<Rightarrow> u64 \<Rightarrow> 'a caps_state_scheme \<Rightarrow> (u64 \<times> 'a caps_state_scheme) option" where
  "cap_timer_rescan cpu now k = timer_scan cpu now [0..<length (timer_table k)] (- 1) k"

end
