(* ===== verification/Shm.thy ===== *)
theory Shm
  imports Caps
begin

text \<open>
  Shared memory segments, \<^verbatim>\<open>src/core/shm.c\<close>: a table of segments, whose frames are listed in an array on
  the kernel heap, and a table of attachments of segments to address spaces. A segment that is marked
  for removal lives until its last attachment goes. A segment identifier combines the slot with the
  generation of the slot.
\<close>

section \<open>State\<close>

definition MAX_SHM_SEGMENTS :: nat where "MAX_SHM_SEGMENTS = 32"
definition MAX_SHM_ATTACHES :: nat where "MAX_SHM_ATTACHES = 64"
definition SHM_MAX_SEGMENT_PAGES :: u64 where "SHM_MAX_SEGMENT_PAGES = 4096"
definition SHM_IPC_CREAT :: u32 where "SHM_IPC_CREAT = 0x200"
definition SHM_IPC_EXCL :: u32 where "SHM_IPC_EXCL = 0x400"
definition SHM_IPC_RMID :: u32 where "SHM_IPC_RMID = 0"
definition SHM_IPC_STAT :: u32 where "SHM_IPC_STAT = 2"
definition SHM_FLAG_RDONLY :: u32 where "SHM_FLAG_RDONLY = 0x1000"
definition SHM_USER_VA_BASE :: vaddr where "SHM_USER_VA_BASE = 0x140000000"

text \<open>The field \<^verbatim>\<open>ctime\<close> is written and never read.\<close>

record shm_segment =
  sg_in_use :: bool
  sg_key :: u32
  sg_generation :: u16
  sg_size :: u64
  sg_npages :: u64
  sg_frames :: u64
  sg_nattch :: u32
  sg_marked_rmid :: bool
  sg_cpid :: tid
  sg_lpid :: tid
  sg_atime :: u64
  sg_dtime :: u64
  sg_ctime :: u64
  sg_mode_bits :: u32

record shm_attach =
  at_in_use :: bool
  at_shmid :: u32
  at_address_space :: paddr
  at_va :: u64
  at_npages :: u64

record shm_state = caps_state +
  segments :: "shm_segment list"
  attaches :: "shm_attach list"

definition make_shmid :: "nat \<Rightarrow> u16 \<Rightarrow> u32" where
  "make_shmid slot gen = of_nat slot OR push_bit 8 (ucast gen)"

definition shmid_slot :: "u32 \<Rightarrow> nat" where
  "shmid_slot shmid = unat (shmid AND 0xFF)"

definition shmid_gen :: "u32 \<Rightarrow> u16" where
  "shmid_gen shmid = ucast (drop_bit 8 shmid)"

definition find_segment :: "u32 \<Rightarrow> 'a shm_state_scheme \<Rightarrow> nat option" where
  "find_segment shmid k =
     (let slot = shmid_slot shmid
      in if slot \<ge> MAX_SHM_SEGMENTS then None
         else if \<not> sg_in_use (segments k ! slot) \<or> sg_generation (segments k ! slot) \<noteq> shmid_gen shmid
         then None else Some slot)"

definition upd_seg :: "nat \<Rightarrow> (shm_segment \<Rightarrow> shm_segment) \<Rightarrow> 'a shm_state_scheme \<Rightarrow> 'a shm_state_scheme" where
  "upd_seg i f k = k\<lparr>segments := (segments k)[i := f (segments k ! i)]\<rparr>"

text \<open>Entry \<open>i\<close> of the array of frames.\<close>

definition seg_frame :: "'a kmach_scheme \<Rightarrow> shm_segment \<Rightarrow> nat \<Rightarrow> paddr" where
  "seg_frame k s i = load64 (k_mem k) (sg_frames s + 8 * of_nat i)"

definition k_kfree :: "u64 \<Rightarrow> 'a kmach_scheme \<Rightarrow> 'a kmach_scheme" where
  "k_kfree p k = (case kfree p (k_heap k, k_mem k) of (h, m) \<Rightarrow> k\<lparr>k_heap := h, k_mem := m\<rparr>)"

definition k_kmalloc :: "u64 \<Rightarrow> 'a kmach_scheme \<Rightarrow> (u64 \<times> 'a kmach_scheme) option" where
  "k_kmalloc n k = map_option (\<lambda>(p, h, m). (p, k\<lparr>k_heap := h, k_mem := m\<rparr>)) (kmalloc n (k_heap k, k_mem k))"

definition free_segment_frames :: "nat \<Rightarrow> 'a shm_state_scheme \<Rightarrow> 'a shm_state_scheme" where
  "free_segment_frames slot k =
     (let s = segments k ! slot;
          k = fold (\<lambda>i k. if seg_frame k s i \<noteq> 0 then on_pm (pmm_free (seg_frame k s i)) k else k)
                [0..<unat (sg_npages s)] k;
          k = k_kfree (sg_frames s) k
      in upd_seg slot (\<lambda>s. s\<lparr>sg_frames := 0, sg_in_use := False, sg_generation := sg_generation s + 1\<rparr>) k)"

section \<open>Operations\<close>

text \<open>The frames of a new segment; when memory runs out the ones taken so far and the array are freed.\<close>

definition shm_fill_step :: "u64 \<Rightarrow> nat \<Rightarrow> 'a kmach_scheme \<Rightarrow> bool \<times> 'a kmach_scheme" where
  "shm_fill_step frames i k =
     (let (f, k) = with_pm (pmm_alloc PMM_COLOR_ANY) k
      in if f = 0
         then (False, k_kfree frames (fold (\<lambda>j k. on_pm (pmm_free (load64 (k_mem k) (frames + 8 * of_nat j))) k) [0..<i] k))
         else (True, k\<lparr>k_mem := store64 (zero_range (k_mem k) f PAGE_SIZE_4K) (frames + 8 * of_nat i) f\<rparr>))"

definition shm_create :: "tid \<Rightarrow> u32 \<Rightarrow> u64 \<Rightarrow> u32 \<Rightarrow> 'a shm_state_scheme \<Rightarrow> ((ipc_err + u32) \<times> 'a shm_state_scheme) option" where
  "shm_create caller key sz shmflg k =
     (if sz = 0 then Some (Inl IPC_ERR_INVALID, k)
      else
        (let npages = (sz + PAGE_SIZE_4K - 1) div PAGE_SIZE_4K
         in if npages > SHM_MAX_SEGMENT_PAGES then Some (Inl IPC_ERR_INVALID, k)
            else
              (case first_slot (\<lambda>s. \<not> sg_in_use s) (segments k) of
                 None \<Rightarrow> Some (Inl IPC_ERR_NO_SPACE, k)
               | Some slot \<Rightarrow>
                   (case k_kmalloc (npages * 8) k of
                      None \<Rightarrow> None
                    | Some (frames, k) \<Rightarrow>
                        if frames = 0 then Some (Inl IPC_ERR_NO_MEM, k)
                        else
                          (let (ok, k) = loop_until_fail (shm_fill_step frames) [0..<unat npages] k
                           in if \<not> ok then Some (Inl IPC_ERR_NO_MEM, k)
                              else
                                (let k = upd_seg slot (\<lambda>s. s\<lparr>sg_in_use := True, sg_key := key, sg_size := sz,
                                       sg_npages := npages, sg_frames := frames, sg_nattch := 0,
                                       sg_marked_rmid := False, sg_cpid := caller, sg_lpid := caller,
                                       sg_atime := 0, sg_dtime := 0, sg_ctime := sched_now (k_sched k),
                                       sg_mode_bits := shmflg AND 0x1FF\<rparr>) k
                                 in Some (Inr (make_shmid slot (sg_generation (segments k ! slot))), k)))))))"

definition shm_get :: "tid \<Rightarrow> u32 \<Rightarrow> u64 \<Rightarrow> u32 \<Rightarrow> 'a shm_state_scheme \<Rightarrow> ((ipc_err + u32) \<times> 'a shm_state_scheme) option" where
  "shm_get caller key sz shmflg k =
     (if key \<noteq> 0
      then
        (case first_slot (\<lambda>s. sg_in_use s \<and> \<not> sg_marked_rmid s \<and> sg_key s = key) (segments k) of
           Some i \<Rightarrow>
             if shmflg AND SHM_IPC_CREAT \<noteq> 0 \<and> shmflg AND SHM_IPC_EXCL \<noteq> 0 then Some (Inl IPC_ERR_EXISTS, k)
             else if sz \<noteq> 0 \<and> sz > sg_size (segments k ! i) then Some (Inl IPC_ERR_INVALID, k)
             else Some (Inr (make_shmid i (sg_generation (segments k ! i))), k)
         | None \<Rightarrow>
             if shmflg AND SHM_IPC_CREAT = 0 then Some (Inl IPC_ERR_NOT_FOUND, k)
             else shm_create caller key sz shmflg k)
      else shm_create caller key sz shmflg k)"

text \<open>A new attachment goes behind all attachments of the address space.\<close>

definition shm_attach_va :: "paddr \<Rightarrow> 'a shm_state_scheme \<Rightarrow> u64" where
  "shm_attach_va as k =
     fold (\<lambda>a va. if at_in_use a \<and> at_address_space a = as
                  then (let stop = at_va a + at_npages a * PAGE_SIZE_4K in if stop > va then stop else va)
                  else va) (attaches k) SHM_USER_VA_BASE"

definition shm_map_step :: "paddr \<Rightarrow> u64 \<Rightarrow> shm_segment \<Rightarrow> u32 \<Rightarrow> nat \<Rightarrow> 'a kmach_scheme \<Rightarrow> bool \<times> 'a kmach_scheme" where
  "shm_map_step as va s prot i k =
     (let (rc, k) = with_pm (arch_vm_map_page as (va + of_nat i * PAGE_SIZE_4K) (seg_frame k s i) prot) k
      in if rc \<noteq> 0
         then (False, fold (\<lambda>j k. snd (with_pm (arch_vm_unmap_page as (va + of_nat j * PAGE_SIZE_4K)) k)) [0..<i] k)
         else (True, k))"

definition shm_at :: "tid \<Rightarrow> paddr \<Rightarrow> u32 \<Rightarrow> u32 \<Rightarrow> 'a shm_state_scheme \<Rightarrow> (ipc_err + u64) \<times> 'a shm_state_scheme" where
  "shm_at caller as shmid shmflg k =
     (case find_segment shmid k of
        None \<Rightarrow> (Inl IPC_ERR_NOT_FOUND, k)
      | Some i \<Rightarrow>
          (let va = shm_attach_va as k
           in case first_slot (\<lambda>a. \<not> at_in_use a) (attaches k) of
                None \<Rightarrow> (Inl IPC_ERR_NO_SPACE, k)
              | Some slot \<Rightarrow>
                  (let prot = VM_PROT_READ OR VM_PROT_USER OR (if shmflg AND SHM_FLAG_RDONLY = 0 then VM_PROT_WRITE else 0);
                       s = segments k ! i;
                       (ok, k) = loop_until_fail (shm_map_step as va s prot) [0..<unat (sg_npages s)] k
                   in if \<not> ok then (Inl IPC_ERR_NO_MEM, k)
                      else
                        (let k = k\<lparr>attaches := (attaches k)[slot :=
                               \<lparr>at_in_use = True, at_shmid = shmid, at_address_space = as, at_va = va, at_npages = sg_npages s\<rparr>]\<rparr>;
                             k = upd_seg i (\<lambda>s. s\<lparr>sg_nattch := sg_nattch s + 1, sg_lpid := caller,
                                    sg_atime := sched_now (k_sched k)\<rparr>) k
                         in (Inr va, k)))))"

definition unmap_run :: "paddr \<Rightarrow> vaddr \<Rightarrow> u64 \<Rightarrow> 'a kmach_scheme \<Rightarrow> 'a kmach_scheme" where
  "unmap_run as va npages k =
     fold (\<lambda>j k. snd (with_pm (arch_vm_unmap_page as (va + of_nat j * PAGE_SIZE_4K)) k)) [0..<unat npages] k"

text \<open>Dropping attachment \<open>i\<close>: \<open>stamp\<close> writes the detach time, which only \<open>shm_dt\<close> does.\<close>

definition shm_drop :: "nat \<Rightarrow> (shm_segment \<Rightarrow> shm_segment) \<Rightarrow> 'a shm_state_scheme \<Rightarrow> 'a shm_state_scheme" where
  "shm_drop i stamp k =
     (let a = attaches k ! i;
          seg = find_segment (at_shmid a) k;
          k = unmap_run (at_address_space a) (at_va a) (at_npages a) k;
          k = k\<lparr>attaches := (attaches k)[i := a\<lparr>at_in_use := False\<rparr>]\<rparr>
      in case seg of
           None \<Rightarrow> k
         | Some s \<Rightarrow>
             (let k = upd_seg s (\<lambda>s. stamp (s\<lparr>sg_nattch := sg_nattch s - 1\<rparr>)) k
              in if sg_nattch (segments k ! s) = 0 \<and> sg_marked_rmid (segments k ! s)
                 then free_segment_frames s k else k))"

definition shm_dt :: "paddr \<Rightarrow> u64 \<Rightarrow> 'a shm_state_scheme \<Rightarrow> (ipc_err + unit) \<times> 'a shm_state_scheme" where
  "shm_dt as shmaddr k =
     (case first_slot (\<lambda>a. at_in_use a \<and> at_address_space a = as \<and> at_va a = shmaddr) (attaches k) of
        None \<Rightarrow> (Inl IPC_ERR_NOT_FOUND, k)
      | Some i \<Rightarrow> (Inr (), shm_drop i (\<lambda>s. s\<lparr>sg_dtime := sched_now (k_sched k)\<rparr>) k))"

definition shm_ctl :: "u32 \<Rightarrow> u32 \<Rightarrow> 'a shm_state_scheme \<Rightarrow> (ipc_err + u64 list) \<times> 'a shm_state_scheme" where
  "shm_ctl shmid cmd k =
     (case find_segment shmid k of
        None \<Rightarrow> (Inl IPC_ERR_NOT_FOUND, k)
      | Some i \<Rightarrow>
          (let s = segments k ! i
           in if cmd = SHM_IPC_STAT
              then (Inr [sg_size s, ucast (sg_nattch s), ucast (sg_cpid s) OR push_bit 32 (ucast (sg_lpid s)),
                         ucast (sg_mode_bits s) OR push_bit 16 (if sg_marked_rmid s then 1 else 0), sg_atime s, sg_dtime s], k)
              else if cmd = SHM_IPC_RMID
              then (Inr [],
                    (let k = upd_seg i (\<lambda>s. s\<lparr>sg_marked_rmid := True\<rparr>) k
                     in if sg_nattch (segments k ! i) = 0 then free_segment_frames i k else k))
              else (Inl IPC_ERR_INVALID, k)))"

fun shm_copy_pages :: "'a kmach_scheme \<Rightarrow> shm_segment \<Rightarrow> u64 \<Rightarrow> nat list \<Rightarrow> u8 list \<Rightarrow> u8 list" where
  "shm_copy_pages k s tot [] out = out"
| "shm_copy_pages k s tot (i # is) out =
     (if of_nat (length out) < tot
      then (let chunk = tot - of_nat (length out); chunk = (if chunk > PAGE_SIZE_4K then PAGE_SIZE_4K else chunk)
            in shm_copy_pages k s tot is (out @ bytes_at (k_mem k) (seg_frame k s i) (unat chunk)))
      else out)"

definition shm_copy_out :: "u32 \<Rightarrow> u64 \<Rightarrow> 'a shm_state_scheme \<Rightarrow> ipc_err + u8 list" where
  "shm_copy_out shmid max_len k =
     (case find_segment shmid k of
        None \<Rightarrow> Inl IPC_ERR_NOT_FOUND
      | Some i \<Rightarrow>
          (let s = segments k ! i; tot = (if sg_size s < max_len then sg_size s else max_len)
           in Inr (shm_copy_pages k s tot [0..<unat (sg_npages s)] [])))"

definition shm_detach_all_for_process :: "paddr \<Rightarrow> 'a shm_state_scheme \<Rightarrow> 'a shm_state_scheme" where
  "shm_detach_all_for_process as k =
     fold (\<lambda>i k. if at_in_use (attaches k ! i) \<and> at_address_space (attaches k ! i) = as then shm_drop i id k else k)
       [0..<MAX_SHM_ATTACHES] k"

end
