(* ===== verification/Seqlock.thy ===== *)
theory Seqlock
  imports Prelude
begin

text \<open>
  Reading without a lock: a writer increments a counter before and after it changes the data, and a reader that
  sees the same even counter before and after its own reads has seen one version of the data. The locale has the
  contract of the single writes; the information page of the kernel has three counters of this kind.
\<close>

text \<open>A sequence of writes in which data is only changed between two increments of its counter; \<open>b\<close> says whether
  the sequence starts between them.\<close>

fun bracketed :: "('w \<Rightarrow> bool) \<Rightarrow> ('w \<Rightarrow> bool) \<Rightarrow> bool \<Rightarrow> 'w list \<Rightarrow> bool" where
  "bracketed bumps touches b [] \<longleftrightarrow> True"
| "bracketed bumps touches b (w # ws) \<longleftrightarrow>
     (if bumps w then bracketed bumps touches (\<not> b) ws else (touches w \<longrightarrow> b) \<and> bracketed bumps touches b ws)"

lemma bracketed_append:
  "bracketed bumps touches b (xs @ ys) \<longleftrightarrow>
     bracketed bumps touches b xs \<and> bracketed bumps touches (if even (length (filter bumps xs)) then b else \<not> b) ys"
  by (induction xs arbitrary: b) simp_all

lemma bracketed_concat:
  assumes "\<And>xs. xs \<in> set xss \<Longrightarrow> bracketed bumps touches False xs \<and> even (length (filter bumps xs))"
  shows "bracketed bumps touches False (concat xss)"
  using assms by (induction xss) (simp_all add: bracketed_append)

locale seqlock =
  fixes run :: "'w \<Rightarrow> 's \<Rightarrow> 's"
    and bumps :: "'w \<Rightarrow> bool"
    and touches :: "'w \<Rightarrow> bool"
    and counter :: "'s \<Rightarrow> u32"
    and guarded :: "'s \<Rightarrow> 'd"
  assumes counter_bump: "bumps w \<Longrightarrow> counter (run w s) = counter s + 1"
    and counter_other: "\<not> bumps w \<Longrightarrow> counter (run w s) = counter s"
    and guarded_other: "\<not> touches w \<Longrightarrow> guarded (run w s) = guarded s"
begin

lemma counter_runs: "counter (fold run ws s) = counter s + of_nat (length (filter bumps ws))"
  by (induction ws arbitrary: s) (auto simp: counter_bump counter_other)

lemma quiet_runs:
  "bracketed bumps touches False ws \<Longrightarrow> filter bumps ws = [] \<Longrightarrow> guarded (fold run ws s) = guarded s"
  by (induction ws arbitrary: s) (auto simp: guarded_other split: if_splits)

lemma stable_reads:
  assumes br: "bracketed bumps touches False ws" and ev: "even (counter s)"
    and ij: "i \<le> n" "n \<le> j" "j \<le> length ws" "j - i < 2 ^ 32"
    and same: "counter (fold run (take i ws) s) = counter (fold run (take j ws) s)"
    and even_i: "even (counter (fold run (take i ws) s))"
  shows "guarded (fold run (take n ws) s) = guarded (fold run (take i ws) s)"
proof -
  define mid where "mid = take (j - i) (drop i ws)"
  define a where "a = take i ws"
  have split: "take j ws = a @ mid"
    unfolding mid_def a_def take_add [symmetric] using ij by simp
  have "length mid \<le> j - i" by (simp add: mid_def)
  with length_filter_le [of bumps mid] ij(4) have "length (filter bumps mid) < 2 ^ 32" by linarith
  moreover have "of_nat (length (filter bumps mid)) = (0 :: u32)"
    using same unfolding split a_def [symmetric] counter_runs by simp
  then have "2 ^ 32 dvd length (filter bumps mid)" unfolding word_of_nat_eq_0_iff by simp
  ultimately have "length (filter bumps mid) = 0" by (meson gr0I nat_dvd_not_less)
  then have none: "filter bumps mid = []" by simp
  have "even (length (filter bumps a))"
    using even_i ev unfolding a_def [symmetric] counter_runs by simp
  with br have "bracketed bumps touches False (take j ws)"
    using bracketed_append [of bumps touches False "take j ws" "drop j ws"] by simp
  then have quiet: "bracketed bumps touches False mid"
    unfolding split bracketed_append using \<open>even (length (filter bumps a))\<close> by simp
  have n: "take n ws = a @ take (n - i) mid"
    unfolding mid_def a_def take_take min_absorb1 [OF diff_le_mono [OF ij(2)]] take_add [symmetric] using ij by simp
  have "bracketed bumps touches False (take (n - i) mid)"
    using quiet bracketed_append [of bumps touches False "take (n - i) mid" "drop (n - i) mid"] by simp
  moreover have "filter bumps (take (n - i) mid) = []"
    using none by (metis filter_append append_is_Nil_conv append_take_drop_id)
  ultimately show ?thesis unfolding n a_def [symmetric] by (simp add: quiet_runs)
qed

end

end
