(* ===== verification/Kinfo.thy ===== *)
theory Kinfo
  imports Shm Seqlock
begin

text \<open>
  The kernel information page, \<^verbatim>\<open>src/core/kinfo.c\<close> and \<^verbatim>\<open>include/robu/kinfo.h\<close>. The page is mapped
  read-only into every address space, so user threads on other processors read it while the kernel
  writes it. The clock, the mount table and the table of block devices are therefore guarded by sequence
  counters. The writers are given as the lists of their single memory writes, in program order, and the
  operations execute these lists, so that a reader can be placed between any two of them.
\<close>

section \<open>State\<close>

definition MOUNT_PREFIX_MAX :: nat where "MOUNT_PREFIX_MAX = 24"
definition MOUNT_TABLE_MAX :: nat where "MOUNT_TABLE_MAX = 16"
definition BLOCK_DEVICE_MAX :: u32 where "BLOCK_DEVICE_MAX = 2"
definition BLOCK_TRANSPORT_NONE :: u32 where "BLOCK_TRANSPORT_NONE = 0"
definition BLOCK_FS_NONE :: u32 where "BLOCK_FS_NONE = 0"
definition SCHED_HZ :: u32 where "SCHED_HZ = 100"

record mount_entry =
  me_in_use :: bool
  me_owner_tid :: u32
  me_prefix :: "u8 list"

record block_device_info =
  bd_in_use :: bool
  bd_device :: u32
  bd_transport :: u32
  bd_filesystem :: u32
  bd_sector_size :: u32
  bd_sectors :: u64

record kinfo_page =
  ki_abi_version_major :: u32
  ki_abi_version_minor :: u32
  ki_feature_bits :: u64
  ki_cpu_count :: u32
  ki_boot_apic_id :: u32
  ki_clock_seq :: u32
  ki_clock_ticks :: u64
  ki_clock_hz :: u32
  ki_devfs_tid :: u32
  ki_test_report_tid :: u32
  ki_benchserver_tid :: u32
  ki_abitest_helper_tid :: u32
  ki_abitest_slots :: "u32 list"
  ki_ramfs_tid :: u32
  ki_abitest_exit_helper_tid :: u32
  ki_procfs_tid :: u32
  ki_sysfs_tid :: u32
  ki_blockdrv_tid :: u32
  ki_ext2fs_tid :: u32
  ki_mounts :: "mount_entry list"
  ki_mount_seq :: u32
  ki_vfs_abi_major :: u32
  ki_vfs_abi_minor :: u32
  ki_robu_vfs_feature_bits :: u64
  ki_linux_vfs_feature_bits :: u64
  ki_block_devices :: "block_device_info list"
  ki_block_info_seq :: u32
  ki_diskfs_tid :: u32

definition kinfo_zero :: kinfo_page where
  "kinfo_zero = \<lparr>ki_abi_version_major = 0, ki_abi_version_minor = 0, ki_feature_bits = 0, ki_cpu_count = 0,
     ki_boot_apic_id = 0, ki_clock_seq = 0, ki_clock_ticks = 0, ki_clock_hz = 0, ki_devfs_tid = 0,
     ki_test_report_tid = 0, ki_benchserver_tid = 0, ki_abitest_helper_tid = 0, ki_abitest_slots = replicate 5 0,
     ki_ramfs_tid = 0, ki_abitest_exit_helper_tid = 0, ki_procfs_tid = 0, ki_sysfs_tid = 0, ki_blockdrv_tid = 0,
     ki_ext2fs_tid = 0,
     ki_mounts = replicate MOUNT_TABLE_MAX \<lparr>me_in_use = False, me_owner_tid = 0, me_prefix = replicate MOUNT_PREFIX_MAX 0\<rparr>,
     ki_mount_seq = 0, ki_vfs_abi_major = 0, ki_vfs_abi_minor = 0, ki_robu_vfs_feature_bits = 0,
     ki_linux_vfs_feature_bits = 0,
     ki_block_devices = replicate (unat BLOCK_DEVICE_MAX) \<lparr>bd_in_use = False, bd_device = 0, bd_transport = 0,
       bd_filesystem = 0, bd_sector_size = 0, bd_sectors = 0\<rparr>,
     ki_block_info_seq = 0, ki_diskfs_tid = 0\<rparr>"

record kinfo_state = shm_state +
  k_kinfo :: kinfo_page
  k_kinfo_frame :: paddr

section \<open>Initialisation and plain fields\<close>

definition robu_linux_vfs_features :: u64 where
  "robu_linux_vfs_features = 1 OR 2 OR 4 OR 8 OR 16"

text \<open>Whether the processor has \<^verbatim>\<open>rdrand\<close> is an argument.\<close>

definition kinfo_page_init :: "bool \<Rightarrow> u32 \<Rightarrow> u32 \<Rightarrow> kinfo_page" where
  "kinfo_page_init random boot_apic_id cpu_count = kinfo_zero
     \<lparr>ki_abi_version_major := 1, ki_abi_version_minor := 2,
      ki_feature_bits := 1 OR 2 OR 8 OR 16 OR (if random then 4 else 0),
      ki_cpu_count := cpu_count, ki_boot_apic_id := boot_apic_id, ki_clock_seq := 0, ki_clock_ticks := 0,
      ki_clock_hz := SCHED_HZ, ki_vfs_abi_major := 1, ki_vfs_abi_minor := 2,
      ki_robu_vfs_feature_bits := 1 OR 2 OR 4 OR 8 OR 16 OR 32 OR 64 OR 128 OR 512 OR 256,
      ki_linux_vfs_feature_bits := robu_linux_vfs_features\<rparr>"

definition kinfo_init :: "bool \<Rightarrow> u32 \<Rightarrow> u32 \<Rightarrow> 'a kinfo_state_scheme \<Rightarrow> 'a kinfo_state_scheme" where
  "kinfo_init random boot_apic_id cpu_count k =
     (let (frame, k) = with_pm (pmm_alloc PMM_COLOR_ANY) k;
          k = k\<lparr>k_mem := zero_range (k_mem k) frame PAGE_SIZE_4K, k_kinfo_frame := frame,
                k_kinfo := kinfo_page_init random boot_apic_id cpu_count\<rparr>
      in snd (with_pm (arch_vm_map_page (k_boot_pml4 k) KINFO_VA frame (VM_PROT_READ OR VM_PROT_USER)) k))"

definition kinfo_set_devfs_tid :: "u32 \<Rightarrow> kinfo_page \<Rightarrow> kinfo_page" where
  "kinfo_set_devfs_tid t k = k\<lparr>ki_devfs_tid := t\<rparr>"
definition kinfo_set_test_report_tid :: "u32 \<Rightarrow> kinfo_page \<Rightarrow> kinfo_page" where
  "kinfo_set_test_report_tid t k = k\<lparr>ki_test_report_tid := t\<rparr>"
definition kinfo_set_benchserver_tid :: "u32 \<Rightarrow> kinfo_page \<Rightarrow> kinfo_page" where
  "kinfo_set_benchserver_tid t k = k\<lparr>ki_benchserver_tid := t\<rparr>"
definition kinfo_set_abitest_helper_tid :: "u32 \<Rightarrow> kinfo_page \<Rightarrow> kinfo_page" where
  "kinfo_set_abitest_helper_tid t k = k\<lparr>ki_abitest_helper_tid := t\<rparr>"
definition kinfo_set_abitest_slots :: "u32 \<Rightarrow> u32 \<Rightarrow> u32 \<Rightarrow> u32 \<Rightarrow> u32 \<Rightarrow> kinfo_page \<Rightarrow> kinfo_page" where
  "kinfo_set_abitest_slots ut notif timer helper_tcb revoke_frame k =
     k\<lparr>ki_abitest_slots := [ut, notif, timer, helper_tcb, revoke_frame]\<rparr>"
definition kinfo_set_ramfs_tid :: "u32 \<Rightarrow> kinfo_page \<Rightarrow> kinfo_page" where
  "kinfo_set_ramfs_tid t k = k\<lparr>ki_ramfs_tid := t\<rparr>"
definition kinfo_set_abitest_exit_helper_tid :: "u32 \<Rightarrow> kinfo_page \<Rightarrow> kinfo_page" where
  "kinfo_set_abitest_exit_helper_tid t k = k\<lparr>ki_abitest_exit_helper_tid := t\<rparr>"
definition kinfo_set_procfs_tid :: "u32 \<Rightarrow> kinfo_page \<Rightarrow> kinfo_page" where
  "kinfo_set_procfs_tid t k = k\<lparr>ki_procfs_tid := t\<rparr>"
definition kinfo_set_sysfs_tid :: "u32 \<Rightarrow> kinfo_page \<Rightarrow> kinfo_page" where
  "kinfo_set_sysfs_tid t k = k\<lparr>ki_sysfs_tid := t\<rparr>"
definition kinfo_set_blockdrv_tid :: "u32 \<Rightarrow> kinfo_page \<Rightarrow> kinfo_page" where
  "kinfo_set_blockdrv_tid t k = k\<lparr>ki_blockdrv_tid := t\<rparr>"
definition kinfo_set_ext2fs_tid :: "u32 \<Rightarrow> kinfo_page \<Rightarrow> kinfo_page" where
  "kinfo_set_ext2fs_tid t k = k\<lparr>ki_ext2fs_tid := t\<rparr>"
definition kinfo_set_diskfs_tid :: "u32 \<Rightarrow> kinfo_page \<Rightarrow> kinfo_page" where
  "kinfo_set_diskfs_tid t k = k\<lparr>ki_diskfs_tid := t\<rparr>"

section \<open>Guarded tables\<close>

text \<open>The single writes to the guarded parts.\<close>

datatype kmicro =
    Clock_seq | Clock_add u64
  | Mount_seq | Mount_owner nat u32 | Mount_char nat nat u8 | Mount_in_use nat
  | Block_seq | Block_device nat u32 | Block_transport nat u32 | Block_fs nat u32 | Block_sector_size nat u32
  | Block_sectors nat u64 | Block_in_use nat

definition upd_mount :: "nat \<Rightarrow> (mount_entry \<Rightarrow> mount_entry) \<Rightarrow> kinfo_page \<Rightarrow> kinfo_page" where
  "upd_mount i f k = k\<lparr>ki_mounts := (ki_mounts k)[i := f (ki_mounts k ! i)]\<rparr>"

definition upd_block :: "nat \<Rightarrow> (block_device_info \<Rightarrow> block_device_info) \<Rightarrow> kinfo_page \<Rightarrow> kinfo_page" where
  "upd_block i f k = k\<lparr>ki_block_devices := (ki_block_devices k)[i := f (ki_block_devices k ! i)]\<rparr>"

fun kexec :: "kmicro \<Rightarrow> kinfo_page \<Rightarrow> kinfo_page" where
  "kexec Clock_seq k = k\<lparr>ki_clock_seq := ki_clock_seq k + 1\<rparr>"
| "kexec (Clock_add n) k = k\<lparr>ki_clock_ticks := ki_clock_ticks k + n\<rparr>"
| "kexec Mount_seq k = k\<lparr>ki_mount_seq := ki_mount_seq k + 1\<rparr>"
| "kexec (Mount_owner i t) k = upd_mount i (\<lambda>e. e\<lparr>me_owner_tid := t\<rparr>) k"
| "kexec (Mount_char i j c) k = upd_mount i (\<lambda>e. e\<lparr>me_prefix := (me_prefix e)[j := c]\<rparr>) k"
| "kexec (Mount_in_use i) k = upd_mount i (\<lambda>e. e\<lparr>me_in_use := True\<rparr>) k"
| "kexec Block_seq k = k\<lparr>ki_block_info_seq := ki_block_info_seq k + 1\<rparr>"
| "kexec (Block_device i v) k = upd_block i (\<lambda>b. b\<lparr>bd_device := v\<rparr>) k"
| "kexec (Block_transport i v) k = upd_block i (\<lambda>b. b\<lparr>bd_transport := v\<rparr>) k"
| "kexec (Block_fs i v) k = upd_block i (\<lambda>b. b\<lparr>bd_filesystem := v\<rparr>) k"
| "kexec (Block_sector_size i v) k = upd_block i (\<lambda>b. b\<lparr>bd_sector_size := v\<rparr>) k"
| "kexec (Block_sectors i v) k = upd_block i (\<lambda>b. b\<lparr>bd_sectors := v\<rparr>) k"
| "kexec (Block_in_use i) k = upd_block i (\<lambda>b. b\<lparr>bd_in_use := True\<rparr>) k"

definition kexecs :: "kmicro list \<Rightarrow> kinfo_page \<Rightarrow> kinfo_page" where
  "kexecs ms k = fold kexec ms k"

definition tick_writes :: "u64 \<Rightarrow> kmicro list" where
  "tick_writes n = [Clock_seq, Clock_add n, Clock_seq]"

definition kinfo_tick :: "u64 \<Rightarrow> kinfo_page \<Rightarrow> kinfo_page" where
  "kinfo_tick n k = kexecs (tick_writes n) k"

text \<open>The prefix is a C string without its terminator; it is cut to 23 characters.\<close>

definition mount_writes :: "nat \<Rightarrow> u8 list \<Rightarrow> u32 \<Rightarrow> kmicro list" where
  "mount_writes slot prefix owner =
     (let p = take (MOUNT_PREFIX_MAX - 1) prefix
      in [Mount_seq, Mount_owner slot owner] @ map (\<lambda>i. Mount_char slot i (p ! i)) [0..<length p]
         @ [Mount_char slot (length p) 0, Mount_in_use slot, Mount_seq])"

definition kinfo_mount_add :: "u8 list \<Rightarrow> u32 \<Rightarrow> kinfo_page \<Rightarrow> int \<times> kinfo_page" where
  "kinfo_mount_add prefix owner k =
     (case first_slot (\<lambda>e. \<not> me_in_use e) (ki_mounts k) of
        None \<Rightarrow> (- 1, k)
      | Some slot \<Rightarrow> (0, kexecs (mount_writes slot prefix owner) k))"

definition block_writes :: "u32 \<Rightarrow> u32 \<Rightarrow> u32 \<Rightarrow> u32 \<Rightarrow> u64 \<Rightarrow> kmicro list" where
  "block_writes device transport filesystem sector_size sectors =
     (let i = unat (device - 1)
      in [Block_seq, Block_device i device, Block_transport i transport, Block_fs i filesystem,
          Block_sector_size i sector_size, Block_sectors i sectors, Block_in_use i, Block_seq])"

definition kinfo_block_info_publish :: "u32 \<Rightarrow> u32 \<Rightarrow> u32 \<Rightarrow> u32 \<Rightarrow> u64 \<Rightarrow> kinfo_page \<Rightarrow> int \<times> kinfo_page" where
  "kinfo_block_info_publish device transport filesystem sector_size sectors k =
     (if device = 0 \<or> device > BLOCK_DEVICE_MAX \<or> transport = BLOCK_TRANSPORT_NONE \<or> filesystem = BLOCK_FS_NONE
         \<or> sector_size = 0 \<or> sectors = 0
      then (- 1, k) else (0, kexecs (block_writes device transport filesystem sector_size sectors) k))"

text \<open>The kernel's own reader runs under the kernel lock, so the counter does not change while it reads: it
  leaves its loop after one round, or never when the counter is odd (\<open>None\<close>).\<close>

definition kinfo_block_info_query :: "u32 \<Rightarrow> kinfo_page \<Rightarrow> (int \<times> block_device_info option) option" where
  "kinfo_block_info_query index k =
     (if index \<ge> BLOCK_DEVICE_MAX then Some (- 1, None)
      else if ki_block_info_seq k AND 1 \<noteq> 0 then None
      else (let b = ki_block_devices k ! unat index in Some (if bd_in_use b then 0 else - 1, Some b)))"

section \<open>Resolving a path\<close>

text \<open>Strings are lists of characters without the terminator; reading behind the end gives 0.\<close>

definition c_at :: "u8 list \<Rightarrow> nat \<Rightarrow> u8" where
  "c_at s i = (if i < length s then s ! i else 0)"

definition prefix_len :: "u8 list \<Rightarrow> nat" where
  "prefix_len p = length (takeWhile (\<lambda>c. c \<noteq> 0) (take MOUNT_PREFIX_MAX p))"

definition mount_matches :: "u8 list \<Rightarrow> mount_entry \<Rightarrow> bool" where
  "mount_matches path e \<longleftrightarrow> (\<forall>j < prefix_len (me_prefix e). c_at path j = me_prefix e ! j)"

text \<open>The body of the reader's loop for one reading of the table: the owner of the longest matching prefix,
  the first one of that length.\<close>

definition mount_round :: "u8 list \<Rightarrow> mount_entry \<Rightarrow> u32 \<times> int \<Rightarrow> u32 \<times> int" where
  "mount_round path e best =
     (if me_in_use e \<and> mount_matches path e \<and> int (prefix_len (me_prefix e)) > snd best
      then (me_owner_tid e, int (prefix_len (me_prefix e))) else best)"

definition kinfo_resolve_mount :: "mount_entry list \<Rightarrow> u8 list \<Rightarrow> u32 \<times> nat" where
  "kinfo_resolve_mount mounts path =
     (case fold (mount_round path) mounts (0, - 1) of (t, len) \<Rightarrow> (t, if len < 0 then 0 else nat len))"

section \<open>Readers on other processors\<close>

datatype kinfo_op = Op_tick u64 | Op_mount "u8 list" u32 | Op_publish u32 u32 u32 u32 u64

fun op_writes :: "kinfo_op \<Rightarrow> kinfo_page \<Rightarrow> kmicro list" where
  "op_writes (Op_tick n) k = tick_writes n"
| "op_writes (Op_mount prefix owner) k =
     (case first_slot (\<lambda>e. \<not> me_in_use e) (ki_mounts k) of None \<Rightarrow> [] | Some slot \<Rightarrow> mount_writes slot prefix owner)"
| "op_writes (Op_publish d t f s n) k =
     (if fst (kinfo_block_info_publish d t f s n k) = 0 then block_writes d t f s n else [])"

fun op_result :: "kinfo_op \<Rightarrow> kinfo_page \<Rightarrow> kinfo_page" where
  "op_result (Op_tick n) k = kinfo_tick n k"
| "op_result (Op_mount prefix owner) k = snd (kinfo_mount_add prefix owner k)"
| "op_result (Op_publish d t f s n) k = snd (kinfo_block_info_publish d t f s n k)"

fun kinfo_trace :: "kinfo_op list \<Rightarrow> kinfo_page \<Rightarrow> kmicro list" where
  "kinfo_trace [] k = []"
| "kinfo_trace (p # ps) k = op_writes p k @ kinfo_trace ps (op_result p k)"

lemma op_writes_result: "kexecs (op_writes p k) k = op_result p k"
  by (cases p) (auto simp: kinfo_tick_def kinfo_mount_add_def kinfo_block_info_publish_def kexecs_def split: option.splits)

lemma kinfo_trace_result: "kexecs (kinfo_trace ps k) k = fold op_result ps k"
  by (induction ps arbitrary: k) (simp_all add: kexecs_def op_writes_result [unfolded kexecs_def])

fun clock_write :: "kmicro \<Rightarrow> bool" where
  "clock_write (Clock_add n) = True" | "clock_write w = False"

fun mount_write :: "kmicro \<Rightarrow> bool" where
  "mount_write (Mount_owner i t) = True" | "mount_write (Mount_char i j c) = True"
| "mount_write (Mount_in_use i) = True" | "mount_write w = False"

fun block_write :: "kmicro \<Rightarrow> bool" where
  "block_write (Block_device i v) = True" | "block_write (Block_transport i v) = True"
| "block_write (Block_fs i v) = True" | "block_write (Block_sector_size i v) = True"
| "block_write (Block_sectors i v) = True" | "block_write (Block_in_use i) = True" | "block_write w = False"

lemmas kmicro_simps = upd_mount_def upd_block_def

interpretation clock_lock: seqlock kexec "\<lambda>w. w = Clock_seq" clock_write ki_clock_seq ki_clock_ticks
proof
  show "ki_clock_seq (kexec w s) = ki_clock_seq s" if "w \<noteq> Clock_seq" for w s
    using that by (cases w) (simp_all add: kmicro_simps)
  show "ki_clock_ticks (kexec w s) = ki_clock_ticks s" if "\<not> clock_write w" for w s
    using that by (cases w) (simp_all add: kmicro_simps)
qed simp

interpretation mount_lock: seqlock kexec "\<lambda>w. w = Mount_seq" mount_write ki_mount_seq ki_mounts
proof
  show "ki_mount_seq (kexec w s) = ki_mount_seq s" if "w \<noteq> Mount_seq" for w s
    using that by (cases w) (simp_all add: kmicro_simps)
  show "ki_mounts (kexec w s) = ki_mounts s" if "\<not> mount_write w" for w s
    using that by (cases w) (simp_all add: kmicro_simps)
qed simp

interpretation block_lock: seqlock kexec "\<lambda>w. w = Block_seq" block_write ki_block_info_seq ki_block_devices
proof
  show "ki_block_info_seq (kexec w s) = ki_block_info_seq s" if "w \<noteq> Block_seq" for w s
    using that by (cases w) (simp_all add: kmicro_simps)
  show "ki_block_devices (kexec w s) = ki_block_devices s" if "\<not> block_write w" for w s
    using that by (cases w) (simp_all add: kmicro_simps)
qed simp

text \<open>Every writer closes the bracket it opens, for each of the three counters.\<close>

definition balanced :: "(kmicro \<Rightarrow> bool) \<Rightarrow> (kmicro \<Rightarrow> bool) \<Rightarrow> kmicro list \<Rightarrow> bool" where
  "balanced bumps touches ws \<longleftrightarrow> bracketed bumps touches False ws \<and> even (length (filter bumps ws))"

lemma balanced_append: "balanced b t xs \<Longrightarrow> balanced b t ys \<Longrightarrow> balanced b t (xs @ ys)"
  by (simp add: balanced_def bracketed_append)

lemma bracketed_map:
  "\<forall>i. \<not> bumps (f i) \<Longrightarrow> \<forall>i. touches (f i) \<longrightarrow> b \<Longrightarrow> bracketed bumps touches b (map f xs)"
  by (induction xs) (simp_all, blast)

lemma balanced_writes:
  "balanced (\<lambda>w. w = Clock_seq) clock_write (op_writes p k)"
  "balanced (\<lambda>w. w = Mount_seq) mount_write (op_writes p k)"
  "balanced (\<lambda>w. w = Block_seq) block_write (op_writes p k)"
  by (cases p; simp add: balanced_def tick_writes_def mount_writes_def block_writes_def Let_def bracketed_append
      bracketed_map comp_def split: option.split)+

lemma balanced_trace:
  assumes "\<And>p k. balanced b t (op_writes p k)"
  shows "balanced b t (kinfo_trace ps k)"
proof (induction ps arbitrary: k)
  case Nil
  then show ?case by (simp add: balanced_def)
next
  case (Cons p ps)
  then show ?case using assms by (simp add: balanced_append)
qed

lemmas trace_bracketed =
  balanced_trace [OF balanced_writes(1), unfolded balanced_def, THEN conjunct1]
  balanced_trace [OF balanced_writes(2), unfolded balanced_def, THEN conjunct1]
  balanced_trace [OF balanced_writes(3), unfolded balanced_def, THEN conjunct1]

text \<open>C22. A lock-free reader of the information page never mixes two versions. Take any sequence of clock ticks, mount
  registrations and block-device publications, cut it into its single memory writes, and let a reader look at a
  sequence counter before write \<open>i\<close> and again before write \<open>j\<close>. If it finds the same even value, then the data
  guarded by that counter had the same value before every write from \<open>i\<close> to \<open>j\<close>, whichever moment the reader took
  each field at. This holds for the clock, for the mount table and for the block devices, as long as fewer than
  \<open>2 ^ 32\<close> writes lie between the two looks.\<close>

theorem kinfo_reader_consistent:
  assumes "even (ki_clock_seq k)" "even (ki_mount_seq k)" "even (ki_block_info_seq k)"
    and "i \<le> n" "n \<le> j" "j \<le> length (kinfo_trace ps k)" "j - i < 2 ^ 32"
    and "st = (\<lambda>m. kexecs (take m (kinfo_trace ps k)) k)"
  shows "(even (ki_clock_seq (st i)) \<and> ki_clock_seq (st j) = ki_clock_seq (st i) \<longrightarrow>
            ki_clock_ticks (st n) = ki_clock_ticks (st i)) \<and>
         (even (ki_mount_seq (st i)) \<and> ki_mount_seq (st j) = ki_mount_seq (st i) \<longrightarrow>
            ki_mounts (st n) = ki_mounts (st i)) \<and>
         (even (ki_block_info_seq (st i)) \<and> ki_block_info_seq (st j) = ki_block_info_seq (st i) \<longrightarrow>
            ki_block_devices (st n) = ki_block_devices (st i)) \<and>
         st (length (kinfo_trace ps k)) = fold op_result ps k"
  unfolding assms(8)
  using clock_lock.stable_reads [OF trace_bracketed(1) assms(1,4-7)]
    mount_lock.stable_reads [OF trace_bracketed(2) assms(2,4-7)]
    block_lock.stable_reads [OF trace_bracketed(3) assms(3,4-7)]
  by (simp add: kexecs_def kinfo_trace_result [unfolded kexecs_def])

lemma kinfo_zero_mounts:
  "ki_mounts kinfo_zero = (let e = \<lparr>me_in_use = False, me_owner_tid = 0, me_prefix = replicate MOUNT_PREFIX_MAX 0\<rparr>
     in e # replicate 15 e)"
proof -
  have "replicate 16 e = e # replicate 15 e" for e :: mount_entry by (simp add: numeral_eq_Suc)
  then show ?thesis by (simp add: kinfo_zero_def MOUNT_TABLE_MAX_def Let_def)
qed

theorem kinfo_reader_consistent_witness:
  "\<exists>ps i j n st. st = (\<lambda>m. kexecs (take m (kinfo_trace ps kinfo_zero)) kinfo_zero) \<and> i < n \<and> n < j \<and>
     ki_clock_seq (st i) = 2 \<and> ki_clock_seq (st j) = 2 \<and> ki_mounts (st i) \<noteq> ki_mounts (st j) \<and>
     ki_clock_ticks (st n) = ki_clock_ticks (st i)"
proof -
  let ?ps = "[Op_tick 1, Op_mount [47] 7]"
  let ?st = "\<lambda>m. kexecs (take m (kinfo_trace ?ps kinfo_zero)) kinfo_zero"
  have zero: "ki_clock_seq kinfo_zero = 0" "ki_mount_seq kinfo_zero = 0" "ki_block_info_seq kinfo_zero = 0"
    by (simp_all add: kinfo_zero_def)
  have slot: "first_slot (\<lambda>e. \<not> me_in_use e) (ki_mounts (kinfo_tick 1 kinfo_zero)) = Some 0"
    by (simp add: kinfo_tick_def kexecs_def tick_writes_def kinfo_zero_mounts Let_def)
  have trace: "kinfo_trace ?ps kinfo_zero = [Clock_seq, Clock_add 1, Clock_seq, Mount_seq, Mount_owner 0 7,
      Mount_char 0 0 47, Mount_char 0 1 0, Mount_in_use 0, Mount_seq]"
    using slot by (simp add: tick_writes_def mount_writes_def Let_def MOUNT_PREFIX_MAX_def)
  have seq: "ki_clock_seq (?st 3) = 2" "ki_clock_seq (?st 8) = 2"
    unfolding trace by (simp_all add: kexecs_def zero kmicro_simps)
  have "ki_mounts (?st 3) \<noteq> ki_mounts (?st 8)"
    unfolding trace by (simp add: kexecs_def kmicro_simps kinfo_zero_mounts Let_def)
  moreover have "ki_clock_ticks (?st 5) = ki_clock_ticks (?st 3)"
  proof -
    have "length (kinfo_trace ?ps kinfo_zero) = 9" unfolding trace by simp
    then show ?thesis
      using kinfo_reader_consistent [of kinfo_zero 3 5 8 ?ps ?st, OF _ _ _ _ _ _ _ refl] seq by (simp add: zero)
  qed
  ultimately show ?thesis
    using seq by (intro exI [of _ ?ps] exI [of _ 3] exI [of _ 8] exI [of _ 5] exI [of _ ?st]) simp
qed

section \<open>The mount table\<close>

text \<open>What one entry offers for a path: the length of its prefix, or \<open>-1\<close> when it does not apply.\<close>

definition mount_key :: "u8 list \<Rightarrow> mount_entry \<Rightarrow> int" where
  "mount_key path e = (if me_in_use e \<and> mount_matches path e then int (prefix_len (me_prefix e)) else - 1)"

lemma mount_round_key:
  "- 1 \<le> snd best \<Longrightarrow> mount_round path e best = (if mount_key path e > snd best then (me_owner_tid e, mount_key path e) else best)"
  by (auto simp: mount_round_def mount_key_def)

lemma mount_fold_mono: "- 1 \<le> snd b \<Longrightarrow> snd b \<le> snd (fold (mount_round path) es b)"
proof (induction es arbitrary: b)
  case (Cons e es)
  have "snd b \<le> snd (mount_round path e b)" using Cons.prems by (simp add: mount_round_key)
  with Cons.IH [of "mount_round path e b"] Cons.prems show ?case by simp
qed simp

lemma mount_fold_keep:
  "- 1 \<le> snd b \<Longrightarrow> snd (fold (mount_round path) es b) \<le> snd b \<Longrightarrow> fold (mount_round path) es b = b"
proof (induction es arbitrary: b)
  case (Cons e es)
  show ?case
  proof (cases "mount_key path e > snd b")
    case True
    then show ?thesis
      using Cons.prems mount_fold_mono [of "mount_round path e b" path es] by (simp add: mount_round_key)
  next
    case False
    then show ?thesis using Cons by (simp add: mount_round_key)
  qed
qed simp

lemma mount_fold_above:
  "- 1 \<le> snd b \<Longrightarrow> snd b \<le> snd c \<Longrightarrow> snd (fold (mount_round path) es b) \<le> snd c \<Longrightarrow> fold (mount_round path) es c = c"
proof (induction es arbitrary: b)
  case (Cons e es)
  have "mount_key path e \<le> snd c"
  proof (rule ccontr)
    assume "\<not> ?thesis"
    then show False
      using Cons.prems mount_fold_mono [of "mount_round path e b" path es] by (simp add: mount_round_key split: if_splits)
  qed
  then have "mount_round path e c = c" using Cons.prems by (simp add: mount_round_key)
  moreover have "snd (mount_round path e b) \<le> snd c" "- 1 \<le> snd (mount_round path e b)"
    using Cons.prems \<open>mount_key path e \<le> snd c\<close> by (simp_all add: mount_round_key)
  ultimately show ?case using Cons.IH [of "mount_round path e b"] Cons.prems by simp
qed simp

lemma mount_fold_below:
  "- 1 \<le> snd b \<Longrightarrow> snd b \<le> snd c \<Longrightarrow> snd c < snd (fold (mount_round path) es b) \<Longrightarrow>
   fold (mount_round path) es c = fold (mount_round path) es b"
proof (induction es arbitrary: b c)
  case (Cons e es)
  show ?case
  proof (cases "mount_key path e > snd c")
    case True
    then show ?thesis using Cons.prems by (simp add: mount_round_key)
  next
    case False
    then have "snd (mount_round path e b) \<le> snd c" "- 1 \<le> snd (mount_round path e b)" "mount_round path e c = c"
      using Cons.prems by (simp_all add: mount_round_key)
    then show ?thesis using Cons.IH [of "mount_round path e b" c] Cons.prems by simp
  qed
qed simp

text \<open>Replacing an entry that offers nothing by one that applies changes the answer exactly when the new one is longer.\<close>

lemma mount_fold_replace:
  assumes i: "i < length es" and old: "mount_key path (es ! i) = - 1" and new: "mount_key path e = int n"
    and r: "r = fold (mount_round path) es (0, - 1)"
  shows "(snd r < int n \<longrightarrow> fold (mount_round path) (es[i := e]) (0, - 1) = (me_owner_tid e, int n)) \<and>
    (int n < snd r \<longrightarrow> fold (mount_round path) (es[i := e]) (0, - 1) = r)"
proof -
  let ?f = "fold (mount_round path)"
  define b where "b = ?f (take i es) (0, - 1)"
  have b: "- 1 \<le> snd b" unfolding b_def using mount_fold_mono [of "(0, - 1)"] by simp
  have "es = take i es @ es ! i # drop (Suc i) es" using i by (simp add: id_take_nth_drop)
  then have "r = ?f (drop (Suc i) es) (mount_round path (es ! i) b)"
    unfolding r b_def by (metis fold_append fold.simps(2) comp_apply)
  then have r': "r = ?f (drop (Suc i) es) b" using old b by (simp add: mount_round_key)
  have new': "?f (es[i := e]) (0, - 1) = ?f (drop (Suc i) es) (mount_round path e b)"
    unfolding b_def by (simp add: upd_conv_take_nth_drop [OF i])
  show ?thesis
  proof (cases "int n > snd b")
    case True
    then have "mount_round path e b = (me_owner_tid e, int n)" using new b by (simp add: mount_round_key)
    then show ?thesis
      using True b mount_fold_above [of b "(me_owner_tid e, int n)" path "drop (Suc i) es"]
        mount_fold_below [of b "(me_owner_tid e, int n)" path "drop (Suc i) es"] by (simp add: new' r')
  next
    case False
    then have "mount_round path e b = b" using new b by (simp add: mount_round_key)
    moreover have "int n \<le> snd r" using False mount_fold_mono [OF b, of path "drop (Suc i) es"] by (simp add: r')
    ultimately show ?thesis by (simp add: new' r')
  qed
qed

text \<open>The effect of the writes of a registration on the table.\<close>

lemma upd_mount_upd_mount:
  "i < length (ki_mounts k) \<Longrightarrow> upd_mount i f (upd_mount i g k) = upd_mount i (f \<circ> g) k"
  by (simp add: upd_mount_def)

lemma upd_mount_cong:
  "f (ki_mounts k ! i) = g (ki_mounts k ! i) \<Longrightarrow> upd_mount i f k = upd_mount i g k"
  by (simp add: upd_mount_def)

lemma mount_chars:
  assumes "i < length (ki_mounts k)" "n \<le> length p" "length p \<le> length (me_prefix (ki_mounts k ! i))"
  shows "fold kexec (map (\<lambda>j. Mount_char i j (p ! j)) [0..<n]) k =
    upd_mount i (\<lambda>e. e\<lparr>me_prefix := take n p @ drop n (me_prefix e)\<rparr>) k"
  using assms(2)
proof (induction n)
  case 0
  show ?case using assms(1) by (simp add: upd_mount_def)
next
  case (Suc n)
  have "fold kexec (map (\<lambda>j. Mount_char i j (p ! j)) [0..<Suc n]) k =
      kexec (Mount_char i n (p ! n)) (upd_mount i (\<lambda>e. e\<lparr>me_prefix := take n p @ drop n (me_prefix e)\<rparr>) k)"
    using Suc by simp
  also have "\<dots> = upd_mount i (\<lambda>e. e\<lparr>me_prefix := take (Suc n) p @ drop (Suc n) (me_prefix e)\<rparr>) k"
    using Suc.prems assms
    by (simp add: upd_mount_upd_mount)
      (rule upd_mount_cong, simp add: list_update_append take_Suc_conv_app_nth Cons_nth_drop_Suc [symmetric])
  finally show ?case .
qed

definition mounts_ok :: "mount_entry list \<Rightarrow> bool" where
  "mounts_ok es \<longleftrightarrow> length es = MOUNT_TABLE_MAX \<and> (\<forall>e \<in> set es. length (me_prefix e) = MOUNT_PREFIX_MAX)"

lemma mount_entry_filled:
  "e\<lparr>me_owner_tid := t, me_prefix := p, me_in_use := u\<rparr> = \<lparr>me_in_use = u, me_owner_tid = t, me_prefix = p\<rparr>"
  by (cases e) simp

lemma mount_writes_table:
  assumes "i < length (ki_mounts k)" "length p < MOUNT_PREFIX_MAX" "length (me_prefix (ki_mounts k ! i)) = MOUNT_PREFIX_MAX"
  shows "ki_mounts (kexecs (mount_writes i p owner) k) = (ki_mounts k)[i := \<lparr>me_in_use = True, me_owner_tid = owner,
    me_prefix = p @ 0 # drop (Suc (length p)) (me_prefix (ki_mounts k ! i))\<rparr>]"
proof -
  have p: "take (MOUNT_PREFIX_MAX - Suc 0) p = p" using assms(2) by simp
  let ?k = "upd_mount i (\<lambda>e. e\<lparr>me_owner_tid := owner\<rparr>) (k\<lparr>ki_mount_seq := ki_mount_seq k + 1\<rparr>)"
  have "fold kexec (map (\<lambda>j. Mount_char i j (p ! j)) [0..<length p]) ?k =
      upd_mount i (\<lambda>e. e\<lparr>me_prefix := p @ drop (length p) (me_prefix e)\<rparr>) ?k"
    using assms by (subst mount_chars) (simp_all add: upd_mount_def)
  then show ?thesis
    using assms by (simp add: kexecs_def mount_writes_def p Let_def)
      (simp add: upd_mount_def list_update_append Cons_nth_drop_Suc [symmetric] mount_entry_filled)
qed

lemma prefix_len_written:
  assumes "0 \<notin> set p" "length p < MOUNT_PREFIX_MAX"
  shows "prefix_len (p @ 0 # rest) = length p"
proof -
  obtain m where m: "MOUNT_PREFIX_MAX - length p = Suc m" using assms(2) by (metis Suc_diff_Suc)
  have "takeWhile (\<lambda>c. c \<noteq> 0) (p @ 0 # take m rest) = p"
    using assms(1) by (subst takeWhile_append2) auto
  then show ?thesis using assms(2) by (simp add: prefix_len_def m)
qed

lemma mount_matches_written:
  assumes "0 \<notin> set p" "length p < MOUNT_PREFIX_MAX"
  shows "mount_matches path \<lparr>me_in_use = u, me_owner_tid = t, me_prefix = p @ 0 # rest\<rparr> \<longleftrightarrow> take (length p) path = p"
proof -
  have nz: "p ! j \<noteq> 0" if "j < length p" for j using assms(1) nth_mem [OF that] by metis
  have "(\<forall>j < length p. c_at path j = p ! j) \<longleftrightarrow> take (length p) path = p"
  proof
    assume all: "\<forall>j < length p. c_at path j = p ! j"
    have "length p \<le> length path"
    proof (rule ccontr)
      assume "\<not> ?thesis"
      then have "c_at path (length path) = 0" "length path < length p" by (simp_all add: c_at_def)
      with all nz [of "length path"] show False by simp
    qed
    with all show "take (length p) path = p" by (intro nth_equalityI) (auto simp: c_at_def)
  next
    assume p: "take (length p) path = p"
    then have len: "length p \<le> length path" by (metis length_take min.cobounded1)
    show "\<forall>j < length p. c_at path j = p ! j"
    proof (intro allI impI)
      fix j assume "j < length p"
      then show "c_at path j = p ! j" using len nth_take [of j "length p" path] unfolding p by (simp add: c_at_def)
    qed
  qed
  then show ?thesis using assms by (simp add: mount_matches_def prefix_len_written nth_append)
qed

lemma mount_fold_same:
  assumes "i < length es" "mount_key path (es ! i) = - 1" "mount_key path e = - 1"
  shows "fold (mount_round path) (es[i := e]) (0, - 1) = fold (mount_round path) es (0, - 1)"
proof -
  have b: "- 1 \<le> snd (fold (mount_round path) (take i es) (0, - 1))" using mount_fold_mono [of "(0, - 1)" path] by simp
  have "fold (mount_round path) (es[i := e]) (0, - 1) = fold (mount_round path) (es[i := es ! i]) (0, - 1)"
    using assms(2,3) b unfolding upd_conv_take_nth_drop [OF assms(1)] by (simp add: mount_round_key)
  then show ?thesis by simp
qed



end
