(* ===== verification/Pipe.thy ===== *)
theory Pipe
  imports Ring
begin

text \<open>
  Kernel pipes, \<^verbatim>\<open>src/core/pipe.c\<close>: a pool of sixteen ring buffers of 1024 bytes, each with a
  bit mask of the threads that hold its read end and its write end and a generation number that
  makes handles of a freed pipe stale. The \<open>head\<close> and \<open>count\<close> fields are kept as naturals: the
  pool invariant bounds them by the ring size, so the 32-bit arithmetic of the code does not wrap.
\<close>

section \<open>State\<close>

definition PIPE_POOL_SIZE :: nat where "PIPE_POOL_SIZE = 16"
definition PIPE_RING_SIZE :: nat where "PIPE_RING_SIZE = 1024"
definition PIPE_CHUNK_MAX :: nat where "PIPE_CHUNK_MAX = 32"

record pipe_obj =
  pipe_generation :: u32
  readers_mask :: u64
  writers_mask :: u64
  pipe_head :: nat
  pipe_count :: nat
  pipe_ring :: "u8 list"

type_synonym pipe_pool = "pipe_obj list"

text \<open>The pool as the zero-initialised static array.\<close>

definition pipe_pool_init :: pipe_pool where
  "pipe_pool_init = replicate PIPE_POOL_SIZE
     \<lparr>pipe_generation = 0, readers_mask = 0, writers_mask = 0, pipe_head = 0, pipe_count = 0,
      pipe_ring = replicate PIPE_RING_SIZE 0\<rparr>"

section \<open>Operations\<close>

definition pipe_decode :: "u64 \<Rightarrow> (nat \<times> u32) option" where
  "pipe_decode handle =
     (let idx = handle AND 0xFFFFFFFF
      in if unat idx \<ge> PIPE_POOL_SIZE then None
         else Some (unat idx, ucast (drop_bit 32 handle)))"

definition pipe_is_free :: "pipe_obj \<Rightarrow> bool" where
  "pipe_is_free p \<longleftrightarrow> readers_mask p = 0 \<and> writers_mask p = 0"

text \<open>\<^verbatim>\<open>1ULL << tid\<close>\<close>

definition tid_bit :: "tid \<Rightarrow> u64" where
  "tid_bit t = push_bit (unat t) 1"

definition pipe_handle :: "u32 \<Rightarrow> nat \<Rightarrow> u64" where
  "pipe_handle gen i = push_bit 32 (ucast gen) OR of_nat i"

definition pipe_create :: "pipe_pool \<Rightarrow> tid \<Rightarrow> pipe_pool \<times> (ipc_err + u64)" where
  "pipe_create pool creator =
     (case first_slot pipe_is_free pool of
        None \<Rightarrow> (pool, Inl IPC_ERR_NO_MEM)
      | Some i \<Rightarrow>
          (let p = pool ! i; b = tid_bit creator
           in (pool[i := p\<lparr>pipe_head := 0, pipe_count := 0, readers_mask := b,
                          writers_mask := b\<rparr>],
               Inr (pipe_handle (pipe_generation p) i))))"

definition pipe_read :: "pipe_pool \<Rightarrow> u64 \<Rightarrow> u64 \<Rightarrow> pipe_pool \<times> (ipc_err + u8 list)" where
  "pipe_read pool handle max_len =
     (case pipe_decode handle of
        None \<Rightarrow> (pool, Inl IPC_ERR_NOT_FOUND)
      | Some (idx, gen) \<Rightarrow>
          (let p = pool ! idx
           in if pipe_generation p \<noteq> gen \<or> pipe_is_free p then (pool, Inl IPC_ERR_NOT_FOUND)
              else if pipe_count p = 0 then
                (if writers_mask p = 0 then (pool, Inl IPC_ERR_NOT_FOUND) else (pool, Inr []))
              else
                (let n = min (unat max_len) (pipe_count p);
                     n = (if n > PIPE_CHUNK_MAX then PIPE_CHUNK_MAX else n);
                     out = map (\<lambda>i. pipe_ring p ! ((pipe_head p + i) mod PIPE_RING_SIZE)) [0..<n]
                 in (pool[idx := p\<lparr>pipe_head := (pipe_head p + n) mod PIPE_RING_SIZE,
                                  pipe_count := pipe_count p - n\<rparr>],
                     Inr out))))"

text \<open>The loop \<^verbatim>\<open>p->ring[(tail + i) % PIPE_RING_SIZE] = in[i]\<close> is \<^const>\<open>ring_write\<close>.\<close>

definition pipe_write :: "pipe_pool \<Rightarrow> u64 \<Rightarrow> u8 list \<Rightarrow> pipe_pool \<times> (ipc_err + nat)" where
  "pipe_write pool handle bytes =
     (case pipe_decode handle of
        None \<Rightarrow> (pool, Inl IPC_ERR_NOT_FOUND)
      | Some (idx, gen) \<Rightarrow>
          (let p = pool ! idx
           in if pipe_generation p \<noteq> gen \<or> pipe_is_free p then (pool, Inl IPC_ERR_NOT_FOUND)
              else if readers_mask p = 0 then (pool, Inl IPC_ERR_NOT_FOUND)
              else
                (let avail = PIPE_RING_SIZE - pipe_count p
                 in if avail = 0 then (pool, Inr 0)
                    else
                      (let n = min (length bytes) avail;
                           n = (if n > PIPE_CHUNK_MAX then PIPE_CHUNK_MAX else n);
                           tail = (pipe_head p + pipe_count p) mod PIPE_RING_SIZE
                       in (pool[idx := p\<lparr>pipe_ring := ring_write (pipe_ring p) tail (take n bytes),
                                        pipe_count := pipe_count p + n\<rparr>],
                           Inr n)))))"

definition pipe_close :: "pipe_pool \<Rightarrow> tid \<Rightarrow> u64 \<Rightarrow> bool \<Rightarrow> pipe_pool \<times> (ipc_err + unit)" where
  "pipe_close pool caller handle is_write_end =
     (case pipe_decode handle of
        None \<Rightarrow> (pool, Inl IPC_ERR_NOT_FOUND)
      | Some (idx, gen) \<Rightarrow>
          (let p = pool ! idx
           in if pipe_generation p \<noteq> gen then (pool, Inl IPC_ERR_NOT_FOUND)
              else
                (let b = tid_bit caller;
                     p1 = (if is_write_end
                           then p\<lparr>writers_mask := writers_mask p AND NOT b\<rparr>
                           else p\<lparr>readers_mask := readers_mask p AND NOT b\<rparr>);
                     p2 = (if pipe_is_free p1
                           then p1\<lparr>pipe_generation := pipe_generation p1 + 1\<rparr> else p1)
                 in (pool[idx := p2], Inr ()))))"

text \<open>The result is \<open>True\<close> for the return value 0 and \<open>False\<close> for -1.\<close>

definition pipe_add_holder :: "pipe_pool \<Rightarrow> tid \<Rightarrow> u64 \<Rightarrow> bool \<Rightarrow> pipe_pool \<times> bool" where
  "pipe_add_holder pool t handle is_write_end =
     (case pipe_decode handle of
        None \<Rightarrow> (pool, False)
      | Some (idx, gen) \<Rightarrow>
          (let p = pool ! idx
           in if pipe_generation p \<noteq> gen then (pool, False)
              else
                (let b = tid_bit t
                 in (pool[idx := (if is_write_end
                                  then p\<lparr>writers_mask := writers_mask p OR b\<rparr>
                                  else p\<lparr>readers_mask := readers_mask p OR b\<rparr>)],
                     True))))"

definition pipe_inherit_obj :: "u64 \<Rightarrow> u64 \<Rightarrow> pipe_obj \<Rightarrow> pipe_obj" where
  "pipe_inherit_obj parent_bit child_bit p =
     (let p1 = (if readers_mask p AND parent_bit \<noteq> 0
                then p\<lparr>readers_mask := readers_mask p OR child_bit\<rparr> else p)
      in if writers_mask p1 AND parent_bit \<noteq> 0
         then p1\<lparr>writers_mask := writers_mask p1 OR child_bit\<rparr> else p1)"

definition pipe_inherit_fork :: "pipe_pool \<Rightarrow> tid \<Rightarrow> tid \<Rightarrow> pipe_pool" where
  "pipe_inherit_fork pool parent child =
     map (pipe_inherit_obj (tid_bit parent) (tid_bit child)) pool"

definition pipe_drop_obj :: "u64 \<Rightarrow> pipe_obj \<Rightarrow> pipe_obj" where
  "pipe_drop_obj b p =
     (if (readers_mask p OR writers_mask p) AND b \<noteq> 0
      then (let p1 = p\<lparr>readers_mask := readers_mask p AND NOT b,
                      writers_mask := writers_mask p AND NOT b\<rparr>
            in if pipe_is_free p1
               then p1\<lparr>pipe_generation := pipe_generation p1 + 1\<rparr> else p1)
      else p)"

definition pipe_invalidate_tcb_death :: "pipe_pool \<Rightarrow> tid \<Rightarrow> pipe_pool" where
  "pipe_invalidate_tcb_death pool t = map (pipe_drop_obj (tid_bit t)) pool"

section \<open>Invariant and abstraction\<close>

definition pipe_ok :: "pipe_obj \<Rightarrow> bool" where
  "pipe_ok p \<longleftrightarrow> length (pipe_ring p) = PIPE_RING_SIZE \<and> pipe_head p < PIPE_RING_SIZE
     \<and> pipe_count p \<le> PIPE_RING_SIZE"

definition pipe_pool_ok :: "pipe_pool \<Rightarrow> bool" where
  "pipe_pool_ok pool \<longleftrightarrow> length pool = PIPE_POOL_SIZE \<and> (\<forall>p \<in> set pool. pipe_ok p)"

text \<open>The bytes that the pipe named by a handle holds.\<close>

definition pipe_view :: "pipe_obj \<Rightarrow> u8 list" where
  "pipe_view p = ring_view (pipe_ring p) (pipe_head p) (pipe_count p)"

definition pipe_data :: "u64 \<Rightarrow> pipe_pool \<Rightarrow> u8 list" where
  "pipe_data handle pool =
     (case pipe_decode handle of None \<Rightarrow> [] | Some (idx, _) \<Rightarrow> pipe_view (pool ! idx))"

text \<open>Reads and writes through one handle, as a user sees them: an error moves no byte.\<close>

definition pipe_rd :: "u64 \<Rightarrow> nat \<Rightarrow> pipe_pool \<Rightarrow> u8 list \<times> pipe_pool" where
  "pipe_rd handle k pool =
     (case pipe_read pool handle (of_nat k) of
        (pool', Inl _) \<Rightarrow> ([], pool') | (pool', Inr out) \<Rightarrow> (out, pool'))"

definition pipe_wr :: "u64 \<Rightarrow> u8 list \<Rightarrow> pipe_pool \<Rightarrow> nat \<times> pipe_pool" where
  "pipe_wr handle bytes pool =
     (case pipe_write pool handle bytes of
        (pool', Inl _) \<Rightarrow> (0, pool') | (pool', Inr n) \<Rightarrow> (n, pool'))"

definition pipe_live :: "pipe_pool \<Rightarrow> u64 \<Rightarrow> bool" where
  "pipe_live pool handle =
     (case pipe_decode handle of
        None \<Rightarrow> False
      | Some (idx, gen) \<Rightarrow> pipe_generation (pool ! idx) = gen \<and> \<not> pipe_is_free (pool ! idx))"

section \<open>Shared facts\<close>

lemmas pipe_size_defs = PIPE_POOL_SIZE_def PIPE_RING_SIZE_def PIPE_CHUNK_MAX_def

lemma pipe_decode_less: "pipe_decode handle = Some (idx, gen) \<Longrightarrow> idx < PIPE_POOL_SIZE"
  by (auto simp: pipe_decode_def Let_def split: if_splits)

lemma pipe_pool_okD:
  "pipe_pool_ok pool \<Longrightarrow> pipe_decode handle = Some (idx, gen) \<Longrightarrow>
    idx < length pool \<and> pipe_ok (pool ! idx)"
  by (simp add: pipe_pool_ok_def pipe_decode_less)

lemma pipe_pool_ok_update:
  "pipe_pool_ok pool \<Longrightarrow> pipe_ok p \<Longrightarrow> pipe_pool_ok (pool[i := p])"
  using all_set_update [of pool pipe_ok p i] by (simp add: pipe_pool_ok_def)

lemma pipe_handle_decode:
  assumes "i < PIPE_POOL_SIZE"
  shows "pipe_decode (pipe_handle gen i) = Some (i, gen)"
proof -
  have i: "i < 2 ^ 32" using assms by (simp add: pipe_size_defs)
  have m: "(0xFFFFFFFF :: u64) = mask 32" by (simp add: mask_eq_exp_minus_1)
  have b: "bit i n \<Longrightarrow> n < 32" for n using i by (rule nat_bit_bound)
  have lo: "pipe_handle gen i AND 0xFFFFFFFF = of_nat i"
    unfolding m pipe_handle_def by (auto intro!: bit_word_eqI simp: bit_simps dest: b)
  have hi: "ucast (drop_bit 32 (pipe_handle gen i)) = gen"
    unfolding pipe_handle_def by (auto intro!: bit_word_eqI simp: bit_simps dest: b)
  have "unat (of_nat i :: u64) = i"
    using i by (intro word_of_nat_less_lt) simp
  with lo hi assms show ?thesis by (simp add: pipe_decode_def)
qed

lemma pipe_ok_take:
  assumes "pipe_ok p" "n \<le> pipe_count p"
  defines "p' \<equiv> p\<lparr>pipe_head := (pipe_head p + n) mod PIPE_RING_SIZE, pipe_count := pipe_count p - n\<rparr>"
  shows "pipe_ok p'"
    and "map (\<lambda>i. pipe_ring p ! ((pipe_head p + i) mod PIPE_RING_SIZE)) [0..<n] = take n (pipe_view p)"
    and "pipe_view p' = drop n (pipe_view p)"
proof -
  show "pipe_ok p'" using assms by (auto simp: pipe_ok_def pipe_size_defs)
  have len: "length (pipe_ring p) = PIPE_RING_SIZE" using assms(1) by (simp add: pipe_ok_def)
  show "map (\<lambda>i. pipe_ring p ! ((pipe_head p + i) mod PIPE_RING_SIZE)) [0..<n] = take n (pipe_view p)"
    using ring_view_take [OF assms(2), of "pipe_ring p" "pipe_head p"] len
    by (simp add: pipe_view_def) (simp add: ring_view_def)
  show "pipe_view p' = drop n (pipe_view p)"
    using ring_view_drop [OF assms(2), of "pipe_ring p" "pipe_head p"] len
    by (simp add: pipe_view_def p'_def)
qed

lemma pipe_ok_put:
  assumes "pipe_ok p" "length bs \<le> PIPE_RING_SIZE - pipe_count p"
  defines "p' \<equiv> p\<lparr>pipe_ring := ring_write (pipe_ring p) ((pipe_head p + pipe_count p) mod PIPE_RING_SIZE) bs,
                  pipe_count := pipe_count p + length bs\<rparr>"
  shows "pipe_ok p'" and "pipe_view p' = pipe_view p @ bs"
proof -
  show "pipe_ok p'" using assms by (auto simp: pipe_ok_def)
  have len: "length (pipe_ring p) = PIPE_RING_SIZE" using assms(1) by (simp add: pipe_ok_def)
  have "pipe_count p + length bs \<le> length (pipe_ring p)"
    using assms(1,2) by (auto simp: pipe_ok_def)
  from ring_view_write [OF this, of "pipe_head p"]
  show "pipe_view p' = pipe_view p @ bs"
    using ring_write_mod [of "pipe_ring p" "pipe_head p + pipe_count p" bs]
    by (simp add: p'_def pipe_view_def len)
qed

text \<open>What a read and a write of a live pipe do, in terms of the bytes it holds.\<close>

lemma pipe_read_live:
  assumes "pipe_pool_ok pool" "pipe_decode h = Some (idx, gen)" "pipe_live pool h"
    and "pipe_data h pool \<noteq> []"
  shows "\<exists>p'. pipe_read pool h m =
       (pool[idx := p'], Inr (take (min (unat m) PIPE_CHUNK_MAX) (pipe_data h pool)))
     \<and> pipe_ok p' \<and> pipe_view p' = drop (min (unat m) PIPE_CHUNK_MAX) (pipe_data h pool)"
proof -
  let ?p = "pool ! idx"
  have ok: "pipe_ok ?p" using pipe_pool_okD assms by blast
  have view: "pipe_data h pool = pipe_view ?p" using assms by (simp add: pipe_data_def)
  have c: "pipe_count ?p \<noteq> 0"
    using assms(4) view by (cases "pipe_count ?p") (simp_all add: pipe_view_def)
  define n where "n = (let n = min (unat m) (pipe_count ?p)
                       in if n > PIPE_CHUNK_MAX then PIPE_CHUNK_MAX else n)"
  have n: "n = min (min (unat m) PIPE_CHUNK_MAX) (pipe_count ?p)" by (auto simp: n_def Let_def)
  then have le: "n \<le> pipe_count ?p" by simp
  have lv: "length (pipe_view ?p) = pipe_count ?p" by (simp add: pipe_view_def)
  have tk: "take n (pipe_view ?p) = take (min (unat m) PIPE_CHUNK_MAX) (pipe_view ?p)"
    "drop n (pipe_view ?p) = drop (min (unat m) PIPE_CHUNK_MAX) (pipe_view ?p)"
    using n lv by (auto simp: min_def)
  define p' where "p' = ?p\<lparr>pipe_head := (pipe_head ?p + n) mod PIPE_RING_SIZE,
                           pipe_count := pipe_count ?p - n\<rparr>"
  have "pipe_read pool h m = (pool[idx := p'], Inr (take n (pipe_view ?p)))"
    using assms(2,3) c pipe_ok_take(2) [OF ok le]
    by (simp add: pipe_read_def pipe_live_def p'_def n_def Let_def)
  with pipe_ok_take(1,3) [OF ok le] tk view show ?thesis
    by (intro exI [of _ p']) (simp add: p'_def)
qed

lemma pipe_write_live:
  fixes bs :: "u8 list"
  assumes "pipe_pool_ok pool" "pipe_decode h = Some (idx, gen)" "pipe_live pool h"
    and "readers_mask (pool ! idx) \<noteq> 0"
  defines "n \<equiv> min (min (length bs) PIPE_CHUNK_MAX) (PIPE_RING_SIZE - length (pipe_data h pool))"
  shows "\<exists>p'. pipe_write pool h bs = (pool[idx := p'], Inr n) \<and> pipe_ok p'
     \<and> pipe_view p' = pipe_data h pool @ take n bs
     \<and> readers_mask p' = readers_mask (pool ! idx) \<and> writers_mask p' = writers_mask (pool ! idx)
     \<and> pipe_generation p' = pipe_generation (pool ! idx)"
proof -
  let ?p = "pool ! idx"
  have ok: "pipe_ok ?p" using pipe_pool_okD assms by blast
  have view: "pipe_data h pool = pipe_view ?p" using assms by (simp add: pipe_data_def)
  have lv: "length (pipe_view ?p) = pipe_count ?p" by (simp add: pipe_view_def)
  have room: "length (take n bs) \<le> PIPE_RING_SIZE - pipe_count ?p" "length (take n bs) = n"
    using view lv by (auto simp: n_def)
  show ?thesis
  proof (cases "PIPE_RING_SIZE - pipe_count ?p = 0")
    case True
    then have "n = 0" using view lv by (simp add: n_def)
    with True assms ok view show ?thesis
      by (intro exI [of _ ?p]) (simp add: pipe_write_def pipe_live_def)
  next
    case False
    have "n = (let n = min (length bs) (PIPE_RING_SIZE - pipe_count ?p)
               in if n > PIPE_CHUNK_MAX then PIPE_CHUNK_MAX else n)"
      using view lv by (auto simp: n_def Let_def)
    then have "pipe_write pool h bs = (pool[idx := ?p\<lparr>pipe_ring := ring_write (pipe_ring ?p)
        ((pipe_head ?p + pipe_count ?p) mod PIPE_RING_SIZE) (take n bs),
        pipe_count := pipe_count ?p + n\<rparr>], Inr n)"
      using False assms(2,3,4) by (simp add: pipe_write_def pipe_live_def Let_def)
    moreover note pipe_ok_put [OF ok room(1)] room(2) view
    ultimately show ?thesis by auto
  qed
qed

lemma pipe_write_refused:
  "\<not> pipe_live pool h \<or> readers_mask (pool ! idx) = 0 \<Longrightarrow> pipe_decode h = Some (idx, gen) \<Longrightarrow>
    pipe_write pool h bs = (pool, Inl IPC_ERR_NOT_FOUND)"
  by (auto simp: pipe_write_def pipe_live_def Let_def)

lemma pipe_read_refused:
  "\<not> pipe_live pool h \<Longrightarrow> pipe_read pool h m = (pool, Inl IPC_ERR_NOT_FOUND)"
  by (auto simp: pipe_read_def pipe_live_def Let_def split: option.splits)

lemma pipe_read_empty:
  "pipe_live pool h \<Longrightarrow> pipe_data h pool = [] \<Longrightarrow> \<exists>r. pipe_read pool h m = (pool, r) \<and> (\<forall>out. r = Inr out \<longrightarrow> out = [])"
  by (auto simp: pipe_read_def pipe_live_def pipe_data_def pipe_view_def ring_view_def Let_def
      split: option.splits)

lemma pipe_data_update:
  "pipe_pool_ok pool \<Longrightarrow> pipe_decode h = Some (idx, gen) \<Longrightarrow> pipe_data h (pool[idx := p]) = pipe_view p"
  by (simp add: pipe_data_def pipe_pool_okD)

lemma pipe_wr_law:
  assumes ok: "pipe_pool_ok pool" and w: "pipe_wr h bs pool = (n, pool')"
  shows "pipe_data h pool' = pipe_data h pool @ take n bs \<and> pipe_pool_ok pool'"
proof (cases "pipe_decode h")
  case None
  with w ok show ?thesis by (simp add: pipe_wr_def pipe_write_def)
next
  case (Some x)
  then obtain idx gen where d: "pipe_decode h = Some (idx, gen)" by (cases x) simp
  show ?thesis
  proof (cases "pipe_live pool h \<and> readers_mask (pool ! idx) \<noteq> 0")
    case True
    with pipe_write_live [OF ok d, of bs] obtain p' n' where
      "pipe_write pool h bs = (pool[idx := p'], Inr n')" "pipe_ok p'"
      "pipe_view p' = pipe_data h pool @ take n' bs" by blast
    with w d ok show ?thesis by (auto simp: pipe_wr_def pipe_data_update pipe_pool_ok_update)
  next
    case False
    with pipe_write_refused [OF _ d] w ok show ?thesis by (auto simp: pipe_wr_def)
  qed
qed

lemma pipe_rd_law:
  assumes ok: "pipe_pool_ok pool" and r: "pipe_rd h k pool = (ys, pool')"
  shows "pipe_data h pool = ys @ pipe_data h pool' \<and> pipe_pool_ok pool'"
proof (cases "pipe_live pool h \<and> pipe_data h pool \<noteq> []")
  case True
  then obtain idx gen where d: "pipe_decode h = Some (idx, gen)"
    by (auto simp: pipe_live_def split: option.splits)
  from pipe_read_live [OF ok d] True obtain p' m where
    "pipe_read pool h (of_nat k) = (pool[idx := p'], Inr (take m (pipe_data h pool)))" "pipe_ok p'"
    "pipe_view p' = drop m (pipe_data h pool)" by meson
  with r d ok show ?thesis by (auto simp: pipe_rd_def pipe_data_update pipe_pool_ok_update)
next
  case False
  have "\<exists>e. pipe_read pool h (of_nat k) = (pool, e) \<and> (\<forall>out. e = Inr out \<longrightarrow> out = [])"
    using False pipe_read_refused pipe_read_empty by (cases "pipe_live pool h") auto
  with r ok show ?thesis by (auto simp: pipe_rd_def split: sum.splits)
qed

interpretation pipe_io: chunk_stream "pipe_data h" pipe_pool_ok "pipe_wr h" "pipe_rd h" for h :: u64
  by unfold_locales (auto dest: pipe_wr_law pipe_rd_law)

lemma tid_bit_nonzero: "unat t < 64 \<Longrightarrow> tid_bit t \<noteq> 0"
proof
  assume t: "unat t < 64" and z: "tid_bit t = 0"
  from t have "bit (tid_bit t) (unat t)" by (simp add: tid_bit_def bit_simps)
  with z show False by simp
qed

lemma pipe_create_live:
  assumes "pipe_pool_ok pool" "unat t < 64" "pipe_create pool t = (pool', Inr h)"
  shows "\<exists>i. pipe_decode h = Some (i, pipe_generation (pool ! i)) \<and> pipe_is_free (pool ! i)
     \<and> pool' = pool[i := (pool ! i)\<lparr>pipe_head := 0, pipe_count := 0, readers_mask := tid_bit t,
                        writers_mask := tid_bit t\<rparr>]
     \<and> pipe_pool_ok pool' \<and> pipe_live pool' h \<and> pipe_data h pool' = []
     \<and> readers_mask (pool' ! i) \<noteq> 0"
proof -
  obtain i where i: "first_slot pipe_is_free pool = Some i"
    using assms(3) by (auto simp: pipe_create_def split: option.splits)
  from first_slot_SomeD [OF i] have il: "i < length pool" and fr: "pipe_is_free (pool ! i)" by auto
  then have i16: "i < PIPE_POOL_SIZE" using assms(1) by (simp add: pipe_pool_ok_def)
  let ?p = "(pool ! i)\<lparr>pipe_head := 0, pipe_count := 0, readers_mask := tid_bit t,
                       writers_mask := tid_bit t\<rparr>"
  have pool': "pool' = pool[i := ?p]" and h: "h = pipe_handle (pipe_generation (pool ! i)) i"
    using assms(3) i by (auto simp: pipe_create_def Let_def)
  have d: "pipe_decode h = Some (i, pipe_generation (pool ! i))"
    using h pipe_handle_decode [OF i16] by simp
  have "pipe_ok (pool ! i)" using assms(1) il by (simp add: pipe_pool_ok_def)
  then have "pipe_ok ?p" by (simp add: pipe_ok_def)
  then have ok': "pipe_pool_ok pool'" unfolding pool' by (rule pipe_pool_ok_update [OF assms(1)])
  have nz: "tid_bit t \<noteq> 0" by (rule tid_bit_nonzero [OF assms(2)])
  show ?thesis
    using d fr pool' ok' nz il
    by (intro exI [of _ i]) (simp add: pipe_live_def pipe_is_free_def pipe_data_def pipe_view_def)
qed

text \<open>Every call on the pool, so that a history is a list of calls.\<close>

datatype pipe_call =
    PCreate tid | PRead u64 u64 | PWrite u64 "u8 list" | PClose tid u64 bool
  | PAdd tid u64 bool | PFork tid tid | PDeath tid

fun pipe_step :: "pipe_call \<Rightarrow> pipe_pool \<Rightarrow> pipe_pool" where
  "pipe_step (PCreate t) pool = fst (pipe_create pool t)"
| "pipe_step (PRead h m) pool = fst (pipe_read pool h m)"
| "pipe_step (PWrite h bs) pool = fst (pipe_write pool h bs)"
| "pipe_step (PClose t h w) pool = fst (pipe_close pool t h w)"
| "pipe_step (PAdd t h w) pool = fst (pipe_add_holder pool t h w)"
| "pipe_step (PFork parent child) pool = pipe_inherit_fork pool parent child"
| "pipe_step (PDeath t) pool = pipe_invalidate_tcb_death pool t"

lemmas pipe_op_defs = pipe_create_def pipe_read_def pipe_write_def pipe_close_def pipe_add_holder_def
  pipe_inherit_fork_def pipe_invalidate_tcb_death_def

lemma length_pipe_step [simp]: "length (pipe_step c pool) = length pool"
  by (cases c) (auto simp: pipe_op_defs Let_def split: option.splits)

lemma length_pipe_steps [simp]: "length (fold pipe_step cs pool) = length pool"
  by (induction cs arbitrary: pool) auto

lemma pipe_inherit_obj_gen [simp]: "pipe_generation (pipe_inherit_obj a b p) = pipe_generation p"
  by (simp add: pipe_inherit_obj_def Let_def)

lemma pipe_drop_obj_gen:
  "pipe_generation (pipe_drop_obj b p) \<in> {pipe_generation p, pipe_generation p + 1}"
  by (simp add: pipe_drop_obj_def Let_def)

lemma pipe_step_gen:
  assumes "i < length pool"
  shows "pipe_generation (pipe_step c pool ! i) \<in> {pipe_generation (pool ! i), pipe_generation (pool ! i) + 1}"
  using assms pipe_drop_obj_gen
  by (cases c) (auto simp: pipe_op_defs Let_def nth_update_lt split: option.split)

lemma pipe_steps_gen:
  "i < length pool \<Longrightarrow> \<exists>k \<le> length cs.
    pipe_generation (fold pipe_step cs pool ! i) = pipe_generation (pool ! i) + of_nat k"
proof (induction cs arbitrary: pool)
  case Nil
  then show ?case by simp
next
  case (Cons c cs)
  from Cons.IH [of "pipe_step c pool"] Cons.prems obtain k where k: "k \<le> length cs"
    "pipe_generation (fold pipe_step cs (pipe_step c pool) ! i) = pipe_generation (pipe_step c pool ! i) + of_nat k"
    by auto
  from pipe_step_gen [OF Cons.prems, of c] k show ?case
    by (auto intro: exI [of _ k] exI [of _ "Suc k"] simp: algebra_simps)
qed

lemma gen_no_wrap:
  fixes g :: u32
  assumes "k < 2 ^ 32 - 1" shows "g + 1 + of_nat k \<noteq> g"
proof
  assume "g + 1 + of_nat k = g"
  then have "(of_nat (Suc k) :: u32) = 0" by (simp add: algebra_simps)
  then have "2 ^ 32 dvd Suc k" by (simp only: word_of_nat_eq_0_iff) simp
  with assms show False by (auto dest: dvd_imp_le)
qed

lemma mask_drop_added: "m AND c = 0 \<Longrightarrow> (m OR c) AND NOT c = m" for m c :: u64
proof -
  assume z: "m AND c = 0"
  have "\<not> (bit m n \<and> bit c n)" for n using z bit_and_iff [of m c n] by simp
  then show ?thesis by (intro bit_word_eqI) (auto simp: bit_simps)
qed

lemma pipe_drop_inherited:
  assumes "readers_mask p AND c = 0" "writers_mask p AND c = 0"
  shows "pipe_drop_obj c (pipe_inherit_obj a c p) = p"
  using assms mask_drop_added [of "readers_mask p" c] mask_drop_added [of "writers_mask p" c]
  by (auto simp: pipe_drop_obj_def pipe_inherit_obj_def pipe_is_free_def Let_def bit.conj_disj_distrib2)

text \<open>A pool with one pipe, held by thread 1.\<close>

definition pipe_pool_ex :: pipe_pool where
  "pipe_pool_ex = pipe_pool_init[0 := \<lparr>pipe_generation = 0, readers_mask = 2, writers_mask = 2,
     pipe_head = 0, pipe_count = 0, pipe_ring = replicate PIPE_RING_SIZE 0\<rparr>]"

definition pipe_pool_end :: pipe_pool where
  "pipe_pool_end = pipe_pool_init[0 := \<lparr>pipe_generation = 0, readers_mask = 2, writers_mask = 2,
     pipe_head = 4, pipe_count = 0,
     pipe_ring = (replicate PIPE_RING_SIZE 0)[0 := 1, 1 := 2, 2 := 3, 3 := 4]\<rparr>]"

lemmas pipe_ex_defs = pipe_pool_ex_def pipe_pool_end_def pipe_pool_init_def pipe_size_defs
  pipe_wr_def pipe_rd_def pipe_write_def pipe_read_def pipe_decode_def pipe_is_free_def tid_bit_def

lemma pipe_pool_init_ok: "pipe_pool_ok pipe_pool_init"
  by (simp add: pipe_pool_ok_def pipe_pool_init_def pipe_ok_def PIPE_RING_SIZE_def)

lemma pipe_pool_ex_ok: "pipe_pool_ok pipe_pool_ex"
  unfolding pipe_pool_ex_def
  by (rule pipe_pool_ok_update [OF pipe_pool_init_ok]) (simp add: pipe_ok_def PIPE_RING_SIZE_def)

text \<open>The same pool once the reader has closed its end.\<close>

definition pipe_pool_half :: pipe_pool where
  "pipe_pool_half = pipe_pool_init[0 := \<lparr>pipe_generation = 0, readers_mask = 0, writers_mask = 2,
     pipe_head = 0, pipe_count = 0, pipe_ring = replicate PIPE_RING_SIZE 0\<rparr>]"

lemma pipe_pool_half_ok: "pipe_pool_ok pipe_pool_half"
  unfolding pipe_pool_half_def
  by (rule pipe_pool_ok_update [OF pipe_pool_init_ok]) (simp add: pipe_ok_def PIPE_RING_SIZE_def)

section \<open>Properties\<close>

text \<open>C8. Pipes are first-in first-out byte streams: over any history of reads and writes through one
  handle, interleaved in any way, the bytes the pipe held followed by the bytes the writes accepted
  are the bytes the reads returned followed by the bytes still in the pipe; nothing is lost,
  duplicated or reordered.\<close>

theorem pipe_stream_order:
  assumes "pipe_pool_ok pool"
    and "stream_run (pipe_wr h) (pipe_rd h) ops pool = (accepted, out, pool')"
  shows "pipe_data h pool @ accepted = out @ pipe_data h pool' \<and> pipe_pool_ok pool'"
  using pipe_io.stream_conserved [OF assms] .

theorem pipe_stream_order_witness:
  "pipe_pool_ok pipe_pool_ex
   \<and> stream_run (pipe_wr 0) (pipe_rd 0) [SWrite [1, 2, 3], SRead 2, SWrite [4], SRead 9] pipe_pool_ex
       = ([1, 2, 3, 4], [1, 2, 3, 4], pipe_pool_end)
   \<and> pipe_data 0 pipe_pool_ex @ [1, 2, 3, 4] = [1, 2, 3, 4] @ pipe_data 0 pipe_pool_end"
proof -
  have run: "stream_run (pipe_wr 0) (pipe_rd 0) [SWrite [1, 2, 3], SRead 2, SWrite [4], SRead 9] pipe_pool_ex
       = ([1, 2, 3, 4], [1, 2, 3, 4], pipe_pool_end)"
    by (simp add: pipe_ex_defs) (simp add: eval_nat_numeral)
  show ?thesis using pipe_stream_order [OF pipe_pool_ex_ok run] pipe_pool_ex_ok run by blast
qed

text \<open>C28. A freshly created pipe carries a chunk intact: creation succeeds as soon as a slot is free,
  a write of up to 32 bytes is accepted whole and the next read returns exactly those bytes.\<close>

theorem pipe_roundtrip:
  assumes "pipe_pool_ok pool" "unat t < 64" "\<exists>p \<in> set pool. pipe_is_free p"
    and "length bs \<le> PIPE_CHUNK_MAX" "bs \<noteq> []"
  shows "\<exists>pool1 h pool2 pool3. pipe_create pool t = (pool1, Inr h)
     \<and> pipe_write pool1 h bs = (pool2, Inr (length bs))
     \<and> pipe_read pool2 h 32 = (pool3, Inr bs) \<and> pipe_data h pool3 = []"
proof -
  obtain pool1 h where c: "pipe_create pool t = (pool1, Inr h)"
    using first_slot_ex [OF assms(3)] by (auto simp: pipe_create_def Let_def)
  from pipe_create_live [OF assms(1,2) c] obtain i g where
    d: "pipe_decode h = Some (i, g)" and ok1: "pipe_pool_ok pool1" and l1: "pipe_live pool1 h"
    and e1: "pipe_data h pool1 = []" and rm: "readers_mask (pool1 ! i) \<noteq> 0" by blast
  have n: "min (min (length bs) PIPE_CHUNK_MAX) (PIPE_RING_SIZE - length (pipe_data h pool1)) = length bs"
    using assms(4) e1 by (simp add: pipe_size_defs)
  from pipe_write_live [OF ok1 d l1 rm, of bs] obtain p2 where
    w: "pipe_write pool1 h bs = (pool1[i := p2], Inr (length bs))" and p2: "pipe_ok p2" "pipe_view p2 = bs"
    and m: "readers_mask p2 = readers_mask (pool1 ! i)" "writers_mask p2 = writers_mask (pool1 ! i)"
      "pipe_generation p2 = pipe_generation (pool1 ! i)"
    using n e1 by auto
  let ?pool2 = "pool1[i := p2]"
  have ok2: "pipe_pool_ok ?pool2" by (rule pipe_pool_ok_update [OF ok1 p2(1)])
  have d2: "pipe_data h ?pool2 = bs" using pipe_data_update [OF ok1 d] p2 by simp
  have il: "i < length pool1" using pipe_pool_okD [OF ok1 d] by simp
  have l2: "pipe_live ?pool2 h" using l1 d il m by (simp add: pipe_live_def pipe_is_free_def)
  from pipe_read_live [OF ok2 d l2, of 32] d2 assms(4,5) obtain p3 where
    "pipe_read ?pool2 h 32 = (?pool2[i := p3], Inr bs)" "pipe_view p3 = []"
    unfolding d2 by (auto simp: PIPE_CHUNK_MAX_def)
  with c w pipe_data_update [OF ok2 d, of p3] show ?thesis by metis
qed

theorem pipe_roundtrip_witness:
  "\<exists>pool1 h pool2 pool3. pipe_create pipe_pool_ex 5 = (pool1, Inr h)
     \<and> pipe_write pool1 h [104, 105] = (pool2, Inr (length [104 :: u8, 105]))
     \<and> pipe_read pool2 h 32 = (pool3, Inr [104, 105]) \<and> pipe_data h pool3 = []"
proof -
  have free: "\<exists>p \<in> set pipe_pool_ex. pipe_is_free p"
  proof
    show "pipe_is_free (pipe_pool_ex ! 1)" by (simp add: pipe_ex_defs)
    show "pipe_pool_ex ! 1 \<in> set pipe_pool_ex" by (rule nth_mem) (simp add: pipe_ex_defs)
  qed
  show ?thesis
    using pipe_roundtrip [OF pipe_pool_ex_ok _ free, of 5 "[104, 105]"]
    by (simp add: PIPE_CHUNK_MAX_def)
qed

text \<open>C29. A handle of a pipe whose last end was closed stays dead: however the pool is used
  afterwards, slot reuse included, reading, writing, closing and sharing through the old handle are
  all refused and change nothing, for as long as fewer than 2^32 - 1 further calls were made (the
  generation counter has 32 bits).\<close>

theorem pipe_stale_handle:
  assumes "pipe_pool_ok pool" "pipe_decode h = Some (idx, gen)" "pipe_live pool h"
    and "pipe_close pool t h w = (pool1, Inr ())" "pipe_is_free (pool1 ! idx)"
    and "length calls < 2 ^ 32 - 1" "pool2 = fold pipe_step calls pool1"
  shows "pipe_read pool2 h m = (pool2, Inl IPC_ERR_NOT_FOUND)
     \<and> pipe_write pool2 h bs = (pool2, Inl IPC_ERR_NOT_FOUND)
     \<and> pipe_close pool2 u h e = (pool2, Inl IPC_ERR_NOT_FOUND)
     \<and> pipe_add_holder pool2 u h e = (pool2, False)"
proof -
  from pipe_pool_okD [OF assms(1,2)] have il: "idx < length pool" by simp
  have g1: "pipe_generation (pool1 ! idx) = gen + 1" and l1: "idx < length pool1"
    using assms(2-5) il
    by (auto simp: pipe_close_def pipe_live_def pipe_is_free_def Let_def split: if_splits)
  from pipe_steps_gen [OF l1, of calls] obtain k where "k \<le> length calls"
    "pipe_generation (pool2 ! idx) = gen + 1 + of_nat k" unfolding assms(7) g1 by auto
  with gen_no_wrap [of k gen] assms(6) have "pipe_generation (pool2 ! idx) \<noteq> gen" by simp
  with assms(2) show ?thesis
    by (simp add: pipe_read_def pipe_write_def pipe_close_def pipe_add_holder_def)
qed

theorem pipe_stale_handle_witness:
  "\<exists>pool1 pool2. pipe_close pipe_pool_half 1 0 True = (pool1, Inr ())
     \<and> fold pipe_step [PCreate 2, PWrite 0x100000000 [7]] pool1 = pool2
     \<and> pipe_read pool2 0 32 = (pool2, Inl IPC_ERR_NOT_FOUND)
     \<and> pipe_write pool2 0 [9] = (pool2, Inl IPC_ERR_NOT_FOUND)
     \<and> pipe_close pool2 1 0 False = (pool2, Inl IPC_ERR_NOT_FOUND)
     \<and> pipe_add_holder pool2 1 0 False = (pool2, False)"
proof -
  let ?pool1 = "fst (pipe_close pipe_pool_half 1 0 True)"
  have d: "pipe_decode 0 = Some (0, 0)" by (simp add: pipe_decode_def PIPE_POOL_SIZE_def)
  have l: "pipe_live pipe_pool_half 0"
    using d by (simp add: pipe_live_def pipe_pool_half_def pipe_ex_defs)
  have c: "pipe_close pipe_pool_half 1 0 True = (?pool1, Inr ())"
    by (simp add: pipe_close_def pipe_pool_half_def pipe_ex_defs Let_def)
  have f: "pipe_is_free (?pool1 ! 0)"
    by (simp add: pipe_close_def pipe_pool_half_def pipe_ex_defs Let_def)
  let ?cs = "[PCreate 2, PWrite 0x100000000 [7]]"
  have n: "length ?cs < 2 ^ 32 - 1" by simp
  note s = pipe_stale_handle [OF pipe_pool_half_ok d l c f n refl, of 32 "[9]" 1 False]
  show ?thesis
    by (intro exI [of _ ?pool1] exI [of _ "fold pipe_step ?cs ?pool1"] conjI c refl
        s [THEN conjunct1] s [THEN conjunct2, THEN conjunct1]
        s [THEN conjunct2, THEN conjunct2, THEN conjunct1]
        s [THEN conjunct2, THEN conjunct2, THEN conjunct2])
qed

text \<open>A child created by fork gets exactly its parent's pipe ends, and its death gives back
  exactly these: if the child held no pipe before, inheriting at fork and invalidating at the
  child's death leave the whole pool as it was, with every other holder and every generation
  untouched.\<close>

theorem pipe_fork_death_roundtrip:
  assumes "\<forall>p \<in> set pool. readers_mask p AND tid_bit child = 0 \<and> writers_mask p AND tid_bit child = 0"
  shows "pipe_invalidate_tcb_death (pipe_inherit_fork pool parent child) child = pool"
  using assms
  by (simp add: pipe_invalidate_tcb_death_def pipe_inherit_fork_def map_idI pipe_drop_inherited)

theorem pipe_fork_death_roundtrip_witness:
  "pipe_invalidate_tcb_death (pipe_inherit_fork pipe_pool_ex 1 3) 3 = pipe_pool_ex
   \<and> readers_mask (pipe_inherit_fork pipe_pool_ex 1 3 ! 0) = 10"
proof -
  have "\<forall>p \<in> set pipe_pool_ex. readers_mask p AND tid_bit 3 = 0 \<and> writers_mask p AND tid_bit 3 = 0"
    by (auto simp: pipe_ex_defs dest!: set_update_subset_insert [THEN subsetD])
  from pipe_fork_death_roundtrip [OF this, of 1] show ?thesis
    by (simp add: pipe_inherit_fork_def pipe_inherit_obj_def pipe_ex_defs)
qed

end
