(* ===== verification/Elf.thy ===== *)
theory Elf
  imports Kinfo Pipe
begin

text \<open>
  The program loader, \<^verbatim>\<open>src/core/elf.c\<close>: checking and parsing of an ELF64 image given as its bytes, the
  cache of parsed images, mapping of the segments and the stack into a fresh address space, the pages
  with the argument and environment strings, and starting or replacing a thread with the result.
  The kernel stores nothing but the address \<^verbatim>\<open>elf_start\<close> to identify a cached image.
\<close>

section \<open>Little-endian fields\<close>

definition rd16 :: "u8 list \<Rightarrow> nat \<Rightarrow> u16" where "rd16 bs off = word_rcat (rev (take 2 (drop off bs)))"
definition rd32 :: "u8 list \<Rightarrow> nat \<Rightarrow> u32" where "rd32 bs off = word_rcat (rev (take 4 (drop off bs)))"
definition rd64 :: "u8 list \<Rightarrow> nat \<Rightarrow> u64" where "rd64 bs off = word_rcat (rev (take 8 (drop off bs)))"

definition le32 :: "u32 \<Rightarrow> u8 list" where "le32 w = map (\<lambda>i. ucast (drop_bit (8 * i) w)) [0..<4]"

section \<open>Parsing\<close>

definition ELF_CACHE_SIZE :: u32 where "ELF_CACHE_SIZE = 8"
definition APP_STACK_PAGES :: nat where "APP_STACK_PAGES = 8"
definition ELF_MAX_LOAD_SEGMENTS :: nat where "ELF_MAX_LOAD_SEGMENTS = 4"
definition ELF_EHDR_SIZE :: nat where "ELF_EHDR_SIZE = 64"
definition ELF_PHDR_SIZE :: nat where "ELF_PHDR_SIZE = 56"

record elf_segment =
  es_vaddr :: vaddr
  es_file_off :: u64
  es_filesz :: u64
  es_memsz :: u64
  es_prot :: u32

record elf_image =
  im_elf_start :: u64
  im_entry :: vaddr
  im_segs :: "elf_segment list"

definition prot_from_pflags :: "u32 \<Rightarrow> u32" where
  "prot_from_pflags p_flags =
     VM_PROT_USER OR (if p_flags AND 4 \<noteq> 0 then VM_PROT_READ else 0)
     OR (if p_flags AND 2 \<noteq> 0 then VM_PROT_WRITE else 0) OR (if p_flags AND 1 \<noteq> 0 then VM_PROT_EXEC else 0)"

definition elf_header_ok :: "u8 list \<Rightarrow> bool" where
  "elf_header_ok bs \<longleftrightarrow>
     take 4 bs = [0x7F, 0x45, 0x4C, 0x46] \<and> bs ! 4 = 2 \<and> bs ! 5 = 1 \<and> bs ! 6 = 1
     \<and> rd16 bs 18 = 62 \<and> rd16 bs 16 = 2 \<and> rd16 bs 54 = of_nat ELF_PHDR_SIZE"

text \<open>One program header at offset \<open>o\<close>: \<open>None\<close> for an error, \<open>Some None\<close> for one that is not loaded.\<close>

definition elf_parse_phdr :: "u8 list \<Rightarrow> nat \<Rightarrow> elf_segment option option" where
  "elf_parse_phdr bs off =
     (if rd32 bs off \<noteq> 1 then Some None
      else
        (let p_offset = rd64 bs (off + 8); p_filesz = rd64 bs (off + 32); p_memsz = rd64 bs (off + 40);
             blob_len = of_nat (length bs); seg_file_end = p_offset + p_filesz
         in if p_filesz > p_memsz \<or> p_offset > blob_len \<or> seg_file_end > blob_len \<or> seg_file_end < p_offset then None
            else Some (Some \<lparr>es_vaddr = rd64 bs (off + 16), es_file_off = p_offset, es_filesz = p_filesz,
                             es_memsz = p_memsz, es_prot = prot_from_pflags (rd32 bs (off + 4))\<rparr>)))"

fun elf_parse_phdrs :: "u8 list \<Rightarrow> nat \<Rightarrow> nat \<Rightarrow> elf_segment list \<Rightarrow> elf_segment list option" where
  "elf_parse_phdrs bs off 0 segs = Some segs"
| "elf_parse_phdrs bs off (Suc n) segs =
     (case elf_parse_phdr bs off of
        None \<Rightarrow> None
      | Some None \<Rightarrow> elf_parse_phdrs bs (off + ELF_PHDR_SIZE) n segs
      | Some (Some s) \<Rightarrow>
          if length segs \<ge> ELF_MAX_LOAD_SEGMENTS then None
          else elf_parse_phdrs bs (off + ELF_PHDR_SIZE) n (segs @ [s]))"

definition elf_parse_into :: "u64 \<Rightarrow> u8 list \<Rightarrow> elf_image option" where
  "elf_parse_into elf_start bs =
     (if length bs < ELF_EHDR_SIZE \<or> \<not> elf_header_ok bs then None
      else
        (let e_phoff = rd64 bs 32; e_phnum = rd16 bs 56; blob_len = of_nat (length bs);
             phtable_end = e_phoff + ucast e_phnum * ucast (rd16 bs 54)
         in if e_phoff > blob_len \<or> phtable_end > blob_len \<or> phtable_end < e_phoff then None
            else
              (case elf_parse_phdrs bs (unat e_phoff) (unat e_phnum) [] of
                 None \<Rightarrow> None
               | Some segs \<Rightarrow>
                   if segs = [] then None
                   else Some \<lparr>im_elf_start = elf_start, im_entry = rd64 bs 24, im_segs = segs\<rparr>)))"

section \<open>The cache of parsed images\<close>

record elf_state = kinfo_state +
  elf_cache :: "elf_image option list"
  elf_cache_next_victim :: u32
  elf_parses :: u64
  elf_cache_hits :: u64
  k_pipes :: "pipe_obj list"

definition cache_lookup :: "u64 \<Rightarrow> 'a elf_state_scheme \<Rightarrow> elf_image option" where
  "cache_lookup elf_start k =
     (case first_slot (\<lambda>e. case e of None \<Rightarrow> False | Some i \<Rightarrow> im_elf_start i = elf_start) (elf_cache k) of
        None \<Rightarrow> None | Some i \<Rightarrow> elf_cache k ! i)"

definition elf_parse :: "u64 \<Rightarrow> u8 list \<Rightarrow> 'a elf_state_scheme \<Rightarrow> elf_image option \<times> 'a elf_state_scheme" where
  "elf_parse elf_start bs k =
     (case cache_lookup elf_start k of
        Some img \<Rightarrow> (Some img, k\<lparr>elf_cache_hits := elf_cache_hits k + 1\<rparr>)
      | None \<Rightarrow>
          (case elf_parse_into elf_start bs of
             None \<Rightarrow> (None, k)
           | Some img \<Rightarrow>
               (let slot = elf_cache_next_victim k
                in (Some img, k\<lparr>elf_cache_next_victim := (slot + 1) mod ELF_CACHE_SIZE,
                                elf_cache := (elf_cache k)[unat slot := Some img], elf_parses := elf_parses k + 1\<rparr>))))"

definition elf_parse_nocache :: "u64 \<Rightarrow> u8 list \<Rightarrow> elf_image option" where
  "elf_parse_nocache elf_start bs = elf_parse_into elf_start bs"

definition elf_parse_by :: "bool \<Rightarrow> u64 \<Rightarrow> u8 list \<Rightarrow> 'a elf_state_scheme \<Rightarrow> elf_image option \<times> 'a elf_state_scheme" where
  "elf_parse_by use_cache elf_start bs k =
     (if use_cache then elf_parse elf_start bs k else (elf_parse_nocache elf_start bs, k))"

section \<open>Filling an address space\<close>

text \<open>One page of a segment: a fresh zeroed frame, mapped, with the part of the file that falls into it.\<close>

definition load_page :: "paddr \<Rightarrow> u8 list \<Rightarrow> elf_segment \<Rightarrow> nat \<Rightarrow> pmm_st \<Rightarrow> bool \<times> pmm_st" where
  "load_page as bs sg i st =
     (let page_va = page_of (es_vaddr sg) + of_nat i * PAGE_SIZE_4K;
          (frame, p, m) = pmm_alloc PMM_COLOR_ANY st
      in if frame = 0 then (False, p, m)
         else
           (let (rc, p, m) = arch_vm_map_page as page_va frame (es_prot sg) (p, zero_range m frame PAGE_SIZE_4K);
                data_hi = es_vaddr sg + es_filesz sg;
                copy_lo = (if page_va > es_vaddr sg then page_va else es_vaddr sg);
                page_end = page_va + PAGE_SIZE_4K;
                copy_hi = (if page_end < data_hi then page_end else data_hi);
                m = (if copy_hi > copy_lo
                     then store_bytes m (frame + (copy_lo - page_va))
                            (take (unat (copy_hi - copy_lo)) (drop (unat (es_file_off sg + (copy_lo - es_vaddr sg))) bs))
                     else m)
            in (True, p, m)))"

definition seg_hi :: "elf_segment \<Rightarrow> vaddr" where
  "seg_hi sg = page_of (es_vaddr sg + es_memsz sg + PAGE_SIZE_4K - 1)"

definition seg_pages :: "elf_segment \<Rightarrow> nat" where
  "seg_pages sg =
     (let lo = page_of (es_vaddr sg) in if lo < seg_hi sg then unat (seg_hi sg - lo) div unat PAGE_SIZE_4K else 0)"

definition map_segments :: "paddr \<Rightarrow> u8 list \<Rightarrow> elf_segment list \<Rightarrow> pmm_st \<Rightarrow> bool \<times> pmm_st" where
  "map_segments as bs segs = loop_until_fail (\<lambda>sg. loop_until_fail (load_page as bs sg) [0..<seg_pages sg]) segs"

definition map_stack :: "paddr \<Rightarrow> vaddr \<Rightarrow> pmm_st \<Rightarrow> bool \<times> pmm_st" where
  "map_stack as stack_base =
     loop_until_fail (\<lambda>i st.
       let (frame, p, m) = pmm_alloc PMM_COLOR_ANY st
       in if frame = 0 then (False, p, m)
          else (True, snd (arch_vm_map_page as (stack_base + of_nat i * PAGE_SIZE_4K) frame
                             (VM_PROT_READ OR VM_PROT_WRITE OR VM_PROT_USER) (p, zero_range m frame PAGE_SIZE_4K))))
       [0..<APP_STACK_PAGES]"

text \<open>The address of the top of the stack, 0 when memory runs out.\<close>

definition map_segments_and_stack :: "paddr \<Rightarrow> elf_image \<Rightarrow> u8 list \<Rightarrow> pmm_st \<Rightarrow> vaddr \<times> pmm_st" where
  "map_segments_and_stack as img bs st =
     (let (ok, st) = map_segments as bs (im_segs img) st
      in if \<not> ok then (0, st)
         else
           (let highest_end = fold (\<lambda>sg e. if seg_hi sg > e then seg_hi sg else e) (im_segs img) 0;
                stack_base = highest_end + PAGE_SIZE_4K;
                (ok, st) = map_stack as stack_base st
            in (if ok then stack_base + of_nat APP_STACK_PAGES * PAGE_SIZE_4K else 0, st)))"

text \<open>The strings go behind the array of pointers; \<open>limit\<close> is the end of the room for them. The items are C
  strings without their terminators.\<close>

fun put_strings :: "paddr \<Rightarrow> vaddr \<Rightarrow> u64 \<Rightarrow> nat \<Rightarrow> u64 \<Rightarrow> u8 list list \<Rightarrow> mem \<Rightarrow> bool \<times> mem" where
  "put_strings frame page_va limit i str_off [] m = (True, store64 m (frame + 8 * of_nat i) 0)"
| "put_strings frame page_va limit i str_off (s # items) m =
     (let len = of_nat (length s) + 1
      in if str_off + len > limit then (False, m)
         else put_strings frame page_va limit (Suc i) (str_off + len) items
                (store64 (store_bytes m (frame + str_off) (s @ [0])) (frame + 8 * of_nat i) (page_va + str_off)))"

text \<open>The user address of the array, \<open>None\<close> for a failure.\<close>

definition build_string_array_page :: "paddr \<Rightarrow> vaddr \<Rightarrow> u8 list list \<Rightarrow> pmm_st \<Rightarrow> vaddr option \<times> pmm_st" where
  "build_string_array_page as page_va items st =
     (if items = [] then (Some 0, st)
      else
        (let (frame, st) = pmm_alloc PMM_COLOR_ANY st
         in if frame = 0 then (None, st)
            else
              (let (rc, p, m) = arch_vm_map_page as page_va frame (VM_PROT_READ OR VM_PROT_WRITE OR VM_PROT_USER) st;
                   (ok, m) = put_strings frame page_va PAGE_SIZE_4K 0 (of_nat (length items + 1) * 8) items m
               in (if ok then Some page_va else None, p, m))))"

section \<open>Starting a program\<close>

definition SPAWN_INFO_RESERVED_TAIL :: u64 where "SPAWN_INFO_RESERVED_TAIL = 128"
definition SPAWN_INFO_MAGIC :: u32 where "SPAWN_INFO_MAGIC = 0x314E4953"
definition SPAWN_FD_KIND_PIPE_READ :: u32 where "SPAWN_FD_KIND_PIPE_READ = 100"
definition SPAWN_FD_KIND_PIPE_WRITE :: u32 where "SPAWN_FD_KIND_PIPE_WRITE = 101"
definition SPAWN_FD_SIZE :: nat where "SPAWN_FD_SIZE = 24"

definition elf_load_and_spawn_argv ::
    "string \<Rightarrow> u64 \<Rightarrow> u8 list \<Rightarrow> u8 \<Rightarrow> tid \<Rightarrow> u8 list list \<Rightarrow> 'a elf_state_scheme \<Rightarrow> tptr option \<times> 'a elf_state_scheme" where
  "elf_load_and_spawn_argv name elf_start bs prio pager argv k =
     (let (img, k) = elf_parse elf_start bs k
      in case img of
           None \<Rightarrow> (None, k)
         | Some img \<Rightarrow>
             (let (as, k) = vm_address_space_create k
              in if as = 0 then (None, k)
                 else
                   (let (stack_top, k) = with_pm (map_segments_and_stack as img bs) k
                    in if stack_top = 0 then (None, k)
                       else
                         (let argv_base = stack_top + PAGE_SIZE_4K; heap_base = argv_base + 2 * PAGE_SIZE_4K;
                              (uva, k) = with_pm (build_string_array_page as argv_base argv) k
                          in case uva of
                               None \<Rightarrow> (None, k)
                             | Some argv_uva \<Rightarrow>
                                 with_sched (thread_create_user_argv_locked name (im_entry img) stack_top prio as pager
                                   (of_nat (length argv)) argv_uva 0 heap_base 0) k))))"

definition elf_load_and_spawn :: "string \<Rightarrow> u64 \<Rightarrow> u8 list \<Rightarrow> u8 \<Rightarrow> tid \<Rightarrow> 'a elf_state_scheme \<Rightarrow> tptr option \<times> 'a elf_state_scheme" where
  "elf_load_and_spawn name elf_start bs prio pager k = elf_load_and_spawn_argv name elf_start bs prio pager [] k"

text \<open>The descriptors that a new program inherits are an array of 24-byte records; the ones that name pipe
  ends make the child a holder of the pipe.\<close>

definition fd_kind :: "u8 list \<Rightarrow> nat \<Rightarrow> u32" where "fd_kind fds i = rd32 fds (SPAWN_FD_SIZE * i + 4)"
definition fd_handle :: "u8 list \<Rightarrow> nat \<Rightarrow> u64" where "fd_handle fds i = rd64 fds (SPAWN_FD_SIZE * i + 8)"

definition add_fd_holder :: "tid \<Rightarrow> u8 list \<Rightarrow> nat \<Rightarrow> pipe_obj list \<Rightarrow> pipe_obj list" where
  "add_fd_holder t fds i pool =
     (if fd_kind fds i = SPAWN_FD_KIND_PIPE_READ then fst (pipe_add_holder pool t (fd_handle fds i) False)
      else if fd_kind fds i = SPAWN_FD_KIND_PIPE_WRITE then fst (pipe_add_holder pool t (fd_handle fds i) True)
      else pool)"

definition put_spawn_info :: "paddr \<Rightarrow> u32 \<Rightarrow> u8 list \<Rightarrow> mem \<Rightarrow> mem" where
  "put_spawn_info a nfds fds m =
     (let m = store_bytes (store_bytes m a (le32 SPAWN_INFO_MAGIC)) (a + 4) (le32 nfds)
      in if nfds > 0 then store_bytes m (a + 8) (take (unat nfds * SPAWN_FD_SIZE) fds) else m)"

text \<open>The environment strings and the spawn information share a page; the frame is mapped first.\<close>

definition build_envp_info_page :: "paddr \<Rightarrow> vaddr \<Rightarrow> u8 list list \<Rightarrow> u32 \<Rightarrow> u8 list \<Rightarrow> pmm_st \<Rightarrow> vaddr option \<times> pmm_st" where
  "build_envp_info_page as envp_base envp nfds fds st =
     (let (frame, st) = pmm_alloc PMM_COLOR_ANY st
      in if frame = 0 then (None, st)
         else
           (let (rc, p, m) = arch_vm_map_page as envp_base frame (VM_PROT_READ OR VM_PROT_WRITE OR VM_PROT_USER) st;
                tail = PAGE_SIZE_4K - SPAWN_INFO_RESERVED_TAIL;
                (ok, m) = (if envp = [] then (True, m)
                           else put_strings frame envp_base tail 0 (of_nat (length envp + 1) * 8) envp m)
            in if \<not> ok then (None, p, m)
               else (Some (if envp = [] then 0 else envp_base), p, put_spawn_info (frame + tail) nfds fds m)))"

definition elf_load_and_spawn_req ::
    "string \<Rightarrow> u64 \<Rightarrow> u8 list \<Rightarrow> u8 \<Rightarrow> tid \<Rightarrow> u8 list list \<Rightarrow> u8 list list \<Rightarrow> u32 \<Rightarrow> u8 list \<Rightarrow> bool \<Rightarrow>
      'a elf_state_scheme \<Rightarrow> tptr option \<times> 'a elf_state_scheme" where
  "elf_load_and_spawn_req name elf_start bs prio pager argv envp nfds fds use_cache k =
     (let (img, k) = elf_parse_by use_cache elf_start bs k
      in case img of
           None \<Rightarrow> (None, k)
         | Some img \<Rightarrow>
             (let (as, k) = vm_address_space_create k
              in if as = 0 then (None, k)
                 else
                   (let (stack_top, k) = with_pm (map_segments_and_stack as img bs) k
                    in if stack_top = 0 then (None, k)
                       else
                         (let argv_base = stack_top + PAGE_SIZE_4K; envp_base = argv_base + PAGE_SIZE_4K;
                              info_top = envp_base + PAGE_SIZE_4K; heap_base = info_top + PAGE_SIZE_4K;
                              (uva, k) = with_pm (build_string_array_page as argv_base argv) k
                          in case uva of
                               None \<Rightarrow> (None, k)
                             | Some argv_uva \<Rightarrow>
                                 (let (eva, k) = with_pm (build_envp_info_page as envp_base envp nfds fds) k
                                  in case eva of
                                       None \<Rightarrow> (None, k)
                                     | Some envp_uva \<Rightarrow>
                                         (let (child, k) = with_sched (thread_create_user_argv_locked name (im_entry img)
                                                stack_top prio as pager (of_nat (length argv)) argv_uva envp_uva heap_base
                                                (envp_base + (PAGE_SIZE_4K - SPAWN_INFO_RESERVED_TAIL))) k
                                          in (child,
                                              case child of
                                                None \<Rightarrow> k
                                              | Some c \<Rightarrow>
                                                  k\<lparr>k_pipes := fold (add_fd_holder (t_tid (k_tcb k c)) fds) [0..<unat nfds] (k_pipes k)\<rparr>)))))))"

text \<open>Replacing the program of a thread: the new address space is complete before anything is changed, and
  discarded when one of the steps fails.\<close>

definition exec_fill :: "paddr \<Rightarrow> elf_image \<Rightarrow> u8 list \<Rightarrow> u8 list list \<Rightarrow> u8 list list \<Rightarrow> u32 \<Rightarrow> u8 list \<Rightarrow> pmm_st
      \<Rightarrow> (vaddr \<times> vaddr \<times> vaddr) option \<times> pmm_st" where
  "exec_fill as img bs argv envp nfds fds st =
     (let (stack_top, st) = map_segments_and_stack as img bs st
      in if stack_top = 0 then (None, st)
         else
           (let argv_base = stack_top + PAGE_SIZE_4K; envp_base = argv_base + PAGE_SIZE_4K; info_base = envp_base + PAGE_SIZE_4K;
                (uva, st) = build_string_array_page as argv_base argv st
            in case uva of
                 None \<Rightarrow> (None, st)
               | Some argv_uva \<Rightarrow>
                   (let (eva, st) = build_string_array_page as envp_base envp st
                    in case eva of
                         None \<Rightarrow> (None, st)
                       | Some envp_uva \<Rightarrow>
                           (let (frame, st) = pmm_alloc PMM_COLOR_ANY st
                            in if frame = 0 then (None, st)
                               else (let (rc, p, m) = arch_vm_map_page as info_base frame
                                           (VM_PROT_READ OR VM_PROT_WRITE OR VM_PROT_USER) st
                                     in (Some (stack_top, argv_uva, envp_uva), p, put_spawn_info frame nfds fds m))))))"

definition elf_exec_current ::
    "tptr \<Rightarrow> u64 \<Rightarrow> u8 list \<Rightarrow> u8 list list \<Rightarrow> u8 list list \<Rightarrow> u32 \<Rightarrow> u8 list \<Rightarrow> bool \<Rightarrow>
      'a elf_state_scheme \<Rightarrow> int \<times> 'a elf_state_scheme" where
  "elf_exec_current cur elf_start bs argv envp nfds fds use_cache k =
     (let (img, k) = elf_parse_by use_cache elf_start bs k
      in case img of
           None \<Rightarrow> (- 1, k)
         | Some img \<Rightarrow>
             (let (new_as, k) = vm_address_space_create k
              in if new_as = 0 then (- 1, k)
                 else
                   (let (r, k) = with_pm (exec_fill new_as img bs argv envp nfds fds) k
                    in case r of
                         None \<Rightarrow> (- 1, vm_address_space_destroy new_as k)
                       | Some (stack_top, argv_uva, envp_uva) \<Rightarrow>
                           (let info_base = stack_top + 3 * PAGE_SIZE_4K;
                                old_as = t_address_space (k_tcb k cur);
                                k = k_upd cur (\<lambda>c. c\<lparr>t_address_space := new_as,
                                      t_sig_actions := replicate ROBU_NSIG sig_action_zero, t_in_sig_handler := False,
                                      t_uctx := arch_uctx_init_user_argv (im_entry img) stack_top (of_nat (length argv))
                                                  argv_uva envp_uva (info_base + PAGE_SIZE_4K) info_base\<rparr>) k
                            in (0, vm_address_space_destroy old_as k)))))"

end
