(* ===== verification/Execreq.thy ===== *)
theory Execreq
  imports Elf
begin

text \<open>
  Requests to execute a file that is not in the boot image, \<^verbatim>\<open>src/core/execreq.c\<close>. The requesting thread is
  parked while the file system server reads the file into a shared memory segment; its reply loads the
  program. A slot of the table goes from empty to queued to delivered, and back to empty with a new
  generation; a request of the boot code, which has no thread, ends in the state \<open>EXECREQ_POLL_DONE\<close>.
\<close>

section \<open>Bytes in registers\<close>

text \<open>\<open>n\<close> words with the given bytes in front, zero behind them; and the bytes of words.\<close>

definition words_of :: "nat \<Rightarrow> u8 list \<Rightarrow> u64 list" where
  "words_of n bs = map (\<lambda>i. rd64 (take (8 * n) bs @ replicate (8 * n - length bs) 0) (8 * i)) [0..<n]"

definition bytes_of_words :: "u64 list \<Rightarrow> u8 list" where
  "bytes_of_words ws = concat (map (\<lambda>w. map (\<lambda>i. ucast (drop_bit (8 * i) w)) [0..<8]) ws)"

text \<open>The C string at an offset of a buffer.\<close>

definition cstr_at :: "u8 list \<Rightarrow> nat \<Rightarrow> u8 list" where
  "cstr_at buf off = takeWhile (\<lambda>c. c \<noteq> 0) (drop off buf)"

definition string_of :: "u8 list \<Rightarrow> string" where
  "string_of bs = map (\<lambda>b. char_of (unat b)) bs"

section \<open>State\<close>

definition EXECREQ_MAX_SLOTS :: nat where "EXECREQ_MAX_SLOTS = 8"
definition EXECREQ_NAME_MAX :: nat where "EXECREQ_NAME_MAX = 64"
definition EXECREQ_STAGING_SIZE :: u64 where "EXECREQ_STAGING_SIZE = 0x1000000"
definition VFS_OP_READ_BULK :: u64 where "VFS_OP_READ_BULK = 17"

datatype execreq_slot_state = EXECREQ_EMPTY | EXECREQ_QUEUED | EXECREQ_DELIVERED | EXECREQ_POLL_DONE

text \<open>The name is kept without its terminator.\<close>

record execreq_params =
  ep_requester_tid :: tid
  ep_is_spawn_create :: bool
  ep_name :: "u8 list"
  ep_strbuf :: "u8 list"
  ep_argv_off :: "u32 list"
  ep_envp_off :: "u32 list"
  ep_nfds :: u32
  ep_fds :: "u8 list"
  ep_prio :: u8
  ep_pager_tid :: tid

record execreq_slot =
  xs_state :: execreq_slot_state
  xs_generation :: u16
  xs_params :: execreq_params
  xs_poll_child :: "tptr option"

record exec_state = elf_state +
  g_slots :: "execreq_slot list"

definition upd_slot :: "nat \<Rightarrow> (execreq_slot \<Rightarrow> execreq_slot) \<Rightarrow> 'a exec_state_scheme \<Rightarrow> 'a exec_state_scheme" where
  "upd_slot i f k = k\<lparr>g_slots := (g_slots k)[i := f (g_slots k ! i)]\<rparr>"

definition alloc_slot :: "'a exec_state_scheme \<Rightarrow> nat option" where
  "alloc_slot k = first_slot (\<lambda>s. xs_state s = EXECREQ_EMPTY) (g_slots k)"

definition free_slot :: "nat \<Rightarrow> 'a exec_state_scheme \<Rightarrow> 'a exec_state_scheme" where
  "free_slot i k = upd_slot i (\<lambda>s. s\<lparr>xs_state := EXECREQ_EMPTY, xs_generation := xs_generation s + 1\<rparr>) k"

section \<open>Submitting\<close>

definition ext2fs :: "'a exec_state_scheme \<Rightarrow> tptr option" where
  "ext2fs k = (let t = ki_ext2fs_tid (k_kinfo k) in if t = 0 then None else sched_get_tcb t (k_sched k))"

definition inject_request :: "tptr \<Rightarrow> nat \<Rightarrow> u8 list \<Rightarrow> 'a exec_state_scheme \<Rightarrow> 'a exec_state_scheme" where
  "inject_request fs i name k =
     (let ws = words_of 3 (take 24 name); g = xs_generation (g_slots k ! i)
      in k_uctx fs (\<lambda>f. f\<lparr>r8 := VFS_OP_READ_BULK, r9 := of_nat i, r10 := ucast g, r12 := ws ! 0, r13 := ws ! 1,
                          r14 := ws ! 2, rsi := 0, rax := word_of_int IPC_ERR_NONE\<rparr>) k)"

definition waits_for_any :: "'a kmach_scheme \<Rightarrow> tptr \<Rightarrow> bool" where
  "waits_for_any k t \<longleftrightarrow> t_state (k_tcb k t) = THREAD_STATE_WAIT_RECV \<and> t_ipc_partner (k_tcb k t) = 0"

text \<open>The slot, or \<open>None\<close> when there is no server or no free slot.\<close>

definition execreq_submit :: "nat \<Rightarrow> tptr \<Rightarrow> execreq_params \<Rightarrow> 'a exec_state_scheme \<Rightarrow> nat option \<times> 'a exec_state_scheme" where
  "execreq_submit cpu cur params k =
     (case (ext2fs k, alloc_slot k) of
        (Some fs, Some i) \<Rightarrow>
          (let k = upd_slot i (\<lambda>s. s\<lparr>xs_params := params, xs_state := EXECREQ_QUEUED\<rparr>) k;
               k = k_upd cur (\<lambda>c. c\<lparr>t_execreq_slot := of_nat i\<rparr>) k;
               k = on_sched (sched_block cpu THREAD_STATE_WAIT_EXECREQ) k
           in (Some i,
               if waits_for_any k fs
               then (let k = upd_slot i (\<lambda>s. s\<lparr>xs_state := EXECREQ_DELIVERED\<rparr>) k;
                         k = inject_request fs i (ep_name params) k
                     in on_sched (sched_direct_switch cpu fs) k)
               else k))
      | _ \<Rightarrow> (None, k))"

definition execreq_submit_poll :: "nat \<Rightarrow> execreq_params \<Rightarrow> 'a exec_state_scheme \<Rightarrow> (nat \<times> u16) option \<times> 'a exec_state_scheme" where
  "execreq_submit_poll cpu params k =
     (case (ext2fs k, alloc_slot k) of
        (Some fs, Some i) \<Rightarrow>
          (let k = upd_slot i (\<lambda>s. s\<lparr>xs_params := params\<lparr>ep_requester_tid := 0\<rparr>, xs_poll_child := None,
                                     xs_state := EXECREQ_QUEUED\<rparr>) k;
               k = (if waits_for_any k fs
                    then (let k = upd_slot i (\<lambda>s. s\<lparr>xs_state := EXECREQ_DELIVERED\<rparr>) k;
                              k = inject_request fs i (ep_name params) k
                          in on_sched (sched_wake cpu fs) k)
                    else k)
           in (Some (i, xs_generation (g_slots k ! i)), k))
      | _ \<Rightarrow> (None, k))"

definition execreq_poll_ready :: "nat \<Rightarrow> u16 \<Rightarrow> 'a exec_state_scheme \<Rightarrow> int" where
  "execreq_poll_ready slot gen k =
     (if slot \<ge> EXECREQ_MAX_SLOTS \<or> xs_state (g_slots k ! slot) = EXECREQ_EMPTY \<or> xs_generation (g_slots k ! slot) \<noteq> gen
      then - 1 else if xs_state (g_slots k ! slot) = EXECREQ_POLL_DONE then 1 else 0)"

definition execreq_finish_poll_spawn :: "nat \<Rightarrow> u16 \<Rightarrow> 'a exec_state_scheme \<Rightarrow> tptr option \<times> 'a exec_state_scheme" where
  "execreq_finish_poll_spawn slot gen k =
     (if slot \<ge> EXECREQ_MAX_SLOTS \<or> xs_generation (g_slots k ! slot) \<noteq> gen \<or> xs_state (g_slots k ! slot) \<noteq> EXECREQ_POLL_DONE
      then (None, k) else (xs_poll_child (g_slots k ! slot), free_slot slot k))"

text \<open>The slot, the generation and the name of the first queued request.\<close>

definition execreq_try_deliver_queued :: "nat \<Rightarrow> 'a exec_state_scheme \<Rightarrow> (nat \<times> u16 \<times> u8 list) option \<times> 'a exec_state_scheme" where
  "execreq_try_deliver_queued out_name_max k =
     (case first_slot (\<lambda>s. xs_state s = EXECREQ_QUEUED) (g_slots k) of
        None \<Rightarrow> (None, k)
      | Some i \<Rightarrow>
          (Some (i, xs_generation (g_slots k ! i), take (out_name_max - 1) (ep_name (xs_params (g_slots k ! i)))),
           upd_slot i (\<lambda>s. s\<lparr>xs_state := EXECREQ_DELIVERED\<rparr>) k))"

section \<open>Completing\<close>

definition reconstruct_ptrs :: "execreq_params \<Rightarrow> u8 list list \<times> u8 list list" where
  "reconstruct_ptrs p = (map (\<lambda>o'. cstr_at (ep_strbuf p) (unat o')) (ep_argv_off p),
                         map (\<lambda>o'. cstr_at (ep_strbuf p) (unat o')) (ep_envp_off p))"

definition fail_requester :: "nat \<Rightarrow> tptr \<Rightarrow> 'a exec_state_scheme \<Rightarrow> 'a exec_state_scheme" where
  "fail_requester cpu t k =
     on_sched (sched_wake cpu t) (k_uctx t (\<lambda>f. f\<lparr>rax := rax_err IPC_ERR_NOT_FOUND, r8 := 0\<rparr>) k)"

text \<open>The program file out of the segment, if it has the announced size. It is parsed without the cache, so
  the address of the staging buffer plays no role.\<close>

definition staged_image :: "u32 \<Rightarrow> u64 \<Rightarrow> 'a exec_state_scheme \<Rightarrow> u8 list option" where
  "staged_image shmid sz k =
     (case shm_copy_out shmid EXECREQ_STAGING_SIZE k of
        Inl _ \<Rightarrow> None
      | Inr bs \<Rightarrow> if of_nat (length bs) \<noteq> sz \<or> bs = [] then None else Some bs)"

definition spawn_params :: "execreq_params \<Rightarrow> u8 list \<Rightarrow> 'a exec_state_scheme \<Rightarrow> tptr option \<times> 'a exec_state_scheme" where
  "spawn_params p bs k =
     (let (argv, envp) = reconstruct_ptrs p
      in elf_load_and_spawn_req (string_of (ep_name p)) 0 bs (ep_prio p) (ep_pager_tid p) argv envp (ep_nfds p) (ep_fds p) False k)"

definition complete_poll :: "nat \<Rightarrow> int \<Rightarrow> u32 \<Rightarrow> u64 \<Rightarrow> 'a exec_state_scheme \<Rightarrow> 'a exec_state_scheme" where
  "complete_poll slot status shmid sz k =
     (let (child, k) =
        (if status \<noteq> IPC_ERR_NONE then (None, k)
         else case staged_image shmid sz k of
                None \<Rightarrow> (None, k)
              | Some bs \<Rightarrow> spawn_params (xs_params (g_slots k ! slot)) bs k)
      in upd_slot slot (\<lambda>s. s\<lparr>xs_poll_child := child, xs_state := EXECREQ_POLL_DONE\<rparr>) k)"

definition complete_spawn :: "tptr \<Rightarrow> execreq_params \<Rightarrow> u8 list \<Rightarrow> 'a exec_state_scheme \<Rightarrow> 'a exec_state_scheme" where
  "complete_spawn requester p bs k =
     (let (child, k) = spawn_params p bs k
      in case child of
           None \<Rightarrow> k_uctx requester (\<lambda>f. f\<lparr>rax := rax_err IPC_ERR_NO_MEM, r8 := 0\<rparr>) k
         | Some c \<Rightarrow>
             (let k = k_upd c (\<lambda>x. x\<lparr>t_parent_tid := t_tid (k_tcb k requester)\<rparr>) k
              in k_uctx requester (\<lambda>f. f\<lparr>rax := word_of_int IPC_ERR_NONE, r8 := ucast (t_tid (k_tcb k c))\<rparr>) k))"

definition complete_exec :: "tptr \<Rightarrow> execreq_params \<Rightarrow> u8 list \<Rightarrow> 'a exec_state_scheme \<Rightarrow> 'a exec_state_scheme" where
  "complete_exec requester p bs k =
     (let (argv, envp) = reconstruct_ptrs p;
          (rc, k) = elf_exec_current requester 0 bs argv envp (ep_nfds p) (ep_fds p) False k
      in if rc \<noteq> 0 then k_uctx requester (\<lambda>f. f\<lparr>rax := rax_err IPC_ERR_NO_MEM\<rparr>) k else k)"

definition execreq_complete :: "nat \<Rightarrow> nat \<Rightarrow> u16 \<Rightarrow> int \<Rightarrow> u32 \<Rightarrow> u64 \<Rightarrow> 'a exec_state_scheme \<Rightarrow> 'a exec_state_scheme" where
  "execreq_complete cpu slot gen status shmid sz k =
     (if slot \<ge> EXECREQ_MAX_SLOTS \<or> xs_state (g_slots k ! slot) \<noteq> EXECREQ_DELIVERED \<or> xs_generation (g_slots k ! slot) \<noteq> gen
      then k
      else
        (let p = xs_params (g_slots k ! slot)
         in if ep_requester_tid p = 0 then complete_poll slot status shmid sz k
            else
              (case sched_get_tcb (ep_requester_tid p) (k_sched k) of
                 None \<Rightarrow> free_slot slot k
               | Some requester \<Rightarrow>
                   if t_state (k_tcb k requester) \<noteq> THREAD_STATE_WAIT_EXECREQ
                      \<or> unat (t_execreq_slot (k_tcb k requester)) \<noteq> slot
                   then free_slot slot k
                   else
                     (case (if status \<noteq> IPC_ERR_NONE then None else staged_image shmid sz k) of
                        None \<Rightarrow> free_slot slot (fail_requester cpu requester k)
                      | Some bs \<Rightarrow>
                          (let k = (if ep_is_spawn_create p then complete_spawn requester p bs k
                                    else complete_exec requester p bs k)
                           in free_slot slot (on_sched (sched_wake cpu requester) k))))))"

definition execreq_cancel_requester :: "tid \<Rightarrow> 'a exec_state_scheme \<Rightarrow> 'a exec_state_scheme" where
  "execreq_cancel_requester t k =
     fold (\<lambda>i k. if xs_state (g_slots k ! i) \<noteq> EXECREQ_EMPTY \<and> ep_requester_tid (xs_params (g_slots k ! i)) = t
                 then free_slot i k else k) [0..<EXECREQ_MAX_SLOTS] k"

definition execreq_fail_all :: "nat \<Rightarrow> 'a exec_state_scheme \<Rightarrow> 'a exec_state_scheme" where
  "execreq_fail_all cpu k =
     fold (\<lambda>i k.
       if xs_state (g_slots k ! i) = EXECREQ_EMPTY then k
       else
         free_slot i
           (case sched_get_tcb (ep_requester_tid (xs_params (g_slots k ! i))) (k_sched k) of
              None \<Rightarrow> k
            | Some r \<Rightarrow>
                if t_state (k_tcb k r) = THREAD_STATE_WAIT_EXECREQ \<and> t_execreq_slot (k_tcb k r) = of_nat i
                then fail_requester cpu r k else k))
       [0..<EXECREQ_MAX_SLOTS] k"

end
