(* ===== verification/Spawn.thy ===== *)
theory Spawn
  imports Execreq
begin

text \<open>
  Creating, replacing and forking processes, \<^verbatim>\<open>src/core/spawn.c\<close>. A request is a block of user memory with a
  header, and offsets into the block for the name, the argument and environment strings and the
  descriptors; every offset is checked against the length of the block. Looking up a file among the
  modules of the boot loader (\<^verbatim>\<open>rootfs_lookup\<close>, in the theory \<open>Bootinfo\<close>) is an argument: \<open>rootfs name\<close> is the
  address and the content of the file. Exiting, which ends the thread, is in the theory \<open>Kernel\<close>.
\<close>

section \<open>Reading a request\<close>

definition SPAWN_NAME_MAX :: u32 where "SPAWN_NAME_MAX = 64"
definition SPAWN_REQ_MAGIC :: u32 where "SPAWN_REQ_MAGIC = 0x314E5053"
definition SPAWN_MAX_ARGS :: u32 where "SPAWN_MAX_ARGS = 64"
definition SPAWN_REQ_MAX_LEN :: u64 where "SPAWN_REQ_MAX_LEN = 4096"
definition SPAWN_FD_INFO_MAX :: u32 where "SPAWN_FD_INFO_MAX = 3"
definition SPAWN_REQ_SIZE :: nat where "SPAWN_REQ_SIZE = 40"

record spawn_req =
  rq_magic :: u32
  rq_total_len :: u32
  rq_name_off :: u32
  rq_name_len :: u32
  rq_argc :: u32
  rq_argv_off :: u32
  rq_envc :: u32
  rq_envp_off :: u32
  rq_nfds :: u32
  rq_fds_off :: u32

definition spawn_req_at :: "u8 list \<Rightarrow> spawn_req" where
  "spawn_req_at bs = \<lparr>rq_magic = rd32 bs 0, rq_total_len = rd32 bs 4, rq_name_off = rd32 bs 8, rq_name_len = rd32 bs 12,
     rq_argc = rd32 bs 16, rq_argv_off = rd32 bs 20, rq_envc = rd32 bs 24, rq_envp_off = rd32 bs 28,
     rq_nfds = rd32 bs 32, rq_fds_off = rd32 bs 36\<rparr>"

definition validate_range :: "u32 \<Rightarrow> u32 \<Rightarrow> u32 \<Rightarrow> bool" where
  "validate_range off len total_len \<longleftrightarrow> \<not> (off > total_len \<or> len > total_len - off)"

text \<open>The part of a C string behind its last slash (character 47).\<close>

definition base_name :: "u8 list \<Rightarrow> u8 list" where
  "base_name s = rev (takeWhile (\<lambda>c. c \<noteq> 47) (rev s))"

definition copy_name :: "u8 list \<Rightarrow> spawn_req \<Rightarrow> u32 \<Rightarrow> u32 \<Rightarrow> u8 list option" where
  "copy_name scratch req total_len out_cap =
     (if \<not> validate_range (rq_name_off req) (rq_name_len req) total_len then None
      else if rq_name_len req = 0 \<or> rq_name_len req + 1 > out_cap then None
      else Some (base_name (cstr_at (take (unat (rq_name_len req)) (drop (unat (rq_name_off req)) scratch)) 0)))"

text \<open>The strings of a table are appended to the string buffer, each with a terminator; the results are
  their offsets. The buffer is the list of the bytes used so far.\<close>

fun copy_strs :: "u8 list \<Rightarrow> u32 \<Rightarrow> u32 \<Rightarrow> nat \<Rightarrow> nat \<Rightarrow> u8 list \<Rightarrow> u32 list \<Rightarrow> (u32 list \<times> u8 list) option" where
  "copy_strs scratch total_len cap pos 0 strbuf offs = Some (offs, strbuf)"
| "copy_strs scratch total_len cap pos (Suc n) strbuf offs =
     (let off = rd32 scratch pos; len = rd32 scratch (pos + 4)
      in if \<not> validate_range off len total_len then None
         else if length strbuf + unat len + 1 > unat cap then None
         else copy_strs scratch total_len cap (pos + 8) n
                (strbuf @ take (unat len) (drop (unat off) scratch) @ [0]) (offs @ [of_nat (length strbuf)]))"

definition copy_str_array :: "u8 list \<Rightarrow> u32 \<Rightarrow> u32 \<Rightarrow> u32 \<Rightarrow> u32 \<Rightarrow> u8 list \<Rightarrow> (u32 list \<times> u8 list) option" where
  "copy_str_array scratch table_off count total_len cap strbuf =
     (if count = 0 then Some ([], strbuf)
      else if \<not> validate_range table_off (count * 8) total_len then None
      else copy_strs scratch total_len cap (unat table_off) (unat count) strbuf [])"

text \<open>What \<^verbatim>\<open>spawn_create\<close> and \<^verbatim>\<open>spawn_exec\<close> read out of a request: name, argument and environment offsets,
  string buffer and descriptors. Every failure has the same result code.\<close>

record spawn_args =
  sa_name :: "u8 list"
  sa_argv :: "u32 list"
  sa_envp :: "u32 list"
  sa_strbuf :: "u8 list"
  sa_nfds :: u32
  sa_fds :: "u8 list"

definition spawn_check :: "u8 list \<Rightarrow> spawn_args option" where
  "spawn_check scratch =
     (let req = spawn_req_at scratch; total_len = rq_total_len req; cap = ucast SPAWN_REQ_MAX_LEN
      in if length scratch < SPAWN_REQ_SIZE then None
         else if rq_magic req \<noteq> SPAWN_REQ_MAGIC \<or> unat total_len < SPAWN_REQ_SIZE \<or> unat total_len > length scratch then None
         else if rq_argc req > SPAWN_MAX_ARGS \<or> rq_envc req > SPAWN_MAX_ARGS then None
         else if rq_nfds req > SPAWN_FD_INFO_MAX then None
         else if \<not> validate_range (rq_fds_off req) (rq_nfds req * of_nat SPAWN_FD_SIZE) total_len then None
         else
           case copy_name scratch req total_len SPAWN_NAME_MAX of
             None \<Rightarrow> None
           | Some name \<Rightarrow>
               (case copy_str_array scratch (rq_argv_off req) (rq_argc req) total_len cap [] of
                  None \<Rightarrow> None
                | Some (argv, strbuf) \<Rightarrow>
                    (case copy_str_array scratch (rq_envp_off req) (rq_envc req) total_len cap strbuf of
                       None \<Rightarrow> None
                     | Some (envp, strbuf) \<Rightarrow>
                         Some \<lparr>sa_name = name, sa_argv = argv, sa_envp = envp, sa_strbuf = strbuf, sa_nfds = rq_nfds req,
                               sa_fds = take (unat (rq_nfds req) * SPAWN_FD_SIZE) (drop (unat (rq_fds_off req)) scratch)\<rparr>)))"

definition spawn_read :: "tptr \<Rightarrow> vaddr \<Rightarrow> u64 \<Rightarrow> 'a exec_state_scheme \<Rightarrow> spawn_args option" where
  "spawn_read caller req_va req_len k =
     (if t_address_space (k_tcb k caller) = 0 \<or> req_len = 0 \<or> req_len > SPAWN_REQ_MAX_LEN then None
      else (let (rc, scratch) = vm_copy_from_user (k_mem k) (t_address_space (k_tcb k caller)) req_va req_len
            in if rc \<noteq> 0 then None else spawn_check scratch))"

section \<open>Operations\<close>

definition submit_execreq :: "nat \<Rightarrow> tptr \<Rightarrow> spawn_args \<Rightarrow> bool \<Rightarrow> 'a exec_state_scheme \<Rightarrow> ipc_err \<times> 'a exec_state_scheme" where
  "submit_execreq cpu caller a is_spawn_create k =
     (let c = k_tcb k caller;
          params = \<lparr>ep_requester_tid = t_tid c, ep_is_spawn_create = is_spawn_create,
            ep_name = take (EXECREQ_NAME_MAX - 1) (sa_name a), ep_strbuf = sa_strbuf a, ep_argv_off = sa_argv a,
            ep_envp_off = sa_envp a, ep_nfds = sa_nfds a, ep_fds = sa_fds a, ep_prio = t_prio c,
            ep_pager_tid = t_pager_tid c\<rparr>;
          (slot, k) = execreq_submit cpu caller params k
      in (if slot = None then IPC_ERR_NOT_FOUND else IPC_ERR_BLOCKED, k))"

definition sa_args :: "spawn_args \<Rightarrow> u8 list list \<times> u8 list list" where
  "sa_args a = (map (\<lambda>i. cstr_at (sa_strbuf a) (unat i)) (sa_argv a), map (\<lambda>i. cstr_at (sa_strbuf a) (unat i)) (sa_envp a))"

definition spawn_create ::
    "(u8 list \<Rightarrow> (u64 \<times> u8 list) option) \<Rightarrow> nat \<Rightarrow> tptr \<Rightarrow> vaddr \<Rightarrow> u64 \<Rightarrow> 'a exec_state_scheme
      \<Rightarrow> (ipc_err + tid) \<times> 'a exec_state_scheme" where
  "spawn_create rootfs cpu caller req_va req_len k =
     (case spawn_read caller req_va req_len k of
        None \<Rightarrow> (Inl IPC_ERR_NO_CAP, k)
      | Some a \<Rightarrow>
          (case rootfs (sa_name a) of
             None \<Rightarrow> (let (e, k) = submit_execreq cpu caller a True k in (Inl e, k))
           | Some (elf_start, bs) \<Rightarrow>
               (let c = k_tcb k caller;
                    (argv, envp) = sa_args a;
                    (child, k) = elf_load_and_spawn_req (string_of (sa_name a)) elf_start bs (t_prio c) (t_pager_tid c)
                                   argv envp (sa_nfds a) (sa_fds a) True k
                in case child of
                     None \<Rightarrow> (Inl IPC_ERR_NO_MEM, k)
                   | Some t \<Rightarrow> (Inr (t_tid (k_tcb k t)), k_upd t (\<lambda>x. x\<lparr>t_parent_tid := t_tid c\<rparr>) k))))"

definition spawn_exec ::
    "(u8 list \<Rightarrow> (u64 \<times> u8 list) option) \<Rightarrow> nat \<Rightarrow> tptr \<Rightarrow> vaddr \<Rightarrow> u64 \<Rightarrow> 'a exec_state_scheme
      \<Rightarrow> (ipc_err + unit) \<times> 'a exec_state_scheme" where
  "spawn_exec rootfs cpu caller req_va req_len k =
     (case spawn_read caller req_va req_len k of
        None \<Rightarrow> (Inl IPC_ERR_NO_CAP, k)
      | Some a \<Rightarrow>
          (case rootfs (sa_name a) of
             None \<Rightarrow> (let (e, k) = submit_execreq cpu caller a False k in (Inl e, k))
           | Some (elf_start, bs) \<Rightarrow>
               (let (argv, envp) = sa_args a;
                    (rc, k) = elf_exec_current caller elf_start bs argv envp (sa_nfds a) (sa_fds a) True k
                in (if rc \<noteq> 0 then Inl IPC_ERR_NO_MEM else Inr (), k))))"

definition spawn_fork_create :: "tptr \<Rightarrow> 'a exec_state_scheme \<Rightarrow> (ipc_err + tid) \<times> 'a exec_state_scheme" where
  "spawn_fork_create caller k =
     (let c = k_tcb k caller
      in if t_address_space c = 0 then (Inl IPC_ERR_NO_CAP, k)
         else
           (let (child_as, k) = vm_address_space_clone (t_address_space c) k
            in if child_as = 0 then (Inl IPC_ERR_NO_MEM, k)
               else
                 (let (child, k) = with_sched (thread_create_forked_locked (t_name c) child_as (t_pager_tid c) (t_prio c) caller) k
                  in case child of
                       None \<Rightarrow> (Inl IPC_ERR_NO_MEM, vm_address_space_destroy child_as k)
                     | Some t \<Rightarrow>
                         (let k = k_upd t (\<lambda>x. x\<lparr>t_parent_tid := t_tid c, t_pgid := t_pgid c, t_sid := t_sid c\<rparr>) k;
                              k = k\<lparr>k_pipes := pipe_inherit_fork (k_pipes k) (t_tid c) (t_tid (k_tcb k t))\<rparr>;
                              k = k_uctx t (\<lambda>f. f\<lparr>rax := word_of_int IPC_ERR_NONE, r8 := 0\<rparr>) k
                          in (Inr (t_tid (k_tcb k t)), k)))))"

text \<open>\<open>Some (Some (tid, status))\<close> is the result 1, \<open>Some None\<close> the result 0 and \<open>None\<close> the result -1.\<close>

definition spawn_wait_begin :: "tptr \<Rightarrow> tid \<Rightarrow> 'a kmach_scheme \<Rightarrow> (tid \<times> int) option option \<times> 'a kmach_scheme" where
  "spawn_wait_begin caller filt k =
     (let (z, has_live) = sched_find_zombie_child (t_tid (k_tcb k caller)) filt (k_sched k)
      in case z of
           Some z \<Rightarrow> (Some (Some (t_tid (k_tcb k z), t_exit_status (k_tcb k z))), on_sched (sched_reap_zombie z) k)
         | None \<Rightarrow> (if has_live then Some None else None, k))"

end
