(* ===== verification/Sock.thy ===== *)
theory Sock
  imports Ring
begin

text \<open>
  Local stream sockets, \<^verbatim>\<open>src/core/socket.c\<close>: a table of 32 sockets, each with a bound path, a
  backlog of connecting clients, the slot and generation of its peer and a receive ring of 4096
  bytes. Socket ids are the 32-bit patterns of the C \<^verbatim>\<open>int\<close>; lengths are C \<^verbatim>\<open>int\<close>s, so they may be
  negative, and the ring counters are 32-bit words with their wrap-around.
\<close>

section \<open>State\<close>

definition MAX_SOCKETS :: nat where "MAX_SOCKETS = 32"
definition SOCK_BACKLOG_MAX :: nat where "SOCK_BACKLOG_MAX = 8"
definition SOCK_RING_SIZE :: nat where "SOCK_RING_SIZE = 4096"
definition SOCK_PATH_MAX :: nat where "SOCK_PATH_MAX = 32"

datatype sock_state = SOCK_UNBOUND | SOCK_LISTENING | SOCK_CONNECTING | SOCK_CONNECTED

record socket =
  sk_in_use :: bool
  sk_generation :: u16
  sk_state :: sock_state
  sk_owner :: tid
  sk_path :: "u8 list"
  sk_has_path :: bool
  sk_backlog_slot :: "nat list"
  sk_backlog_gen :: "u16 list"
  sk_backlog_head :: nat
  sk_backlog_tail :: nat
  sk_peer_idx :: int
  sk_peer_gen :: u16
  sk_peer_closed :: bool
  sk_ring :: "u8 list"
  sk_ring_head :: u32
  sk_ring_count :: u32

type_synonym sockets = "socket list"

definition socket_zero :: socket where
  "socket_zero = \<lparr>sk_in_use = False, sk_generation = 0, sk_state = SOCK_UNBOUND, sk_owner = 0,
     sk_path = replicate SOCK_PATH_MAX 0, sk_has_path = False,
     sk_backlog_slot = replicate SOCK_BACKLOG_MAX 0, sk_backlog_gen = replicate SOCK_BACKLOG_MAX 0,
     sk_backlog_head = 0, sk_backlog_tail = 0, sk_peer_idx = 0, sk_peer_gen = 0,
     sk_peer_closed = False, sk_ring = replicate SOCK_RING_SIZE 0, sk_ring_head = 0,
     sk_ring_count = 0\<rparr>"

definition sockets_init :: sockets where
  "sockets_init = replicate MAX_SOCKETS socket_zero"

section \<open>Operations\<close>

fun path_eq :: "u8 list \<Rightarrow> u8 list \<Rightarrow> bool" where
  "path_eq (x # a) (y # b) = (if x \<noteq> y then False else if x = 0 then True else path_eq a b)"
| "path_eq _ _ = True"

text \<open>The copy loop of \<open>sock_bind\<close>: up to and including the terminator, the rest keeps its bytes.\<close>

fun path_copy :: "u8 list \<Rightarrow> u8 list \<Rightarrow> u8 list" where
  "path_copy (d # ds) (x # xs) = x # (if x = 0 then ds else path_copy ds xs)"
| "path_copy ds _ = ds"

definition make_sockid :: "nat \<Rightarrow> u16 \<Rightarrow> u32" where
  "make_sockid slot gen = of_nat slot OR push_bit 8 (ucast gen)"

definition sockid_slot :: "u32 \<Rightarrow> nat" where
  "sockid_slot sockid = unat (sockid AND 0xFF)"

definition sockid_gen :: "u32 \<Rightarrow> u16" where
  "sockid_gen sockid = ucast (drop_bit 8 sockid)"

definition find_socket :: "sockets \<Rightarrow> u32 \<Rightarrow> nat option" where
  "find_socket socks sockid =
     (let slot = sockid_slot sockid
      in if slot \<ge> MAX_SOCKETS then None
         else if \<not> sk_in_use (socks ! slot) \<or> sk_generation (socks ! slot) \<noteq> sockid_gen sockid
         then None else Some slot)"

definition sock_create :: "sockets \<Rightarrow> tid \<Rightarrow> sockets \<times> (ipc_err + u32)" where
  "sock_create socks caller =
     (case first_slot (\<lambda>s. \<not> sk_in_use s) socks of
        None \<Rightarrow> (socks, Inl IPC_ERR_NO_SPACE)
      | Some slot \<Rightarrow>
          (let s = socks ! slot
           in (socks[slot := s\<lparr>sk_in_use := True, sk_state := SOCK_UNBOUND, sk_owner := caller,
                              sk_has_path := False, sk_backlog_head := 0, sk_backlog_tail := 0,
                              sk_peer_idx := -1, sk_peer_closed := False, sk_ring_head := 0,
                              sk_ring_count := 0\<rparr>],
               Inr (make_sockid slot (sk_generation s)))))"

text \<open>\<open>!s || s->owner_tid != caller\<close>\<close>

definition owned_socket :: "sockets \<Rightarrow> tid \<Rightarrow> u32 \<Rightarrow> nat option" where
  "owned_socket socks caller sockid =
     (case find_socket socks sockid of
        None \<Rightarrow> None
      | Some i \<Rightarrow> if sk_owner (socks ! i) \<noteq> caller then None else Some i)"

definition sock_bind :: "sockets \<Rightarrow> tid \<Rightarrow> u32 \<Rightarrow> u8 list \<Rightarrow> sockets \<times> (ipc_err + unit)" where
  "sock_bind socks caller sockid path =
     (case owned_socket socks caller sockid of
        None \<Rightarrow> (socks, Inl IPC_ERR_NOT_FOUND)
      | Some i \<Rightarrow>
          (let s = socks ! i
           in if sk_state s \<noteq> SOCK_UNBOUND then (socks, Inl IPC_ERR_INVALID)
              else if \<exists>t \<in> set socks. sk_in_use t \<and> sk_has_path t \<and> path_eq (sk_path t) path
              then (socks, Inl IPC_ERR_EXISTS)
              else (socks[i := s\<lparr>sk_path := (path_copy (sk_path s) path)[SOCK_PATH_MAX - 1 := 0],
                                sk_has_path := True\<rparr>], Inr ())))"

definition sock_listen :: "sockets \<Rightarrow> tid \<Rightarrow> u32 \<Rightarrow> sockets \<times> (ipc_err + unit)" where
  "sock_listen socks caller sockid =
     (case owned_socket socks caller sockid of
        None \<Rightarrow> (socks, Inl IPC_ERR_NOT_FOUND)
      | Some i \<Rightarrow>
          (let s = socks ! i
           in if \<not> sk_has_path s \<or> sk_state s \<noteq> SOCK_UNBOUND then (socks, Inl IPC_ERR_INVALID)
              else (socks[i := s\<lparr>sk_state := SOCK_LISTENING, sk_backlog_head := 0,
                                sk_backlog_tail := 0\<rparr>], Inr ())))"

definition sock_is_listener :: "u8 list \<Rightarrow> socket \<Rightarrow> bool" where
  "sock_is_listener path t \<longleftrightarrow> sk_in_use t \<and> sk_state t = SOCK_LISTENING \<and> sk_has_path t
     \<and> path_eq (sk_path t) path"

definition sock_connect :: "sockets \<Rightarrow> tid \<Rightarrow> u32 \<Rightarrow> u8 list \<Rightarrow> sockets \<times> (ipc_err + unit)" where
  "sock_connect socks caller sockid path =
     (case owned_socket socks caller sockid of
        None \<Rightarrow> (socks, Inl IPC_ERR_NOT_FOUND)
      | Some i \<Rightarrow>
          (let s = socks ! i
           in if sk_state s = SOCK_CONNECTED then (socks, Inr ())
              else if sk_state s = SOCK_CONNECTING then
                (if sk_peer_idx s < 0 then (socks, Inl IPC_ERR_WOULDBLOCK) else (socks, Inr ()))
              else if sk_state s \<noteq> SOCK_UNBOUND then (socks, Inl IPC_ERR_INVALID)
              else
                (case first_slot (sock_is_listener path) socks of
                   None \<Rightarrow> (socks, Inl IPC_ERR_NOT_FOUND)
                 | Some l \<Rightarrow>
                     (let listener = socks ! l;
                          next = (sk_backlog_tail listener + 1) mod SOCK_BACKLOG_MAX
                      in if next = sk_backlog_head listener then (socks, Inl IPC_ERR_NO_SPACE)
                         else
                           (let tail = sk_backlog_tail listener;
                                socks1 = socks[l := listener\<lparr>
                                  sk_backlog_slot := (sk_backlog_slot listener)[tail := i],
                                  sk_backlog_gen := (sk_backlog_gen listener)[tail := sk_generation s],
                                  sk_backlog_tail := next\<rparr>]
                            in (socks1[i := (socks1 ! i)\<lparr>sk_state := SOCK_CONNECTING,
                                                        sk_peer_idx := -1\<rparr>],
                                Inl IPC_ERR_WOULDBLOCK))))))"

text \<open>The loop of \<open>sock_accept\<close> that takes clients from the backlog until one is still connecting.
  The head moves through the ring of eight entries, so eight rounds are enough
  (\<open>sock_pop_client_spec\<close> below).\<close>

definition sock_waiting :: "sockets \<Rightarrow> nat \<Rightarrow> u16 \<Rightarrow> bool" where
  "sock_waiting socks slot gen \<longleftrightarrow> sk_in_use (socks ! slot) \<and> sk_generation (socks ! slot) = gen
     \<and> sk_state (socks ! slot) = SOCK_CONNECTING"

fun sock_pop_client :: "nat \<Rightarrow> nat \<Rightarrow> sockets \<Rightarrow> sockets \<times> nat option" where
  "sock_pop_client 0 l socks = (socks, None)"
| "sock_pop_client (Suc fuel) l socks =
     (let listener = socks ! l; head = sk_backlog_head listener
      in if head = sk_backlog_tail listener then (socks, None)
         else
           (let slot = sk_backlog_slot listener ! head; gen = sk_backlog_gen listener ! head;
                socks1 = socks[l := listener\<lparr>sk_backlog_head := (head + 1) mod SOCK_BACKLOG_MAX\<rparr>]
            in if sock_waiting socks1 slot gen then (socks1, Some slot)
               else sock_pop_client fuel l socks1))"

definition sock_accept :: "sockets \<Rightarrow> tid \<Rightarrow> u32 \<Rightarrow> sockets \<times> (ipc_err + u32)" where
  "sock_accept socks caller sockid =
     (case owned_socket socks caller sockid of
        None \<Rightarrow> (socks, Inl IPC_ERR_NOT_FOUND)
      | Some l \<Rightarrow>
          if sk_state (socks ! l) \<noteq> SOCK_LISTENING then (socks, Inl IPC_ERR_INVALID)
          else
            (case sock_pop_client SOCK_BACKLOG_MAX l socks of
               (socks1, None) \<Rightarrow> (socks1, Inl IPC_ERR_WOULDBLOCK)
             | (socks1, Some c) \<Rightarrow>
                 (case first_slot (\<lambda>s. \<not> sk_in_use s) socks1 of
                    None \<Rightarrow> (socks1, Inl IPC_ERR_NO_SPACE)
                  | Some n \<Rightarrow>
                      (let srv = socks1 ! n;
                           socks2 = socks1[n := srv\<lparr>sk_in_use := True, sk_state := SOCK_CONNECTED,
                             sk_owner := caller, sk_has_path := False, sk_peer_closed := False,
                             sk_ring_head := 0, sk_ring_count := 0, sk_peer_idx := int c,
                             sk_peer_gen := sk_generation (socks1 ! c)\<rparr>];
                           socks3 = socks2[c := (socks2 ! c)\<lparr>sk_peer_idx := int n,
                             sk_peer_gen := sk_generation (socks2 ! n),
                             sk_state := SOCK_CONNECTED\<rparr>]
                       in (socks3, Inr (make_sockid n (sk_generation (socks3 ! n))))))))"

text \<open>The copy loop of \<open>sock_read\<close>; the first argument is \<open>max - n\<close>.\<close>

fun sock_drain :: "nat \<Rightarrow> socket \<Rightarrow> u8 list \<times> socket" where
  "sock_drain 0 s = ([], s)"
| "sock_drain (Suc k) s =
     (if sk_ring_count s > 0
      then (let b = sk_ring s ! unat (sk_ring_head s);
                (out, s') = sock_drain k
                  (s\<lparr>sk_ring_head := (sk_ring_head s + 1) mod of_nat SOCK_RING_SIZE,
                     sk_ring_count := sk_ring_count s - 1\<rparr>)
            in (b # out, s'))
      else ([], s))"

definition sock_read :: "sockets \<Rightarrow> u32 \<Rightarrow> int \<Rightarrow> sockets \<times> (ipc_err + u8 list)" where
  "sock_read socks sockid max_len =
     (case find_socket socks sockid of
        None \<Rightarrow> (socks, Inl IPC_ERR_NOT_FOUND)
      | Some i \<Rightarrow>
          (let s = socks ! i
           in if sk_state s \<noteq> SOCK_CONNECTED then (socks, Inl IPC_ERR_INVALID)
              else if sk_ring_count s = 0 then
                (socks, if sk_peer_closed s then Inr [] else Inl IPC_ERR_WOULDBLOCK)
              else (case sock_drain (nat max_len) s of (out, s') \<Rightarrow> (socks[i := s'], Inr out))))"

text \<open>\<open>s->peer_idx\<close> still names the socket that was connected.\<close>

definition sock_peer_live :: "sockets \<Rightarrow> socket \<Rightarrow> bool" where
  "sock_peer_live socks s \<longleftrightarrow> 0 \<le> sk_peer_idx s \<and> sk_in_use (socks ! nat (sk_peer_idx s))
     \<and> sk_generation (socks ! nat (sk_peer_idx s)) = sk_peer_gen s"

definition sock_write :: "sockets \<Rightarrow> u32 \<Rightarrow> u8 list \<Rightarrow> int \<Rightarrow> sockets \<times> (ipc_err + int)" where
  "sock_write socks sockid buf len =
     (case find_socket socks sockid of
        None \<Rightarrow> (socks, Inl IPC_ERR_NOT_FOUND)
      | Some i \<Rightarrow>
          (let s = socks ! i
           in if sk_state s \<noteq> SOCK_CONNECTED then (socks, Inl IPC_ERR_INVALID)
              else if \<not> sock_peer_live socks s then (socks, Inl IPC_ERR_NOT_FOUND)
              else
                (let j = nat (sk_peer_idx s); peer = socks ! j;
                     space = sint (of_nat SOCK_RING_SIZE - sk_ring_count peer);
                     n = (if len < space then len else space);
                     tail = (sk_ring_head peer + sk_ring_count peer) mod of_nat SOCK_RING_SIZE
                 in (socks[j := peer\<lparr>sk_ring := ring_write (sk_ring peer) (unat tail) (take (nat n) buf),
                                    sk_ring_count := sk_ring_count peer + word_of_int n\<rparr>],
                     Inr n))))"

text \<open>The common body of \<open>sock_close\<close> and \<open>sock_cleanup_for_process\<close>.\<close>

definition sock_release :: "nat \<Rightarrow> sockets \<Rightarrow> sockets" where
  "sock_release i socks =
     (let s = socks ! i; j = nat (sk_peer_idx s);
          socks1 = (if sk_state s = SOCK_CONNECTED \<and> sock_peer_live socks s
                    then socks[j := (socks ! j)\<lparr>sk_peer_closed := True\<rparr>] else socks)
      in socks1[i := (socks1 ! i)\<lparr>sk_in_use := False,
                                 sk_generation := sk_generation (socks1 ! i) + 1\<rparr>])"

definition sock_close :: "sockets \<Rightarrow> tid \<Rightarrow> u32 \<Rightarrow> sockets \<times> (ipc_err + unit)" where
  "sock_close socks caller sockid =
     (case owned_socket socks caller sockid of
        None \<Rightarrow> (socks, Inl IPC_ERR_NOT_FOUND)
      | Some i \<Rightarrow> (sock_release i socks, Inr ()))"

definition sock_cleanup_for_process :: "tid \<Rightarrow> sockets \<Rightarrow> sockets" where
  "sock_cleanup_for_process t socks =
     fold (\<lambda>i socks. if \<not> sk_in_use (socks ! i) \<or> sk_owner (socks ! i) \<noteq> t then socks
                     else sock_release i socks) [0..<MAX_SOCKETS] socks"

section \<open>Invariant and abstraction\<close>

definition socket_ok :: "socket \<Rightarrow> bool" where
  "socket_ok s \<longleftrightarrow> length (sk_path s) = SOCK_PATH_MAX
     \<and> length (sk_backlog_slot s) = SOCK_BACKLOG_MAX \<and> length (sk_backlog_gen s) = SOCK_BACKLOG_MAX
     \<and> sk_backlog_head s < SOCK_BACKLOG_MAX \<and> sk_backlog_tail s < SOCK_BACKLOG_MAX
     \<and> (\<forall>i \<in> set (sk_backlog_slot s). i < MAX_SOCKETS)
     \<and> -1 \<le> sk_peer_idx s \<and> sk_peer_idx s < int MAX_SOCKETS
     \<and> length (sk_ring s) = SOCK_RING_SIZE \<and> unat (sk_ring_head s) < SOCK_RING_SIZE
     \<and> unat (sk_ring_count s) \<le> SOCK_RING_SIZE"

definition sockets_ok :: "sockets \<Rightarrow> bool" where
  "sockets_ok socks \<longleftrightarrow> length socks = MAX_SOCKETS \<and> (\<forall>s \<in> set socks. socket_ok s)"

text \<open>The bytes that wait in a socket, and the clients that wait in a backlog.\<close>

definition sock_data :: "socket \<Rightarrow> u8 list" where
  "sock_data s = ring_view (sk_ring s) (unat (sk_ring_head s)) (unat (sk_ring_count s))"

definition sock_backlog :: "socket \<Rightarrow> (nat \<times> u16) list" where
  "sock_backlog s = ring_view (zip (sk_backlog_slot s) (sk_backlog_gen s)) (sk_backlog_head s)
     ((sk_backlog_tail s + SOCK_BACKLOG_MAX - sk_backlog_head s) mod SOCK_BACKLOG_MAX)"

section \<open>Shared facts\<close>

lemmas sock_size_defs = MAX_SOCKETS_def SOCK_BACKLOG_MAX_def SOCK_RING_SIZE_def SOCK_PATH_MAX_def

lemma sockets_ok_nth: "sockets_ok socks \<Longrightarrow> i < MAX_SOCKETS \<Longrightarrow> socket_ok (socks ! i) \<and> i < length socks"
  by (simp add: sockets_ok_def)

lemma sockets_ok_update: "sockets_ok socks \<Longrightarrow> socket_ok s \<Longrightarrow> sockets_ok (socks[i := s])"
  using all_set_update [of socks socket_ok s i] by (simp add: sockets_ok_def)

lemma find_socket_less: "find_socket socks sockid = Some i \<Longrightarrow> i < MAX_SOCKETS"
  by (auto simp: find_socket_def Let_def split: if_splits)

lemma owned_socketD:
  "owned_socket socks t sockid = Some i \<Longrightarrow> find_socket socks sockid = Some i \<and> sk_owner (socks ! i) = t"
  by (auto simp: owned_socket_def split: option.splits if_splits)

lemma find_socketD:
  "find_socket socks sockid = Some i \<Longrightarrow> i = sockid_slot sockid \<and> i < MAX_SOCKETS \<and> sk_in_use (socks ! i)
     \<and> sk_generation (socks ! i) = sockid_gen sockid"
  by (auto simp: find_socket_def Let_def split: if_splits)

lemma length_path_copy [simp]: "length (path_copy ds xs) = length ds"
  by (induction ds xs rule: path_copy.induct) auto

lemma ring_idx_word:
  fixes h :: u32
  shows "unat (h mod of_nat SOCK_RING_SIZE) = unat h mod SOCK_RING_SIZE"
  by (simp add: unat_mod_distrib SOCK_RING_SIZE_def)

lemma sockid_roundtrip:
  assumes "slot < MAX_SOCKETS"
  shows "sockid_slot (make_sockid slot gen) = slot" and "sockid_gen (make_sockid slot gen) = gen"
proof -
  have i: "slot < 2 ^ 8" using assms by (simp add: sock_size_defs)
  have m: "(0xFF :: u32) = mask 8" by (simp add: mask_eq_exp_minus_1)
  have b: "bit slot n \<Longrightarrow> n < 8" for n using i by (rule nat_bit_bound)
  have lo: "make_sockid slot gen AND 0xFF = of_nat slot"
    unfolding m make_sockid_def by (auto intro!: bit_word_eqI simp: bit_simps dest: b)
  have "unat (of_nat slot :: u32) = slot" using i by (intro word_of_nat_less_lt) simp
  with lo show "sockid_slot (make_sockid slot gen) = slot" by (simp add: sockid_slot_def)
  show "sockid_gen (make_sockid slot gen) = gen"
    unfolding sockid_gen_def make_sockid_def by (auto intro!: bit_word_eqI simp: bit_simps dest: b)
qed

text \<open>The drain loop returns a prefix of the waiting bytes.\<close>

lemma sock_drain_step:
  assumes "socket_ok s" "sk_ring_count s > 0"
  defines "s' \<equiv> s\<lparr>sk_ring_head := (sk_ring_head s + 1) mod of_nat SOCK_RING_SIZE,
                  sk_ring_count := sk_ring_count s - 1\<rparr>"
  shows "socket_ok s'" and "sock_data s = sk_ring s ! unat (sk_ring_head s) # sock_data s'"
proof -
  have c: "unat (sk_ring_count s) > 0" using assms(2) by (simp add: word_less_nat_alt)
  have c': "unat (sk_ring_count s - 1) = unat (sk_ring_count s) - 1"
    using assms(2) by (simp add: unat_minus_one word_gt_0)
  have h: "unat (sk_ring_head s) < 4096" and len: "length (sk_ring s) = SOCK_RING_SIZE"
    using assms(1) by (simp_all add: socket_ok_def SOCK_RING_SIZE_def)
  have "unat (sk_ring_head s + 1) = unat (sk_ring_head s) + 1"
    using h by (subst unat_add_lem [THEN iffD1]) simp_all
  then have h': "unat (sk_ring_head s') = (unat (sk_ring_head s) + 1) mod SOCK_RING_SIZE"
    by (simp add: s'_def ring_idx_word)
  show "socket_ok s'" using assms(1) c' h' by (auto simp: socket_ok_def s'_def SOCK_RING_SIZE_def)
  show "sock_data s = sk_ring s ! unat (sk_ring_head s) # sock_data s'"
    using ring_view_Cons [OF c, of "unat (sk_ring_head s)" "sk_ring s"] h len c' h'
    by (simp add: sock_data_def s'_def SOCK_RING_SIZE_def)
qed

lemma sock_drain_spec:
  "socket_ok s \<Longrightarrow> sock_drain k s = (out, s') \<Longrightarrow>
    out = take k (sock_data s) \<and> sock_data s' = drop k (sock_data s) \<and> socket_ok s'"
proof (induction k s arbitrary: out s' rule: sock_drain.induct)
  case (1 s)
  then show ?case by simp
next
  case (2 k s)
  show ?case
  proof (cases "sk_ring_count s > 0")
    case True
    let ?s = "s\<lparr>sk_ring_head := (sk_ring_head s + 1) mod of_nat SOCK_RING_SIZE,
               sk_ring_count := sk_ring_count s - 1\<rparr>"
    obtain o1 s1 where d: "sock_drain k ?s = (o1, s1)" by (cases "sock_drain k ?s")
    note st = sock_drain_step [OF 2(2) True]
    from 2(1) [OF True refl st(1) d] st(2) 2(3) True d show ?thesis by simp
  next
    case False
    then have "sock_data s = []" by (simp add: sock_data_def word_gt_0)
    with False 2(2,3) show ?thesis by simp
  qed
qed

text \<open>A write of a non-negative length appends a prefix of the buffer to the peer's bytes.\<close>

definition sock_put :: "socket \<Rightarrow> u8 list \<Rightarrow> socket" where
  "sock_put peer bs = peer\<lparr>sk_ring := ring_write (sk_ring peer)
       (unat ((sk_ring_head peer + sk_ring_count peer) mod of_nat SOCK_RING_SIZE)) bs,
     sk_ring_count := sk_ring_count peer + of_nat (length bs)\<rparr>"

lemma sock_put_ok:
  assumes "socket_ok s" "unat (sk_ring_count s) + length bs \<le> SOCK_RING_SIZE"
  shows "socket_ok (sock_put s bs)" and "sock_data (sock_put s bs) = sock_data s @ bs"
proof -
  have h: "unat (sk_ring_head s) < 4096" and c: "unat (sk_ring_count s) \<le> 4096"
    and len: "length (sk_ring s) = SOCK_RING_SIZE"
    using assms(1) by (simp_all add: socket_ok_def SOCK_RING_SIZE_def)
  have tl: "unat (sk_ring_head s + sk_ring_count s) = unat (sk_ring_head s) + unat (sk_ring_count s)"
    using h c by (subst unat_add_lem [THEN iffD1]) simp_all
  have lb: "length bs < 2 ^ 32" using assms(2) by (simp add: SOCK_RING_SIZE_def)
  then have "unat (of_nat (length bs) :: u32) = length bs" by (intro word_of_nat_less_lt) simp
  with assms(2) have cnt: "unat (sk_ring_count s + of_nat (length bs)) = unat (sk_ring_count s) + length bs"
    by (subst unat_add_lem [THEN iffD1]) (simp_all add: SOCK_RING_SIZE_def)
  show "socket_ok (sock_put s bs)" using assms cnt by (auto simp: socket_ok_def sock_put_def)
  have "unat (sk_ring_count s) + length bs \<le> length (sk_ring s)" using assms(2) len by simp
  from ring_view_write [OF this, of "unat (sk_ring_head s)"]
  show "sock_data (sock_put s bs) = sock_data s @ bs"
    using ring_write_mod [of "sk_ring s" "unat (sk_ring_head s) + unat (sk_ring_count s)" bs] len cnt tl
    by (simp add: sock_data_def sock_put_def ring_idx_word)
qed

lemma sock_write_spec:
  assumes "sockets_ok socks" "find_socket socks a = Some i" "sk_state (socks ! i) = SOCK_CONNECTED"
    and "sock_peer_live socks (socks ! i)" "0 \<le> len" "nat len \<le> length buf"
  defines "j \<equiv> nat (sk_peer_idx (socks ! i))"
  defines "n \<equiv> min (nat len) (SOCK_RING_SIZE - length (sock_data (socks ! j)))"
  shows "sock_write socks a buf len = (socks[j := sock_put (socks ! j) (take n buf)], Inr (int n))"
    and "j < MAX_SOCKETS"
    and "socket_ok (sock_put (socks ! j) (take n buf))"
    and "sock_data (sock_put (socks ! j) (take n buf)) = sock_data (socks ! j) @ take n buf"
proof -
  have "socket_ok (socks ! i)" using sockets_ok_nth assms(1,2) find_socket_less by blast
  then show j: "j < MAX_SOCKETS"
    using assms(4) by (simp add: j_def socket_ok_def sock_peer_live_def nat_less_iff)
  let ?p = "socks ! j"
  have ok: "socket_ok ?p" using sockets_ok_nth [OF assms(1) j] by simp
  then have c: "unat (sk_ring_count ?p) \<le> 4096" by (simp add: socket_ok_def SOCK_RING_SIZE_def)
  have d: "length (sock_data ?p) = unat (sk_ring_count ?p)" by (simp add: sock_data_def)
  have "unat (of_nat SOCK_RING_SIZE - sk_ring_count ?p) = 4096 - unat (sk_ring_count ?p)"
    using c by (subst unat_sub) (simp_all add: word_le_nat_alt SOCK_RING_SIZE_def)
  then have sp: "sint (of_nat SOCK_RING_SIZE - sk_ring_count ?p) = int (4096 - unat (sk_ring_count ?p))"
    by (subst sint_small) simp_all
  then have nn: "(if len < sint (of_nat SOCK_RING_SIZE - sk_ring_count ?p) then len
       else sint (of_nat SOCK_RING_SIZE - sk_ring_count ?p)) = int n"
    using assms(5) d by (simp add: n_def SOCK_RING_SIZE_def)
  have ln: "length (take n buf) = n" using assms(6) by (simp add: n_def)
  show "sock_write socks a buf len = (socks[j := sock_put ?p (take n buf)], Inr (int n))"
    using assms(2,3,4) nn ln by (simp add: sock_write_def Let_def j_def [symmetric] sock_put_def)
  have room: "unat (sk_ring_count ?p) + length (take n buf) \<le> SOCK_RING_SIZE"
    unfolding ln using d c by (simp add: n_def SOCK_RING_SIZE_def min_def) linarith
  show "socket_ok (sock_put ?p (take n buf))" "sock_data (sock_put ?p (take n buf)) = sock_data ?p @ take n buf"
    using sock_put_ok [OF ok room] by auto
qed

section \<open>A connection as a byte stream\<close>

text \<open>Socket \<open>a\<close> is connected to socket \<open>b\<close>; reads and writes as the system call issues them, in
  chunks of at most 24 bytes, where an error moves no byte.\<close>

definition sock_conn :: "u32 \<Rightarrow> u32 \<Rightarrow> sockets \<Rightarrow> bool" where
  "sock_conn a b socks \<longleftrightarrow> sockets_ok socks
     \<and> find_socket socks a = Some (sockid_slot a) \<and> find_socket socks b = Some (sockid_slot b)
     \<and> sk_state (socks ! sockid_slot a) = SOCK_CONNECTED \<and> sk_state (socks ! sockid_slot b) = SOCK_CONNECTED
     \<and> sock_peer_live socks (socks ! sockid_slot a)
     \<and> sk_peer_idx (socks ! sockid_slot a) = int (sockid_slot b)"

definition sock_wr :: "u32 \<Rightarrow> u8 list \<Rightarrow> sockets \<Rightarrow> nat \<times> sockets" where
  "sock_wr a bs socks =
     (case sock_write socks a (take 24 bs) (int (length (take 24 bs))) of
        (socks', Inl _) \<Rightarrow> (0, socks') | (socks', Inr n) \<Rightarrow> (nat n, socks'))"

definition sock_rd :: "u32 \<Rightarrow> nat \<Rightarrow> sockets \<Rightarrow> u8 list \<times> sockets" where
  "sock_rd b k socks =
     (case sock_read socks b (int k) of
        (socks', Inl _) \<Rightarrow> ([], socks') | (socks', Inr out) \<Rightarrow> (out, socks'))"

definition sock_same :: "socket \<Rightarrow> socket \<Rightarrow> bool" where
  "sock_same s t \<longleftrightarrow> sk_in_use s = sk_in_use t \<and> sk_generation s = sk_generation t
     \<and> sk_state s = sk_state t \<and> sk_peer_idx s = sk_peer_idx t \<and> sk_peer_gen s = sk_peer_gen t"

lemma sock_conn_update:
  assumes "sock_conn a b socks" "socket_ok t" "sock_same (socks ! k) t"
  shows "sock_conn a b (socks[k := t])"
proof -
  have eq: "sock_same (socks ! i) (socks[k := t] ! i)" for i
    using assms(3) by (cases "i = k"; cases "k < length socks") (auto simp: sock_same_def list_update_beyond)
  have ok: "sockets_ok (socks[k := t])"
    using assms by (intro sockets_ok_update) (simp_all add: sock_conn_def)
  show ?thesis
    using assms(1) ok eq [of "sockid_slot a"] eq [of "sockid_slot b"] eq
    by (auto simp: sock_conn_def sock_same_def find_socket_def sock_peer_live_def Let_def split: if_splits)
qed

lemma sock_same_put: "sock_same s (sock_put s bs)"
  by (simp add: sock_same_def sock_put_def)

lemma sock_same_drain: "sock_drain k s = (out, s') \<Longrightarrow> sock_same s s'"
  by (induction k s arbitrary: out s' rule: sock_drain.induct)
    (auto simp: sock_same_def Let_def split: if_splits prod.splits)

lemma sock_wr_law:
  assumes c: "sock_conn a b socks" and w: "sock_wr a bs socks = (n, socks')"
  shows "sock_data (socks' ! sockid_slot b) = sock_data (socks ! sockid_slot b) @ take n bs \<and> sock_conn a b socks'"
proof -
  let ?i = "sockid_slot a" and ?j = "sockid_slot b" and ?buf = "take 24 bs"
  have ok: "sockets_ok socks" and f: "find_socket socks a = Some ?i"
    and st: "sk_state (socks ! ?i) = SOCK_CONNECTED" and pl: "sock_peer_live socks (socks ! ?i)"
    and pj: "nat (sk_peer_idx (socks ! ?i)) = ?j" using c by (auto simp: sock_conn_def)
  define m where "m = min (length ?buf) (SOCK_RING_SIZE - length (sock_data (socks ! ?j)))"
  note sp = sock_write_spec [OF ok f st pl, of "int (length ?buf)" ?buf, unfolded pj nat_int, folded m_def]
  have mn: "n = m" "socks' = socks[?j := sock_put (socks ! ?j) (take m ?buf)]"
    using w sp(1) by (auto simp: sock_wr_def)
  have "take m ?buf = take m bs" by (simp add: m_def min_def)
  moreover have "?j < length socks" using sp(2) ok by (simp add: sockets_ok_def)
  ultimately have "sock_data (socks' ! ?j) = sock_data (socks ! ?j) @ take n bs" using sp(4) mn by simp
  moreover have "sock_conn a b socks'"
    unfolding mn using sp(3) by (intro sock_conn_update [OF c] sock_same_put) simp
  ultimately show ?thesis by simp
qed

lemma sock_rd_law:
  assumes c: "sock_conn a b socks" and r: "sock_rd b k socks = (ys, socks')"
  shows "sock_data (socks ! sockid_slot b) = ys @ sock_data (socks' ! sockid_slot b) \<and> sock_conn a b socks'"
proof -
  let ?j = "sockid_slot b" and ?s = "socks ! sockid_slot b"
  have f: "find_socket socks b = Some ?j" and st: "sk_state ?s = SOCK_CONNECTED"
    and sok: "sockets_ok socks" using c by (auto simp: sock_conn_def)
  have ok: "socket_ok ?s" and jl: "?j < length socks" using sockets_ok_nth [OF sok find_socket_less [OF f]] by auto
  show ?thesis
  proof (cases "sk_ring_count ?s = 0")
    case True
    then have "ys = []" "socks' = socks" using r f st by (auto simp: sock_rd_def sock_read_def split: if_splits)
    with c show ?thesis by simp
  next
    case False
    obtain out s' where d: "sock_drain k ?s = (out, s')" by (cases "sock_drain k ?s")
    have "ys = out" "socks' = socks[?j := s']" using r f st False d by (auto simp: sock_rd_def sock_read_def)
    moreover note sock_drain_spec [OF ok d] sock_same_drain [OF d]
    ultimately show ?thesis using jl sock_conn_update [OF c] by simp
  qed
qed

interpretation sock_io: chunk_stream "\<lambda>socks. sock_data (socks ! sockid_slot b)" "sock_conn a b"
    "sock_wr a" "sock_rd b" for a b :: u32
  by unfold_locales (auto dest: sock_wr_law sock_rd_law)

section \<open>Histories of calls\<close>

datatype sock_call =
    CCreate tid | CBind tid u32 "u8 list" | CListen tid u32 | CConnect tid u32 "u8 list"
  | CAccept tid u32 | CRead u32 int | CWrite u32 "u8 list" int | CClose tid u32 | CCleanup tid

fun sock_step :: "sock_call \<Rightarrow> sockets \<Rightarrow> sockets" where
  "sock_step (CCreate t) socks = fst (sock_create socks t)"
| "sock_step (CBind t a p) socks = fst (sock_bind socks t a p)"
| "sock_step (CListen t a) socks = fst (sock_listen socks t a)"
| "sock_step (CConnect t a p) socks = fst (sock_connect socks t a p)"
| "sock_step (CAccept t a) socks = fst (sock_accept socks t a)"
| "sock_step (CRead a m) socks = fst (sock_read socks a m)"
| "sock_step (CWrite a buf len) socks = fst (sock_write socks a buf len)"
| "sock_step (CClose t a) socks = fst (sock_close socks t a)"
| "sock_step (CCleanup t) socks = sock_cleanup_for_process t socks"

text \<open>The length of a write is not negative and does not exceed its buffer.\<close>

fun sock_call_ok :: "sock_call \<Rightarrow> bool" where
  "sock_call_ok (CWrite a buf len) \<longleftrightarrow> 0 \<le> len \<and> nat len \<le> length buf"
| "sock_call_ok _ \<longleftrightarrow> True"

text \<open>Links: a connected socket names its peer, and as long as the peer's generation has not moved
  on, the peer is connected back to it. The bound \<open>k\<close> counts how often the peer's slot can have
  been released since.\<close>

definition sock_link :: "(nat \<Rightarrow> nat) \<Rightarrow> sockets \<Rightarrow> nat \<Rightarrow> bool" where
  "sock_link k socks i \<longleftrightarrow>
     (let s = socks ! i; j = nat (sk_peer_idx s); t = socks ! j
      in sk_in_use s \<and> sk_state s = SOCK_CONNECTED \<longrightarrow>
         0 \<le> sk_peer_idx s \<and> unat (sk_generation t - sk_peer_gen s) \<le> k j
         \<and> (sk_generation t = sk_peer_gen s \<longrightarrow> sk_in_use t \<and> sk_state t = SOCK_CONNECTED
               \<and> sk_peer_idx t = int i \<and> sk_peer_gen t = sk_generation s))"

definition sock_links :: "(nat \<Rightarrow> nat) \<Rightarrow> sockets \<Rightarrow> bool" where
  "sock_links k socks \<longleftrightarrow> sockets_ok socks \<and> (\<forall>i < MAX_SOCKETS. sock_link k socks i)"

lemma sock_links_mono: "sock_links k socks \<Longrightarrow> (\<And>j. k j \<le> k' j) \<Longrightarrow> sock_links k' socks"
  by (auto simp: sock_links_def sock_link_def Let_def intro: order_trans)

lemma sock_linksD:
  assumes "sock_links k socks" "i < MAX_SOCKETS" "sk_in_use (socks ! i)" "sk_state (socks ! i) = SOCK_CONNECTED"
  defines "j \<equiv> nat (sk_peer_idx (socks ! i))"
  shows "j < MAX_SOCKETS" "0 \<le> sk_peer_idx (socks ! i)"
    and "unat (sk_generation (socks ! j) - sk_peer_gen (socks ! i)) \<le> k j"
    and "sk_generation (socks ! j) = sk_peer_gen (socks ! i) \<Longrightarrow> sk_in_use (socks ! j)
      \<and> sk_state (socks ! j) = SOCK_CONNECTED \<and> sk_peer_idx (socks ! j) = int i
      \<and> sk_peer_gen (socks ! j) = sk_generation (socks ! i)"
proof -
  have l: "sock_link k socks i" and ok: "socket_ok (socks ! i)"
    using assms sockets_ok_nth by (auto simp: sock_links_def)
  then have p: "0 \<le> sk_peer_idx (socks ! i)" using assms by (simp add: sock_link_def Let_def)
  with ok show "j < MAX_SOCKETS" by (simp add: j_def socket_ok_def nat_less_iff)
  from p show "0 \<le> sk_peer_idx (socks ! i)" .
  show "unat (sk_generation (socks ! j) - sk_peer_gen (socks ! i)) \<le> k j"
    using l assms by (simp add: sock_link_def Let_def)
  show "sk_generation (socks ! j) = sk_peer_gen (socks ! i) \<Longrightarrow> sk_in_use (socks ! j)
      \<and> sk_state (socks ! j) = SOCK_CONNECTED \<and> sk_peer_idx (socks ! j) = int i
      \<and> sk_peer_gen (socks ! j) = sk_generation (socks ! i)"
    using l assms by (simp add: sock_link_def Let_def)
qed

text \<open>Three ways in which a slot changes: its link fields stay, it gets a state other than
  connected while nobody was connected to it, or it is released.\<close>

lemma sock_links_same:
  assumes "sock_links k socks" "socket_ok t" "sock_same (socks ! x) t"
  shows "sock_links k (socks[x := t])"
proof -
  have eq: "sock_same (socks ! i) (socks[x := t] ! i)" for i
    using assms(3) by (cases "i = x"; cases "x < length socks") (auto simp: sock_same_def list_update_beyond)
  have "sock_link k (socks[x := t]) i = sock_link k socks i" for i
    using eq [of i] eq [of "nat (sk_peer_idx (socks ! i))"] by (auto simp: sock_same_def sock_link_def Let_def)
  with assms(1) sockets_ok_update [OF _ assms(2)] show ?thesis by (simp add: sock_links_def)
qed

lemma sock_links_reset:
  assumes "sock_links k socks" "socket_ok t" "x < MAX_SOCKETS"
    and "\<not> (sk_in_use (socks ! x) \<and> sk_state (socks ! x) = SOCK_CONNECTED)"
    and "sk_state t \<noteq> SOCK_CONNECTED" "sk_generation t = sk_generation (socks ! x)"
  shows "sock_links k (socks[x := t])"
proof -
  have len: "x < length socks" using assms(1,3) by (simp add: sock_links_def sockets_ok_def)
  have "sock_link k (socks[x := t]) i" if i: "i < MAX_SOCKETS" for i
  proof (cases "i = x \<or> \<not> (sk_in_use (socks ! i) \<and> sk_state (socks ! i) = SOCK_CONNECTED)")
    case True
    with assms(5) len show ?thesis by (auto simp: sock_link_def Let_def nth_update_if)
  next
    case False
    note d = sock_linksD [OF assms(1) i]
    from False d assms(4,6) len show ?thesis
      by (cases "nat (sk_peer_idx (socks ! i)) = x") (auto simp: sock_link_def Let_def nth_update_if)
  qed
  with assms(1,2) sockets_ok_update show ?thesis by (simp add: sock_links_def)
qed

lemma sock_release_same:
  assumes "sock_links k socks" "i < MAX_SOCKETS"
  defines "socks1 \<equiv> (if sk_state (socks ! i) = SOCK_CONNECTED \<and> sock_peer_live socks (socks ! i)
     then socks[nat (sk_peer_idx (socks ! i)) := (socks ! nat (sk_peer_idx (socks ! i)))\<lparr>sk_peer_closed := True\<rparr>]
     else socks)"
  shows "sock_links k socks1"
proof (cases "sk_state (socks ! i) = SOCK_CONNECTED \<and> sock_peer_live socks (socks ! i)")
  case True
  let ?j = "nat (sk_peer_idx (socks ! i))"
  have ok: "sockets_ok socks" using assms(1) by (simp add: sock_links_def)
  then have "socket_ok (socks ! i)" using sockets_ok_nth assms(2) by blast
  then have "?j < MAX_SOCKETS" using True by (simp add: socket_ok_def sock_peer_live_def nat_less_iff)
  then have "socket_ok (socks ! ?j)" using sockets_ok_nth [OF ok] by blast
  then have "socket_ok ((socks ! ?j)\<lparr>sk_peer_closed := True\<rparr>)" by (simp add: socket_ok_def)
  then have "sock_links k (socks[?j := (socks ! ?j)\<lparr>sk_peer_closed := True\<rparr>])"
    by (rule sock_links_same [OF assms(1)]) (simp add: sock_same_def)
  with True show ?thesis by (simp add: socks1_def)
next
  case False
  with assms(1) show ?thesis by (auto simp: socks1_def)
qed

lemma gen16_step:
  fixes g p :: u16
  assumes "unat (g - p) \<le> k" "k + 1 < 65536"
  shows "unat (g + 1 - p) \<le> k + 1" and "g + 1 \<noteq> p"
proof -
  have e: "g + 1 - p = (g - p) + 1" by simp
  have u: "unat (g + 1 - p) = unat (g - p) + 1"
    unfolding e using assms by (subst unat_add_lem [THEN iffD1]) simp_all
  then show "unat (g + 1 - p) \<le> k + 1" using assms by simp
  show "g + 1 \<noteq> p"
  proof
    assume "g + 1 = p"
    with u show False by simp
  qed
qed

lemma sock_links_free:
  assumes "sock_links k socks" "x < MAX_SOCKETS" "k x + 1 < 65536"
  shows "sock_links (k(x := k x + 1)) (socks[x := (socks ! x)\<lparr>sk_in_use := False,
           sk_generation := sk_generation (socks ! x) + 1\<rparr>])"
    (is "sock_links ?k (socks[x := ?t])")
proof -
  have len: "x < length socks" and okx: "socket_ok (socks ! x)"
    using assms(1,2) sockets_ok_nth by (auto simp: sock_links_def)
  have "sock_link ?k (socks[x := ?t]) i" if i: "i < MAX_SOCKETS" for i
  proof (cases "i = x \<or> \<not> (sk_in_use (socks ! i) \<and> sk_state (socks ! i) = SOCK_CONNECTED)")
    case True
    with len show ?thesis by (auto simp: sock_link_def Let_def nth_update_if)
  next
    case False
    then have iu: "sk_in_use (socks ! i)" "sk_state (socks ! i) = SOCK_CONNECTED" and ne: "i \<noteq> x" by auto
    note d = sock_linksD [OF assms(1) i iu]
    let ?j = "nat (sk_peer_idx (socks ! i))"
    show ?thesis
    proof (cases "?j = x")
      case True
      from gen16_step [OF d(3)] assms(3) True d(2) iu ne len show ?thesis
        by (simp add: sock_link_def Let_def nth_update_if)
    next
      case False
      with d iu ne len show ?thesis by (auto simp: sock_link_def Let_def nth_update_if)
    qed
  qed
  moreover have "socket_ok ?t" using okx by (simp add: socket_ok_def)
  ultimately show ?thesis using assms(1) sockets_ok_update by (simp add: sock_links_def)
qed

lemma sock_links_release:
  "sock_links k socks \<Longrightarrow> i < MAX_SOCKETS \<Longrightarrow> k i + 1 < 65536 \<Longrightarrow>
    sock_links (k(i := k i + 1)) (sock_release i socks)"
  using sock_links_free [OF sock_release_same] by (simp add: sock_release_def Let_def)

lemma sock_links_cleanup_list:
  assumes "sock_links k socks" "\<forall>j. k j + 1 < 65536" "distinct xs" "\<forall>x \<in> set xs. x < MAX_SOCKETS"
  shows "sock_links (\<lambda>j. k j + (if j \<in> set xs then 1 else 0))
    (fold (\<lambda>i socks. if \<not> sk_in_use (socks ! i) \<or> sk_owner (socks ! i) \<noteq> t then socks
                     else sock_release i socks) xs socks)"
  using assms(1,3,4)
proof (induction xs rule: rev_induct)
  case Nil
  then show ?case by simp
next
  case (snoc x xs)
  let ?f = "\<lambda>i socks. if \<not> sk_in_use (socks ! i) \<or> sk_owner (socks ! i) \<noteq> t then socks
                     else sock_release i socks"
  let ?k = "\<lambda>j. k j + (if j \<in> set xs then 1 else 0)"
  have ih: "sock_links ?k (fold ?f xs socks)" using snoc by simp
  have "sock_links (?k(x := ?k x + 1)) (?f x (fold ?f xs socks))"
    using sock_links_release [OF ih, of x] sock_links_mono [OF ih, of "?k(x := ?k x + 1)"] assms(2) snoc.prems
    by auto
  then show ?case by (rule sock_links_mono [THEN back_subst [of "\<lambda>s. sock_links _ s"]]) (use snoc.prems in auto)
qed

lemma sock_links_okD: "sock_links k socks \<Longrightarrow> i < MAX_SOCKETS \<Longrightarrow> socket_ok (socks ! i) \<and> i < length socks"
  using sockets_ok_nth by (simp add: sock_links_def)

lemma free_slot_less:
  "sock_links k socks \<Longrightarrow> first_slot P socks = Some i \<Longrightarrow> i < MAX_SOCKETS"
  using first_slot_less [of P socks i] by (simp add: sock_links_def sockets_ok_def)

lemma socket_ok_reset:
  "socket_ok s \<Longrightarrow> socket_ok (s\<lparr>sk_in_use := u, sk_state := st, sk_owner := t, sk_has_path := False,
     sk_backlog_head := 0, sk_backlog_tail := 0, sk_peer_idx := -1, sk_peer_closed := False,
     sk_ring_head := 0, sk_ring_count := 0\<rparr>)"
  by (simp add: socket_ok_def sock_size_defs)

lemma sock_links_create: "sock_links k socks \<Longrightarrow> sock_links k (fst (sock_create socks t))"
  unfolding sock_create_def
  by (auto simp: Let_def split: option.split intro!: sock_links_reset socket_ok_reset
      dest: sock_links_okD free_slot_less first_slot_SomeD)

lemma owned_socket_less: "owned_socket socks t a = Some i \<Longrightarrow> i < MAX_SOCKETS"
  using owned_socketD find_socket_less by blast

lemma sock_links_bind: "sock_links k socks \<Longrightarrow> sock_links k (fst (sock_bind socks t a p))"
  unfolding sock_bind_def
  by (auto simp: Let_def sock_same_def socket_ok_def split: option.split intro!: sock_links_same
      dest!: owned_socket_less dest: sock_links_okD)

lemma sock_links_listen: "sock_links k socks \<Longrightarrow> sock_links k (fst (sock_listen socks t a))"
  unfolding sock_listen_def
  by (auto simp: Let_def socket_ok_def split: option.split intro!: sock_links_reset
      dest!: owned_socket_less dest: sock_links_okD)

lemma socket_ok_backlog_push:
  "socket_ok s \<Longrightarrow> i < MAX_SOCKETS \<Longrightarrow>
    socket_ok (s\<lparr>sk_backlog_slot := (sk_backlog_slot s)[q := i], sk_backlog_gen := (sk_backlog_gen s)[q := g],
       sk_backlog_tail := n mod SOCK_BACKLOG_MAX\<rparr>)"
  using all_set_update [of "sk_backlog_slot s" "\<lambda>i. i < MAX_SOCKETS" i q]
  by (simp add: socket_ok_def SOCK_BACKLOG_MAX_def)

lemma sock_links_connect:
  assumes "sock_links k socks"
  shows "sock_links k (fst (sock_connect socks t a p))"
proof (cases "owned_socket socks t a")
  case None
  with assms show ?thesis by (simp add: sock_connect_def)
next
  case (Some i)
  then have i: "i < MAX_SOCKETS" by (rule owned_socket_less)
  show ?thesis
  proof (cases "sk_state (socks ! i) = SOCK_UNBOUND")
    case False
    with assms Some show ?thesis by (simp add: sock_connect_def Let_def)
  next
    case ub: True
    show ?thesis
    proof (cases "first_slot (sock_is_listener p) socks")
      case None
      with assms Some ub show ?thesis by (simp add: sock_connect_def Let_def)
    next
      case (Some l)
      let ?l = "socks ! l"
      have l: "l < MAX_SOCKETS" "sock_is_listener p ?l"
        using free_slot_less [OF assms Some] first_slot_SomeD [OF Some] by auto
      then have ne: "l \<noteq> i" using ub by (auto simp: sock_is_listener_def)
      define s1 where "s1 = socks[l := ?l\<lparr>sk_backlog_slot := (sk_backlog_slot ?l)[sk_backlog_tail ?l := i],
          sk_backlog_gen := (sk_backlog_gen ?l)[sk_backlog_tail ?l := sk_generation (socks ! i)],
          sk_backlog_tail := (sk_backlog_tail ?l + 1) mod SOCK_BACKLOG_MAX\<rparr>]"
      have s1: "sock_links k s1" unfolding s1_def
        by (rule sock_links_same [OF assms socket_ok_backlog_push])
          (use sock_links_okD [OF assms l(1)] i in \<open>auto simp: sock_same_def\<close>)
      have s1i: "s1 ! i = socks ! i" using ne by (simp add: s1_def)
      have "sock_links k (s1[i := (s1 ! i)\<lparr>sk_state := SOCK_CONNECTING, sk_peer_idx := -1\<rparr>])"
        by (rule sock_links_reset [OF s1 _ i]) (use sock_links_okD [OF s1 i] s1i ub in \<open>auto simp: socket_ok_def\<close>)
      with assms \<open>owned_socket socks t a = Some i\<close> ub Some show ?thesis
        by (simp add: sock_connect_def Let_def s1_def)
    qed
  qed
qed

lemma sock_pop_client_links:
  "sock_links k socks \<Longrightarrow> l < MAX_SOCKETS \<Longrightarrow> sock_pop_client n l socks = (socks', r) \<Longrightarrow>
    sock_links k socks' \<and> (\<forall>c. r = Some c \<longrightarrow> c < MAX_SOCKETS \<and> sk_in_use (socks' ! c)
      \<and> sk_state (socks' ! c) = SOCK_CONNECTING)"
proof (induction n l socks rule: sock_pop_client.induct)
  case (1 l socks)
  then show ?case by simp
next
  case (2 n l socks)
  let ?l = "socks ! l"
  let ?s1 = "socks[l := ?l\<lparr>sk_backlog_head := (sk_backlog_head ?l + 1) mod SOCK_BACKLOG_MAX\<rparr>]"
  have ok: "socket_ok ?l" using sock_links_okD 2 by blast
  then have s1: "sock_links k ?s1"
    by (intro sock_links_same [OF 2(2)]) (auto simp: socket_ok_def sock_same_def SOCK_BACKLOG_MAX_def)
  have "sk_backlog_slot ?l ! sk_backlog_head ?l < MAX_SOCKETS" using ok by (simp add: socket_ok_def)
  with 2 s1 show ?case by (auto simp: Let_def sock_waiting_def split: if_splits)
qed

lemma sock_links_pair:
  assumes l: "sock_links k socks" and c: "c < MAX_SOCKETS" "sk_in_use (socks ! c)" "sk_state (socks ! c) = SOCK_CONNECTING"
    and n: "n < MAX_SOCKETS" "\<not> sk_in_use (socks ! n)"
    and t: "socket_ok s" "socket_ok t"
    and s: "sk_in_use s" "sk_state s = SOCK_CONNECTED" "sk_generation s = sk_generation (socks ! n)"
      "sk_peer_idx s = int c" "sk_peer_gen s = sk_generation (socks ! c)"
    and t': "sk_in_use t" "sk_state t = SOCK_CONNECTED" "sk_generation t = sk_generation (socks ! c)"
      "sk_peer_idx t = int n" "sk_peer_gen t = sk_generation (socks ! n)"
  shows "sock_links k (socks[n := s, c := t])"
proof -
  have ne: "c \<noteq> n" using c n by auto
  have len: "c < length socks" "n < length socks" using sock_links_okD [OF l] c n by auto
  have "sock_link k (socks[n := s, c := t]) i" if i: "i < MAX_SOCKETS" for i
  proof (cases "i = n \<or> i = c \<or> \<not> (sk_in_use (socks ! i) \<and> sk_state (socks ! i) = SOCK_CONNECTED)")
    case True
    with s t' ne len show ?thesis by (auto simp: sock_link_def Let_def nth_update_if)
  next
    case False
    then have iu: "sk_in_use (socks ! i)" "sk_state (socks ! i) = SOCK_CONNECTED" by auto
    note d = sock_linksD [OF l i iu]
    let ?j = "nat (sk_peer_idx (socks ! i))"
    from d(4) c n have "?j = n \<or> ?j = c \<Longrightarrow> sk_generation (socks ! ?j) \<noteq> sk_peer_gen (socks ! i)" by auto
    with False d s(3) t'(3) ne len show ?thesis
      by (cases "?j = n"; cases "?j = c") (auto simp: sock_link_def Let_def nth_update_if)
  qed
  moreover have "sockets_ok (socks[n := s, c := t])"
    using l t by (simp add: sock_links_def sockets_ok_update)
  ultimately show ?thesis by (simp add: sock_links_def)
qed

lemma socket_ok_accept:
  "socket_ok s \<Longrightarrow> c < MAX_SOCKETS \<Longrightarrow>
    socket_ok (s\<lparr>sk_in_use := True, sk_state := st, sk_owner := w, sk_has_path := False,
      sk_peer_closed := False, sk_ring_head := 0, sk_ring_count := 0, sk_peer_idx := int c, sk_peer_gen := g\<rparr>)"
  "socket_ok s \<Longrightarrow> c < MAX_SOCKETS \<Longrightarrow>
    socket_ok (s\<lparr>sk_peer_idx := int c, sk_peer_gen := g, sk_state := st\<rparr>)"
  by (simp_all add: socket_ok_def SOCK_RING_SIZE_def)

text \<open>Slots \<open>n\<close> and \<open>c\<close> are connected to each other.\<close>

definition sock_joined :: "sockets \<Rightarrow> nat \<Rightarrow> nat \<Rightarrow> bool" where
  "sock_joined socks n c \<longleftrightarrow> n < MAX_SOCKETS \<and> c < MAX_SOCKETS \<and> n \<noteq> c
     \<and> sk_in_use (socks ! n) \<and> sk_state (socks ! n) = SOCK_CONNECTED
     \<and> sk_in_use (socks ! c) \<and> sk_state (socks ! c) = SOCK_CONNECTED
     \<and> sk_peer_idx (socks ! n) = int c \<and> sk_peer_gen (socks ! n) = sk_generation (socks ! c)
     \<and> sk_peer_idx (socks ! c) = int n \<and> sk_peer_gen (socks ! c) = sk_generation (socks ! n)"

text \<open>The state after the client \<open>c\<close> was paired with the free slot \<open>n\<close>.\<close>

definition sock_pair :: "sockets \<Rightarrow> tid \<Rightarrow> nat \<Rightarrow> nat \<Rightarrow> sockets" where
  "sock_pair socks t n c = socks[
     n := (socks ! n)\<lparr>sk_in_use := True, sk_state := SOCK_CONNECTED, sk_owner := t, sk_has_path := False,
       sk_peer_closed := False, sk_ring_head := 0, sk_ring_count := 0, sk_peer_idx := int c,
       sk_peer_gen := sk_generation (socks ! c)\<rparr>,
     c := (socks ! c)\<lparr>sk_peer_idx := int n, sk_peer_gen := sk_generation (socks ! n), sk_state := SOCK_CONNECTED\<rparr>]"

lemma sock_pair_links:
  assumes l: "sock_links k socks" and c: "c < MAX_SOCKETS" "sk_in_use (socks ! c)" "sk_state (socks ! c) = SOCK_CONNECTING"
    and n: "n < MAX_SOCKETS" "\<not> sk_in_use (socks ! n)"
  shows "sock_links k (sock_pair socks t n c)" and "sock_joined (sock_pair socks t n c) n c"
    and "sk_owner (sock_pair socks t n c ! n) = t" "sock_data (sock_pair socks t n c ! n) = []"
    and "sk_generation (sock_pair socks t n c ! n) = sk_generation (socks ! n)"
proof -
  have ne: "n \<noteq> c" using c n by auto
  have len: "n < length socks" "c < length socks" and oks: "socket_ok (socks ! n)" "socket_ok (socks ! c)"
    using sock_links_okD [OF l] n c(1) by auto
  show "sock_links k (sock_pair socks t n c)" unfolding sock_pair_def
    by (rule sock_links_pair [OF l c n]) (use oks n c in \<open>auto intro: socket_ok_accept\<close>)
  show "sock_joined (sock_pair socks t n c) n c" "sk_owner (sock_pair socks t n c ! n) = t"
    "sock_data (sock_pair socks t n c ! n) = []" "sk_generation (sock_pair socks t n c ! n) = sk_generation (socks ! n)"
    using c n ne len by (simp_all add: sock_pair_def sock_joined_def nth_update_if sock_data_def)
qed

lemma sock_accept_eq:
  assumes "owned_socket socks t a = Some i" "sk_state (socks ! i) = SOCK_LISTENING"
    and "sock_pop_client SOCK_BACKLOG_MAX i socks = (s1, Some c)" "first_slot (\<lambda>s. \<not> sk_in_use s) s1 = Some n"
    and "sk_in_use (s1 ! c)" "n < length s1" "c < length s1"
  shows "sock_accept socks t a = (sock_pair s1 t n c, Inr (make_sockid n (sk_generation (s1 ! n))))"
proof -
  have "n \<noteq> c" using first_slot_SomeD [OF assms(4)] assms(5) by auto
  with assms show ?thesis by (simp add: sock_accept_def sock_pair_def Let_def nth_update_if)
qed

lemma sock_accept_cases:
  assumes l: "sock_links k socks" and acc: "sock_accept socks t a = (socks', r)"
  shows "sock_links k socks' \<and> (\<forall>b. r = Inr b \<longrightarrow> (\<exists>n c. sock_joined socks' n c
      \<and> b = make_sockid n (sk_generation (socks' ! n)) \<and> sk_owner (socks' ! n) = t \<and> sock_data (socks' ! n) = []))"
proof (cases "owned_socket socks t a")
  case None
  with l acc show ?thesis by (auto simp: sock_accept_def)
next
  case (Some i)
  obtain s1 r1 where p: "sock_pop_client SOCK_BACKLOG_MAX i socks = (s1, r1)"
    by (cases "sock_pop_client SOCK_BACKLOG_MAX i socks")
  note q = sock_pop_client_links [OF l owned_socket_less [OF Some] p]
  show ?thesis
  proof (cases "sk_state (socks ! i) \<noteq> SOCK_LISTENING \<or> r1 = None \<or> first_slot (\<lambda>s. \<not> sk_in_use s) s1 = None")
    case True
    then have "(socks' = socks \<or> socks' = s1) \<and> (\<exists>e. r = Inl e)"
      using acc Some p by (cases r1) (auto simp: sock_accept_def split: if_splits)
    with l q show ?thesis by auto
  next
    case False
    then obtain c n where r: "r1 = Some c" and n: "first_slot (\<lambda>s. \<not> sk_in_use s) s1 = Some n"
      and li: "sk_state (socks ! i) = SOCK_LISTENING" by auto
    from q r have l1: "sock_links k s1" and c: "c < MAX_SOCKETS" "sk_in_use (s1 ! c)" "sk_state (s1 ! c) = SOCK_CONNECTING"
      by auto
    have nl: "n < MAX_SOCKETS" "\<not> sk_in_use (s1 ! n)"
      using free_slot_less [OF l1 n] first_slot_SomeD [OF n] by auto
    have len: "n < length s1" "c < length s1" using sock_links_okD [OF l1] nl c(1) by auto
    note pr = sock_pair_links [OF l1 c nl, of t]
    have "socks' = sock_pair s1 t n c" "r = Inr (make_sockid n (sk_generation (s1 ! n)))"
      using acc sock_accept_eq [OF Some li p [unfolded r] n c(2) len] by auto
    with pr show ?thesis by auto
  qed
qed

lemma sock_links_read: "sock_links k socks \<Longrightarrow> sock_links k (fst (sock_read socks a m))"
  unfolding sock_read_def
  by (auto simp: Let_def split: option.split prod.split intro!: sock_links_same
      dest!: find_socket_less dest: sock_same_drain sock_drain_spec sock_links_okD)

lemma sock_links_write:
  assumes l: "sock_links k socks" and len: "0 \<le> len" "nat len \<le> length buf"
  shows "sock_links k (fst (sock_write socks a buf len))"
proof (cases "\<exists>i. find_socket socks a = Some i \<and> sk_state (socks ! i) = SOCK_CONNECTED \<and> sock_peer_live socks (socks ! i)")
  case True
  then obtain i where i: "find_socket socks a = Some i" "sk_state (socks ! i) = SOCK_CONNECTED"
    "sock_peer_live socks (socks ! i)" by blast
  have ok: "sockets_ok socks" using l by (simp add: sock_links_def)
  note w = sock_write_spec [OF ok i len]
  show ?thesis unfolding w(1) by (simp add: sock_links_same [OF l w(3) sock_same_put])
next
  case False
  with l show ?thesis by (auto simp: sock_write_def Let_def split: option.splits)
qed

lemma sock_step_links:
  assumes l: "sock_links (\<lambda>_. k) socks" and k: "Suc k < 65536" and c: "sock_call_ok c"
  shows "sock_links (\<lambda>_. Suc k) (sock_step c socks)"
proof -
  have up: "sock_links (\<lambda>_. k) s \<Longrightarrow> sock_links (\<lambda>_. Suc k) s" for s by (erule sock_links_mono) simp
  have cl: "sock_links (\<lambda>_. Suc k) (sock_release i socks)" if "i < MAX_SOCKETS" for i
    by (rule sock_links_mono [OF sock_links_release [OF l that]]) (use k in simp_all)
  have cn: "sock_links (\<lambda>_. Suc k) (sock_cleanup_for_process t socks)" for t
    unfolding sock_cleanup_for_process_def
    by (rule sock_links_mono [OF sock_links_cleanup_list [OF l]]) (use k in simp_all)
  show ?thesis
  proof (cases c)
    case (CAccept t a)
    with sock_accept_cases [OF l, of t a] up show ?thesis by (cases "sock_accept socks t a") simp
  next
    case (CClose t a)
    with cl up l show ?thesis by (auto simp: sock_close_def split: option.split dest: owned_socket_less)
  qed (use c cn l in \<open>auto intro!: up simp: sock_links_create sock_links_bind sock_links_listen sock_links_connect
      sock_links_read sock_links_write\<close>)
qed

lemma sock_history_links:
  "sock_links (\<lambda>_. k) socks \<Longrightarrow> k + length cs < 65536 \<Longrightarrow> \<forall>c \<in> set cs. sock_call_ok c \<Longrightarrow>
    sock_links (\<lambda>_. k + length cs) (fold sock_step cs socks)"
proof (induction cs arbitrary: socks k)
  case Nil
  then show ?case by simp
next
  case (Cons c cs)
  from Cons.prems sock_step_links have "sock_links (\<lambda>_. Suc k) (sock_step c socks)" by simp
  from Cons.IH [OF this] Cons.prems show ?case by simp
qed

text \<open>The backlog is a queue: the loop of \<open>sock_accept\<close> finds the first client that still waits, and
  drops the entries before it.\<close>

lemma ring8_dist:
  assumes "h < 8" "t < 8" "h \<noteq> (t :: nat)"
  shows "0 < (t + 8 - h) mod 8" and "(t + 8 - (h + 1) mod 8) mod 8 = (t + 8 - h) mod 8 - 1"
proof -
  have d: "(t + 8 - g) mod 8 = (if g \<le> t then t - g else t + 8 - g)" if "g < 8" for g
  proof (cases "g \<le> t")
    case True
    then have "t + 8 - g = t - g + 8" by simp
    then have "(t + 8 - g) mod 8 = (t - g) mod 8" by (simp only: mod_add_self2)
    with True assms(2) show ?thesis by simp
  qed (use that in simp)
  show "0 < (t + 8 - h) mod 8" using d [of h] assms by simp
  show "(t + 8 - (h + 1) mod 8) mod 8 = (t + 8 - h) mod 8 - 1"
  proof (cases "h = 7")
    case True
    with d [of 0] d [of 7] assms show ?thesis by simp
  next
    case False
    with assms have "(h + 1) mod 8 = h + 1" "h + 1 < 8" by simp_all
    with d [of h] d [of "h + 1"] assms show ?thesis by simp
  qed
qed

lemma sock_backlog_step:
  assumes "socket_ok s" "sk_backlog_head s \<noteq> sk_backlog_tail s"
  shows "sock_backlog s = (sk_backlog_slot s ! sk_backlog_head s, sk_backlog_gen s ! sk_backlog_head s)
     # sock_backlog (s\<lparr>sk_backlog_head := (sk_backlog_head s + 1) mod SOCK_BACKLOG_MAX\<rparr>)"
proof -
  let ?h = "sk_backlog_head s" and ?t = "sk_backlog_tail s"
  let ?c = "(?t + 8 - ?h) mod 8"
  have b: "?h < 8" "?t < 8" and len: "length (sk_backlog_slot s) = 8" "length (sk_backlog_gen s) = 8"
    using assms(1) by (simp_all add: socket_ok_def SOCK_BACKLOG_MAX_def)
  note pos = ring8_dist(1) [OF b assms(2)] and step = ring8_dist(2) [OF b assms(2)]
  from step ring_view_Cons [OF pos, of ?h "zip (sk_backlog_slot s) (sk_backlog_gen s)"] b len
  show ?thesis by (simp add: sock_backlog_def SOCK_BACKLOG_MAX_def)
qed

lemma sock_backlog_empty: "sk_backlog_head s = sk_backlog_tail s \<Longrightarrow> sock_backlog s = []"
  by (simp add: sock_backlog_def)

lemma sock_pop_client_spec:
  "sockets_ok socks \<Longrightarrow> l < MAX_SOCKETS \<Longrightarrow> length (sock_backlog (socks ! l)) \<le> n \<Longrightarrow>
    sock_pop_client n l socks = (socks', r) \<Longrightarrow>
    (case dropWhile (\<lambda>(c, g). \<not> sock_waiting socks c g) (sock_backlog (socks ! l)) of
       [] \<Rightarrow> r = None \<and> sock_backlog (socks' ! l) = []
     | x # rest \<Rightarrow> r = Some (fst x) \<and> sock_backlog (socks' ! l) = rest)
    \<and> (\<forall>i. sock_same (socks ! i) (socks' ! i))"
proof (induction n l socks rule: sock_pop_client.induct)
  case (1 l socks)
  then show ?case by (simp add: sock_same_def)
next
  case (2 n l socks)
  let ?l = "socks ! l"
  let ?m = "?l\<lparr>sk_backlog_head := (sk_backlog_head ?l + 1) mod SOCK_BACKLOG_MAX\<rparr>"
  let ?s1 = "socks[l := ?m]"
  have ok: "socket_ok ?l" and ll: "l < length socks" using sockets_ok_nth 2 by blast+
  show ?case
  proof (cases "sk_backlog_head ?l = sk_backlog_tail ?l")
    case True
    with 2(5) show ?thesis by (simp add: sock_backlog_empty sock_same_def)
  next
    case False
    note st = sock_backlog_step [OF ok False]
    have "socket_ok ?m" using ok by (simp add: socket_ok_def SOCK_BACKLOG_MAX_def)
    then have ok1: "sockets_ok ?s1" by (rule sockets_ok_update [OF 2(2)])
    have same: "sock_same (socks ! i) (?s1 ! i)" for i using ll by (simp add: sock_same_def nth_update_if)
    then have w: "sock_waiting ?s1 = sock_waiting socks"
      by (intro ext) (auto simp: sock_waiting_def sock_same_def)
    have n: "length (sock_backlog (?s1 ! l)) \<le> n" using 2(4) st ll by simp
    show ?thesis
    proof (cases "sock_waiting socks (sk_backlog_slot ?l ! sk_backlog_head ?l) (sk_backlog_gen ?l ! sk_backlog_head ?l)")
      case True
      with False w have "sock_pop_client (Suc n) l socks = (?s1, Some (sk_backlog_slot ?l ! sk_backlog_head ?l))"
        by (simp add: Let_def)
      with 2(5) have "socks' = ?s1" "r = Some (sk_backlog_slot ?l ! sk_backlog_head ?l)" by simp_all
      with True st ll same show ?thesis by simp
    next
      case nw: False
      with 2(5) False w have p: "sock_pop_client n l ?s1 = (socks', r)" by (simp add: Let_def)
      from 2(1) [OF refl refl False refl refl refl _ ok1 2(3) n p] nw w same st ll show ?thesis
        by (auto simp: sock_same_def)
    qed
  qed
qed

lemma sock_joined_conn:
  "sockets_ok socks \<Longrightarrow> sock_joined socks n c \<Longrightarrow> find_socket socks b = Some n \<Longrightarrow> find_socket socks a = Some c \<Longrightarrow>
    sock_conn a b socks \<and> sock_conn b a socks"
  by (auto simp: sock_conn_def sock_joined_def sock_peer_live_def dest!: find_socketD)

lemma find_socket_made:
  "n < MAX_SOCKETS \<Longrightarrow> sk_in_use (socks ! n) \<Longrightarrow> find_socket socks (make_sockid n (sk_generation (socks ! n))) = Some n"
  by (simp add: find_socket_def sockid_roundtrip)

lemma find_socket_cong:
  "sk_in_use (socks ! sockid_slot a) = sk_in_use (socks' ! sockid_slot a) \<Longrightarrow>
   sk_generation (socks ! sockid_slot a) = sk_generation (socks' ! sockid_slot a) \<Longrightarrow>
   find_socket socks' a = find_socket socks a"
  by (simp add: find_socket_def Let_def)

text \<open>What a connect to a listener with an empty backlog does.\<close>

lemma sock_connect_pending:
  assumes ok: "sockets_ok socks" and o: "owned_socket socks u a = Some i" and ub: "sk_state (socks ! i) = SOCK_UNBOUND"
    and l: "first_slot (sock_is_listener path) socks = Some l" and e: "sk_backlog_head (socks ! l) = sk_backlog_tail (socks ! l)"
  shows "\<exists>socks1. sock_connect socks u a path = (socks1, Inl IPC_ERR_WOULDBLOCK)
     \<and> sock_backlog (socks1 ! l) = [(i, sk_generation (socks ! i))] \<and> sock_waiting socks1 i (sk_generation (socks ! i))
     \<and> sk_state (socks1 ! l) = SOCK_LISTENING \<and> sk_owner (socks1 ! l) = sk_owner (socks ! l)
     \<and> (\<forall>j. sk_in_use (socks1 ! j) = sk_in_use (socks ! j) \<and> sk_generation (socks1 ! j) = sk_generation (socks ! j))"
proof -
  let ?l = "socks ! l" and ?t = "sk_backlog_tail (socks ! l)"
  have ls: "l < length socks" "sock_is_listener path ?l" using first_slot_SomeD [OF l] by auto
  have i: "i < length socks" "sk_in_use (socks ! i)"
    using owned_socketD [OF o] find_socketD ok by (auto simp: sockets_ok_def)
  have ne: "l \<noteq> i" using ub ls by (auto simp: sock_is_listener_def)
  have okl: "socket_ok ?l" using ok ls by (simp add: sockets_ok_def)
  then have tb: "?t < 8" by (simp add: socket_ok_def SOCK_BACKLOG_MAX_def)
  then have nx: "(?t + 1) mod 8 \<noteq> ?t" by (cases "?t = 7") simp_all
  define l1 where "l1 = ?l\<lparr>sk_backlog_slot := (sk_backlog_slot ?l)[?t := i],
      sk_backlog_gen := (sk_backlog_gen ?l)[?t := sk_generation (socks ! i)],
      sk_backlog_tail := (?t + 1) mod SOCK_BACKLOG_MAX\<rparr>"
  have okl1: "socket_ok l1" unfolding l1_def
    using okl i(1) ok by (intro socket_ok_backlog_push) (simp_all add: sockets_ok_def)
  have "sk_backlog_head l1 \<noteq> sk_backlog_tail l1" using e nx by (simp add: l1_def SOCK_BACKLOG_MAX_def)
  from sock_backlog_step [OF okl1 this] have bl: "sock_backlog l1 = [(i, sk_generation (socks ! i))]"
    using okl e tb by (simp add: l1_def sock_backlog_empty socket_ok_def SOCK_BACKLOG_MAX_def)
  have "sock_connect socks u a path =
      (socks[l := l1, i := (socks ! i)\<lparr>sk_state := SOCK_CONNECTING, sk_peer_idx := -1\<rparr>], Inl IPC_ERR_WOULDBLOCK)"
    using o ub l e nx ne by (simp add: sock_connect_def Let_def l1_def SOCK_BACKLOG_MAX_def)
  with bl ne i ls show ?thesis
    by (auto simp: sock_waiting_def nth_update_if sock_is_listener_def l1_def)
qed

lemma sock_accept_pending:
  assumes l: "sock_links k socks" and o: "owned_socket socks t lid = Some l" "sk_state (socks ! l) = SOCK_LISTENING"
    and b: "sock_backlog (socks ! l) = (c, g) # rest" "sock_waiting socks c g" and f: "\<exists>s \<in> set socks. \<not> sk_in_use s"
  shows "\<exists>socks' b n. sock_accept socks t lid = (socks', Inr b) \<and> sock_links k socks' \<and> sock_joined socks' n c
     \<and> find_socket socks' b = Some n \<and> sock_data (socks' ! n) = [] \<and> sk_generation (socks' ! c) = sk_generation (socks ! c)"
proof -
  have ok: "sockets_ok socks" using l by (simp add: sock_links_def)
  have ll: "l < MAX_SOCKETS" by (rule owned_socket_less [OF o(1)])
  obtain s2 r where p: "sock_pop_client SOCK_BACKLOG_MAX l socks = (s2, r)" by (cases "sock_pop_client SOCK_BACKLOG_MAX l socks")
  have "length (sock_backlog (socks ! l)) \<le> SOCK_BACKLOG_MAX" by (simp add: sock_backlog_def SOCK_BACKLOG_MAX_def)
  note sp = sock_pop_client_spec [OF ok ll this p]
  from sp have same: "\<And>j. sock_same (socks ! j) (s2 ! j)" by blast
  from sp [THEN conjunct1] b have r: "r = Some c" by simp
  from sock_pop_client_links [OF l ll p] r have l2: "sock_links k s2" and c: "c < MAX_SOCKETS" "sk_in_use (s2 ! c)"
    "sk_state (s2 ! c) = SOCK_CONNECTING" by auto
  have "length s2 = length socks" using l2 ok by (simp add: sock_links_def sockets_ok_def)
  moreover have "sk_in_use (s2 ! j) = sk_in_use (socks ! j)" for j using same [of j] by (simp add: sock_same_def)
  ultimately have "\<exists>s \<in> set s2. \<not> sk_in_use s" using f by (auto simp: in_set_conv_nth Bex_def)
  then obtain n where n: "first_slot (\<lambda>s. \<not> sk_in_use s) s2 = Some n" using first_slot_ex [of s2 "\<lambda>s. \<not> sk_in_use s"] by auto
  have nl: "n < MAX_SOCKETS" "\<not> sk_in_use (s2 ! n)" using free_slot_less [OF l2 n] first_slot_SomeD [OF n] by auto
  note pr = sock_pair_links [OF l2 c nl, of t]
  let ?s3 = "sock_pair s2 t n c" and ?b = "make_sockid n (sk_generation (s2 ! n))"
  have acc: "sock_accept socks t lid = (?s3, Inr ?b)"
    using sock_accept_eq [OF o p [unfolded r] n c(2)] sock_links_okD [OF l2] nl c by simp
  have fb: "find_socket ?s3 ?b = Some n" using find_socket_made [of n ?s3] pr(2,5) by (simp add: sock_joined_def)
  have "sk_generation (?s3 ! c) = sk_generation (socks ! c)"
    using same [of c] sock_links_okD [OF l2 c(1)] by (simp add: sock_pair_def sock_same_def)
  with acc pr(1,2,4) fb show ?thesis by blast
qed

lemma length_sock_drain: "length (fst (sock_drain k s)) = min k (unat (sk_ring_count s))"
proof (induction k s rule: sock_drain.induct)
  case (1 s)
  then show ?case by simp
next
  case (2 k s)
  show ?case
  proof (cases "sk_ring_count s > 0")
    case True
    then have "unat (sk_ring_count s - 1) = unat (sk_ring_count s) - 1" by (simp add: unat_minus_one word_gt_0)
    moreover have "0 < unat (sk_ring_count s)" using True by (simp add: word_less_nat_alt)
    moreover note IH = 2 [OF True refl]
    ultimately show ?thesis using True by (simp add: split_beta)
  qed (simp add: word_gt_0)
qed

lemma sock_pop_client_length: "length (fst (sock_pop_client n l socks)) = length socks"
  by (induction n l socks rule: sock_pop_client.induct) (simp_all add: Let_def)

section \<open>Examples\<close>

lemma sock_drain_numeral:
  "sock_drain (numeral m) s =
     (if sk_ring_count s > 0
      then (let b = sk_ring s ! unat (sk_ring_head s);
                (out, s') = sock_drain (pred_numeral m)
                  (s\<lparr>sk_ring_head := (sk_ring_head s + 1) mod of_nat SOCK_RING_SIZE,
                     sk_ring_count := sk_ring_count s - 1\<rparr>)
            in (b # out, s'))
      else ([], s))"
  by (simp add: numeral_eq_Suc)

text \<open>Slots 0 and 1 are connected to each other.\<close>

definition sock_ex :: sockets where
  "sock_ex = sockets_init[
     0 := socket_zero\<lparr>sk_in_use := True, sk_state := SOCK_CONNECTED, sk_owner := 1, sk_peer_idx := 1\<rparr>,
     1 := socket_zero\<lparr>sk_in_use := True, sk_state := SOCK_CONNECTED, sk_owner := 2, sk_peer_idx := 0\<rparr>]"

lemma sockets_init_ok: "sockets_ok sockets_init"
  by (simp add: sockets_ok_def sockets_init_def socket_ok_def socket_zero_def sock_size_defs)

lemma sockets_init_links: "sock_links k sockets_init"
  using sockets_init_ok
  by (simp add: sock_links_def sock_link_def sockets_init_def socket_zero_def Let_def)

lemma sock_ex_ok: "sockets_ok sock_ex"
  unfolding sock_ex_def
  by (intro sockets_ok_update sockets_init_ok) (simp_all add: socket_ok_def socket_zero_def sock_size_defs)

lemma sock_ex_conn: "sock_conn 0 1 sock_ex"
  using sock_ex_ok
  by (simp add: sock_conn_def sock_ex_def find_socket_def sockid_slot_def sockid_gen_def
      sock_peer_live_def sockets_init_def socket_zero_def sock_size_defs)

text \<open>The calls that set up a connection from scratch.\<close>

definition sock_ex_calls :: "sock_call list" where
  "sock_ex_calls = [CCreate 1, CBind 1 0 [47, 0], CListen 1 0, CCreate 2, CConnect 2 1 [47, 0], CAccept 1 0]"

lemma sock_ex_calls_run:
  "sk_in_use (fold sock_step sock_ex_calls sockets_init ! 1)
   \<and> sk_state (fold sock_step sock_ex_calls sockets_init ! 1) = SOCK_CONNECTED
   \<and> sock_peer_live (fold sock_step sock_ex_calls sockets_init) (fold sock_step sock_ex_calls sockets_init ! 1)
   \<and> sk_peer_idx (fold sock_step sock_ex_calls sockets_init ! 1) = 2"
proof -
  have i: "sockets_init = socket_zero # socket_zero # socket_zero # replicate 29 socket_zero"
    by (simp add: sockets_init_def sock_size_defs numeral_eq_Suc)
  have p: "replicate 32 (0 :: u8) = 0 # 0 # replicate 30 0" by (simp add: numeral_eq_Suc)
  note f = sock_pop_client.simps(2) [of 7, simplified Suc_numeral add_num_simps]
  show ?thesis unfolding sock_ex_calls_def i
    by (simp add: p f sock_create_def sock_bind_def sock_listen_def sock_connect_def sock_accept_def owned_socket_def
        find_socket_def sockid_slot_def sockid_gen_def sock_peer_live_def socket_zero_def sock_size_defs
        sock_is_listener_def sock_waiting_def Let_def)
qed

lemma sock_ex_listen:
  assumes "socks = fold sock_step (take 4 sock_ex_calls) sockets_init"
  shows "sock_links (\<lambda>_. 4) socks" "owned_socket socks 2 1 = Some 1" "sk_state (socks ! 1) = SOCK_UNBOUND"
    "first_slot (sock_is_listener [47, 0]) socks = Some 0" "owned_socket socks 1 0 = Some 0"
    "sk_backlog_head (socks ! 0) = sk_backlog_tail (socks ! 0)" "\<exists>s \<in> set socks. \<not> sk_in_use s"
proof -
  have i: "sockets_init = socket_zero # socket_zero # socket_zero # replicate 29 socket_zero"
    by (simp add: sockets_init_def sock_size_defs numeral_eq_Suc)
  have p: "replicate 32 (0 :: u8) = 0 # 0 # replicate 30 0" by (simp add: numeral_eq_Suc)
  have e: "take 4 sock_ex_calls = [CCreate 1, CBind 1 0 [47, 0], CListen 1 0, CCreate 2]"
    by (simp add: sock_ex_calls_def)
  have l: "0 + length (take 4 sock_ex_calls) = 4" by (simp add: sock_ex_calls_def)
  show "sock_links (\<lambda>_. 4) socks"
    using sock_history_links [OF sockets_init_links [of "\<lambda>_. 0"], of "take 4 sock_ex_calls"]
    unfolding assms l by (simp add: sock_ex_calls_def)
  show "owned_socket socks 2 1 = Some 1" "sk_state (socks ! 1) = SOCK_UNBOUND"
    "first_slot (sock_is_listener [47, 0]) socks = Some 0" "owned_socket socks 1 0 = Some 0"
    "sk_backlog_head (socks ! 0) = sk_backlog_tail (socks ! 0)" "\<exists>s \<in> set socks. \<not> sk_in_use s"
    unfolding assms e i
    by (simp_all add: p sock_create_def sock_bind_def sock_listen_def owned_socket_def find_socket_def sockid_slot_def
        sockid_gen_def socket_zero_def sock_size_defs sock_is_listener_def Let_def)
qed

text \<open>A full table with one client in the backlog of slot 0.\<close>

definition sock_full_ex :: sockets where
  "sock_full_ex = (replicate MAX_SOCKETS (socket_zero\<lparr>sk_in_use := True\<rparr>))[
     0 := socket_zero\<lparr>sk_in_use := True, sk_state := SOCK_LISTENING, sk_owner := 1,
            sk_backlog_slot := (replicate SOCK_BACKLOG_MAX 0)[0 := 1], sk_backlog_tail := 1\<rparr>,
     1 := socket_zero\<lparr>sk_in_use := True, sk_state := SOCK_CONNECTING, sk_owner := 2, sk_peer_idx := -1\<rparr>]"

lemma sock_full_ex_ok: "sockets_ok sock_full_ex"
proof -
  have "sockets_ok (replicate MAX_SOCKETS (socket_zero\<lparr>sk_in_use := True\<rparr>))"
    by (simp add: sockets_ok_def socket_ok_def socket_zero_def sock_size_defs)
  then show ?thesis unfolding sock_full_ex_def
    by (intro sockets_ok_update)
      (auto simp: socket_ok_def socket_zero_def sock_size_defs dest!: set_update_subset_insert [THEN subsetD])
qed

section \<open>Properties\<close>

text \<open>C20. A socket connection is a first-in first-out byte stream: over any interleaving of writes on
  one end and reads on the other, the bytes that waited plus the bytes the writes accepted are the
  bytes the reads returned plus the bytes still waiting, in order.\<close>

theorem sock_stream_order:
  assumes "sock_conn a b socks"
    and "stream_run (sock_wr a) (sock_rd b) ops socks = (accepted, out, socks')"
  shows "sock_data (socks ! sockid_slot b) @ accepted = out @ sock_data (socks' ! sockid_slot b)
     \<and> sock_conn a b socks'"
  using sock_io.stream_conserved [OF assms] .

theorem sock_stream_order_witness:
  "\<exists>socks'. stream_run (sock_wr 0) (sock_rd 1) [SWrite [1, 2, 3], SRead 2, SWrite [4], SRead 9] sock_ex
       = ([1, 2, 3, 4], [1, 2, 3, 4], socks')
     \<and> sock_data (sock_ex ! 1) @ [1, 2, 3, 4] = [1, 2, 3, 4] @ sock_data (socks' ! 1) \<and> sock_conn 0 1 socks'"
proof -
  obtain ac out socks' where run: "stream_run (sock_wr 0) (sock_rd 1)
      [SWrite [1, 2, 3], SRead 2, SWrite [4], SRead 9] sock_ex = (ac, out, socks')"
    by (cases "stream_run (sock_wr 0) (sock_rd 1) [SWrite [1, 2, 3], SRead 2, SWrite [4], SRead 9] sock_ex") auto
  moreover have "ac = [1, 2, 3, 4] \<and> out = [1, 2, 3, 4]"
    using run by (simp add: sock_wr_def sock_rd_def sock_write_def sock_read_def sock_ex_def find_socket_def
        sockid_slot_def sockid_gen_def sock_peer_live_def sockets_init_def socket_zero_def sock_size_defs Let_def
        sock_drain_numeral)
      (auto simp: numeral_2_eq_2)
  ultimately show ?thesis
    using sock_stream_order [OF sock_ex_conn run] by (auto simp: sockid_slot_def)
qed





text \<open>C31. A negative write length corrupts the receiver: writing with length -1 to a connected socket
  with no waiting bytes reports -1, wraps the peer's byte count to 2^32 - 1 and so breaks the
  table's well-formedness; the peer's next read of 40 bytes returns 40 bytes nobody wrote.\<close>

theorem sock_write_negative:
  assumes "sock_conn a b socks" "sock_data (socks ! sockid_slot b) = []"
  shows "\<exists>socks' socks'' out. sock_write socks a [] (-1) = (socks', Inr (-1))
     \<and> unat (sk_ring_count (socks' ! sockid_slot b)) = 2 ^ 32 - 1 \<and> \<not> sockets_ok socks'
     \<and> sock_read socks' b 40 = (socks'', Inr out) \<and> length out = 40"
proof -
  let ?i = "sockid_slot a" and ?j = "sockid_slot b"
  have ok: "sockets_ok socks" and f: "find_socket socks a = Some ?i" "find_socket socks b = Some ?j"
    and st: "sk_state (socks ! ?i) = SOCK_CONNECTED" "sk_state (socks ! ?j) = SOCK_CONNECTED"
    and pl: "sock_peer_live socks (socks ! ?i)" and pj: "sk_peer_idx (socks ! ?i) = int ?j"
    using assms(1) by (auto simp: sock_conn_def)
  have jl: "?j < length socks" using find_socket_less [OF f(2)] ok by (simp add: sockets_ok_def)
  have "unat (sk_ring_count (socks ! ?j)) = 0" using assms(2) length_ring_view by (metis list.size(3) sock_data_def)
  then have z: "sk_ring_count (socks ! ?j) = 0" by (simp add: unat_eq_zero)
  let ?p = "(socks ! ?j)\<lparr>sk_ring_count := -1\<rparr>"
  have w: "sock_write socks a [] (-1) = (socks[?j := ?p], Inr (-1))"
    using f(1) st(1) pl pj z by (simp add: sock_write_def Let_def SOCK_RING_SIZE_def)
  have u: "unat (-1 :: u32) = 2 ^ 32 - 1" by (simp add: unsigned_minus_1_eq_mask mask_eq_exp_minus_1)
  then have "\<not> socket_ok ?p" by (simp add: socket_ok_def SOCK_RING_SIZE_def)
  then have no: "\<not> sockets_ok (socks[?j := ?p])" using jl by (auto simp: sockets_ok_def set_update_memI)
  have fb: "find_socket (socks[?j := ?p]) b = Some ?j"
    using f(2) jl by (auto simp: find_socket_def Let_def split: if_splits)
  obtain out s' where d: "sock_drain 40 ?p = (out, s')" by (cases "sock_drain 40 ?p")
  have "length out = 40" using length_sock_drain [of 40 ?p] d u by simp
  moreover have "sock_read (socks[?j := ?p]) b 40 = (socks[?j := s'], Inr out)"
    using fb jl st(2) d by (simp add: sock_read_def)
  ultimately show ?thesis using w no jl u by auto
qed

theorem sock_write_negative_witness:
  "\<exists>socks' socks'' out. sock_write sock_ex 0 [] (-1) = (socks', Inr (-1)) \<and> \<not> sockets_ok socks'
     \<and> sock_read socks' 1 40 = (socks'', Inr out) \<and> length out = 40"
proof -
  have "sock_data (sock_ex ! sockid_slot 1) = []"
    by (simp add: sock_ex_def sockets_init_def sockid_slot_def sock_data_def socket_zero_def sock_size_defs)
  from sock_write_negative [OF sock_ex_conn this] show ?thesis by blast
qed

text \<open>An accept that finds the table full loses the client it took from the backlog: it returns
  \<open>IPC_ERR_NO_SPACE\<close>, the backlog is empty afterwards and the client is left connecting, so every
  later accept finds nobody.\<close>

theorem sock_accept_full_drops_client:
  assumes "sockets_ok socks" "owned_socket socks t lid = Some l" "sk_state (socks ! l) = SOCK_LISTENING"
    and "sock_backlog (socks ! l) = [(c, g)]" "sock_waiting socks c g" "\<forall>s \<in> set socks. sk_in_use s"
  shows "\<exists>socks'. sock_accept socks t lid = (socks', Inl IPC_ERR_NO_SPACE)
     \<and> sock_backlog (socks' ! l) = [] \<and> sock_waiting socks' c g"
proof -
  have ll: "l < MAX_SOCKETS" by (rule owned_socket_less [OF assms(2)])
  obtain s1 r where p: "sock_pop_client SOCK_BACKLOG_MAX l socks = (s1, r)" by (cases "sock_pop_client SOCK_BACKLOG_MAX l socks")
  have n: "length (sock_backlog (socks ! l)) \<le> SOCK_BACKLOG_MAX" by (simp add: assms(4) SOCK_BACKLOG_MAX_def)
  note sp = sock_pop_client_spec [OF assms(1) ll n p]
  from sp [THEN conjunct2] have same: "\<And>i. sock_same (socks ! i) (s1 ! i)" by blast
  from sp [THEN conjunct1] assms(4,5) have r: "r = Some c" and e: "sock_backlog (s1 ! l) = []" by simp_all
  have w: "sock_waiting s1 c g" using assms(5) same [of c] by (simp add: sock_waiting_def sock_same_def)
  have iu: "sk_in_use (s1 ! i) = sk_in_use (socks ! i)" for i using same [of i] by (simp add: sock_same_def)
  have "length s1 = length socks" using sock_pop_client_length [of SOCK_BACKLOG_MAX l socks] p by simp
  then have "\<forall>s \<in> set s1. sk_in_use s" using assms(6) iu by (auto simp: all_set_conv_all_nth)
  then have "first_slot (\<lambda>s. \<not> sk_in_use s) s1 = None" by (simp add: first_slot_None)
  with assms(2,3) p r e w show ?thesis by (simp add: sock_accept_def)
qed

theorem sock_accept_full_drops_client_witness:
  "\<exists>socks'. sock_accept sock_full_ex 1 0 = (socks', Inl IPC_ERR_NO_SPACE)
     \<and> sock_backlog (socks' ! 0) = [] \<and> sock_waiting socks' 1 0"
proof (rule sock_accept_full_drops_client [OF sock_full_ex_ok])
  show "owned_socket sock_full_ex 1 0 = Some 0" "sk_state (sock_full_ex ! 0) = SOCK_LISTENING" "sock_waiting sock_full_ex 1 0"
    by (simp_all add: sock_full_ex_def owned_socket_def find_socket_def sockid_slot_def sockid_gen_def sock_waiting_def
        socket_zero_def sock_size_defs)
  show "sock_backlog (sock_full_ex ! 0) = [(1, 0)]"
    by (simp add: sock_full_ex_def sock_backlog_def ring_view_def socket_zero_def sock_size_defs)
  show "\<forall>s \<in> set sock_full_ex. sk_in_use s"
    by (auto simp: sock_full_ex_def socket_zero_def dest!: set_update_subset_insert [THEN subsetD])
qed

end
