(* ===== verification/Console.thy ===== *)
theory Console
  imports Ring
begin

text \<open>
  The console, \<^verbatim>\<open>arch/x86_64/src/console.c\<close>: six virtual terminals with an input ring and a text screen with
  its scroll-back each, the escape sequences for colours and clearing, the copy of the visible part into
  the text buffer of the graphics card, and the ring of mouse events. The serial line and the frame
  buffer console only receive characters and are left out. Row, column and history counters are
  mathematical integers: the code's \<^verbatim>\<open>int\<close> overflows only after two billion lines or a parameter of ten
  digits.
\<close>

section \<open>State\<close>

definition VT_COUNT :: nat where "VT_COUNT = 6"
definition CONSOLE_RING_SIZE :: u32 where "CONSOLE_RING_SIZE = 256"
definition MOUSE_RING_SIZE :: u32 where "MOUSE_RING_SIZE = 64"
definition VGA_COLS :: nat where "VGA_COLS = 80"
definition VGA_ROWS :: nat where "VGA_ROWS = 25"
definition VGA_HISTORY_MAX :: nat where "VGA_HISTORY_MAX = 200"
definition DEFAULT_ATTR :: u8 where "DEFAULT_ATTR = 7"

text \<open>A ring with a head and a tail index, one slot of which stays empty.\<close>

record 'a head_tail =
  rg_buf :: "'a list"
  rg_head :: u32
  rg_tail :: u32

record vt_state =
  vt_raw_mode :: bool
  vt_ring :: "u8 head_tail"

record vga_vt_state =
  live_screen :: "u16 list list"
  history_buf :: "u16 list list"
  live_row :: nat
  live_col :: nat
  history_head :: nat
  view_offset :: int
  vga_attr :: u8
  ansi_state :: nat
  ansi_param :: int

record console =
  vts :: "vt_state list"
  active_vt :: nat
  fb_owner_tid :: tid
  vga_vts :: "vga_vt_state list"
  vga_mem :: "u16 list list"
  mouse_ring :: "u64 head_tail"

section \<open>Rings\<close>

definition ring_push :: "u32 \<Rightarrow> 'a \<Rightarrow> 'a head_tail \<Rightarrow> 'a head_tail" where
  "ring_push sz c v =
     (let nxt = (rg_head v + 1) mod sz
      in if nxt = rg_tail v then v else v\<lparr>rg_buf := (rg_buf v)[unat (rg_head v) := c], rg_head := nxt\<rparr>)"

definition ring_pop :: "u32 \<Rightarrow> 'a head_tail \<Rightarrow> ('a \<times> 'a head_tail) option" where
  "ring_pop sz v =
     (if rg_tail v = rg_head v then None
      else Some (rg_buf v ! unat (rg_tail v), v\<lparr>rg_tail := (rg_tail v + 1) mod sz\<rparr>))"

section \<open>The text screen\<close>

definition cell :: "u8 \<Rightarrow> u8 \<Rightarrow> u16" where
  "cell attr c = push_bit 8 (ucast attr) OR ucast c"

definition blank_row :: "u8 \<Rightarrow> u16 list" where
  "blank_row attr = replicate VGA_COLS (cell attr 32)"

definition set_cell :: "nat \<Rightarrow> nat \<Rightarrow> u16 \<Rightarrow> vga_vt_state \<Rightarrow> vga_vt_state" where
  "set_cell r c x g = g\<lparr>live_screen := (live_screen g)[r := (live_screen g ! r)[c := x]]\<rparr>"

definition live_scroll_up :: "vga_vt_state \<Rightarrow> vga_vt_state" where
  "live_scroll_up g =
     (let i = history_head g mod VGA_HISTORY_MAX
      in g\<lparr>history_buf := (history_buf g)[i := hd (live_screen g)], history_head := history_head g + 1,
           live_screen := tl (live_screen g) @ [blank_row (vga_attr g)], live_row := VGA_ROWS - 1\<rparr>)"

definition vga_clear_vt :: "vga_vt_state \<Rightarrow> vga_vt_state" where
  "vga_clear_vt g =
     g\<lparr>vga_attr := DEFAULT_ATTR, live_screen := replicate VGA_ROWS (blank_row DEFAULT_ATTR),
       history_buf := replicate VGA_HISTORY_MAX (blank_row DEFAULT_ATTR), history_head := 0, live_row := 0,
       live_col := 0, view_offset := 0\<rparr>"

definition ansi_fg :: "int \<Rightarrow> u8 option" where
  "ansi_fg code =
     (if code = 30 then Some 0 else if code = 31 then Some 0x0C else if code = 32 then Some 0x0A
      else if code = 33 then Some 0x0E else if code = 34 then Some 0x09 else if code = 35 then Some 0x0D
      else if code = 36 then Some 0x0B else if code = 37 then Some 0x0F else if code = 39 then Some 0x07 else None)"

definition ansi_bg :: "int \<Rightarrow> u8 option" where
  "ansi_bg code =
     (if code = 40 \<or> code = 49 then Some 0 else if code = 41 then Some 0x40 else if code = 42 then Some 0x20
      else if code = 43 then Some 0x60 else if code = 44 then Some 0x10 else if code = 45 then Some 0x50
      else if code = 46 then Some 0x30 else if code = 47 then Some 0x70 else None)"

definition apply_ansi_color :: "int \<Rightarrow> vga_vt_state \<Rightarrow> vga_vt_state" where
  "apply_ansi_color code g =
     (if code = 0 then g\<lparr>vga_attr := DEFAULT_ATTR\<rparr>
      else if code = 1 then g\<lparr>vga_attr := vga_attr g OR 0x08\<rparr>
      else case ansi_fg code of
             Some c \<Rightarrow> g\<lparr>vga_attr := (vga_attr g AND 0xF0) OR c\<rparr>
           | None \<Rightarrow> (case ansi_bg code of Some c \<Rightarrow> g\<lparr>vga_attr := (vga_attr g AND 0x8F) OR c\<rparr> | None \<Rightarrow> g))"

definition line_feed :: "vga_vt_state \<Rightarrow> vga_vt_state" where
  "line_feed g =
     (let g = g\<lparr>live_row := live_row g + 1\<rparr> in if live_row g \<ge> VGA_ROWS then live_scroll_up g else g)"

text \<open>A character outside an escape sequence: line feed 10, carriage return 13, backspace 8.\<close>

definition vga_plain :: "u8 \<Rightarrow> vga_vt_state \<Rightarrow> vga_vt_state" where
  "vga_plain c g =
     (if c = 10 then line_feed (g\<lparr>live_col := 0\<rparr>)
      else if c = 13 then g\<lparr>live_col := 0\<rparr>
      else if c = 8
      then (let g = (if live_col g > 0 then g\<lparr>live_col := live_col g - 1\<rparr> else g)
            in set_cell (live_row g) (live_col g) (cell (vga_attr g) 32) g)
      else if c < 0x20 then g
      else
        (let g = set_cell (live_row g) (live_col g) (cell (vga_attr g) c) g;
             g = g\<lparr>live_col := live_col g + 1\<rparr>
         in if live_col g \<ge> VGA_COLS then line_feed (g\<lparr>live_col := 0\<rparr>) else g))"

text \<open>A character inside an escape sequence: digits 48 to 57, semicolon 59, \<open>m\<close> 109, \<open>K\<close> 75, \<open>J\<close> 74, \<open>H\<close> 72.\<close>

definition vga_escape :: "u8 \<Rightarrow> vga_vt_state \<Rightarrow> vga_vt_state" where
  "vga_escape c g =
     (if 48 \<le> c \<and> c \<le> 57 then g\<lparr>ansi_param := ansi_param g * 10 + uint (c - 48)\<rparr>
      else if c = 59 \<or> c = 109
      then (let g = (apply_ansi_color (ansi_param g) g)\<lparr>ansi_param := 0\<rparr>
            in if c = 109 then g\<lparr>ansi_state := 0\<rparr> else g)
      else if c = 75
      then (fold (\<lambda>col. set_cell (live_row g) col (cell (vga_attr g) 32)) [live_col g..<VGA_COLS] g)\<lparr>ansi_state := 0\<rparr>
      else if c = 74 then (vga_clear_vt g)\<lparr>ansi_state := 0\<rparr>
      else if c = 72 then g\<lparr>live_row := 0, live_col := 0, ansi_state := 0\<rparr>
      else g\<lparr>ansi_state := 0\<rparr>)"

text \<open>The escape character is 27, the bracket 91.\<close>

definition vga_put :: "u8 \<Rightarrow> vga_vt_state \<Rightarrow> vga_vt_state" where
  "vga_put c g =
     (if ansi_state g = 0
      then (if c = 27 then g\<lparr>ansi_state := 1\<rparr> else vga_plain c g)
      else if ansi_state g = 1
      then (if c = 91 then g\<lparr>ansi_state := 2, ansi_param := 0\<rparr> else vga_plain c (g\<lparr>ansi_state := 0\<rparr>))
      else if ansi_state g = 2 then vga_escape c g
      else vga_plain c g)"

definition vga_putc :: "nat \<Rightarrow> u8 \<Rightarrow> console \<Rightarrow> console" where
  "vga_putc vt c k = k\<lparr>vga_vts := (vga_vts k)[vt := vga_put c (vga_vts k ! vt)]\<rparr>"

section \<open>Showing a terminal\<close>

definition total_history :: "vga_vt_state \<Rightarrow> nat" where
  "total_history g = (if history_head g < VGA_HISTORY_MAX then history_head g else VGA_HISTORY_MAX)"

definition view_row :: "vga_vt_state \<Rightarrow> nat \<Rightarrow> u16 list" where
  "view_row g r =
     (let target_line = int (total_history g + r) - view_offset g
      in if target_line < 0 then blank_row (vga_attr g)
         else if target_line < int (total_history g)
         then history_buf g ! nat ((int (history_head g) - int (total_history g) + target_line + int VGA_HISTORY_MAX)
                                     mod int VGA_HISTORY_MAX)
         else (let live_r = nat (target_line - int (total_history g))
               in if live_r < VGA_ROWS then live_screen g ! live_r else blank_row (vga_attr g)))"

text \<open>The view offset is clamped to the lines in the history while rendering.\<close>

definition render_screen :: "console \<Rightarrow> console" where
  "render_screen k =
     (let g = vga_vts k ! active_vt k
      in if view_offset g = 0 then k\<lparr>vga_mem := live_screen g\<rparr>
         else
           (let g = (if view_offset g > int (total_history g) then g\<lparr>view_offset := int (total_history g)\<rparr> else g);
                g = (if view_offset g < 0 then g\<lparr>view_offset := 0\<rparr> else g)
            in k\<lparr>vga_vts := (vga_vts k)[active_vt k := g], vga_mem := map (view_row g) [0..<VGA_ROWS]\<rparr>))"

definition arch_console_flush :: "console \<Rightarrow> console" where
  "arch_console_flush k = render_screen k"

definition arch_console_switch_vt :: "int \<Rightarrow> console \<Rightarrow> console" where
  "arch_console_switch_vt vt k =
     (if vt < 0 \<or> vt \<ge> int VT_COUNT \<or> vt = int (active_vt k) then k else render_screen (k\<lparr>active_vt := nat vt\<rparr>))"

definition arch_console_get_active_vt :: "console \<Rightarrow> nat" where
  "arch_console_get_active_vt k = active_vt k"

definition arch_console_scroll :: "int \<Rightarrow> console \<Rightarrow> console" where
  "arch_console_scroll delta k =
     (let g = vga_vts k ! active_vt k;
          off = view_offset g + delta
      in render_screen (k\<lparr>vga_vts := (vga_vts k)[active_vt k := g\<lparr>view_offset := (if off < 0 then 0 else off)\<rparr>]\<rparr>))"

definition arch_console_init :: "console \<Rightarrow> console" where
  "arch_console_init k = render_screen (k\<lparr>vga_vts := map vga_clear_vt (vga_vts k)\<rparr>)"

definition arch_console_set_fb_owner :: "tid \<Rightarrow> console \<Rightarrow> console" where
  "arch_console_set_fb_owner t k = k\<lparr>fb_owner_tid := t\<rparr>"

definition arch_console_get_fb_owner :: "console \<Rightarrow> tid" where
  "arch_console_get_fb_owner k = fb_owner_tid k"

definition arch_console_putc :: "u8 \<Rightarrow> console \<Rightarrow> console" where
  "arch_console_putc c k = vga_putc (active_vt k) c k"

definition arch_console_vt_putc :: "nat \<Rightarrow> u8 \<Rightarrow> console \<Rightarrow> console" where
  "arch_console_vt_putc vt c k = vga_putc vt c k"

text \<open>\<^verbatim>\<open>src/lib/kprintf.c\<close>: a batch of characters, then one flush.\<close>

definition kwrite :: "nat \<Rightarrow> u8 list \<Rightarrow> console \<Rightarrow> console" where
  "kwrite vt buf k = arch_console_flush (fold (arch_console_vt_putc vt) buf k)"

section \<open>Input\<close>

definition arch_console_set_raw_mode :: "int \<Rightarrow> bool \<Rightarrow> console \<Rightarrow> console" where
  "arch_console_set_raw_mode vt enable k =
     (if vt < 0 \<or> vt \<ge> int VT_COUNT then k
      else
        (let i = nat vt;
             k = k\<lparr>vts := (vts k)[i := (vts k ! i)\<lparr>vt_raw_mode := enable\<rparr>]\<rparr>
         in if enable then k else k\<lparr>vga_vts := (vga_vts k)[i := (vga_vts k ! i)\<lparr>vga_attr := DEFAULT_ATTR\<rparr>]\<rparr>))"

definition arch_console_get_raw_mode :: "int \<Rightarrow> console \<Rightarrow> bool" where
  "arch_console_get_raw_mode vt k = (\<not> (vt < 0 \<or> vt \<ge> int VT_COUNT) \<and> vt_raw_mode (vts k ! nat vt))"

definition arch_console_feed_bytes :: "int \<Rightarrow> u8 list \<Rightarrow> console \<Rightarrow> console" where
  "arch_console_feed_bytes vt buf k =
     (if vt < 0 \<or> vt \<ge> int VT_COUNT then k
      else
        (let i = nat vt;
             v = vts k ! i;
             k = k\<lparr>vts := (vts k)[i := v\<lparr>vt_ring := fold (ring_push CONSOLE_RING_SIZE) buf (vt_ring v)\<rparr>]\<rparr>
         in if i = active_vt k \<and> view_offset (vga_vts k ! i) \<noteq> 0
            then render_screen (k\<lparr>vga_vts := (vga_vts k)[i := (vga_vts k ! i)\<lparr>view_offset := 0\<rparr>]\<rparr>)
            else k))"

definition arch_console_read_line_bytes :: "int \<Rightarrow> nat \<Rightarrow> console \<Rightarrow> u8 list \<times> console" where
  "arch_console_read_line_bytes vt max_len k =
     (if vt < 0 \<or> vt \<ge> int VT_COUNT then ([], k)
      else
        (let i = nat vt;
             v = vts k ! i;
             (out, r) = pops max_len (ring_pop CONSOLE_RING_SIZE) (vt_ring v)
         in (out, k\<lparr>vts := (vts k)[i := v\<lparr>vt_ring := r\<rparr>]\<rparr>)))"

definition arch_console_mouse_feed :: "u64 \<Rightarrow> console \<Rightarrow> console" where
  "arch_console_mouse_feed ev k = k\<lparr>mouse_ring := ring_push MOUSE_RING_SIZE ev (mouse_ring k)\<rparr>"

definition arch_console_mouse_read :: "nat \<Rightarrow> console \<Rightarrow> u64 list \<times> console" where
  "arch_console_mouse_read max_len k =
     (let (out, r) = pops max_len (ring_pop MOUSE_RING_SIZE) (mouse_ring k) in (out, k\<lparr>mouse_ring := r\<rparr>))"

section \<open>The rings are queues\<close>

definition ring_ok :: "u32 \<Rightarrow> 'a head_tail \<Rightarrow> bool" where
  "ring_ok sz v \<longleftrightarrow> length (rg_buf v) = unat sz \<and> rg_head v < sz \<and> rg_tail v < sz"

definition ring_elems :: "'a head_tail \<Rightarrow> 'a list" where
  "ring_elems v = ht_view (rg_buf v) (unat (rg_head v)) (unat (rg_tail v))"

lemma unat_step:
  assumes "h < (sz :: u32)"
  shows "unat ((h + 1) mod sz) = (unat h + 1) mod unat sz"
proof -
  have "unat h + 1 < 2 ^ 32" using assms unsigned_less [of sz, where ?'a = nat] by (simp add: word_less_nat_alt)
  then have "unat (h + 1) = unat h + 1" using unat_add_lem [of h 1] by simp
  then show ?thesis by (simp only: unat_mod)
qed

lemma ring_is_fifo:
  assumes sz: "1 < sz"
  shows "bounded_fifo ring_elems (ring_ok sz) (ring_push sz) (ring_pop sz) (unat sz - 1)"
proof
  fix q :: "'a head_tail" and x y xs
  assume ok: "ring_ok sz q"
  then have h: "unat (rg_head q) < length (rg_buf q)" and t: "unat (rg_tail q) < length (rg_buf q)"
    and len: "length (rg_buf q) = unat sz" and hd': "rg_head q < sz" and tl': "rg_tail q < sz"
    by (auto simp: ring_ok_def word_less_nat_alt)
  have pos: "0 < sz" using sz by (rule order.strict_trans [rotated]) simp
  note step = unat_step [OF hd'] unat_step [OF tl']
  have full: "(rg_head q + 1) mod sz = rg_tail q \<longleftrightarrow> length (ring_elems q) = unat sz - 1"
    using ht_full [OF h t] by (simp add: word_unat_eq_iff step ring_elems_def len)
  show "length (ring_elems q) \<le> unat sz - 1"
    using ht_count_less [OF h t] by (simp add: ring_elems_def len)
  show "ring_elems (ring_push sz x q) = ring_elems q @ [x]" if "length (ring_elems q) < unat sz - 1"
  proof -
    from that full have ne: "(rg_head q + 1) mod sz \<noteq> rg_tail q" by auto
    then have "(unat (rg_head q) + 1) mod length (rg_buf q) \<noteq> unat (rg_tail q)" by (simp add: word_unat_eq_iff step len)
    from ht_push [OF h t this] ne show ?thesis
      by (simp add: ring_push_def ring_elems_def step len)
  qed
  show "ring_push sz x q = q" if "length (ring_elems q) = unat sz - 1"
    using that full by (simp add: ring_push_def)
  show "ring_ok sz (ring_push sz x q)"
    using ok pos by (auto simp: ring_ok_def ring_push_def Let_def word_mod_less_divisor)
  show "ring_pop sz q = None" if "ring_elems q = []"
    using that ht_view_empty [OF h t] by (auto simp: ring_pop_def ring_elems_def word_unat_eq_iff)
  show "\<exists>q'. ring_pop sz q = Some (y, q') \<and> ring_elems q' = xs \<and> ring_ok sz q'" if "ring_elems q = y # xs"
  proof -
    from that ht_view_empty [OF h t] have ne: "rg_head q \<noteq> rg_tail q" by (auto simp: ring_elems_def)
    then have "unat (rg_head q) \<noteq> unat (rg_tail q)" by (simp add: word_unat_eq_iff)
    from ht_pop [OF h t this] that ne ok pos show ?thesis
      by (auto simp: ring_pop_def ring_elems_def ring_ok_def step len word_mod_less_divisor)
  qed
qed

interpretation input_ring: bounded_fifo ring_elems "ring_ok CONSOLE_RING_SIZE" "ring_push CONSOLE_RING_SIZE"
  "ring_pop CONSOLE_RING_SIZE" "unat CONSOLE_RING_SIZE - 1"
  by (rule ring_is_fifo) (simp add: CONSOLE_RING_SIZE_def)

interpretation mouse_events: bounded_fifo ring_elems "ring_ok MOUSE_RING_SIZE" "ring_push MOUSE_RING_SIZE"
  "ring_pop MOUSE_RING_SIZE" "unat MOUSE_RING_SIZE - 1"
  by (rule ring_is_fifo) (simp add: MOUSE_RING_SIZE_def)

section \<open>The state stays well-formed\<close>

definition vga_ok :: "vga_vt_state \<Rightarrow> bool" where
  "vga_ok g \<longleftrightarrow> length (live_screen g) = VGA_ROWS \<and> (\<forall>r \<in> set (live_screen g). length r = VGA_COLS)
     \<and> length (history_buf g) = VGA_HISTORY_MAX \<and> (\<forall>r \<in> set (history_buf g). length r = VGA_COLS)
     \<and> live_row g < VGA_ROWS \<and> live_col g < VGA_COLS"

definition console_ok :: "console \<Rightarrow> bool" where
  "console_ok k \<longleftrightarrow> length (vts k) = VT_COUNT \<and> (\<forall>v \<in> set (vts k). ring_ok CONSOLE_RING_SIZE (vt_ring v))
     \<and> length (vga_vts k) = VT_COUNT \<and> (\<forall>g \<in> set (vga_vts k). vga_ok g) \<and> active_vt k < VT_COUNT
     \<and> length (vga_mem k) = VGA_ROWS \<and> (\<forall>r \<in> set (vga_mem k). length r = VGA_COLS)
     \<and> ring_ok MOUSE_RING_SIZE (mouse_ring k)"

lemmas vga_size_defs = VGA_ROWS_def VGA_COLS_def VGA_HISTORY_MAX_def

lemma length_blank_row [simp]: "length (blank_row a) = VGA_COLS"
  by (simp add: blank_row_def)

lemma set_list_update_ball: "\<forall>y \<in> set xs. P y \<Longrightarrow> P x \<Longrightarrow> \<forall>y \<in> set (xs[i := x]). P y"
  using set_update_subset_insert [of xs i x] by blast

lemma vga_ok_set_cell: "vga_ok g \<Longrightarrow> r < VGA_ROWS \<Longrightarrow> vga_ok (set_cell r c x g)"
  using set_list_update_ball [of "live_screen g" "\<lambda>r. length r = VGA_COLS" "(live_screen g ! r)[c := x]" r]
  by (simp add: vga_ok_def set_cell_def)

lemma set_cell_sel [simp]: "live_row (set_cell r c x g) = live_row g" "live_col (set_cell r c x g) = live_col g"
  "vga_attr (set_cell r c x g) = vga_attr g" "ansi_state (set_cell r c x g) = ansi_state g"
  "history_buf (set_cell r c x g) = history_buf g" "history_head (set_cell r c x g) = history_head g"
  "view_offset (set_cell r c x g) = view_offset g"
  by (simp_all add: set_cell_def)

lemma vga_ok_scroll:
  assumes "length (live_screen g) = VGA_ROWS" "\<forall>r \<in> set (live_screen g). length r = VGA_COLS"
    "length (history_buf g) = VGA_HISTORY_MAX" "\<forall>r \<in> set (history_buf g). length r = VGA_COLS" "live_col g < VGA_COLS"
  shows "vga_ok (live_scroll_up g)"
proof -
  have ne: "live_screen g \<noteq> []" using assms(1) by (auto simp: vga_size_defs)
  then have "length (hd (live_screen g)) = VGA_COLS" using assms(2) by simp
  then have "\<forall>r \<in> set ((history_buf g)[history_head g mod VGA_HISTORY_MAX := hd (live_screen g)]). length r = VGA_COLS"
    using assms(4) by (intro set_list_update_ball)
  moreover have "\<forall>r \<in> set (tl (live_screen g)). length r = VGA_COLS" using assms(2) ne by (metis list.set_sel(2))
  ultimately show ?thesis
    using assms by (auto simp: vga_ok_def live_scroll_up_def Let_def) (simp_all add: vga_size_defs)
qed

lemma vga_ok_line_feed: "vga_ok g \<Longrightarrow> vga_ok (line_feed g)"
  using vga_ok_scroll [of "g\<lparr>live_row := live_row g + 1\<rparr>"]
  by (auto simp: line_feed_def Let_def vga_ok_def split: if_splits)

lemma vga_ok_upd [simp]:
  "vga_ok (g\<lparr>vga_attr := a\<rparr>) = vga_ok g" "vga_ok (g\<lparr>ansi_state := n\<rparr>) = vga_ok g"
  "vga_ok (g\<lparr>ansi_param := p\<rparr>) = vga_ok g" "vga_ok (g\<lparr>view_offset := off\<rparr>) = vga_ok g"
  by (simp_all add: vga_ok_def)

lemma vga_ok_col0: "vga_ok g \<Longrightarrow> vga_ok (g\<lparr>live_col := 0\<rparr>)"
  by (auto simp: vga_ok_def)

lemma vga_ok_plain:
  assumes "vga_ok g"
  shows "vga_ok (vga_plain c g)"
proof -
  from assms have r: "live_row g < VGA_ROWS" by (simp add: vga_ok_def)
  note set = vga_ok_set_cell [OF assms r]
  have "vga_ok (g\<lparr>live_col := live_col g - 1\<rparr>)" using assms by (auto simp: vga_ok_def)
  from vga_ok_set_cell [OF this, of "live_row g"] r
  have bs: "vga_ok (set_cell (live_row g) (live_col g - 1) x (g\<lparr>live_col := live_col g - 1\<rparr>))" for x by simp
  have "vga_ok (let g' = set_cell (live_row g) (live_col g) x g; g' = g'\<lparr>live_col := live_col g' + 1\<rparr>
         in if live_col g' \<ge> VGA_COLS then line_feed (g'\<lparr>live_col := 0\<rparr>) else g')" for x
    using set [of "live_col g" x] vga_ok_line_feed [OF vga_ok_col0 [OF set [of "live_col g" x]]]
    by (auto simp: Let_def vga_ok_def)
  with assms bs set vga_ok_line_feed [OF vga_ok_col0 [OF assms]] show ?thesis
    by (auto simp: vga_plain_def Let_def vga_ok_col0)
qed

lemma vga_ok_clear: "vga_ok (vga_clear_vt g)"
  by (simp add: vga_ok_def vga_clear_vt_def vga_size_defs)

lemma vga_ok_color [simp]: "vga_ok (apply_ansi_color code g) = vga_ok g"
  by (auto simp: apply_ansi_color_def split: option.split)

lemma vga_ok_erase: "vga_ok g \<Longrightarrow> r < VGA_ROWS \<Longrightarrow> vga_ok (fold (\<lambda>col. set_cell r col x) cs' g)"
  by (induction cs' arbitrary: g) (auto intro: vga_ok_set_cell)

lemma vga_ok_put: "vga_ok g \<Longrightarrow> vga_ok (vga_put c g)"
proof -
  assume g: "vga_ok g"
  then have r: "live_row g < VGA_ROWS" by (simp add: vga_ok_def)
  have "vga_ok (g\<lparr>live_row := 0, live_col := 0, ansi_state := 0\<rparr>)" using g by (auto simp: vga_ok_def)
  then have "vga_ok (vga_escape c g)"
    using g vga_ok_erase [OF g r] by (auto simp: vga_escape_def Let_def vga_ok_clear)
  with g show ?thesis by (auto simp: vga_put_def vga_ok_plain)
qed

lemma console_ok_vga:
  "console_ok k \<Longrightarrow> vga_ok g \<Longrightarrow> console_ok (k\<lparr>vga_vts := (vga_vts k)[i := g]\<rparr>)"
  using set_list_update_ball [of "vga_vts k" vga_ok g i] by (simp add: console_ok_def)

lemma console_ok_nth: "console_ok k \<Longrightarrow> vt < VT_COUNT \<Longrightarrow> vga_ok (vga_vts k ! vt)"
  by (simp add: console_ok_def)

lemma console_ok_putc: "console_ok k \<Longrightarrow> vt < VT_COUNT \<Longrightarrow> console_ok (vga_putc vt c k)"
  by (simp add: vga_putc_def console_ok_vga console_ok_nth vga_ok_put)

lemma active_vga_putc [simp]: "active_vt (vga_putc vt c k) = active_vt k"
  by (simp add: vga_putc_def)

lemma console_ok_puts: "console_ok k \<Longrightarrow> vt < VT_COUNT \<Longrightarrow> console_ok (fold (vga_putc vt) buf k)"
  by (induction buf arbitrary: k) (auto intro: console_ok_putc)

lemma console_ok_active: "console_ok k \<Longrightarrow> active_vt k < VT_COUNT"
  by (simp add: console_ok_def)

lemma total_history_le: "total_history g \<le> VGA_HISTORY_MAX" "total_history g \<le> history_head g"
  by (simp_all add: total_history_def)

lemma length_view_row:
  assumes "vga_ok g"
  shows "length (view_row g r) = VGA_COLS"
proof -
  have "nat (i mod int VGA_HISTORY_MAX) < length (history_buf g)" for i
    using assms by (simp add: vga_ok_def vga_size_defs nat_less_iff)
  with assms show ?thesis by (auto simp: view_row_def Let_def vga_ok_def)
qed

lemma console_ok_render: "console_ok k \<Longrightarrow> console_ok (render_screen k)"
proof -
  assume k: "console_ok k"
  then have g: "vga_ok (vga_vts k ! active_vt k)" by (simp add: console_ok_nth console_ok_active)
  show ?thesis
  proof (cases "view_offset (vga_vts k ! active_vt k) = 0")
    case True
    with k g show ?thesis by (simp add: render_screen_def Let_def console_ok_def vga_ok_def)
  next
    case False
    define g1 where "g1 = (let g = vga_vts k ! active_vt k;
      g = (if view_offset g > int (total_history g) then g\<lparr>view_offset := int (total_history g)\<rparr> else g)
      in if view_offset g < 0 then g\<lparr>view_offset := 0\<rparr> else g)"
    have g1: "vga_ok g1" using g by (simp add: g1_def Let_def)
    have "render_screen k = k\<lparr>vga_vts := (vga_vts k)[active_vt k := g1], vga_mem := map (view_row g1) [0..<VGA_ROWS]\<rparr>"
      using False by (simp add: render_screen_def Let_def g1_def)
    with console_ok_vga [OF k g1] g1 show ?thesis by (auto simp: console_ok_def length_view_row)
  qed
qed

section \<open>Histories\<close>

text \<open>Everything that the kernel does with the console, with a valid terminal for output.\<close>

datatype console_op =
    Kwrite nat "u8 list" | Print "u8 list" | Switch_vt int | Scroll int | Raw_mode int bool | Feed int "u8 list"
  | Read_line int nat | Mouse_feed u64 | Mouse_read nat | Fb_owner tid

fun console_step :: "console_op \<Rightarrow> console \<Rightarrow> console" where
  "console_step (Kwrite vt buf) k = kwrite vt buf k"
| "console_step (Print buf) k = arch_console_flush (fold arch_console_putc buf k)"
| "console_step (Switch_vt vt) k = arch_console_switch_vt vt k"
| "console_step (Scroll delta) k = arch_console_scroll delta k"
| "console_step (Raw_mode vt b) k = arch_console_set_raw_mode vt b k"
| "console_step (Feed vt buf) k = arch_console_feed_bytes vt buf k"
| "console_step (Read_line vt n) k = snd (arch_console_read_line_bytes vt n k)"
| "console_step (Mouse_feed ev) k = arch_console_mouse_feed ev k"
| "console_step (Mouse_read n) k = snd (arch_console_mouse_read n k)"
| "console_step (Fb_owner t) k = arch_console_set_fb_owner t k"

fun console_op_ok :: "console_op \<Rightarrow> bool" where
  "console_op_ok (Kwrite vt buf) \<longleftrightarrow> vt < VT_COUNT"
| "console_op_ok _ \<longleftrightarrow> True"

lemma ring_ok_pops:
  "1 < sz \<Longrightarrow> ring_ok sz r \<Longrightarrow> ring_ok sz (snd (pops n (ring_pop sz) r))"
  using bounded_fifo.pops_view [OF ring_is_fifo, of sz r n] by (metis prod.collapse)

lemma console_ok_vt:
  "console_ok k \<Longrightarrow> ring_ok CONSOLE_RING_SIZE (vt_ring v) \<Longrightarrow> console_ok (k\<lparr>vts := (vts k)[i := v]\<rparr>)"
  using set_list_update_ball [of "vts k" "\<lambda>v. ring_ok CONSOLE_RING_SIZE (vt_ring v)" v i] by (simp add: console_ok_def)

lemma console_ring_nth: "console_ok k \<Longrightarrow> vt < VT_COUNT \<Longrightarrow> ring_ok CONSOLE_RING_SIZE (vt_ring (vts k ! vt))"
  by (simp add: console_ok_def)

lemma console_ok_raw: "console_ok k \<Longrightarrow> console_ok (arch_console_set_raw_mode vt b k)"
proof (cases "vt < 0 \<or> vt \<ge> int VT_COUNT")
  case False
  assume k: "console_ok k"
  from False have i: "nat vt < VT_COUNT" by auto
  from console_ok_vt [OF k, of "(vts k ! nat vt)\<lparr>vt_raw_mode := b\<rparr>" "nat vt"] console_ring_nth [OF k i]
  have k1: "console_ok (k\<lparr>vts := (vts k)[nat vt := (vts k ! nat vt)\<lparr>vt_raw_mode := b\<rparr>]\<rparr>)" by simp
  from console_ok_vga [OF this, of "(vga_vts k ! nat vt)\<lparr>vga_attr := DEFAULT_ATTR\<rparr>" "nat vt"] k1 False console_ok_nth [OF k i]
  show ?thesis by (cases b) (simp_all add: arch_console_set_raw_mode_def Let_def)
qed (simp add: arch_console_set_raw_mode_def)

lemma console_ok_feed: "console_ok k \<Longrightarrow> console_ok (arch_console_feed_bytes vt buf k)"
proof (cases "vt < 0 \<or> vt \<ge> int VT_COUNT")
  case False
  assume k: "console_ok k"
  let ?v = "(vts k ! nat vt)\<lparr>vt_ring := fold (ring_push CONSOLE_RING_SIZE) buf (vt_ring (vts k ! nat vt))\<rparr>"
  from False have i: "nat vt < VT_COUNT" by auto
  have "ring_ok CONSOLE_RING_SIZE (vt_ring ?v)"
    using input_ring.inv_pushes [OF console_ring_nth [OF k i]] by simp
  from console_ok_vt [OF k this] have k1: "console_ok (k\<lparr>vts := (vts k)[nat vt := ?v]\<rparr>)" .
  from console_ok_vga [OF this, of "(vga_vts k ! nat vt)\<lparr>view_offset := 0\<rparr>" "nat vt"] console_ok_nth [OF k i]
  have k2: "console_ok (k\<lparr>vts := (vts k)[nat vt := ?v], vga_vts := (vga_vts k)[nat vt := (vga_vts k ! nat vt)\<lparr>view_offset := 0\<rparr>]\<rparr>)"
    by simp
  show ?thesis
    using False k1 console_ok_render [OF k2]
    by (auto simp: arch_console_feed_bytes_def Let_def)
qed (simp add: arch_console_feed_bytes_def)

lemma console_ok_read: "console_ok k \<Longrightarrow> console_ok (snd (arch_console_read_line_bytes vt n k))"
proof (cases "vt < 0 \<or> vt \<ge> int VT_COUNT")
  case False
  assume k: "console_ok k"
  from False have i: "nat vt < VT_COUNT" by auto
  have "ring_ok CONSOLE_RING_SIZE (snd (pops n (ring_pop CONSOLE_RING_SIZE) (vt_ring (vts k ! nat vt))))"
    by (rule ring_ok_pops [OF _ console_ring_nth [OF k i]]) (simp add: CONSOLE_RING_SIZE_def)
  then show ?thesis using False console_ok_vt [OF k]
    by (simp add: arch_console_read_line_bytes_def Let_def case_prod_beta)
qed (simp add: arch_console_read_line_bytes_def)

lemma console_ok_step: "console_ok k \<Longrightarrow> console_op_ok op \<Longrightarrow> console_ok (console_step op k)"
proof (cases op)
  case (Kwrite vt buf)
  assume "console_ok k" "console_op_ok op"
  with Kwrite console_ok_render [OF console_ok_puts] show ?thesis
    by (simp add: kwrite_def arch_console_flush_def arch_console_vt_putc_def [abs_def])
next
  case (Print buf)
  assume k: "console_ok k"
  have "fold arch_console_putc buf k' = fold (vga_putc (active_vt k')) buf k'" for k'
    by (induction buf arbitrary: k') (simp_all add: arch_console_putc_def)
  with Print k console_ok_render [OF console_ok_puts [OF k console_ok_active [OF k]]] show ?thesis
    by (simp add: arch_console_flush_def)
next
  case (Switch_vt vt)
  assume k: "console_ok k"
  then have "console_ok (k\<lparr>active_vt := nat vt\<rparr>)" if "\<not> (vt < 0 \<or> vt \<ge> int VT_COUNT)"
    using that by (auto simp: console_ok_def)
  with Switch_vt k console_ok_render show ?thesis by (auto simp: arch_console_switch_vt_def)
next
  case (Scroll delta)
  assume k: "console_ok k"
  with Scroll console_ok_vga [OF k] console_ok_nth [OF k console_ok_active [OF k]] console_ok_render show ?thesis
    by (simp add: arch_console_scroll_def Let_def)
next
  case (Mouse_feed ev)
  assume "console_ok k"
  with Mouse_feed mouse_events.inv_push [of "mouse_ring k" ev] show ?thesis by (simp add: arch_console_mouse_feed_def console_ok_def)
next
  case (Mouse_read n)
  assume "console_ok k"
  moreover have "1 < MOUSE_RING_SIZE" by (simp add: MOUSE_RING_SIZE_def)
  ultimately show ?thesis using Mouse_read ring_ok_pops [of MOUSE_RING_SIZE "mouse_ring k" n]
    by (simp add: arch_console_mouse_read_def Let_def case_prod_beta console_ok_def)
next
  case (Fb_owner t)
  assume "console_ok k"
  with Fb_owner show ?thesis by (simp add: arch_console_set_fb_owner_def console_ok_def)
qed (simp_all add: console_ok_raw console_ok_feed console_ok_read)

definition console_boot :: console where
  "console_boot =
     \<lparr>vts = replicate VT_COUNT \<lparr>vt_raw_mode = False, vt_ring = \<lparr>rg_buf = replicate (unat CONSOLE_RING_SIZE) 0, rg_head = 0, rg_tail = 0\<rparr>\<rparr>,
      active_vt = 0, fb_owner_tid = 0,
      vga_vts = replicate VT_COUNT \<lparr>live_screen = replicate VGA_ROWS (replicate VGA_COLS 0),
        history_buf = replicate VGA_HISTORY_MAX (replicate VGA_COLS 0), live_row = 0, live_col = 0, history_head = 0,
        view_offset = 0, vga_attr = 0, ansi_state = 0, ansi_param = 0\<rparr>,
      vga_mem = replicate VGA_ROWS (replicate VGA_COLS 0),
      mouse_ring = \<lparr>rg_buf = replicate (unat MOUSE_RING_SIZE) 0, rg_head = 0, rg_tail = 0\<rparr>\<rparr>"

lemma console_ok_boot: "console_ok console_boot"
  by (simp add: console_ok_def console_boot_def vga_ok_def ring_ok_def CONSOLE_RING_SIZE_def MOUSE_RING_SIZE_def
      VT_COUNT_def vga_size_defs)



section \<open>Input arrives in order\<close>

definition vt_input :: "nat \<Rightarrow> console \<Rightarrow> u8 list" where
  "vt_input vt k = ring_elems (vt_ring (vts k ! vt))"

lemma render_vts [simp]: "vts (render_screen k) = vts k"
  by (simp add: render_screen_def Let_def)

text \<open>C38. The input of a terminal is a queue of 255 bytes: the driver appends as many bytes as fit and the rest is dropped,
  a reader takes the oldest bytes and leaves the others, and the input of the other terminals does not change.
\<close>

theorem console_input_fifo:
  assumes "console_ok k" "vt < VT_COUNT"
  shows "vt_input vt (arch_console_feed_bytes (int vt) buf k) = vt_input vt k @ take (255 - length (vt_input vt k)) buf
    \<and> fst (arch_console_read_line_bytes (int vt) n k) = take n (vt_input vt k)
    \<and> vt_input vt (snd (arch_console_read_line_bytes (int vt) n k)) = drop n (vt_input vt k)
    \<and> (\<forall>other. other \<noteq> vt \<longrightarrow> vt_input other (arch_console_feed_bytes (int vt) buf k) = vt_input other k
         \<and> vt_input other (snd (arch_console_read_line_bytes (int vt) n k)) = vt_input other k)"
proof -
  let ?r = "vt_ring (vts k ! vt)"
  have ok: "ring_ok CONSOLE_RING_SIZE ?r" using assms by (rule console_ring_nth)
  have len: "vt < length (vts k)" using assms by (simp add: console_ok_def)
  have vt: "\<not> (int vt < 0 \<or> int vt \<ge> int VT_COUNT)" using assms(2) by simp
  have feed: "vts (arch_console_feed_bytes (int vt) buf k)
    = (vts k)[vt := (vts k ! vt)\<lparr>vt_ring := fold (ring_push CONSOLE_RING_SIZE) buf ?r\<rparr>]"
    using vt by (simp add: arch_console_feed_bytes_def Let_def)
  obtain out r where p: "pops n (ring_pop CONSOLE_RING_SIZE) ?r = (out, r)" by (cases "pops n (ring_pop CONSOLE_RING_SIZE) ?r")
  have read: "arch_console_read_line_bytes (int vt) n k = (out, k\<lparr>vts := (vts k)[vt := (vts k ! vt)\<lparr>vt_ring := r\<rparr>]\<rparr>)"
    using vt p by (simp add: arch_console_read_line_bytes_def Let_def)
  have "unat CONSOLE_RING_SIZE = 256" by (simp add: CONSOLE_RING_SIZE_def)
  with input_ring.view_pushes [OF ok, of buf] input_ring.pops_view [OF ok p] len show ?thesis
    unfolding vt_input_def feed read by simp
qed

theorem console_input_fifo_witness:
  "vt_input 1 (arch_console_feed_bytes 1 [65, 66, 67] (arch_console_init console_boot)) = [65, 66, 67]"
proof -
  have "console_ok (arch_console_init console_boot)"
    by (simp add: arch_console_init_def, rule console_ok_render)
      (use console_ok_boot in \<open>auto simp: console_ok_def vga_ok_clear\<close>)
  moreover have "vt_input 1 (arch_console_init console_boot) = []"
    by (simp add: vt_input_def arch_console_init_def console_boot_def ring_elems_def ht_view_def ht_count_def VT_COUNT_def nth_Cons')
  ultimately show ?thesis
    using console_input_fifo [of "arch_console_init console_boot" 1 "[65, 66, 67]" 0] by (simp add: VT_COUNT_def)
qed

end
