(* ===== verification/Kprintf.thy ===== *)
theory Kprintf
  imports Console
begin

text \<open>
  Kernel messages, \<^verbatim>\<open>src/lib/kprintf.c\<close>: the conversion of numbers in fixed-size buffers, the interpretation of
  a format string, and the output to the active terminal. Strings are lists of characters without terminator.
  The locks and the interrupt flag have no effect on one message.
\<close>

section \<open>Numbers\<close>

text \<open>The buffers \<^verbatim>\<open>buf\<close> of the two conversions, lowest digit first.\<close>

function udec_buf :: "u64 \<Rightarrow> u8 list" where
  "udec_buf v = (if v = 0 then [] else (48 + ucast (v mod 10)) # udec_buf (v div 10))"
  by pat_completeness auto
termination
  by (relation "measure unat") (auto simp: unat_div word_neq_0_conv word_less_nat_alt)

function hex_buf :: "u64 \<Rightarrow> u8 list" where
  "hex_buf v = (if v = 0 then [] else
     (let d = ucast (v AND 0xF) in if d < 10 then 48 + d else 87 + d) # hex_buf (drop_bit 4 v))"
  by pat_completeness auto
termination
  by (relation "measure unat") (auto simp: drop_bit_eq_div unat_div word_neq_0_conv word_less_nat_alt)

declare udec_buf.simps [simp del] hex_buf.simps [simp del]

definition udec :: "u64 \<Rightarrow> u8 list" where
  "udec v = (if v = 0 then [48] else rev (udec_buf v))"

definition hex :: "u64 \<Rightarrow> nat \<Rightarrow> u8 list" where
  "hex v min_digits =
     (let buf = hex_buf v; buf = (if buf = [] then [48] else buf)
      in rev (buf @ replicate (min_digits - length buf) 48))"

definition emit :: "u8 list \<Rightarrow> console \<Rightarrow> console" where
  "emit s k = fold arch_console_putc s k"

definition emit_udec :: "u64 \<Rightarrow> console \<Rightarrow> console" where
  "emit_udec v k = emit (udec v) k"

definition emit_hex :: "u64 \<Rightarrow> nat \<Rightarrow> console \<Rightarrow> console" where
  "emit_hex v min_digits k = emit (hex v min_digits) k"

text \<open>The string \<^verbatim>\<open>(null)\<close> stands for a null pointer.\<close>

definition str_or_null :: "u8 list option \<Rightarrow> u8 list" where
  "str_or_null s = (case s of Some s \<Rightarrow> s | None \<Rightarrow> [40, 110, 117, 108, 108, 41])"

definition emit_str :: "u8 list option \<Rightarrow> console \<Rightarrow> console" where
  "emit_str s k = emit (str_or_null s) k"

definition kputs :: "u8 list option \<Rightarrow> console \<Rightarrow> console" where
  "kputs s k = arch_console_flush (arch_console_putc 10 (emit_str s k))"

section \<open>Formats\<close>

text \<open>An argument is a number in its 64-bit slot or a string. The directives are the characters
  c (99), s (115), d (100), u (117), x (120), p (112) and the percent sign (37), after any number of l (108).\<close>

datatype karg = Num u64 | Str "u8 list option"

definition sdec :: "bool \<Rightarrow> u64 \<Rightarrow> u8 list" where
  "sdec wide w =
     (let v = (if wide then w else scast (ucast w :: 32 word))
      in if v <s 0 then 45 # udec (- v) else udec v)"

definition narrow :: "bool \<Rightarrow> u64 \<Rightarrow> u64" where
  "narrow wide w = (if wide then w else ucast (ucast w :: 32 word))"

text \<open>The characters of one directive and the remaining arguments; \<open>None\<close> when the arguments do not fit the
  format, which C leaves undefined.\<close>

definition directive :: "bool \<Rightarrow> u8 \<Rightarrow> karg list \<Rightarrow> (u8 list \<times> karg list) option" where
  "directive wide c args =
     (if c = 37 then Some ([37], args)
      else if c \<notin> {99, 115, 100, 117, 120, 112} then Some ([37, c], args)
      else
        case args of
          [] \<Rightarrow> None
        | Str s # rest \<Rightarrow> if c = 115 then Some (str_or_null s, rest) else None
        | Num v # rest \<Rightarrow>
            if c = 115 then None
            else Some (if c = 99 then [ucast v] else if c = 100 then sdec wide v else if c = 117 then udec (narrow wide v)
                       else if c = 120 then hex (narrow wide v) 1 else [48, 120] @ hex v 16, rest))"

lemma dropWhile_Cons_less: "dropWhile P xs = y # ys \<Longrightarrow> length ys < length xs"
  using length_dropWhile_le [of P xs] by simp

function kformat :: "u8 list \<Rightarrow> karg list \<Rightarrow> u8 list option" where
  "kformat [] args = Some []"
| "kformat (c # fmt) args =
     (if c \<noteq> 37 then map_option ((#) c) (kformat fmt args)
      else
        case dropWhile (\<lambda>x. x = 108) fmt of
          [] \<Rightarrow> Some []
        | d # rest \<Rightarrow>
            Option.bind (directive (fmt \<noteq> [] \<and> hd fmt = 108) d args)
              (\<lambda>(out, args). map_option ((@) out) (kformat rest args)))"
  by pat_completeness auto

termination
  by (relation "measure (\<lambda>(fmt, _). length fmt)") (auto dest: dropWhile_Cons_less)

definition kprintf :: "u8 list \<Rightarrow> karg list \<Rightarrow> console \<Rightarrow> console option" where
  "kprintf fmt args k = map_option (\<lambda>s. arch_console_flush (emit s k)) (kformat fmt args)"

end
