(* ===== verification/Hwio.thy ===== *)
theory Hwio
  imports Prelude
begin

text \<open>
  Port and PCI configuration accesses of drivers, \<^verbatim>\<open>arch/x86_64/src/hwio.c\<close> and \<^verbatim>\<open>arch/x86_64/src/pci.c\<close>, and
  the console driver's ports (\<^verbatim>\<open>arch_console_port_io\<close>). The hardware is a log of the accesses made so far
  together with an arbitrary function that answers the reads: the answer may depend on everything that
  was accessed before, because the log is its argument.
\<close>

datatype io_event = Out u16 nat u32 | In u16 nat

record io =
  io_log :: "io_event list"
  io_answer :: "io_event list \<Rightarrow> u32"

definition out_port :: "u16 \<Rightarrow> nat \<Rightarrow> u32 \<Rightarrow> io \<Rightarrow> io" where
  "out_port port width v d = d\<lparr>io_log := io_log d @ [Out port width (v AND mask (8 * width))]\<rparr>"

definition in_port :: "u16 \<Rightarrow> nat \<Rightarrow> io \<Rightarrow> u32 \<times> io" where
  "in_port port width d =
     (let d' = d\<lparr>io_log := io_log d @ [In port width]\<rparr> in (io_answer d (io_log d') AND mask (8 * width), d'))"

section \<open>PCI configuration space\<close>

definition PCI_CONFIG_ADDRESS :: u16 where "PCI_CONFIG_ADDRESS = 0xCF8"
definition PCI_CONFIG_DATA :: u16 where "PCI_CONFIG_DATA = 0xCFC"

record pci_addr =
  pci_bus :: u8
  pci_device :: u8
  pci_function :: u8

definition cfg_address :: "pci_addr \<Rightarrow> u8 \<Rightarrow> u32" where
  "cfg_address a off =
     push_bit 31 1 OR push_bit 16 (ucast (pci_bus a)) OR push_bit 11 (ucast (pci_device a))
     OR push_bit 8 (ucast (pci_function a)) OR ucast (off AND 0xFC)"

definition pci_cfg_read32 :: "pci_addr \<Rightarrow> u8 \<Rightarrow> io \<Rightarrow> u32 \<times> io" where
  "pci_cfg_read32 a off d = in_port PCI_CONFIG_DATA 4 (out_port PCI_CONFIG_ADDRESS 4 (cfg_address a off) d)"

definition pci_cfg_read16 :: "pci_addr \<Rightarrow> u8 \<Rightarrow> io \<Rightarrow> u16 \<times> io" where
  "pci_cfg_read16 a off d = (let (v, d) = pci_cfg_read32 a off d in (ucast (drop_bit (unat (off AND 2) * 8) v), d))"

definition pci_cfg_read8 :: "pci_addr \<Rightarrow> u8 \<Rightarrow> io \<Rightarrow> u8 \<times> io" where
  "pci_cfg_read8 a off d = (let (v, d) = pci_cfg_read32 a off d in (ucast (drop_bit (unat (off AND 3) * 8) v), d))"

definition pci_cfg_write32 :: "pci_addr \<Rightarrow> u8 \<Rightarrow> u32 \<Rightarrow> io \<Rightarrow> io" where
  "pci_cfg_write32 a off v d = out_port PCI_CONFIG_DATA 4 v (out_port PCI_CONFIG_ADDRESS 4 (cfg_address a off) d)"

definition pci_cfg_write16 :: "pci_addr \<Rightarrow> u8 \<Rightarrow> u16 \<Rightarrow> io \<Rightarrow> io" where
  "pci_cfg_write16 a off v d =
     (let (old, d) = pci_cfg_read32 a off d;
          shift = unat (off AND 2) * 8;
          m = push_bit shift 0xFFFF
      in pci_cfg_write32 a off ((old AND NOT m) OR push_bit shift (ucast v)) d)"

definition pci_cfg_write8 :: "pci_addr \<Rightarrow> u8 \<Rightarrow> u8 \<Rightarrow> io \<Rightarrow> io" where
  "pci_cfg_write8 a off v d =
     (let (old, d) = pci_cfg_read32 a off d;
          shift = unat (off AND 3) * 8;
          m = push_bit shift 0xFF
      in pci_cfg_write32 a off ((old AND NOT m) OR push_bit shift (ucast v)) d)"

text \<open>The search for a device: every function of every device that answers, in order. The functions of a
  device are only looked at when its first one exists, and only the first when the header type has no
  multi-function bit.\<close>

fun find_function :: "u16 \<Rightarrow> u16 \<Rightarrow> pci_addr list \<Rightarrow> io \<Rightarrow> pci_addr option \<times> io" where
  "find_function vendor device [] d = (None, d)"
| "find_function vendor device (a # fs) d =
     (let (vid, d) = pci_cfg_read16 a 0 d
      in if vid = 0xFFFF then find_function vendor device fs d
         else
           (let (did, d) = pci_cfg_read16 a 2 d
            in if vid = vendor \<and> did = device then (Some a, d) else find_function vendor device fs d))"

fun walk_devices :: "u16 \<Rightarrow> u16 \<Rightarrow> (nat \<times> nat) list \<Rightarrow> io \<Rightarrow> pci_addr option \<times> io" where
  "walk_devices vendor device [] d = (None, d)"
| "walk_devices vendor device ((bus, dev) # rest) d =
     (let at = (\<lambda>fn. \<lparr>pci_bus = of_nat bus, pci_device = of_nat dev, pci_function = of_nat fn\<rparr>);
          (vid0, d) = pci_cfg_read16 (at 0) 0 d
      in if vid0 = 0xFFFF then walk_devices vendor device rest d
         else
           (let (header_type, d) = pci_cfg_read8 (at 0) 0x0E d;
                nfuncs = (if header_type AND 0x80 \<noteq> 0 then 8 else 1);
                (r, d) = find_function vendor device (map at [0..<nfuncs]) d
            in case r of Some a \<Rightarrow> (Some a, d) | None \<Rightarrow> walk_devices vendor device rest d))"

definition pci_find_device :: "u16 \<Rightarrow> u16 \<Rightarrow> io \<Rightarrow> pci_addr option \<times> io" where
  "pci_find_device vendor device d = walk_devices vendor device (List.product [0..<256] [0..<32]) d"

section \<open>Accesses for drivers\<close>

text \<open>\<open>None\<close> is the result -1.\<close>

definition arch_pci_cfg_access ::
    "u8 \<Rightarrow> u8 \<Rightarrow> u8 \<Rightarrow> u8 \<Rightarrow> int \<Rightarrow> bool \<Rightarrow> u64 \<Rightarrow> io \<Rightarrow> u64 option \<times> io" where
  "arch_pci_cfg_access bus device func off width is_write v d =
     (let a = \<lparr>pci_bus = bus, pci_device = device, pci_function = func\<rparr>
      in if is_write
         then (if width = 1 then (Some 0, pci_cfg_write8 a off (ucast v) d)
               else if width = 2 then (Some 0, pci_cfg_write16 a off (ucast v) d)
               else if width = 4 then (Some 0, pci_cfg_write32 a off (ucast v) d)
               else (None, d))
         else (if width = 1 then (let (x, d) = pci_cfg_read8 a off d in (Some (ucast x), d))
               else if width = 2 then (let (x, d) = pci_cfg_read16 a off d in (Some (ucast x), d))
               else if width = 4 then (let (x, d) = pci_cfg_read32 a off d in (Some (ucast x), d))
               else (None, d)))"

definition hw_port_allowed :: "u16 \<Rightarrow> bool" where
  "hw_port_allowed port \<longleftrightarrow>
     port = 0xCF8 \<or> port = 0xCFC \<or> (port \<ge> 0x1F0 \<and> port \<le> 0x1F7) \<or> port = 0x3F6
     \<or> (port \<ge> 0x170 \<and> port \<le> 0x177) \<or> port = 0x376 \<or> port \<ge> 0xC000"

text \<open>An access of width 1, 2 or 4 to a port.\<close>

definition port_access :: "u16 \<Rightarrow> int \<Rightarrow> bool \<Rightarrow> u64 \<Rightarrow> io \<Rightarrow> u64 option \<times> io" where
  "port_access port width is_write v d =
     (if width = 1 \<or> width = 2 \<or> width = 4
      then (if is_write then (Some 0, out_port port (nat width) (ucast v) d)
            else (let (x, d) = in_port port (nat width) d in (Some (ucast x), d)))
      else (None, d))"

definition arch_hw_port_io :: "u16 \<Rightarrow> int \<Rightarrow> bool \<Rightarrow> u64 \<Rightarrow> io \<Rightarrow> u64 option \<times> io" where
  "arch_hw_port_io port width is_write v d =
     (if \<not> hw_port_allowed port then (None, d) else port_access port width is_write v d)"

definition console_port_allowed :: "u16 \<Rightarrow> bool" where
  "console_port_allowed port \<longleftrightarrow> port = 0x60 \<or> port = 0x64 \<or> (port \<ge> 0x3F8 \<and> port \<le> 0x3F8 + 7)"

definition arch_console_port_io :: "u16 \<Rightarrow> int \<Rightarrow> bool \<Rightarrow> u64 \<Rightarrow> io \<Rightarrow> u64 option \<times> io" where
  "arch_console_port_io port width is_write v d =
     (if \<not> console_port_allowed port then (None, d) else port_access port width is_write v d)"

fun bulk_in :: "u16 \<Rightarrow> nat \<Rightarrow> io \<Rightarrow> u8 list \<times> io" where
  "bulk_in port 0 d = ([], d)"
| "bulk_in port (Suc n) d =
     (let (w, d) = in_port port 2 d; (bs, d) = bulk_in port n d in (ucast w # ucast (drop_bit 8 w) # bs, d))"

fun bulk_out :: "u16 \<Rightarrow> u8 list \<Rightarrow> io \<Rightarrow> io" where
  "bulk_out port (a # b # bs) d = bulk_out port bs (out_port port 2 (ucast a OR push_bit 8 (ucast b)) d)"
| "bulk_out port _ d = d"

definition arch_hw_port_io_bulk_read :: "u16 \<Rightarrow> int \<Rightarrow> io \<Rightarrow> u8 list option \<times> io" where
  "arch_hw_port_io_bulk_read port count d =
     (if \<not> hw_port_allowed port \<or> count \<le> 0 \<or> odd count then (None, d)
      else (let (bs, d) = bulk_in port (nat count div 2) d in (Some bs, d)))"

definition arch_hw_port_io_bulk_write :: "u16 \<Rightarrow> u8 list \<Rightarrow> int \<Rightarrow> io \<Rightarrow> int option \<times> io" where
  "arch_hw_port_io_bulk_write port buf count d =
     (if \<not> hw_port_allowed port \<or> count \<le> 0 \<or> odd count then (None, d)
      else (Some count, bulk_out port (take (nat count) buf) d))"

section \<open>Random numbers\<close>

text \<open>\<^verbatim>\<open>src/core/random.c\<close>: whether the processor has the instruction \<^verbatim>\<open>rdrand\<close>, what its successive executions
  answer (a value and the carry flag), and how many there were.\<close>

record rng =
  g_random_available :: bool
  rng_answer :: "nat \<Rightarrow> u64 \<times> bool"
  rng_used :: nat

definition random_init :: "u32 \<Rightarrow> rng \<Rightarrow> rng" where
  "random_init ecx r = r\<lparr>g_random_available := bit ecx 30\<rparr>"

definition random_available :: "rng \<Rightarrow> bool" where
  "random_available r = g_random_available r"

fun random_try :: "nat \<Rightarrow> rng \<Rightarrow> u64 option \<times> rng" where
  "random_try 0 r = (None, r)"
| "random_try (Suc n) r =
     (let (v, ready) = rng_answer r (rng_used r); r = r\<lparr>rng_used := rng_used r + 1\<rparr>
      in if ready then (Some v, r) else random_try n r)"

definition random_u64 :: "rng \<Rightarrow> u64 option \<times> rng" where
  "random_u64 r = (if \<not> g_random_available r then (None, r) else random_try 16 r)"

text \<open>\<open>None\<close> is the result -1.\<close>

function random_fill :: "nat \<Rightarrow> rng \<Rightarrow> u8 list option \<times> rng" where
  "random_fill len r =
     (if len = 0 then (Some [], r)
      else
        (case random_u64 r of
           (None, r) \<Rightarrow> (None, r)
         | (Some v, r) \<Rightarrow>
             (let chunk = min len 8; (rest, r) = random_fill (len - chunk) r
              in (map_option (\<lambda>bs. map (\<lambda>i. ucast (drop_bit (i * 8) v)) [0..<chunk] @ bs) rest, r))))"
  by pat_completeness auto
termination by (relation "measure fst") auto

declare random_fill.simps [simp del]

definition random_u32 :: "rng \<Rightarrow> u32 option \<times> rng" where
  "random_u32 r = (let (v, r) = random_u64 r in (map_option ucast v, r))"

end
