(* ===== verification/Bootinfo.thy ===== *)
theory Bootinfo
  imports Klib Pmm
begin

text \<open>
  What the boot loader hands over: \<^verbatim>\<open>arch/x86_64/src/pvh_mem.c\<close> (the tags of a Multiboot2 information block, with
  the start information of a PVH guest as the alternative), the lookup of boot modules in \<^verbatim>\<open>src/boot/rootfs.c\<close>,
  and the kernel command line, \<^verbatim>\<open>src/core/cmdline.c\<close>. The information lies in physical memory; a walk over the
  tags follows their sizes, so a block with a tag of size 0 makes it run forever.
\<close>

section \<open>Memory\<close>

definition load32 :: "mem \<Rightarrow> u64 \<Rightarrow> u32" where
  "load32 m a = word_rcat (map (\<lambda>i. m (a + of_nat i)) (rev [0..<4]))"

text \<open>The loop over two strings; the second one is a list that stands for a terminated string.\<close>

fun str_eq :: "mem \<Rightarrow> u64 \<Rightarrow> u8 list \<Rightarrow> bool" where
  "str_eq m a [] \<longleftrightarrow> m a = 0"
| "str_eq m a (c # s) \<longleftrightarrow> (if m a = 0 \<or> c = 0 then m a = c else m a = c \<and> str_eq m (a + 1) s)"

section \<open>Tags\<close>

record boot =
  multiboot2_info_ptr :: u64
  pvh_start_info_ptr :: u64

definition tag_type :: "mem \<Rightarrow> u64 \<Rightarrow> u32" where "tag_type m p = load32 m p"
definition tag_size :: "mem \<Rightarrow> u64 \<Rightarrow> u32" where "tag_size m p = load32 m (p + 4)"

definition tag_next :: "mem \<Rightarrow> u64 \<Rightarrow> u64" where
  "tag_next m p = p + ucast ((tag_size m p + 7) AND NOT 7)"

definition tags_start :: "boot \<Rightarrow> u64" where
  "tags_start b = multiboot2_info_ptr b + 8"

definition tags_stop :: "mem \<Rightarrow> boot \<Rightarrow> u64" where
  "tags_stop m b = multiboot2_info_ptr b + ucast (load32 m (multiboot2_info_ptr b))"

text \<open>The loop that every reader has: the first tag before the end tag that satisfies \<open>P\<close>.\<close>

partial_function (option) find_tag :: "mem \<Rightarrow> (u64 \<Rightarrow> bool) \<Rightarrow> u64 \<Rightarrow> u64 \<Rightarrow> u64 option option" where
  "find_tag m P stop p =
     (if \<not> p < stop \<or> tag_type m p = 0 then Some None
      else if P p then Some (Some p)
      else find_tag m P stop (tag_next m p))"

definition first_tag :: "(u64 \<Rightarrow> bool) \<Rightarrow> mem \<Rightarrow> boot \<Rightarrow> u64 option option" where
  "first_tag P m b =
     (if multiboot2_info_ptr b = 0 then Some None else find_tag m P (tags_stop m b) (tags_start b))"

definition PVH_MAGIC :: u32 where "PVH_MAGIC = 0x336ec578"
definition MB2_MAGIC :: u32 where "MB2_MAGIC = 0x36d76289"
definition MB2_TAG_RSDP_OLD :: u32 where "MB2_TAG_RSDP_OLD = 14"
definition MB2_TAG_RSDP_NEW :: u32 where "MB2_TAG_RSDP_NEW = 15"
definition MB2_TAG_FRAMEBUFFER :: u32 where "MB2_TAG_FRAMEBUFFER = 8"
definition HVM_MEMMAP_TYPE_RAM :: u32 where "HVM_MEMMAP_TYPE_RAM = 1"
definition FALLBACK_BASE :: paddr where "FALLBACK_BASE = 0x1000000"
definition FALLBACK_LEN :: u64 where "FALLBACK_LEN = 0x1000000"

definition pvh_info :: "mem \<Rightarrow> boot \<Rightarrow> u64 option" where
  "pvh_info m b =
     (let p = pvh_start_info_ptr b
      in if p \<noteq> 0 \<and> load32 m p = PVH_MAGIC \<and> load32 m (p + 4) \<ge> 1 then Some p else None)"

definition arch_boot_magic :: "mem \<Rightarrow> boot \<Rightarrow> u32 option" where
  "arch_boot_magic m b =
     (if multiboot2_info_ptr b \<noteq> 0 then Some MB2_MAGIC else map_option (load32 m) (pvh_info m b))"

text \<open>The address of the command line. The outer option of this and the following results is \<open>None\<close> when the walk
  does not end.\<close>

definition arch_boot_cmdline :: "mem \<Rightarrow> boot \<Rightarrow> u64 option option" where
  "arch_boot_cmdline m b =
     map_option (\<lambda>r. case r of
         Some p \<Rightarrow> Some (p + 8)
       | None \<Rightarrow> (case pvh_info m b of
                    None \<Rightarrow> None
                  | Some i \<Rightarrow> if load64 m (i + 24) = 0 then None else Some (load64 m (i + 24))))
       (first_tag (\<lambda>p. tag_type m p = 1) m b)"

section \<open>Modules\<close>

definition module_range :: "mem \<Rightarrow> u64 \<Rightarrow> paddr \<times> u64" where
  "module_range m p = (ucast (load32 m (p + 8)), ucast (load32 m (p + 12) - load32 m (p + 8)))"

definition arch_boot_module :: "mem \<Rightarrow> boot \<Rightarrow> (paddr \<times> u64) option option" where
  "arch_boot_module m b =
     map_option (\<lambda>r. case r of
         Some p \<Rightarrow> Some (module_range m p)
       | None \<Rightarrow> (case pvh_info m b of
                    None \<Rightarrow> None
                  | Some i \<Rightarrow>
                      if load32 m (i + 12) = 0 \<or> load64 m (i + 16) = 0 then None
                      else (let e = load64 m (i + 16) in Some (load64 m e, load64 m (e + 8)))))
       (first_tag (\<lambda>p. tag_type m p = 3) m b)"

definition arch_boot_module_by_name :: "mem \<Rightarrow> boot \<Rightarrow> u8 list \<Rightarrow> (paddr \<times> u64) option option" where
  "arch_boot_module_by_name m b name =
     map_option (map_option (module_range m)) (first_tag (\<lambda>p. tag_type m p = 3 \<and> str_eq m (p + 16) name) m b)"

partial_function (option) count_modules :: "mem \<Rightarrow> u64 \<Rightarrow> nat \<Rightarrow> u64 \<Rightarrow> nat option" where
  "count_modules m stop n p =
     (if \<not> p < stop \<or> tag_type m p = 0 then Some n
      else count_modules m stop (if tag_type m p = 3 then n + 1 else n) (tag_next m p))"

definition arch_boot_module_count :: "mem \<Rightarrow> boot \<Rightarrow> nat option" where
  "arch_boot_module_count m b =
     (if multiboot2_info_ptr b = 0 then Some 0 else count_modules m (tags_stop m b) 0 (tags_start b))"

partial_function (option) nth_module :: "mem \<Rightarrow> u64 \<Rightarrow> int \<Rightarrow> nat \<Rightarrow> u64 \<Rightarrow> u64 option option" where
  "nth_module m stop index cur p =
     (if \<not> p < stop \<or> tag_type m p = 0 then Some None
      else if tag_type m p = 3 \<and> int cur = index then Some (Some p)
      else nth_module m stop index (if tag_type m p = 3 then cur + 1 else cur) (tag_next m p))"

definition arch_boot_module_at :: "mem \<Rightarrow> boot \<Rightarrow> int \<Rightarrow> (paddr \<times> u64) option option" where
  "arch_boot_module_at m b index =
     (if multiboot2_info_ptr b = 0 then Some None
      else map_option (map_option (module_range m)) (nth_module m (tags_stop m b) index 0 (tags_start b)))"

text \<open>The address and the content of a file of the boot image.\<close>

definition rootfs_lookup :: "mem \<Rightarrow> boot \<Rightarrow> u8 list \<Rightarrow> (u64 \<times> u8 list) option option" where
  "rootfs_lookup m b name =
     map_option (map_option (\<lambda>(base, len). (base, bytes_at m base (unat len)))) (arch_boot_module_by_name m b name)"

section \<open>Tables of the firmware\<close>

definition arch_boot_rsdp :: "mem \<Rightarrow> boot \<Rightarrow> paddr option option" where
  "arch_boot_rsdp m b =
     map_option (\<lambda>r. case r of
         Some p \<Rightarrow> Some (p + 8)
       | None \<Rightarrow> (case pvh_info m b of
                    None \<Rightarrow> None
                  | Some i \<Rightarrow> if load64 m (i + 32) = 0 then None else Some (load64 m (i + 32))))
       (first_tag (\<lambda>p. tag_type m p = MB2_TAG_RSDP_OLD \<or> tag_type m p = MB2_TAG_RSDP_NEW) m b)"

record fb_info =
  fb_phys_addr :: u64
  fb_pitch :: u32
  fb_width :: u32
  fb_height :: u32
  fb_bpp :: u8
  fb_type :: u8
  fb_red_pos :: u8
  fb_red_size :: u8
  fb_green_pos :: u8
  fb_green_size :: u8
  fb_blue_pos :: u8
  fb_blue_size :: u8

text \<open>The colour layout is only filled in for a direct colour mode; otherwise it keeps what \<open>old\<close> had.\<close>

definition fb_at :: "mem \<Rightarrow> u64 \<Rightarrow> fb_info \<Rightarrow> fb_info" where
  "fb_at m p old =
     (let fb = old\<lparr>fb_phys_addr := load64 m (p + 8), fb_pitch := load32 m (p + 16), fb_width := load32 m (p + 20),
                  fb_height := load32 m (p + 24), fb_bpp := m (p + 28), fb_type := m (p + 29)\<rparr>
      in if m (p + 29) = 1
         then fb\<lparr>fb_red_pos := m (p + 32), fb_red_size := m (p + 33), fb_green_pos := m (p + 34),
                 fb_green_size := m (p + 35), fb_blue_pos := m (p + 36), fb_blue_size := m (p + 37)\<rparr>
         else fb)"

definition arch_boot_framebuffer :: "mem \<Rightarrow> boot \<Rightarrow> fb_info \<Rightarrow> fb_info option option" where
  "arch_boot_framebuffer m b old =
     map_option (map_option (\<lambda>p. fb_at m p old)) (first_tag (\<lambda>p. tag_type m p = MB2_TAG_FRAMEBUFFER) m b)"

section \<open>The memory map\<close>

definition region_usable_len :: "paddr \<Rightarrow> u64 \<Rightarrow> u64" where
  "region_usable_len addr len =
     (if addr \<ge> ROBU_IDENTITY_MAP_LIMIT then 0
      else (let max_len = ROBU_IDENTITY_MAP_LIMIT - addr in if len < max_len then len else max_len))"

text \<open>One step of the search for the largest region: the best base, length and usable length so far. An entry
  is an address, a length and a type.\<close>

definition better_region :: "paddr \<times> u64 \<times> u32 \<Rightarrow> paddr \<times> u64 \<times> u64 \<Rightarrow> paddr \<times> u64 \<times> u64" where
  "better_region e best =
     (case e of (addr, len, ty) \<Rightarrow>
        if ty \<noteq> HVM_MEMMAP_TYPE_RAM then best
        else if region_usable_len addr len > snd (snd best) then (addr, len, region_usable_len addr len) else best)"

definition best_region :: "(paddr \<times> u64 \<times> u32) list \<Rightarrow> (paddr \<times> u64) option" where
  "best_region es = (case fold better_region es (0, 0, 0) of (b, l, _) \<Rightarrow> if l > 0 then Some (b, l) else None)"

definition mmap_entry :: "mem \<Rightarrow> u64 \<Rightarrow> paddr \<times> u64 \<times> u32" where
  "mmap_entry m a = (load64 m a, load64 m (a + 8), load32 m (a + 16))"

text \<open>An entry size of 0 is a division by zero (\<open>None\<close>).\<close>

definition mmap_entries :: "mem \<Rightarrow> u64 \<Rightarrow> (paddr \<times> u64 \<times> u32) list option" where
  "mmap_entries m p =
     (let es = load32 m (p + 8); n = (tag_size m p - 16) div es
      in if es = 0 then None
         else Some (map (\<lambda>i. mmap_entry m (p + 16 + ucast (of_nat i * es :: u32))) [0..<unat n]))"

text \<open>A memory map without usable memory does not end the walk.\<close>

partial_function (option) detect_mb2 :: "mem \<Rightarrow> u64 \<Rightarrow> u64 \<Rightarrow> (paddr \<times> u64) option option" where
  "detect_mb2 m stop p =
     (if \<not> p < stop \<or> tag_type m p = 0 then Some None
      else if tag_type m p = 6
      then Option.bind (mmap_entries m p) (\<lambda>es.
             if best_region es \<noteq> None then Some (best_region es) else detect_mb2 m stop (tag_next m p))
      else detect_mb2 m stop (tag_next m p))"

definition detect_pvh :: "mem \<Rightarrow> boot \<Rightarrow> (paddr \<times> u64) option" where
  "detect_pvh m b =
     (case pvh_info m b of
        None \<Rightarrow> None
      | Some i \<Rightarrow>
          (let tab = load64 m (i + 40); n = load32 m (i + 48)
           in if tab = 0 \<or> n = 0 then None
              else best_region (map (\<lambda>j. mmap_entry m (tab + of_nat j * 24)) [0..<unat n])))"

definition arch_detect_memory :: "mem \<Rightarrow> boot \<Rightarrow> (paddr \<times> u64) option" where
  "arch_detect_memory m b =
     map_option (\<lambda>r. case r of
         Some reg \<Rightarrow> reg
       | None \<Rightarrow> (case detect_pvh m b of Some reg \<Rightarrow> reg | None \<Rightarrow> (FALLBACK_BASE, FALLBACK_LEN)))
       (if multiboot2_info_ptr b = 0 then Some None else detect_mb2 m (tags_stop m b) (tags_start b))"

section \<open>The command line\<close>

definition CMDLINE_BUF_SIZE :: nat where "CMDLINE_BUF_SIZE = 256"
definition CMDLINE_MAX_TOKENS :: nat where "CMDLINE_MAX_TOKENS = 16"

lemma tl_dropWhile_less: "p \<noteq> [] \<Longrightarrow> length (tl (dropWhile P p)) < length p"
  by (rule le_less_trans [OF _ diff_less [of 1 "length p"]]) (simp_all add: diff_le_mono length_dropWhile_le)

lemma parse_step_less:
  assumes "q = dropWhile (\<lambda>c. c = 32) p" "q \<noteq> []"
  shows "length (tl (dropWhile P q)) < length p" "length (tl (dropWhile P (tl (dropWhile Q q)))) < length p"
proof -
  have le: "length q \<le> length p" using assms(1) length_dropWhile_le by metis
  show "length (tl (dropWhile P q)) < length p" using tl_dropWhile_less [OF assms(2), of P] le by simp
  have "length (tl (dropWhile P (tl (dropWhile Q q)))) \<le> length (tl (dropWhile Q q))"
    using length_dropWhile_le [of P "tl (dropWhile Q q)"] by simp
  then show "length (tl (dropWhile P (tl (dropWhile Q q)))) < length p"
    using tl_dropWhile_less [OF assms(2), of Q] le by simp
qed

text \<open>The loop over the buffer, with the tokens found so far. Characters 32 and 61 are the blank and the equals
  sign. Keys and values are pointers into the buffer, whose separators are overwritten with terminators; here
  they are the strings themselves.\<close>

function parse_tokens :: "u8 list \<Rightarrow> (u8 list \<times> u8 list) list \<Rightarrow> (u8 list \<times> u8 list) list" where
  "parse_tokens p toks =
     (let p = dropWhile (\<lambda>c. c = 32) p
      in if p = [] \<or> length toks \<ge> CMDLINE_MAX_TOKENS then toks
         else
           (let key = takeWhile (\<lambda>c. c \<noteq> 32 \<and> c \<noteq> 61) p; rest = dropWhile (\<lambda>c. c \<noteq> 32 \<and> c \<noteq> 61) p
            in if rest \<noteq> [] \<and> hd rest = 61
               then (let value = takeWhile (\<lambda>c. c \<noteq> 32) (tl rest); rest = dropWhile (\<lambda>c. c \<noteq> 32) (tl rest)
                     in parse_tokens (tl rest) (toks @ [(key, value)]))
               else parse_tokens (tl rest) toks))"
  by pat_completeness auto

termination
  apply (relation "measure (\<lambda>(p, _). length p)")
    apply (rule wf_measure)
  subgoal premises prems
    unfolding in_measure prod.case prems(7) prems(4)
    by (rule parse_step_less(2) [OF prems(1)]) (use prems(2) in blast)
  subgoal premises prems
    unfolding in_measure prod.case prems(4)
    by (rule parse_step_less(1) [OF prems(1)]) (use prems(2) in blast)
  done

declare parse_tokens.simps [simp del]

definition cmdline_parse :: "u8 list option \<Rightarrow> (u8 list \<times> u8 list) list" where
  "cmdline_parse raw = (case raw of None \<Rightarrow> [] | Some s \<Rightarrow> parse_tokens (take (CMDLINE_BUF_SIZE - 1) s) [])"

definition cmdline_get :: "(u8 list \<times> u8 list) list \<Rightarrow> u8 list \<Rightarrow> u8 list option" where
  "cmdline_get toks key = map_option (\<lambda>i. snd (toks ! i)) (first_slot (\<lambda>t. fst t = key) toks)"

end
