(* ===== verification/Kernel.thy ===== *)
theory Kernel
  imports Spawn Sock Kprintf Hwio Bootinfo
begin

text \<open>
  The state of the whole kernel and the operations that reach into every service: signals
  (\<^verbatim>\<open>src/core/signal.c\<close>), the end of a thread with everything it releases, the periodic tick and the
  return to user mode (\<^verbatim>\<open>src/core/sched.c\<close>), exiting (\<^verbatim>\<open>src/core/spawn.c\<close>), destroying a thread through its
  capability (\<^verbatim>\<open>src/core/captable.c\<close>) and page faults (\<^verbatim>\<open>src/core/vm.c\<close>). Every operation runs with the
  kernel lock held. An operation that may not come back in a defined state has an optional result, with
  \<open>None\<close> for halting the machine, for an endless loop, and for a fault or a stray write of the kernel.
\<close>

section \<open>State\<close>

text \<open>Per processor: the loaded \<^verbatim>\<open>cr3\<close>, the floating point registers and the \<^verbatim>\<open>FS\<close> base. Behind them the
  threads that were granted a special right, see \<^verbatim>\<open>src/core/ipc.c\<close>.\<close>

record kernel = exec_state +
  k_socks :: sockets
  k_console :: console
  k_io :: io
  k_rng :: rng
  k_cr3 :: "nat \<Rightarrow> paddr"
  k_vstats :: vm_activate_stats
  k_fpu :: "nat \<Rightarrow> u8 list"
  k_fsbase :: "nat \<Rightarrow> u64"
  k_boot_fb :: "fb_info option"
  console_writer_tid :: tid
  console_driver_tid :: tid
  console_fg_pgid :: "tid list"
  console_read_waiter :: "tid list"
  pager_owner_tid :: tid
  hw_driver_tid :: tid
  hw_driver_secondary_tids :: "tid list"
  hw_port_io_secondary_tids :: "tid list"
  pci_cfg_secondary_tid :: tid

definition on_console :: "(console \<Rightarrow> console) \<Rightarrow> kernel \<Rightarrow> kernel" where
  "on_console f k = k\<lparr>k_console := f (k_console k)\<rparr>"

definition activate :: "nat \<Rightarrow> paddr \<Rightarrow> kernel \<Rightarrow> kernel" where
  "activate cpu aspace k =
     (case arch_vm_activate (k_boot_pml4 k) aspace (k_cr3 k cpu) (k_vstats k) of
        (cr3, vs) \<Rightarrow> k\<lparr>k_cr3 := (k_cr3 k)(cpu := cr3), k_vstats := vs\<rparr>)"

definition arch_fpu_save :: "nat \<Rightarrow> tptr \<Rightarrow> kernel \<Rightarrow> kernel" where
  "arch_fpu_save cpu t k = k_upd t (\<lambda>c. c\<lparr>t_fpu_state := k_fpu k cpu\<rparr>) k"

definition arch_fpu_restore :: "nat \<Rightarrow> tptr \<Rightarrow> kernel \<Rightarrow> kernel" where
  "arch_fpu_restore cpu t k = k\<lparr>k_fpu := (k_fpu k)(cpu := t_fpu_state (k_tcb k t))\<rparr>"

definition arch_set_fsbase :: "nat \<Rightarrow> u64 \<Rightarrow> kernel \<Rightarrow> kernel" where
  "arch_set_fsbase cpu base k = k\<lparr>k_fsbase := (k_fsbase k)(cpu := base)\<rparr>"

section \<open>The end of a thread\<close>

text \<open>The senders waiting in the queue of a dead thread are released with an error. Each step clears the link
  it follows, so there are at most as many steps as there are threads, and one more.\<close>

fun drop_senders :: "nat \<Rightarrow> nat \<Rightarrow> tptr option \<Rightarrow> 'a kmach_scheme \<Rightarrow> 'a kmach_scheme" where
  "drop_senders 0 cpu l k = k"
| "drop_senders (Suc fuel) cpu l k =
     (case l of
        None \<Rightarrow> k
      | Some s \<Rightarrow>
          (let nx = t_sq_next (k_tcb k s);
               k = k_upd s (\<lambda>c. c\<lparr>t_sq_next := None\<rparr>) k;
               k = k_uctx s (\<lambda>f. f\<lparr>rax := rax_err IPC_ERR_NOT_FOUND\<rparr>) k
           in drop_senders fuel cpu nx (on_sched (sched_wake cpu s) k)))"

text \<open>One step of the loop over the thread table: release who waits for a message of the dead thread, look
  for a living thread in the same address space, and take the dead parent from its children.\<close>

definition orphan_step :: "nat \<Rightarrow> tptr \<Rightarrow> nat \<Rightarrow> bool \<times> 'a kmach_scheme \<Rightarrow> bool \<times> 'a kmach_scheme" where
  "orphan_step cpu t i st =
     (case st of (sibling_found, k) \<Rightarrow>
        (let w = Thread i;
             k = (if t_state (k_tcb k w) = THREAD_STATE_WAIT_RECV \<and> t_ipc_partner (k_tcb k w) = t_tid (k_tcb k t)
                  then on_sched (sched_wake cpu w) (k_uctx w (\<lambda>f. f\<lparr>rax := rax_err IPC_ERR_NOT_FOUND\<rparr>) k) else k);
             sibling_found = (sibling_found \<or>
               (w \<noteq> t \<and> t_state (k_tcb k w) \<noteq> THREAD_STATE_DEAD \<and> t_state (k_tcb k w) \<noteq> THREAD_STATE_ZOMBIE
                \<and> t_address_space (k_tcb k w) = t_address_space (k_tcb k t)));
             k = (if t_parent_tid (k_tcb k w) = t_tid (k_tcb k t)
                  then k_upd w (\<lambda>c. c\<lparr>t_parent_tid := 0,
                         t_state := (if t_state c = THREAD_STATE_ZOMBIE then THREAD_STATE_DEAD else t_state c)\<rparr>) k
                  else k)
         in (sibling_found, k)))"

definition release_aspace :: "nat \<Rightarrow> tptr \<Rightarrow> kernel \<Rightarrow> kernel" where
  "release_aspace cpu t k =
     (let k = (if t = k_current k cpu then activate cpu 0 k else k);
          k = shm_detach_all_for_process (t_address_space (k_tcb k t)) k;
          k = vm_address_space_destroy (t_address_space (k_tcb k t)) k
      in k_upd t (\<lambda>c. c\<lparr>t_address_space := 0\<rparr>) k)"

text \<open>What the services keep for a thread.\<close>

definition release_services :: "nat \<Rightarrow> tid \<Rightarrow> kernel \<Rightarrow> kernel" where
  "release_services cpu dead k =
     (let k = kcap_invalidate_tcb_death dead k;
          k = notif_invalidate_waiter_death dead k;
          k = k\<lparr>k_pipes := pipe_invalidate_tcb_death (k_pipes k) dead\<rparr>;
          k = k\<lparr>k_socks := sock_cleanup_for_process dead (k_socks k)\<rparr>;
          k = execreq_cancel_requester dead k;
          k = (if dead = ucast (ki_ext2fs_tid (k_kinfo k)) then execreq_fail_all cpu k else k)
      in if arch_console_get_fb_owner (k_console k) = dead then on_console (arch_console_set_fb_owner 0) k else k)"

definition terminate_tcb :: "nat \<Rightarrow> tptr \<Rightarrow> thread_state \<Rightarrow> kernel \<Rightarrow> kernel" where
  "terminate_tcb cpu t final_state k =
     (let q = t_send_q_head (k_tcb k t);
          k = k_upd t (\<lambda>c. c\<lparr>t_state := final_state, t_send_q_head := None, t_send_q_tail := None\<rparr>) k;
          k = drop_senders (SCHED_MAX_THREADS + MAX_CPUS + 1) cpu q k;
          (sibling_found, k) = fold (orphan_step cpu t) [1..<SCHED_MAX_THREADS] (False, k);
          k = (if t_address_space (k_tcb k t) \<noteq> 0 \<and> \<not> sibling_found then release_aspace cpu t k else k)
      in release_services cpu (t_tid (k_tcb k t)) k)"

definition sched_terminate_to :: "nat \<Rightarrow> thread_state \<Rightarrow> kernel \<Rightarrow> kernel" where
  "sched_terminate_to cpu final_state k =
     on_sched (sched_request_resched cpu) (terminate_tcb cpu (k_current k cpu) final_state k)"

definition sched_terminate_current :: "nat \<Rightarrow> kernel \<Rightarrow> kernel" where
  "sched_terminate_current cpu k = sched_terminate_to cpu THREAD_STATE_DEAD k"

definition sched_terminate :: "nat \<Rightarrow> tid \<Rightarrow> kernel \<Rightarrow> int \<times> kernel" where
  "sched_terminate cpu victim_tid k =
     (case sched_get_tcb victim_tid (k_sched k) of
        None \<Rightarrow> (- 1, k)
      | Some t \<Rightarrow>
          if t = k_current k cpu \<or> t_state (k_tcb k t) = THREAD_STATE_RUNNING then (- 1, k)
          else (0, terminate_tcb cpu t THREAD_STATE_DEAD k))"

definition cap_destroy :: "nat \<Rightarrow> tid \<Rightarrow> u32 \<Rightarrow> kernel \<Rightarrow> int \<times> kernel" where
  "cap_destroy cpu caller slot k =
     (case validate caller slot CAP_KIND_TCB k of
        None \<Rightarrow> (- 1, k)
      | Some cap \<Rightarrow> sched_terminate cpu (ucast (c_addr cap)) k)"

text \<open>A parent that waits is woken with the status; without one that waits, the thread stays as a zombie for
  a living parent.\<close>

definition spawn_exit_current :: "nat \<Rightarrow> int \<Rightarrow> kernel \<Rightarrow> kernel" where
  "spawn_exit_current cpu status k =
     (let cur = k_current k cpu;
          k = k_upd cur (\<lambda>c. c\<lparr>t_exit_status := status\<rparr>) k;
          c = k_tcb k cur
      in case (if t_parent_tid c \<noteq> 0 then sched_get_tcb (t_parent_tid c) (k_sched k) else None) of
           None \<Rightarrow> sched_terminate_to cpu THREAD_STATE_DEAD k
         | Some p \<Rightarrow>
             if t_state (k_tcb k p) = THREAD_STATE_WAIT_CHILD
                \<and> (t_wait_filter (k_tcb k p) = 0 \<or> t_wait_filter (k_tcb k p) = t_tid c)
             then sched_terminate_to cpu THREAD_STATE_DEAD
                    (on_sched (sched_wake cpu p)
                      (k_uctx p (\<lambda>f. f\<lparr>rax := word_of_int IPC_ERR_NONE, r8 := ucast (t_tid c), r9 := word_of_int status\<rparr>) k))
             else sched_terminate_to cpu THREAD_STATE_ZOMBIE k)"

section \<open>Signals\<close>

definition SIGCHLD :: nat where "SIGCHLD = 17"
definition SIGCONT :: nat where "SIGCONT = 18"
definition SIGSTOP :: nat where "SIGSTOP = 19"
definition SIGTSTP :: nat where "SIGTSTP = 20"
definition SIGTTIN :: nat where "SIGTTIN = 21"
definition SIGTTOU :: nat where "SIGTTOU = 22"
definition SIGURG :: nat where "SIGURG = 23"
definition SIGWINCH :: nat where "SIGWINCH = 28"
definition ROBU_SIG_DFL :: u64 where "ROBU_SIG_DFL = 0"
definition ROBU_SIG_IGN :: u64 where "ROBU_SIG_IGN = 1"
definition SA_NODEFER :: u64 where "SA_NODEFER = 0x40000000"
definition SA_RESETHAND :: u64 where "SA_RESETHAND = 0x80000000"
definition SIGTRAMPOLINE_VA :: vaddr where "SIGTRAMPOLINE_VA = 0x80001000"

text \<open>The code of the trampoline is a constant of the kernel image.\<close>

definition sig_trampoline_init :: "u8 list \<Rightarrow> 'a kmach_scheme \<Rightarrow> 'a kmach_scheme" where
  "sig_trampoline_init sigtramp k =
     (let (frame, k) = with_pm (pmm_alloc PMM_COLOR_ANY) k;
          k = k\<lparr>k_mem := store_bytes (k_mem k) frame sigtramp\<rparr>
      in snd (with_pm (arch_vm_map_page (k_boot_pml4 k) SIGTRAMPOLINE_VA frame
                (VM_PROT_READ OR VM_PROT_USER OR VM_PROT_EXEC)) k))"

definition sig_bit :: "nat \<Rightarrow> u64" where
  "sig_bit signum = push_bit (signum - 1) 1"

definition sig_send :: "nat \<Rightarrow> tid \<Rightarrow> int \<Rightarrow> 'a kmach_scheme \<Rightarrow> int \<times> 'a kmach_scheme" where
  "sig_send cpu target signum k =
     (if signum < 1 \<or> signum \<ge> int ROBU_NSIG then (- 1, k)
      else
        case sched_get_tcb target (k_sched k) of
          None \<Rightarrow> (- 1, k)
        | Some t \<Rightarrow>
            (0, on_sched (sched_wake cpu t) (k_upd t (\<lambda>c. c\<lparr>t_sig_pending := t_sig_pending c OR sig_bit (nat signum)\<rparr>) k)))"

definition sig_default_terminates :: "nat \<Rightarrow> bool" where
  "sig_default_terminates signum \<longleftrightarrow>
     signum \<notin> {SIGCHLD, SIGURG, SIGWINCH, SIGCONT, SIGSTOP, SIGTSTP, SIGTTIN, SIGTTOU}"

text \<open>The signals that a thread would take, and the first of them.\<close>

definition sig_deliverable :: "tcb \<Rightarrow> u64" where
  "sig_deliverable c = t_sig_pending c AND NOT (t_sig_mask c)"

definition lowest_signal :: "u64 \<Rightarrow> nat option" where
  "lowest_signal d = map_option Suc (first_slot (bit d) [0..<64])"

text \<open>The thread control block with the handler entered; the return address has been stored on the user stack
  at \<open>handler_rsp\<close>.\<close>

definition handler_rsp :: "tcb \<Rightarrow> u64" where
  "handler_rsp c = ((rsp (t_uctx c) - 256) AND NOT 0xF) - 8"

definition enter_handler :: "nat \<Rightarrow> tcb \<Rightarrow> tcb" where
  "enter_handler signum c =
     (let sa = t_sig_actions c ! signum
      in c\<lparr>t_saved_uctx_before_sig := t_uctx c, t_saved_sig_mask := t_sig_mask c,
           t_sig_mask := (if sa_flags sa AND SA_NODEFER = 0 then t_sig_mask c OR sa_mask sa OR sig_bit signum
                          else t_sig_mask c OR sa_mask sa),
           t_in_sig_handler := True,
           t_sig_actions := (if sa_flags sa AND SA_RESETHAND \<noteq> 0
                             then (t_sig_actions c)[signum := sa\<lparr>sa_handler := ROBU_SIG_DFL\<rparr>] else t_sig_actions c),
           t_uctx := (t_uctx c)\<lparr>rsp := handler_rsp c, rip := sa_handler sa, rdi := of_nat signum\<rparr>\<rparr>)"

text \<open>The physical address that the processor finds for a virtual address, through the page tables whose root is
  loaded.\<close>

definition mmu_address :: "mem \<Rightarrow> paddr \<Rightarrow> vaddr \<Rightarrow> paddr option" where
  "mmu_address m cr3 va =
     (case walk_to_pte m cr3 va of
        None \<Rightarrow> None
      | Some a \<Rightarrow>
          (let e = load64 m a
           in if \<not> present e then None
              else Some ((e AND leaf_mask e AND NOT X86_PTE_NX) + (va AND NOT (leaf_mask e)))))"

text \<open>The kernel writes to the user stack through the loaded page tables, where supervisor accesses are not
  checked for write permission; an address that is not mapped makes the kernel itself fault. The address is a
  multiple of eight, so the word lies in one page.\<close>

definition sig_try_deliver :: "nat \<Rightarrow> tptr \<Rightarrow> kernel \<Rightarrow> kernel option" where
  "sig_try_deliver cpu t k =
     (if t_in_sig_handler (k_tcb k t) then Some k
      else
        case lowest_signal (sig_deliverable (k_tcb k t)) of
          None \<Rightarrow> Some k
        | Some signum \<Rightarrow>
            (let k = k_upd t (\<lambda>c. c\<lparr>t_sig_pending := t_sig_pending c AND NOT (sig_bit signum)\<rparr>) k;
                 sa = t_sig_actions (k_tcb k t) ! signum
             in if sa_handler sa = ROBU_SIG_IGN then Some k
                else if sa_handler sa = ROBU_SIG_DFL
                then Some (if sig_default_terminates signum
                           then spawn_exit_current cpu (sint (0x80000000 OR of_nat signum :: 32 word)) k else k)
                else
                  (case mmu_address (k_mem k) (k_cr3 k cpu) (handler_rsp (k_tcb k t)) of
                     None \<Rightarrow> None
                   | Some pa \<Rightarrow> Some (k_upd t (enter_handler signum) (k\<lparr>k_mem := store64 (k_mem k) pa SIGTRAMPOLINE_VA\<rparr>)))))"

text \<open>The number of threads of the group that took the signal.\<close>

definition sched_signal_pgid :: "nat \<Rightarrow> tid \<Rightarrow> int \<Rightarrow> 'a kmach_scheme \<Rightarrow> int \<times> 'a kmach_scheme" where
  "sched_signal_pgid cpu pgid signum k =
     (if pgid = 0 then (- 1, k)
      else
        fold (\<lambda>i (sent, k).
          (case sched_get_tcb (of_nat i) (k_sched k) of
             None \<Rightarrow> (sent, k)
           | Some t \<Rightarrow>
               if t_pgid (k_tcb k t) \<noteq> pgid then (sent, k)
               else (case sig_send cpu (of_nat i) signum k of (rc, k) \<Rightarrow> (if rc = 0 then sent + 1 else sent, k))))
          [1..<SCHED_MAX_THREADS] (0, k))"

section \<open>Returning to user mode\<close>

definition sched_switch_to :: "nat \<Rightarrow> tptr \<Rightarrow> tptr \<Rightarrow> kernel \<Rightarrow> kernel" where
  "sched_switch_to cpu from to k =
     (let k = (if to \<noteq> from
               then (let k = arch_fpu_restore cpu to (arch_fpu_save cpu from k)
                     in if t_fs_base (k_tcb k to) \<noteq> t_fs_base (k_tcb k from)
                        then arch_set_fsbase cpu (t_fs_base (k_tcb k to)) k else k)
               else k)
      in activate cpu (t_address_space (k_tcb k to)) k)"

definition reschedule :: "nat \<Rightarrow> kernel \<Rightarrow> kernel" where
  "reschedule cpu k = on_sched (\<lambda>s. sched_arm_next_deadline cpu (schedule cpu s)) k"

definition has_signal :: "tcb \<Rightarrow> bool" where
  "has_signal c \<longleftrightarrow> t_address_space c \<noteq> 0 \<and> \<not> t_in_sig_handler c \<and> sig_deliverable c \<noteq> 0"

partial_function (option) deliver_loop :: "nat \<Rightarrow> tptr \<Rightarrow> kernel \<Rightarrow> kernel option" where
  "deliver_loop cpu nxt k =
     (if has_signal (k_tcb k nxt)
      then Option.bind (sig_try_deliver cpu nxt k) (\<lambda>k.
             if t_state (k_tcb k nxt) = THREAD_STATE_RUNNING then Some k
             else (let k = reschedule cpu k; nx = k_current k cpu
                   in deliver_loop cpu nx (sched_switch_to cpu nxt nx k)))
      else Some k)"

text \<open>The state in which the processor enters its current thread.\<close>

definition sched_resume :: "nat \<Rightarrow> kernel \<Rightarrow> kernel option" where
  "sched_resume cpu k =
     (let prev = k_current k cpu;
          k = (if need_resched (k_sched k) cpu \<or> t_state (k_tcb k prev) \<noteq> THREAD_STATE_RUNNING then reschedule cpu k else k);
          nxt = k_current k cpu
      in deliver_loop cpu nxt (sched_switch_to cpu prev nxt k))"

definition enter_first :: "nat \<Rightarrow> kernel \<Rightarrow> kernel" where
  "enter_first cpu k =
     (let nxt = k_current k cpu;
          k = arch_set_fsbase cpu (t_fs_base (k_tcb k nxt)) (arch_fpu_restore cpu nxt k);
          k = on_sched (sched_arm_next_deadline cpu) k
      in activate cpu (t_address_space (k_tcb k nxt)) k)"

definition sched_start :: "nat \<Rightarrow> kernel \<Rightarrow> kernel" where
  "sched_start cpu k =
     enter_first cpu (on_sched (\<lambda>s. (schedule cpu s)\<lparr>stats := (stats (schedule cpu s))\<lparr>st_full_scheds := 0\<rparr>\<rparr>) k)"

definition sched_join_ap :: "nat \<Rightarrow> kernel \<Rightarrow> kernel" where
  "sched_join_ap cpu k = enter_first cpu (on_sched (schedule cpu) k)"

section \<open>The tick\<close>

definition wake_sleeper :: "nat \<Rightarrow> nat \<Rightarrow> sched \<Rightarrow> sched" where
  "wake_sleeper cpu i s =
     (let t = Thread i
      in if t_state (tcbs s t) \<noteq> THREAD_STATE_SLEEPING then s
         else if t_wake_at_tick (tcbs s t) \<le> now_ticks s then sched_wake cpu t s
         else if t_wake_at_tick (tcbs s t) < next_deadline s then s\<lparr>next_deadline := t_wake_at_tick (tcbs s t)\<rparr> else s)"

definition tick_deadlines :: "nat \<Rightarrow> kernel \<Rightarrow> kernel option" where
  "tick_deadlines cpu k =
     (let k = on_sched (\<lambda>s. fold (wake_sleeper cpu) [1..<SCHED_MAX_THREADS] (s\<lparr>next_deadline := - 1\<rparr>)) k
      in map_option (\<lambda>(next_timer, k). on_sched (sched_note_deadline next_timer) k)
           (cap_timer_rescan cpu (now_ticks (k_sched k)) k))"

definition tick_clock :: "u64 \<Rightarrow> kernel \<Rightarrow> kernel" where
  "tick_clock n k =
     (let k = on_sched (\<lambda>s. s\<lparr>now_ticks := now_ticks s + n, stats := (stats s)\<lparr>st_ticks := st_ticks (stats s) + n\<rparr>\<rparr>) k
      in k\<lparr>k_kinfo := kinfo_tick n (k_kinfo k)\<rparr>)"

definition sched_tick :: "nat \<Rightarrow> kernel \<Rightarrow> kernel option" where
  "sched_tick cpu k =
     (let n = (if armed_ticks (k_sched k) cpu < 1 then 1 else armed_ticks (k_sched k) cpu);
          k = on_sched (\<lambda>s. s\<lparr>stats := (stats s)\<lparr>st_timer_traps := st_timer_traps (stats s) + 1\<rparr>\<rparr>) k;
          k = (if cpu = 0 then tick_clock n k else k)
      in map_option (\<lambda>k. on_sched (\<lambda>s. sched_arm_next_deadline cpu (sched_tick_local cpu n s)) k)
           (if cpu = 0 \<and> now_ticks (k_sched k) \<ge> next_deadline (k_sched k) then tick_deadlines cpu k else Some k))"

section \<open>Page faults\<close>

text \<open>A fault that nobody handles ends a user thread and halts the machine for a kernel thread.\<close>

definition fault_unhandled :: "nat \<Rightarrow> kernel \<Rightarrow> kernel option" where
  "fault_unhandled cpu k =
     (if t_address_space (k_tcb k (k_current k cpu)) \<noteq> 0 then Some (sched_terminate_current cpu k) else None)"

definition fault_to_pager :: "nat \<Rightarrow> tptr \<Rightarrow> vm_fault_msg \<Rightarrow> kernel \<Rightarrow> kernel" where
  "fault_to_pager cpu pager fault k =
     (let left = t_timeslice_left (k_tcb k (k_current k cpu));
          k = k_uctx pager (\<lambda>f. f\<lparr>r8 := fault_address fault, r9 := ucast (error_code fault),
                r10 := ucast (faulting_thread fault), rsi := ucast (faulting_thread fault), rax := 0\<rparr>) k;
          k = k_upd pager (\<lambda>c. c\<lparr>t_timeslice_left := left\<rparr>) k
      in on_sched (sched_direct_switch cpu pager) k)"

definition vm_handle_page_fault :: "nat \<Rightarrow> vaddr \<Rightarrow> u32 \<Rightarrow> kernel \<Rightarrow> kernel option" where
  "vm_handle_page_fault cpu fault_addr err k =
     (let cur = k_current k cpu; c = k_tcb k cur
      in if t_pager_tid c = 0 then fault_unhandled cpu k
         else
           case sched_get_tcb (t_pager_tid c) (k_sched k) of
             None \<Rightarrow> fault_unhandled cpu k
           | Some pager \<Rightarrow>
               (let fault = \<lparr>fault_address = fault_addr, error_code = err, faulting_thread = t_tid c\<rparr>;
                    k = on_sched (sched_block cpu THREAD_STATE_WAIT_PAGEFAULT) k
                in if t_state (k_tcb k pager) = THREAD_STATE_WAIT_RECV
                      \<and> (t_ipc_partner (k_tcb k pager) = 0 \<or> t_ipc_partner (k_tcb k pager) = t_tid c)
                   then Some (fault_to_pager cpu pager fault k)
                   else (case fault_queue_push fault (vm_faults k) of
                           (rc, q) \<Rightarrow> if rc \<noteq> 0 then None else Some (k\<lparr>vm_faults := q\<rparr>))))"

section \<open>The kernel image\<close>

text \<open>The zero-initialised static data of the kernel, before any component is initialised. The answers of the
  hardware and the state of the processors are not part of the image; they are zero here as well.\<close>

definition kernel_static :: kernel where
  "kernel_static =
     \<lparr>k_sched = sched_boot (\<lambda>_. False) (replicate 512 0),
      k_pmm = \<lparr>free_head = replicate PMM_NUM_COLORS 0, next_color = 0, total_frames = 0, free_frames = 0,
        free_by_color = replicate PMM_NUM_COLORS 0, alloc_calls = 0, free_calls = 0\<rparr>,
      k_mem = (\<lambda>_. 0), k_untyped = \<lparr>region_base = 0, region_size = 0, watermark = 0\<rparr>,
      k_dma = \<lparr>dma_base = 0, dma_size = 0, dma_used = 0\<rparr>, k_heap = \<lparr>heap_start = 0, heap_end = 0, free_list = 0\<rparr>,
      k_boot_pml4 = 0, k_boot_pdpt = 0, k_fb = (0, 0),
      vm_faults = \<lparr>fq_entries = replicate (unat FAULT_QUEUE_SIZE) \<lparr>fault_address = 0, error_code = 0, faulting_thread = 0\<rparr>,
        fq_head = 0, fq_tail = 0\<rparr>,
      vm_caps = [], kcap_table = [], kcap_capacity = 0, notif_table = [], timer_table = [],
      segments = replicate MAX_SHM_SEGMENTS \<lparr>sg_in_use = False, sg_key = 0, sg_generation = 0, sg_size = 0, sg_npages = 0,
        sg_frames = 0, sg_nattch = 0, sg_marked_rmid = False, sg_cpid = 0, sg_lpid = 0, sg_atime = 0, sg_dtime = 0,
        sg_ctime = 0, sg_mode_bits = 0\<rparr>,
      attaches = replicate MAX_SHM_ATTACHES \<lparr>at_in_use = False, at_shmid = 0, at_address_space = 0, at_va = 0, at_npages = 0\<rparr>,
      k_kinfo = kinfo_zero, k_kinfo_frame = 0, elf_cache = replicate (unat ELF_CACHE_SIZE) None, elf_cache_next_victim = 0,
      elf_parses = 0, elf_cache_hits = 0, k_pipes = pipe_pool_init,
      g_slots = replicate EXECREQ_MAX_SLOTS \<lparr>xs_state = EXECREQ_EMPTY, xs_generation = 0,
        xs_params = \<lparr>ep_requester_tid = 0, ep_is_spawn_create = False, ep_name = [], ep_strbuf = [], ep_argv_off = [],
          ep_envp_off = [], ep_nfds = 0, ep_fds = [], ep_prio = 0, ep_pager_tid = 0\<rparr>, xs_poll_child = None\<rparr>,
      k_socks = sockets_init, k_console = console_boot, k_io = \<lparr>io_log = [], io_answer = (\<lambda>_. 0)\<rparr>,
      k_rng = \<lparr>g_random_available = False, rng_answer = (\<lambda>_. (0, False)), rng_used = 0\<rparr>,
      k_cr3 = (\<lambda>_. 0), k_vstats = \<lparr>va_loads = 0, va_skips = 0\<rparr>, k_fpu = (\<lambda>_. replicate 512 0), k_fsbase = (\<lambda>_. 0),
      k_boot_fb = None, console_writer_tid = 0, console_driver_tid = 0, console_fg_pgid = replicate VT_COUNT 0,
      console_read_waiter = replicate VT_COUNT 0, pager_owner_tid = 0, hw_driver_tid = 0,
      hw_driver_secondary_tids = replicate 4 0, hw_port_io_secondary_tids = replicate 4 0, pci_cfg_secondary_tid = 0\<rparr>"

end
