(* ===== verification/Tcore.thy ===== *)
theory Tcore
  imports Machine
begin

text \<open>
  What scheduling leaves alone. The scheduler owns seven fields of a thread control block: state, queue flag, the
  links of the ready queue and of the wake inbox, the last processor, the rest of the time slice and the time to
  wake up. The core of a block is the block with these fields cleared; no operation of the scheduler changes the
  core of any thread, so saved registers, message buffers, address spaces and signals survive scheduling.
\<close>

definition tcb_core :: "tcb \<Rightarrow> tcb" where
  "tcb_core c = c\<lparr>t_state := THREAD_STATE_RUNNING, t_in_ready_q := False, t_timeslice_left := 0, t_wake_at_tick := 0,
     t_last_cpu := 0, t_rq_next := None, t_inbox_next := None\<rparr>"

lemma tcb_core_upd [simp]:
  "tcb_core (c\<lparr>t_state := a\<rparr>) = tcb_core c" "tcb_core (c\<lparr>t_in_ready_q := b\<rparr>) = tcb_core c"
  "tcb_core (c\<lparr>t_timeslice_left := i\<rparr>) = tcb_core c" "tcb_core (c\<lparr>t_wake_at_tick := w\<rparr>) = tcb_core c"
  "tcb_core (c\<lparr>t_last_cpu := n\<rparr>) = tcb_core c" "tcb_core (c\<lparr>t_rq_next := l\<rparr>) = tcb_core c"
  "tcb_core (c\<lparr>t_inbox_next := l\<rparr>) = tcb_core c"
  by (simp_all add: tcb_core_def)

definition same_core :: "sched \<Rightarrow> sched \<Rightarrow> bool" where
  "same_core s s' \<longleftrightarrow> (\<forall>t. tcb_core (tcbs s' t) = tcb_core (tcbs s t))"

lemma same_core_refl [simp, intro]: "same_core s s"
  by (simp add: same_core_def)

lemma same_core_trans [trans]: "same_core s s' \<Longrightarrow> same_core s' s'' \<Longrightarrow> same_core s s''"
  by (simp add: same_core_def)

lemma same_core_tcbs: "tcbs s' = tcbs s \<Longrightarrow> same_core s s'"
  by (simp add: same_core_def)

lemma same_core_upd: "tcb_core (f (tcbs s t)) = tcb_core (tcbs s t) \<Longrightarrow> same_core s (upd t f s)"
  by (simp add: same_core_def upd_def)

text \<open>Equal cores agree in every other field.\<close>

lemma tcb_core_eq:
  assumes "tcb_core c = tcb_core d"
  shows "t_tid c = t_tid d" "t_prio c = t_prio d" "t_uctx c = t_uctx d" "t_fpu_state c = t_fpu_state d"
    "t_fs_base c = t_fs_base d" "t_address_space c = t_address_space d" "t_ipc_partner c = t_ipc_partner d"
    "t_ipc_recv_after c = t_ipc_recv_after d" "t_ipc_flags c = t_ipc_flags d" "t_ipc_buffer c = t_ipc_buffer d"
    "t_pager_tid c = t_pager_tid d" "t_parent_tid c = t_parent_tid d" "t_wait_filter c = t_wait_filter d"
    "t_exit_status c = t_exit_status d" "t_pgid c = t_pgid d" "t_sig_pending c = t_sig_pending d"
    "t_sig_mask c = t_sig_mask d" "t_sig_actions c = t_sig_actions d" "t_in_sig_handler c = t_in_sig_handler d"
    "t_sq_next c = t_sq_next d" "t_send_q_head c = t_send_q_head d" "t_send_q_tail c = t_send_q_tail d"
    "t_saved_uctx_before_sig c = t_saved_uctx_before_sig d" "t_saved_sig_mask c = t_saved_sig_mask d"
  using assms by (cases c; cases d; simp add: tcb_core_def)+

lemmas same_core_eq = tcb_core_eq [OF same_core_def [THEN iffD1, THEN spec]]

section \<open>The operations of the scheduler\<close>

lemma rq_push_core: "same_core s (rq_push t s)"
  by (auto simp: rq_push_def Let_def upd_def same_core_def split: option.splits)

lemma sched_kick_tcbs: "tcbs (sched_kick cpu t c s) = tcbs s"
  by (simp add: sched_kick_def)

lemma sched_kicks_tcbs: "tcbs (fold (sched_kick cpu t) xs s) = tcbs s"
  by (induction xs arbitrary: s) (simp_all add: sched_kick_tcbs)

lemma sched_wake_core: "same_core s (sched_wake cpu t s)"
  by (auto simp: sched_wake_def Let_def upd_def same_core_def sched_kicks_tcbs)

lemma sched_block_core: "same_core s (sched_block cpu w s)"
  unfolding sched_block_def by (rule same_core_upd) simp

lemma sched_direct_switch_core: "same_core s (sched_direct_switch cpu t s)"
  by (simp add: sched_direct_switch_def Let_def same_core_def upd_def)

lemma sched_ready_now_core: "same_core s (sched_ready_now t s)"
proof -
  have "same_core s (upd t (\<lambda>c. c\<lparr>t_state := THREAD_STATE_READY\<rparr>) s)" by (rule same_core_upd) simp
  then show ?thesis unfolding sched_ready_now_def using rq_push_core same_core_trans by blast
qed

lemma drain_list_core: "same_core s (drain_list n l s)"
proof (induction n arbitrary: l s)
  case (Suc n)
  show ?case
  proof (cases l)
    case (Some t)
    let ?s = "upd t (\<lambda>c. c\<lparr>t_inbox_next := None\<rparr>) s"
    have "same_core s ?s" by (rule same_core_upd) simp
    also have "same_core ?s (if t_state (tcbs ?s t) = THREAD_STATE_READY then rq_push t ?s else ?s)"
      by (simp add: rq_push_core)
    finally show ?thesis using Suc.IH same_core_trans Some by (fastforce simp: Let_def)
  qed simp
qed simp

lemma sched_requeue_core: "same_core s (sched_requeue cpu s)"
proof -
  have up: "same_core s (upd t (\<lambda>c. c\<lparr>t_state := a\<rparr>) s)" for t a by (rule same_core_upd) simp
  show ?thesis
    unfolding sched_requeue_def Let_def using up rq_push_core same_core_trans by (simp split: if_splits) blast
qed

lemma rq_unlink_core: "same_core s (rq_unlink p prev t s)"
  by (auto simp: rq_unlink_def Let_def upd_def same_core_def split: option.splits)

lemma rq_pop_core: "same_core s (snd (rq_pop n cpu s))"
proof (induction n arbitrary: s)
  case (Suc n)
  have cnt: "same_core s (count_affinity cpu t s)" for t s by (rule same_core_tcbs) (simp add: count_affinity_def)
  show ?case
    using Suc.IH rq_unlink_core cnt same_core_trans by (fastforce simp: Let_def split: option.split)
qed simp

lemma sched_enter_core: "same_core s (sched_enter cpu t s)"
  by (simp add: sched_enter_def Let_def same_core_def upd_def)

lemma schedule_core: "same_core s (schedule cpu s)"
proof -
  have "same_core s (drain_inbox s)"
    unfolding drain_inbox_def using drain_list_core same_core_tcbs [of "s\<lparr>wake_inbox := None\<rparr>" s] same_core_trans by fastforce
  also note sched_requeue_core
  also note rq_pop_core
  also note sched_enter_core
  finally show ?thesis unfolding schedule_def rq_pop_highest_def Let_def case_prod_beta .
qed

lemma sched_arm_core: "same_core s (sched_arm_next_deadline cpu s)"
  by (rule same_core_tcbs) (simp add: sched_arm_next_deadline_def)

lemmas sched_core = rq_push_core sched_wake_core sched_block_core sched_direct_switch_core sched_ready_now_core
  schedule_core sched_arm_core

end
