(* ===== verification/Mqueue.thy ===== *)
theory Mqueue
  imports Prelude
begin

text \<open>
  Queues of waiting parties, one per receiver, from which a receiver takes the first party that its filter admits. The
  locale has the contract of the two operations; what it gives is proved for whole histories: the parties leave
  in the order of their arrival among those admitted, none is lost and none is served twice.
\<close>

datatype ('r, 'a, 'f) qop = Park 'r 'a | Take 'r 'f

text \<open>The specification: a list for every receiver. A party must not wait twice.\<close>

fun spec_run :: "('f \<Rightarrow> 'a \<Rightarrow> bool) \<Rightarrow> ('r, 'a, 'f) qop list \<Rightarrow> ('r \<Rightarrow> 'a list) \<Rightarrow> ('a option list \<times> ('r \<Rightarrow> 'a list)) option" where
  "spec_run adm [] q = Some ([], q)"
| "spec_run adm (Park r a # ops) q =
     (if \<exists>r. a \<in> set (q r) then None else spec_run adm ops (q(r := q r @ [a])))"
| "spec_run adm (Take r f # ops) q =
     (let x = find (adm f) (q r)
      in map_option (\<lambda>(out, q). (x # out, q))
           (spec_run adm ops (case x of None \<Rightarrow> q | Some a \<Rightarrow> q(r := remove1 a (q r)))))"

fun queue_run :: "('r \<Rightarrow> 'a \<Rightarrow> 's \<Rightarrow> 's) \<Rightarrow> ('r \<Rightarrow> 'f \<Rightarrow> 's \<Rightarrow> ('a option \<times> 's) option) \<Rightarrow> ('r, 'a, 'f) qop list \<Rightarrow> 's
    \<Rightarrow> ('a option list \<times> 's) option" where
  "queue_run park get [] s = Some ([], s)"
| "queue_run park get (Park r a # ops) s = queue_run park get ops (park r a s)"
| "queue_run park get (Take r f # ops) s =
     Option.bind (get r f s) (\<lambda>(x, s). map_option (\<lambda>(out, s). (x # out, s)) (queue_run park get ops s))"

definition parked_parties :: "('r, 'a, 'f) qop list \<Rightarrow> 'a list" where
  "parked_parties ops = concat (map (\<lambda>p. case p of Park r a \<Rightarrow> [a] | Take r f \<Rightarrow> []) ops)"

definition served :: "'a option list \<Rightarrow> 'a list" where
  "served out = concat (map (\<lambda>x. case x of None \<Rightarrow> [] | Some a \<Rightarrow> [a]) out)"

definition waiting_set :: "('r \<Rightarrow> 'a list) \<Rightarrow> 'a set" where
  "waiting_set q = (\<Union>r. set (q r))"

definition queues_distinct :: "('r \<Rightarrow> 'a list) \<Rightarrow> bool" where
  "queues_distinct q \<longleftrightarrow> (\<forall>r. distinct (q r)) \<and> (\<forall>r r'. r \<noteq> r' \<longrightarrow> set (q r) \<inter> set (q r') = {})"

lemma parked_simps [simp]:
  "parked_parties [] = []" "parked_parties (Park r a # ops) = a # parked_parties ops"
  "parked_parties (Take r f # ops) = parked_parties ops"
  by (simp_all add: parked_parties_def)

lemma served_simps [simp]: "served [] = []" "served (None # out) = served out" "served (Some a # out) = a # served out"
  by (simp_all add: served_def)

lemma find_in: "find P xs = Some a \<Longrightarrow> a \<in> set xs \<and> P a"
  by (induction xs) (auto split: if_splits)

lemma queues_distinct_park:
  "queues_distinct q \<Longrightarrow> a \<notin> waiting_set q \<Longrightarrow> queues_distinct (q(r := q r @ [a])) \<and> waiting_set (q(r := q r @ [a])) = insert a (waiting_set q)"
  by (auto simp: queues_distinct_def waiting_set_def split: if_splits)

lemma queues_distinct_take:
  "queues_distinct q \<Longrightarrow> a \<in> set (q r) \<Longrightarrow>
   queues_distinct (q(r := remove1 a (q r))) \<and> waiting_set (q(r := remove1 a (q r))) = waiting_set q - {a}"
  by (auto simp: queues_distinct_def waiting_set_def split: if_splits; blast)

text \<open>Nobody is lost or served twice.\<close>

lemma spec_run_conserves:
  "spec_run adm ops q = Some (out, q') \<Longrightarrow> queues_distinct q \<Longrightarrow>
   of_bool (a \<in> waiting_set q) + count_list (parked_parties ops) a = count_list (served out) a + of_bool (a \<in> waiting_set q')"
proof (induction ops arbitrary: q out)
  case (Cons p ops)
  show ?case
  proof (cases p)
    case (Park r b)
    with Cons.prems have new: "b \<notin> waiting_set q" by (auto simp: waiting_set_def split: if_splits)
    have rest: "spec_run adm ops (q(r := q r @ [b])) = Some (out, q')" using Park Cons.prems(1) by (simp split: if_splits)
    note q = queues_distinct_park [OF Cons.prems(2) new, of r]
    from Cons.IH [OF rest conjunct1 [OF q]] show ?thesis
      unfolding conjunct2 [OF q] using new by (cases "a = b") (simp_all add: Park)
  next
    case (Take r f)
    show ?thesis
    proof (cases "find (adm f) (q r)")
      case None
      obtain out' where rest: "spec_run adm ops q = Some (out', q')" and out: "out = None # out'"
        using Cons.prems(1) Take None by auto
      from Cons.IH [OF rest Cons.prems(2)] show ?thesis by (simp add: out Take)
    next
      case (Some b)
      then have b: "b \<in> set (q r)" "b \<in> waiting_set q" using find_in [OF Some] by (auto simp: waiting_set_def)
      obtain out' where rest: "spec_run adm ops (q(r := remove1 b (q r))) = Some (out', q')" and out: "out = Some b # out'"
        using Cons.prems(1) Take Some by auto
      note q = queues_distinct_take [OF Cons.prems(2) b(1)]
      from Cons.IH [OF rest conjunct1 [OF q]] show ?thesis
        unfolding conjunct2 [OF q] out using b(2) by (cases "a = b") (simp_all add: Take)
    qed
  qed
qed simp

locale message_queue =
  fixes ok :: "'s \<Rightarrow> ('r \<Rightarrow> 'a list) \<Rightarrow> bool"
    and park :: "'r \<Rightarrow> 'a \<Rightarrow> 's \<Rightarrow> 's"
    and get :: "'r \<Rightarrow> 'f \<Rightarrow> 's \<Rightarrow> ('a option \<times> 's) option"
    and adm :: "'f \<Rightarrow> 'a \<Rightarrow> bool"
  assumes park_ok: "ok s q \<Longrightarrow> \<forall>r. a \<notin> set (q r) \<Longrightarrow> ok (park r a s) (q(r := q r @ [a]))"
    and get_ok: "ok s q \<Longrightarrow> \<exists>s'. get r f s = Some (find (adm f) (q r), s') \<and>
      ok s' (case find (adm f) (q r) of None \<Rightarrow> q | Some a \<Rightarrow> q(r := remove1 a (q r)))"
    and ok_distinct: "ok s q \<Longrightarrow> queues_distinct q"
begin

lemma run_refines:
  "ok s q \<Longrightarrow> spec_run adm ops q = Some (out, q') \<Longrightarrow> \<exists>s'. queue_run park get ops s = Some (out, s') \<and> ok s' q'"
proof (induction ops arbitrary: s q out)
  case (Cons p ops)
  show ?case
  proof (cases p)
    case (Park r a)
    with Cons.prems have new: "\<forall>r. a \<notin> set (q r)" by (auto split: if_splits)
    have rest: "spec_run adm ops (q(r := q r @ [a])) = Some (out, q')" using Park Cons.prems(2) by (simp split: if_splits)
    from Cons.IH [OF park_ok [OF Cons.prems(1) new] rest] show ?thesis by (simp add: Park)
  next
    case (Take r f)
    obtain s' where s': "get r f s = Some (find (adm f) (q r), s')"
      "ok s' (case find (adm f) (q r) of None \<Rightarrow> q | Some a \<Rightarrow> q(r := remove1 a (q r)))"
      using get_ok [OF Cons.prems(1)] by blast
    obtain out' where "spec_run adm ops (case find (adm f) (q r) of None \<Rightarrow> q | Some a \<Rightarrow> q(r := remove1 a (q r))) = Some (out', q')"
      and out: "out = find (adm f) (q r) # out'"
      using Cons.prems(2) Take by (auto simp: Let_def)
    from Cons.IH [OF s'(2) this(1)] show ?thesis using Take s'(1) out by auto
  qed
qed simp

lemma run_conserves:
  "ok s q \<Longrightarrow> spec_run adm ops q = Some (out, q') \<Longrightarrow>
   of_bool (a \<in> waiting_set q) + count_list (parked_parties ops) a = count_list (served out) a + of_bool (a \<in> waiting_set q')"
  by (rule spec_run_conserves [OF _ ok_distinct])

end

end
