(* ===== verification/Ipc.thy ===== *)
theory Ipc
  imports Kernel Tcore Mqueue
begin

text \<open>
  Messages between threads, the second half of \<^verbatim>\<open>sys_ipc\<close> in \<^verbatim>\<open>src/core/ipc.c\<close>. A message is six registers;
  it goes directly from the registers of the sender to those of a receiver that waits for it, or
  the sender is parked in the queue of the receiver until that thread receives. A message can carry a
  mapping, a transfer or a sharing of pages; a call sends and then receives. The queue of a receiver is a
  list linked through the thread control blocks.
\<close>

section \<open>Flags\<close>

definition IPC_TID_ANY :: tid where "IPC_TID_ANY = 0"
definition IPC_FLAG_MAP :: u32 where "IPC_FLAG_MAP = 0x1"
definition IPC_FLAG_RECV :: u32 where "IPC_FLAG_RECV = 0x2"
definition IPC_FLAG_XFER :: u32 where "IPC_FLAG_XFER = 0x4"
definition IPC_FLAG_SHARE :: u32 where "IPC_FLAG_SHARE = 0x8"
definition IPC_FLAG_NOBLOCK :: u32 where "IPC_FLAG_NOBLOCK = 0x10"

definition flag_set :: "u32 \<Rightarrow> u32 \<Rightarrow> bool" where
  "flag_set flags b \<longleftrightarrow> flags AND b \<noteq> 0"

text \<open>The value of \<^verbatim>\<open>rax\<close> for success, and for a result code 0 or -1.\<close>

definition ipc_ok :: u64 where
  "ipc_ok = word_of_int IPC_ERR_NONE"

definition cap_rc :: "int \<Rightarrow> u64" where
  "cap_rc rc = (if rc = 0 then ipc_ok else rax_err IPC_ERR_NO_CAP)"

section \<open>Payload\<close>

definition payload_from_frame :: "arch_uctx \<Rightarrow> u64 list" where
  "payload_from_frame f = [r8 f, r9 f, r10 f, r12 f, r13 f, r14 f]"

definition payload_to_frame :: "u64 list \<Rightarrow> arch_uctx \<Rightarrow> arch_uctx" where
  "payload_to_frame m f = f\<lparr>r8 := m ! 0, r9 := m ! 1, r10 := m ! 2, r12 := m ! 3, r13 := m ! 4, r14 := m ! 5\<rparr>"

definition deliver_to_frame :: "tid \<Rightarrow> u64 list \<Rightarrow> arch_uctx \<Rightarrow> arch_uctx" where
  "deliver_to_frame from m f = (payload_to_frame m f)\<lparr>rsi := ucast from, rax := ipc_ok\<rparr>"

text \<open>The casts of a message to \<^verbatim>\<open>vm_map_msg_t\<close> and \<^verbatim>\<open>vm_xfer_msg_t\<close>.\<close>

definition map_msg :: "u64 list \<Rightarrow> vm_map_msg" where
  "map_msg m = \<lparr>mm_vaddr = m ! 0, mm_paddr = m ! 1, mm_flags = ucast (m ! 2), mm_count = ucast (drop_bit 32 (m ! 2))\<rparr>"

definition xfer_msg :: "u64 list \<Rightarrow> vm_xfer_msg" where
  "xfer_msg m = \<lparr>xm_src_vaddr = m ! 0, xm_dst_vaddr = m ! 1, xm_flags = ucast (m ! 2), xm_count = ucast (drop_bit 32 (m ! 2))\<rparr>"

text \<open>The pages that a message from \<open>snd_t\<close> to \<open>rcv\<close> carries.\<close>

definition ipc_transfer :: "u32 \<Rightarrow> tptr \<Rightarrow> tptr \<Rightarrow> u64 list \<Rightarrow> 'a vm_state_scheme \<Rightarrow> int \<times> 'a vm_state_scheme" where
  "ipc_transfer flags snd_t rcv m k =
     (let s = k_tcb k snd_t; r = k_tcb k rcv
      in if flag_set flags IPC_FLAG_MAP then vm_batch_map (t_address_space r) (t_tid s) (map_msg m) k
         else if flag_set flags IPC_FLAG_XFER then vm_xfer_pages (t_address_space s) (t_address_space r) (xfer_msg m) k
         else if flag_set flags IPC_FLAG_SHARE then vm_share_pages (t_address_space s) (t_address_space r) (xfer_msg m) k
         else (0, k))"

definition count_msg :: "'a kmach_scheme \<Rightarrow> 'a kmach_scheme" where
  "count_msg = on_sched (\<lambda>s. s\<lparr>stats := (stats s)\<lparr>st_ipc_msgs := st_ipc_msgs (stats s) + 1\<rparr>\<rparr>)"

section \<open>Send queues\<close>

definition sendq_append :: "tptr \<Rightarrow> tptr \<Rightarrow> sched \<Rightarrow> sched" where
  "sendq_append rcv s st =
     (let st = upd s (\<lambda>c. c\<lparr>t_sq_next := None\<rparr>) st;
          st = (case t_send_q_tail (tcbs st rcv) of
                  Some q \<Rightarrow> upd q (\<lambda>c. c\<lparr>t_sq_next := Some s\<rparr>) st
                | None \<Rightarrow> upd rcv (\<lambda>c. c\<lparr>t_send_q_head := Some s\<rparr>) st)
      in upd rcv (\<lambda>c. c\<lparr>t_send_q_tail := Some s\<rparr>) st)"

text \<open>The first sender in the list that the filter admits, with its predecessor. The links can form a cycle
  when a sender was ended while it was parked, so the search need not end.\<close>

partial_function (option) sendq_find ::
    "(tptr \<Rightarrow> tcb) \<Rightarrow> tid \<Rightarrow> tptr option \<Rightarrow> tptr option \<Rightarrow> (tptr option \<times> tptr) option option" where
  "sendq_find cells filt prev l =
     (if l = None then Some None
      else if filt \<noteq> IPC_TID_ANY \<and> t_tid (cells (the l)) \<noteq> filt
      then sendq_find cells filt l (t_sq_next (cells (the l)))
      else Some (Some (prev, the l)))"

definition sendq_unlink :: "tptr \<Rightarrow> tptr option \<Rightarrow> tptr \<Rightarrow> sched \<Rightarrow> sched" where
  "sendq_unlink rcv prev s st =
     (let nx = t_sq_next (tcbs st s);
          st = (case prev of
                  Some p \<Rightarrow> upd p (\<lambda>c. c\<lparr>t_sq_next := nx\<rparr>) st
                | None \<Rightarrow> upd rcv (\<lambda>c. c\<lparr>t_send_q_head := nx\<rparr>) st);
          st = (if t_send_q_tail (tcbs st rcv) = Some s then upd rcv (\<lambda>c. c\<lparr>t_send_q_tail := prev\<rparr>) st else st)
      in upd s (\<lambda>c. c\<lparr>t_sq_next := None\<rparr>) st)"

definition sendq_take :: "tptr \<Rightarrow> tid \<Rightarrow> sched \<Rightarrow> (tptr option \<times> sched) option" where
  "sendq_take rcv filt st =
     map_option (\<lambda>r. case r of None \<Rightarrow> (None, st) | Some (prev, s) \<Rightarrow> (Some s, sendq_unlink rcv prev s st))
       (sendq_find (tcbs st) filt None (t_send_q_head (tcbs st rcv)))"

section \<open>Receiving from a parked sender\<close>

text \<open>The result code is stored in the sender; one that also wants an answer starts to wait for it, every other
  one is ready again.\<close>

definition complete_parked_sender :: "nat \<Rightarrow> tptr \<Rightarrow> tptr \<Rightarrow> 'a vm_state_scheme \<Rightarrow> 'a vm_state_scheme" where
  "complete_parked_sender cpu cur s k =
     (let (xfer_rc, k) = ipc_transfer (t_ipc_flags (k_tcb k s)) s cur (t_ipc_buffer (k_tcb k s)) k;
          k = k_uctx cur (deliver_to_frame (t_tid (k_tcb k s)) (t_ipc_buffer (k_tcb k s))) k;
          k = k_uctx s (\<lambda>f. f\<lparr>rax := cap_rc xfer_rc\<rparr>) k;
          k = count_msg k
      in if t_ipc_recv_after (k_tcb k s) \<noteq> - 1
         then k_upd s (\<lambda>c. c\<lparr>t_ipc_partner := t_ipc_recv_after c, t_ipc_recv_after := - 1, t_state := THREAD_STATE_WAIT_RECV\<rparr>) k
         else on_sched (sched_wake cpu s) k)"

section \<open>Sending\<close>

text \<open>To a receiver that waits. A call waits for the answer, or takes a sender that is parked already; the
  processor goes straight to the receiver when that is allowed by the priorities.\<close>

definition send_direct :: "nat \<Rightarrow> tptr \<Rightarrow> tptr \<Rightarrow> tid \<Rightarrow> u32 \<Rightarrow> kernel \<Rightarrow> kernel option" where
  "send_direct cpu cur dest src_filter flags k =
     (let m = payload_from_frame (t_uctx (k_tcb k cur));
          (xfer_rc, k) = ipc_transfer flags cur dest m k;
          k = count_msg (k_uctx dest (deliver_to_frame (t_tid (k_tcb k cur)) m) k);
          k = k_uctx cur (\<lambda>f. f\<lparr>rax := cap_rc xfer_rc\<rparr>) k;
          switch = (\<lambda>k. on_sched (sched_direct_switch cpu dest)
                     (k_upd dest (\<lambda>c. c\<lparr>t_timeslice_left := t_timeslice_left (k_tcb k cur)\<rparr>) k))
      in if flag_set flags IPC_FLAG_RECV
         then map_option (\<lambda>(waiting, s).
                let k = k\<lparr>k_sched := s\<rparr>
                in case waiting of
                     Some w \<Rightarrow> complete_parked_sender cpu cur w (on_sched (sched_wake cpu dest) k)
                   | None \<Rightarrow> switch (on_sched (sched_block cpu THREAD_STATE_WAIT_RECV)
                               (k_upd cur (\<lambda>c. c\<lparr>t_ipc_partner := src_filter\<rparr>) k)))
                (sendq_take cur src_filter (k_sched k))
         else if t_prio (k_tcb k dest) \<ge> t_prio (k_tcb k cur) then Some (switch (on_sched (sched_ready_now cur) k))
         else Some (on_sched (sched_wake cpu dest) k))"

text \<open>To a receiver that does not wait: the sender keeps the message and parks.\<close>

definition send_park :: "nat \<Rightarrow> tptr \<Rightarrow> tptr \<Rightarrow> tid \<Rightarrow> tid \<Rightarrow> u32 \<Rightarrow> kernel \<Rightarrow> kernel" where
  "send_park cpu cur dest dest_tid src_filter flags k =
     (let k = k_upd cur (\<lambda>c. c\<lparr>t_ipc_buffer := payload_from_frame (t_uctx c), t_ipc_flags := flags, t_ipc_partner := dest_tid,
                t_ipc_recv_after := (if flag_set flags IPC_FLAG_RECV then src_filter else - 1)\<rparr>) k
      in on_sched (\<lambda>s. sched_block cpu THREAD_STATE_WAIT_SEND (sendq_append dest cur s)) k)"

section \<open>Receiving\<close>

text \<open>A parked sender comes first, then a page fault of a client, then, for the file server, a queued program
  request.\<close>

definition ipc_receive :: "nat \<Rightarrow> tptr \<Rightarrow> tid \<Rightarrow> u32 \<Rightarrow> kernel \<Rightarrow> kernel option" where
  "ipc_receive cpu cur src_filter flags k =
     Option.bind (sendq_take cur src_filter (k_sched k)) (\<lambda>(s, st).
       let k = k\<lparr>k_sched := st\<rparr>
       in Some (case s of
         Some s \<Rightarrow> complete_parked_sender cpu cur s k
       | None \<Rightarrow>
          (case vm_take_queued_fault cur k of
             Some (fault, k) \<Rightarrow>
               k_uctx cur (\<lambda>f. f\<lparr>r8 := fault_address fault, r9 := ucast (error_code fault), r10 := ucast (faulting_thread fault),
                 rsi := ucast (faulting_thread fault), rax := ipc_ok\<rparr>) k
           | None \<Rightarrow>
              (case (if t_tid (k_tcb k cur) = ki_ext2fs_tid (k_kinfo k) then execreq_try_deliver_queued 25 k else (None, k)) of
                 (Some (slot, gen, name), k) \<Rightarrow>
                   (let ws = words_of 3 name
                    in k_uctx cur (\<lambda>f. f\<lparr>r8 := VFS_OP_READ_BULK, r9 := of_nat slot, r10 := ucast gen, r12 := ws ! 0,
                         r13 := ws ! 1, r14 := ws ! 2, rsi := 0, rax := ipc_ok\<rparr>) k)
               | (None, k) \<Rightarrow>
                   if flag_set flags IPC_FLAG_NOBLOCK then k_uctx cur (\<lambda>f. f\<lparr>rax := rax_err IPC_ERR_WOULDBLOCK\<rparr>) k
                   else on_sched (sched_block cpu THREAD_STATE_WAIT_RECV) (k_upd cur (\<lambda>c. c\<lparr>t_ipc_partner := src_filter\<rparr>) k)))))"

text \<open>A pager answers a fault by sending to the faulting thread, which then runs again.\<close>

definition ipc_send :: "nat \<Rightarrow> tptr \<Rightarrow> tid \<Rightarrow> tid \<Rightarrow> u32 \<Rightarrow> kernel \<Rightarrow> kernel option" where
  "ipc_send cpu cur dest_tid src_filter flags k =
     (case sched_get_tcb dest_tid (k_sched k) of
        None \<Rightarrow> Some (k_uctx cur (\<lambda>f. f\<lparr>rax := rax_err IPC_ERR_NOT_FOUND\<rparr>) k)
      | Some dest \<Rightarrow>
          if dest = cur then Some (k_uctx cur (\<lambda>f. f\<lparr>rax := rax_err IPC_ERR_NOT_FOUND\<rparr>) k)
          else if t_state (k_tcb k dest) = THREAD_STATE_WAIT_PAGEFAULT \<and> t_tid (k_tcb k cur) = t_pager_tid (k_tcb k dest)
          then (let k = k_uctx cur (\<lambda>f. f\<lparr>rax := ipc_ok\<rparr>) (on_sched (sched_wake cpu dest) k)
                in if flag_set flags IPC_FLAG_RECV then ipc_receive cpu cur src_filter flags k else Some k)
          else if t_state (k_tcb k dest) = THREAD_STATE_WAIT_RECV
                  \<and> (t_ipc_partner (k_tcb k dest) = IPC_TID_ANY \<or> t_ipc_partner (k_tcb k dest) = t_tid (k_tcb k cur))
          then send_direct cpu cur dest src_filter flags k
          else Some (send_park cpu cur dest dest_tid src_filter flags k))"

section \<open>The send queues are queues\<close>

text \<open>The links lead from \<open>l\<close> through \<open>xs\<close> to \<open>m\<close>.\<close>

fun sq_path :: "(tptr \<Rightarrow> tptr option) \<Rightarrow> tptr option \<Rightarrow> tptr list \<Rightarrow> tptr option \<Rightarrow> bool" where
  "sq_path nx l [] m \<longleftrightarrow> l = m"
| "sq_path nx l (x # xs) m \<longleftrightarrow> l = Some x \<and> sq_path nx (nx x) xs m"

definition last_of :: "'a list \<Rightarrow> 'a option" where
  "last_of xs = (if xs = [] then None else Some (last xs))"

definition sq_nexts :: "sched \<Rightarrow> tptr \<Rightarrow> tptr option" where
  "sq_nexts st t = t_sq_next (tcbs st t)"

definition sendq_is :: "sched \<Rightarrow> tptr \<Rightarrow> tptr list \<Rightarrow> bool" where
  "sendq_is st r xs \<longleftrightarrow> sq_path (sq_nexts st) (t_send_q_head (tcbs st r)) xs None \<and> t_send_q_tail (tcbs st r) = last_of xs"

definition sendqs_ok :: "(tptr \<Rightarrow> tid) \<Rightarrow> sched \<Rightarrow> (tptr \<Rightarrow> tptr list) \<Rightarrow> bool" where
  "sendqs_ok tids st q \<longleftrightarrow> (\<forall>t. t_tid (tcbs st t) = tids t) \<and> queues_distinct q \<and> (\<forall>r. sendq_is st r (q r))"

definition sq_admits :: "(tptr \<Rightarrow> tid) \<Rightarrow> tid \<Rightarrow> tptr \<Rightarrow> bool" where
  "sq_admits tids filt t \<longleftrightarrow> filt = IPC_TID_ANY \<or> tids t = filt"

lemma sq_path_append: "sq_path nx l (xs @ ys) m \<longleftrightarrow> (\<exists>k. sq_path nx l xs k \<and> sq_path nx k ys m)"
  by (induction xs arbitrary: l) auto

lemma sq_path_cong: "\<forall>x \<in> set xs. nx' x = nx x \<Longrightarrow> sq_path nx' l xs m \<longleftrightarrow> sq_path nx l xs m"
  by (induction xs arbitrary: l) auto

lemma sq_path_upd [simp]: "t \<notin> set xs \<Longrightarrow> sq_path (nx(t := v)) l xs m \<longleftrightarrow> sq_path nx l xs m"
  by (rule sq_path_cong) auto

lemma sq_path_redirect:
  "sq_path nx l xs k \<Longrightarrow> distinct xs \<Longrightarrow> xs \<noteq> [] \<Longrightarrow> sq_path (nx(last xs := m)) l xs m"
  by (induction xs arbitrary: l) (auto split: if_splits)

lemma last_of_simps [simp]: "last_of [] = None" "last_of [x] = Some x" "last_of (xs @ [x]) = Some x" "last_of xs = None \<longleftrightarrow> xs = []"
  by (simp_all add: last_of_def)

lemma sq_nexts_append:
  "sq_nexts (sendq_append r s st) = (case t_send_q_tail (tcbs st r) of
     Some t \<Rightarrow> ((sq_nexts st)(s := None))(t := Some s) | None \<Rightarrow> (sq_nexts st)(s := None))"
  by (auto simp: sq_nexts_def sendq_append_def upd_def Let_def fun_eq_iff split: option.split)

lemma sendq_append_fields:
  "t_tid (tcbs (sendq_append r s st) x) = t_tid (tcbs st x)"
  "t_send_q_head (tcbs (sendq_append r s st) x) =
     (if x = r \<and> t_send_q_tail (tcbs st r) = None then Some s else t_send_q_head (tcbs st x))"
  "t_send_q_tail (tcbs (sendq_append r s st) x) = (if x = r then Some s else t_send_q_tail (tcbs st x))"
  by (auto simp: sendq_append_def upd_def Let_def split: option.split)

lemma queues_disjointD: "queues_distinct q \<Longrightarrow> x \<in> set (q r) \<Longrightarrow> x \<in> set (q r') \<Longrightarrow> r' = r"
  by (auto simp: queues_distinct_def)

lemma sendq_append_ok:
  assumes ok: "sendqs_ok tids st q" and new: "\<forall>r. s \<notin> set (q r)"
  shows "sendqs_ok tids (sendq_append r s st) (q(r := q r @ [s]))"
proof -
  have dist: "queues_distinct q" and q: "\<And>r. sendq_is st r (q r)" using ok by (auto simp: sendqs_ok_def)
  have tail: "t_send_q_tail (tcbs st r) = last_of (q r)" using q [of r] by (simp add: sendq_is_def)
  let ?nx = "sq_nexts (sendq_append r s st)"
  have other: "sq_path ?nx l (q r') m \<longleftrightarrow> sq_path (sq_nexts st) l (q r') m" if "r' \<noteq> r" for r' l m
  proof (rule sq_path_cong, rule ballI)
    fix x assume x: "x \<in> set (q r')"
    then have "x \<notin> set (q r)" using queues_disjointD [OF dist] that by blast
    then have "Some x \<noteq> last_of (q r)" by (auto simp: last_of_def)
    moreover have "x \<noteq> s" using x new by auto
    ultimately show "?nx x = sq_nexts st x" unfolding sq_nexts_append tail by (auto split: option.split)
  qed
  have mine: "sendq_is (sendq_append r s st) r (q r @ [s])"
  proof (cases "q r = []")
    case True
    then show ?thesis using tail by (simp add: sendq_is_def sendq_append_fields sq_nexts_append)
  next
    case False
    have "sq_path (sq_nexts st) (t_send_q_head (tcbs st r)) (q r) None" using q [of r] by (simp add: sendq_is_def)
    then have "sq_path ((sq_nexts st)(s := None)) (t_send_q_head (tcbs st r)) (q r) None" using new by simp
    then have "sq_path (((sq_nexts st)(s := None))(last (q r) := Some s)) (t_send_q_head (tcbs st r)) (q r) (Some s)"
      using False dist by (intro sq_path_redirect) (auto simp: queues_distinct_def)
    moreover have "last (q r) \<noteq> s" using False new last_in_set by metis
    ultimately show ?thesis
      using False tail by (auto simp: sendq_is_def sendq_append_fields sq_nexts_append sq_path_append last_of_def)
  qed
  have "sendq_is (sendq_append r s st) r' ((q(r := q r @ [s])) r')" for r'
    using mine other [of r'] q [of r'] by (cases "r' = r") (simp_all add: sendq_is_def sendq_append_fields)
  moreover have "queues_distinct (q(r := q r @ [s]))"
    using queues_distinct_park [OF dist, of s r] new by (simp add: waiting_set_def)
  ultimately show ?thesis using ok by (simp add: sendqs_ok_def sendq_append_fields)
qed

text \<open>The search ends and stops at the first sender that the filter admits.\<close>

lemma sendq_find_none:
  "sq_path (\<lambda>t. t_sq_next (cells t)) l xs None \<Longrightarrow> \<forall>x \<in> set xs. \<not> sq_admits (\<lambda>t. t_tid (cells t)) filt x \<Longrightarrow>
   sendq_find cells filt prev l = Some None"
proof (induction xs arbitrary: l prev)
  case Nil
  then show ?case by (subst sendq_find.simps) simp
next
  case (Cons x xs)
  then show ?case by (subst sendq_find.simps) (auto simp: sq_admits_def)
qed

lemma sendq_find_some:
  "sq_path (\<lambda>t. t_sq_next (cells t)) l (ys @ x # zs) None \<Longrightarrow> \<forall>y \<in> set ys. \<not> sq_admits (\<lambda>t. t_tid (cells t)) filt y \<Longrightarrow>
   sq_admits (\<lambda>t. t_tid (cells t)) filt x \<Longrightarrow>
   sendq_find cells filt prev l = Some (Some (if ys = [] then prev else last_of ys, x))"
proof (induction ys arbitrary: l prev)
  case Nil
  then show ?case by (subst sendq_find.simps) (auto simp: sq_admits_def)
next
  case (Cons y ys)
  have "sendq_find cells filt (Some y) (t_sq_next (cells y)) = Some (Some (if ys = [] then Some y else last_of ys, x))"
    using Cons by simp
  then show ?case using Cons.prems by (subst sendq_find.simps) (auto simp: sq_admits_def last_of_def)
qed

lemma sq_nexts_unlink:
  "sq_nexts (sendq_unlink r prev x st) =
     (case prev of Some p \<Rightarrow> ((sq_nexts st)(p := sq_nexts st x))(x := None) | None \<Rightarrow> (sq_nexts st)(x := None))"
  by (auto simp: sq_nexts_def sendq_unlink_def upd_def Let_def fun_eq_iff split: option.split)

lemma sendq_unlink_fields:
  "t_tid (tcbs (sendq_unlink r prev x st) y) = t_tid (tcbs st y)"
  "t_send_q_head (tcbs (sendq_unlink r prev x st) y) =
     (if y = r \<and> prev = None then sq_nexts st x else t_send_q_head (tcbs st y))"
  "t_send_q_tail (tcbs (sendq_unlink r prev x st) y) =
     (if y = r \<and> t_send_q_tail (tcbs st r) = Some x then prev else t_send_q_tail (tcbs st y))"
  by (auto simp: sq_nexts_def sendq_unlink_def upd_def Let_def split: option.split)

lemma sendq_unlink_ok:
  assumes ok: "sendqs_ok tids st q" and split: "q r = ys @ x # zs"
  shows "sendqs_ok tids (sendq_unlink r (last_of ys) x st) (q(r := ys @ zs))"
proof -
  have dist: "queues_distinct q" and q: "\<And>r. sendq_is st r (q r)" using ok by (auto simp: sendqs_ok_def)
  have d: "distinct (ys @ x # zs)" using dist by (metis queues_distinct_def split)
  let ?st = "sendq_unlink r (last_of ys) x st"
  have tail: "t_send_q_tail (tcbs st r) = last_of (ys @ x # zs)" using q [of r] by (simp add: sendq_is_def split)
  have path: "sq_path (sq_nexts st) (t_send_q_head (tcbs st r)) ys (Some x)" "sq_path (sq_nexts st) (sq_nexts st x) zs None"
    using q [of r] by (auto simp: sendq_is_def split sq_path_append)
  have other: "sq_path (sq_nexts ?st) l (q r') m \<longleftrightarrow> sq_path (sq_nexts st) l (q r') m" if "r' \<noteq> r" for r' l m
  proof (rule sq_path_cong, rule ballI)
    fix y assume "y \<in> set (q r')"
    then have "y \<notin> set (q r)" using queues_disjointD [OF dist] that by blast
    then show "sq_nexts ?st y = sq_nexts st y"
      unfolding sq_nexts_unlink split by (auto simp: last_of_def split: option.split)
  qed
  have mine: "sendq_is ?st r (ys @ zs)"
  proof (cases "ys = []")
    case True
    then show ?thesis
      using path d tail by (auto simp: sendq_is_def sendq_unlink_fields sq_nexts_unlink last_of_def split: if_splits)
  next
    case False
    have "sq_path ((sq_nexts st)(last ys := sq_nexts st x)) (t_send_q_head (tcbs st r)) ys (sq_nexts st x)"
      using sq_path_redirect [OF path(1)] d False by simp
    moreover have "last ys \<notin> set zs" "last ys \<noteq> x" using False d last_in_set by auto
    ultimately show ?thesis
      using False path d tail
      by (auto simp: sendq_is_def sendq_unlink_fields sq_nexts_unlink last_of_def sq_path_append split: if_splits)
  qed
  have "sendq_is ?st r' ((q(r := ys @ zs)) r')" for r'
    using mine other [of r'] q [of r'] by (cases "r' = r") (simp_all add: sendq_is_def sendq_unlink_fields)
  moreover have "remove1 x (q r) = ys @ zs" using d by (simp add: split remove1_append)
  then have "queues_distinct (q(r := ys @ zs))" using queues_distinct_take [OF dist, of x r] by (simp add: split)
  ultimately show ?thesis using ok by (simp add: sendqs_ok_def sendq_unlink_fields)
qed

lemma sendq_take_ok:
  assumes ok: "sendqs_ok tids st q"
  shows "\<exists>st'. sendq_take r filt st = Some (find (sq_admits tids filt) (q r), st') \<and>
    sendqs_ok tids st' (case find (sq_admits tids filt) (q r) of None \<Rightarrow> q | Some x \<Rightarrow> q(r := remove1 x (q r)))"
proof -
  have path: "sq_path (\<lambda>t. t_sq_next (tcbs st t)) (t_send_q_head (tcbs st r)) (q r) None"
    and tids: "(\<lambda>t. t_tid (tcbs st t)) = tids" and dist: "distinct (q r)"
    using ok by (auto simp: sendqs_ok_def sendq_is_def sq_nexts_def [abs_def] queues_distinct_def)
  show ?thesis
  proof (cases "find (sq_admits tids filt) (q r)")
    case None
    then have "sendq_find (tcbs st) filt None (t_send_q_head (tcbs st r)) = Some None"
      using sendq_find_none [OF path] by (simp add: tids find_None_iff)
    with None ok show ?thesis by (simp add: sendq_take_def)
  next
    case (Some x)
    then obtain i where i: "i < length (q r)" "x = q r ! i" "sq_admits tids filt x" "\<forall>j < i. \<not> sq_admits tids filt (q r ! j)"
      by (auto simp: find_Some_iff)
    define ys where "ys = take i (q r)"
    have split: "q r = ys @ x # drop (Suc i) (q r)" using i by (simp add: ys_def id_take_nth_drop)
    have "\<forall>y \<in> set ys. \<not> sq_admits tids filt y" using i by (auto simp: ys_def in_set_conv_nth)
    then have "sendq_find (tcbs st) filt None (t_send_q_head (tcbs st r)) = Some (Some (last_of ys, x))"
      using sendq_find_some [of "tcbs st" _ ys x "drop (Suc i) (q r)" filt None] path i(3) split
      by (simp add: tids last_of_def)
    moreover have "remove1 x (q r) = ys @ drop (Suc i) (q r)" using dist split by (metis distinct_append disjoint_insert(1) list.set_intros(1) remove1.simps(2) remove1_append list.simps(15))
    ultimately show ?thesis using Some sendq_unlink_ok [OF ok split] by (simp add: sendq_take_def)
  qed
qed

interpretation send_queues: message_queue "sendqs_ok tids" sendq_append sendq_take "sq_admits tids" for tids
proof
  show "sendqs_ok tids (sendq_append r a s) (q(r := q r @ [a]))"
    if "sendqs_ok tids s q" "\<forall>r. a \<notin> set (q r)" for s q a r
    using that by (rule sendq_append_ok)
  show "\<exists>s'. sendq_take r f s = Some (find (sq_admits tids f) (q r), s') \<and>
      sendqs_ok tids s' (case find (sq_admits tids f) (q r) of None \<Rightarrow> q | Some a \<Rightarrow> q(r := remove1 a (q r)))"
    if "sendqs_ok tids s q" for s q r f
    using that by (rule sendq_take_ok)
  show "queues_distinct q" if "sendqs_ok tids s q" for s q using that by (simp add: sendqs_ok_def)
qed



section \<open>Messages arrive\<close>

lemmas sched_uctx = sched_core [THEN same_core_eq(3)]

lemma no_pages_transfer:
  "\<not> flag_set flags IPC_FLAG_MAP \<Longrightarrow> \<not> flag_set flags IPC_FLAG_XFER \<Longrightarrow> \<not> flag_set flags IPC_FLAG_SHARE \<Longrightarrow>
   ipc_transfer flags snd_t rcv m k = (0, k)"
  by (simp add: ipc_transfer_def)

lemma payload_delivered: "length m = 6 \<Longrightarrow> payload_from_frame (deliver_to_frame from m f) = m"
  by (auto simp: payload_from_frame_def deliver_to_frame_def payload_to_frame_def numeral_eq_Suc length_Suc_conv)

definition plain_flags :: "u32 \<Rightarrow> bool" where
  "plain_flags flags \<longleftrightarrow> \<not> flag_set flags IPC_FLAG_MAP \<and> \<not> flag_set flags IPC_FLAG_XFER \<and> \<not> flag_set flags IPC_FLAG_SHARE"

lemma plain_transfer: "plain_flags flags \<Longrightarrow> ipc_transfer flags snd_t rcv m k = (0, k)"
  by (simp add: ipc_transfer_def plain_flags_def)

lemma send_direct_uctx:
  assumes "plain_flags flags" "\<not> flag_set flags IPC_FLAG_RECV" "dest \<noteq> cur"
  shows "\<exists>k'. send_direct cpu cur dest filt flags k = Some k' \<and>
    t_uctx (k_tcb k' dest) = deliver_to_frame (t_tid (k_tcb k cur)) (payload_from_frame (t_uctx (k_tcb k cur))) (t_uctx (k_tcb k dest)) \<and>
    t_uctx (k_tcb k' cur) = (t_uctx (k_tcb k cur))\<lparr>rax := ipc_ok\<rparr>"
  using assms
  by (simp add: send_direct_def plain_transfer Let_def count_msg_def kmach_simps sched_uctx cap_rc_def)

lemma sendq_unlink_keeps:
  "t_uctx (tcbs (sendq_unlink r prev x st) y) = t_uctx (tcbs st y)"
  "t_ipc_buffer (tcbs (sendq_unlink r prev x st) y) = t_ipc_buffer (tcbs st y)"
  "t_ipc_flags (tcbs (sendq_unlink r prev x st) y) = t_ipc_flags (tcbs st y)"
  "t_ipc_recv_after (tcbs (sendq_unlink r prev x st) y) = t_ipc_recv_after (tcbs st y)"
  "t_tid (tcbs (sendq_unlink r prev x st) y) = t_tid (tcbs st y)"
  by (auto simp: sendq_unlink_def upd_def Let_def split: option.split)

lemma sendq_take_keeps:
  assumes "sendq_take r filt st = Some (x, st')"
  shows "t_uctx (tcbs st' y) = t_uctx (tcbs st y)" "t_ipc_buffer (tcbs st' y) = t_ipc_buffer (tcbs st y)"
    "t_ipc_flags (tcbs st' y) = t_ipc_flags (tcbs st y)" "t_ipc_recv_after (tcbs st' y) = t_ipc_recv_after (tcbs st y)"
    "t_tid (tcbs st' y) = t_tid (tcbs st y)"
  using assms by (auto simp: sendq_take_def sendq_unlink_keeps split: option.splits)

lemma complete_parked_uctx:
  assumes "plain_flags (t_ipc_flags (k_tcb k s))" "s \<noteq> cur"
  shows "t_uctx (k_tcb (complete_parked_sender cpu cur s k) cur) =
      deliver_to_frame (t_tid (k_tcb k s)) (t_ipc_buffer (k_tcb k s)) (t_uctx (k_tcb k cur))"
    and "t_uctx (k_tcb (complete_parked_sender cpu cur s k) s) = (t_uctx (k_tcb k s))\<lparr>rax := ipc_ok\<rparr>"
  using assms
  by (simp_all add: complete_parked_sender_def plain_transfer Let_def count_msg_def kmach_simps sched_uctx cap_rc_def)

lemma receive_parked:
  assumes ok: "sendqs_ok tids (k_sched k) q" and first: "find (sq_admits tids filt) (q cur) = Some s"
    and s: "s \<noteq> cur" "plain_flags (t_ipc_flags (k_tcb k s))"
  shows "\<exists>k'. ipc_receive cpu cur filt flags k = Some k' \<and>
    t_uctx (k_tcb k' cur) = deliver_to_frame (t_tid (k_tcb k s)) (t_ipc_buffer (k_tcb k s)) (t_uctx (k_tcb k cur)) \<and>
    t_uctx (k_tcb k' s) = (t_uctx (k_tcb k s))\<lparr>rax := ipc_ok\<rparr>"
proof -
  obtain st' where st': "sendq_take cur filt (k_sched k) = Some (Some s, st')"
    using sendq_take_ok [OF ok, of cur filt] first by auto
  note keeps = sendq_take_keeps [OF st']
  have "plain_flags (t_ipc_flags (k_tcb (k\<lparr>k_sched := st'\<rparr>) s))" using s by (simp add: keeps)
  from complete_parked_uctx [OF this s(1)] show ?thesis by (simp add: ipc_receive_def st' keeps)
qed

lemma sendq_append_keeps:
  "t_uctx (tcbs (sendq_append r x st) y) = t_uctx (tcbs st y)"
  "t_ipc_buffer (tcbs (sendq_append r x st) y) = t_ipc_buffer (tcbs st y)"
  "t_ipc_flags (tcbs (sendq_append r x st) y) = t_ipc_flags (tcbs st y)"
  "current_thread (sendq_append r x st) = current_thread st"
  by (auto simp: sendq_append_def upd_def Let_def split: option.split)

lemma sched_block_state: "t_state (tcbs (sched_block cpu w s) (current_thread s cpu)) = w"
  by (simp add: sched_block_def upd_def)

lemma send_park_state:
  assumes cur: "k_current k cpu = cur" and k': "k' = send_park cpu cur dest dest_tid filt flags k"
  shows "t_ipc_buffer (k_tcb k' cur) = payload_from_frame (t_uctx (k_tcb k cur))" "t_ipc_flags (k_tcb k' cur) = flags"
    "t_tid (k_tcb k' cur) = t_tid (k_tcb k cur)" "t_state (k_tcb k' cur) = THREAD_STATE_WAIT_SEND"
    "t_uctx (k_tcb k' cur) = t_uctx (k_tcb k cur)"
proof -
  define st where "st = k_sched (k_upd cur (\<lambda>c. c\<lparr>t_ipc_buffer := payload_from_frame (t_uctx c), t_ipc_flags := flags,
      t_ipc_partner := dest_tid, t_ipc_recv_after := (if flag_set flags IPC_FLAG_RECV then filt else - 1)\<rparr>) k)"
  have s': "k_sched k' = sched_block cpu THREAD_STATE_WAIT_SEND (sendq_append dest cur st)"
    by (simp add: k' send_park_def st_def Let_def on_sched_def)
  note core = sched_block_core [THEN same_core_eq(1)] sched_block_core [THEN same_core_eq(3)]
    sched_block_core [THEN same_core_eq(9)] sched_block_core [THEN same_core_eq(10)]
  have st: "t_ipc_buffer (tcbs st cur) = payload_from_frame (t_uctx (k_tcb k cur))" "t_ipc_flags (tcbs st cur) = flags"
    "t_tid (tcbs st cur) = t_tid (k_tcb k cur)" "t_uctx (tcbs st cur) = t_uctx (k_tcb k cur)" "current_thread st cpu = cur"
    using cur by (simp_all add: st_def kmach_simps)
  show "t_ipc_buffer (k_tcb k' cur) = payload_from_frame (t_uctx (k_tcb k cur))" "t_ipc_flags (k_tcb k' cur) = flags"
    "t_tid (k_tcb k' cur) = t_tid (k_tcb k cur)" "t_uctx (k_tcb k' cur) = t_uctx (k_tcb k cur)"
    unfolding s' core by (simp_all add: sendq_append_keeps sendq_append_fields st)
  show "t_state (k_tcb k' cur) = THREAD_STATE_WAIT_SEND"
    unfolding s' using sched_block_state [of cpu THREAD_STATE_WAIT_SEND "sendq_append dest cur st"]
    by (simp add: sendq_append_keeps st)
qed

lemma send_park_queue:
  assumes ok: "sendqs_ok tids (k_sched k) q" and new: "\<forall>r. cur \<notin> set (q r)" and k': "k' = send_park cpu cur dest dest_tid filt flags k"
  shows "sendqs_ok tids (k_sched k') (q(dest := q dest @ [cur]))"
proof -
  have cong: "sendqs_ok tids st' q \<longleftrightarrow> sendqs_ok tids st q"
    if "\<forall>t. t_tid (tcbs st' t) = t_tid (tcbs st t) \<and> t_sq_next (tcbs st' t) = t_sq_next (tcbs st t) \<and>
      t_send_q_head (tcbs st' t) = t_send_q_head (tcbs st t) \<and> t_send_q_tail (tcbs st' t) = t_send_q_tail (tcbs st t)" for st st' q
    using that by (simp add: sendqs_ok_def sendq_is_def sq_nexts_def [abs_def])
  define st where "st = k_sched (k_upd cur (\<lambda>c. c\<lparr>t_ipc_buffer := payload_from_frame (t_uctx c), t_ipc_flags := flags,
      t_ipc_partner := dest_tid, t_ipc_recv_after := (if flag_set flags IPC_FLAG_RECV then filt else - 1)\<rparr>) k)"
  have "sendqs_ok tids st q" using ok by (subst cong [of _ "k_sched k"]) (auto simp: st_def kmach_simps)
  then have "sendqs_ok tids (sendq_append dest cur st) (q(dest := q dest @ [cur]))" using sendq_append_ok new by blast
  moreover have "k_sched k' = sched_block cpu THREAD_STATE_WAIT_SEND (sendq_append dest cur st)"
    by (simp add: k' send_park_def st_def Let_def on_sched_def)
  ultimately show ?thesis by (subst cong [of _ "sendq_append dest cur st"]) (auto simp: sched_block_def upd_def)
qed

text \<open>C2. A plain message arrives unchanged whichever side comes first. If the receiver waits already, the send puts the
  sender's six message registers and its thread identifier into the registers of the receiver and returns success. If the
  receiver does not wait, the send keeps the message, blocks the sender and appends it to the receiver's queue; and in any later
  state that has not touched the sender's message and in which the sender is the first one the receiver's filter admits,
  receiving gives the receiver exactly the same registers and the sender the same result.\<close>

theorem message_same_both_orders:
  assumes cur: "cur = k_current k cpu" and dest: "sched_get_tcb dest_tid (k_sched k) = Some dest" "dest \<noteq> cur"
    and flags: "plain_flags flags" "\<not> flag_set flags IPC_FLAG_RECV"
    and ok: "sendqs_ok tids (k_sched k) q" "\<forall>r. cur \<notin> set (q r)"
    and m: "m = payload_from_frame (t_uctx (k_tcb k cur))" "from = t_tid (k_tcb k cur)"
  shows "\<exists>k'. ipc_send cpu cur dest_tid filt flags k = Some k' \<and>
    (t_state (k_tcb k dest) = THREAD_STATE_WAIT_RECV \<and> t_ipc_partner (k_tcb k dest) \<in> {IPC_TID_ANY, from} \<longrightarrow>
       t_uctx (k_tcb k' dest) = deliver_to_frame from m (t_uctx (k_tcb k dest)) \<and>
       t_uctx (k_tcb k' cur) = (t_uctx (k_tcb k cur))\<lparr>rax := ipc_ok\<rparr> \<and>
       payload_from_frame (t_uctx (k_tcb k' dest)) = m) \<and>
    (t_state (k_tcb k dest) \<notin> {THREAD_STATE_WAIT_RECV, THREAD_STATE_WAIT_PAGEFAULT} \<longrightarrow>
       t_state (k_tcb k' cur) = THREAD_STATE_WAIT_SEND \<and> sendqs_ok tids (k_sched k') (q(dest := q dest @ [cur])) \<and>
       (\<forall>k2 q2 filt2 flags2 cpu2. tcb_core (k_tcb k2 cur) = tcb_core (k_tcb k' cur) \<and> sendqs_ok tids (k_sched k2) q2 \<and>
          find (sq_admits tids filt2) (q2 dest) = Some cur \<longrightarrow>
          (\<exists>k3. ipc_receive cpu2 dest filt2 flags2 k2 = Some k3 \<and>
             t_uctx (k_tcb k3 dest) = deliver_to_frame from m (t_uctx (k_tcb k2 dest)) \<and>
             t_uctx (k_tcb k3 cur) = (t_uctx (k_tcb k cur))\<lparr>rax := ipc_ok\<rparr>)))"
proof -
  let ?D = "t_state (k_tcb k dest) = THREAD_STATE_WAIT_RECV \<and> t_ipc_partner (k_tcb k dest) \<in> {IPC_TID_ANY, from}"
  have len: "length m = 6" by (simp add: m payload_from_frame_def)
  consider "?D" | "t_state (k_tcb k dest) \<notin> {THREAD_STATE_WAIT_RECV, THREAD_STATE_WAIT_PAGEFAULT}"
    | "\<not> ?D" "t_state (k_tcb k dest) \<in> {THREAD_STATE_WAIT_RECV, THREAD_STATE_WAIT_PAGEFAULT}" by blast
  then show ?thesis
  proof cases
    case 1
    then have "ipc_send cpu cur dest_tid filt flags k = send_direct cpu cur dest filt flags k"
      using dest m by (auto simp: ipc_send_def)
    with send_direct_uctx [OF flags dest(2), of cpu filt k] 1 show ?thesis
      by (auto simp: m [symmetric] payload_delivered len)
  next
    case 2
    define k' where "k' = send_park cpu cur dest dest_tid filt flags k"
    have send: "ipc_send cpu cur dest_tid filt flags k = Some k'" using 2 dest by (simp add: ipc_send_def k'_def)
    note st = send_park_state [OF cur [symmetric] k'_def]
    have later: "\<exists>k3. ipc_receive cpu2 dest filt2 flags2 k2 = Some k3 \<and>
        t_uctx (k_tcb k3 dest) = deliver_to_frame from m (t_uctx (k_tcb k2 dest)) \<and>
        t_uctx (k_tcb k3 cur) = (t_uctx (k_tcb k cur))\<lparr>rax := ipc_ok\<rparr>"
      if "tcb_core (k_tcb k2 cur) = tcb_core (k_tcb k' cur)" "sendqs_ok tids (k_sched k2) q2"
        "find (sq_admits tids filt2) (q2 dest) = Some cur" for k2 q2 filt2 flags2 cpu2
      using receive_parked [OF that(2,3), of cpu2 flags2] tcb_core_eq [OF that(1)] st m dest(2) flags by auto
    show ?thesis using send st(4) send_park_queue [OF ok k'_def] later 2 by (intro exI [of _ k']) auto
  next
    case 3
    have "\<exists>k'. ipc_send cpu cur dest_tid filt flags k = Some k'"
      using 3 dest flags send_direct_uctx [OF flags dest(2), of cpu filt k] by (auto simp: ipc_send_def Let_def)
    with 3 show ?thesis by auto
  qed
qed

theorem message_same_both_orders_witness:
  "\<exists>k k'. ipc_send 0 (Thread 1) 2 0 0 k = Some k' \<and> t_state (k_tcb k (Thread 2)) = THREAD_STATE_WAIT_RECV \<and>
     payload_from_frame (t_uctx (k_tcb k' (Thread 2))) = [11, 12, 13, 14, 15, 16] \<and> rsi (t_uctx (k_tcb k' (Thread 2))) = 1"
proof -
  let ?tids = "\<lambda>t. case t of Thread i \<Rightarrow> of_nat i | Idle i \<Rightarrow> (0 :: tid)"
  let ?u = "arch_uctx_zero\<lparr>r8 := 11, r9 := 12, r10 := 13, r12 := 14, r13 := 15, r14 := 16\<rparr>"
  define s where "s = (k_sched kernel_static)\<lparr>tcbs := (\<lambda>t. tcb_zero\<lparr>t_tid := ?tids t\<rparr>)(Thread 1 := tcb_zero\<lparr>t_tid := 1, t_uctx := ?u\<rparr>,
     Thread 2 := tcb_zero\<lparr>t_tid := 2, t_state := THREAD_STATE_WAIT_RECV\<rparr>), current_thread := (\<lambda>_. Thread 1)\<rparr>"
  define k where "k = kernel_static\<lparr>k_sched := s\<rparr>"
  have k: "k_sched k = s" by (simp add: k_def)
  have cur: "Thread 1 = k_current k 0" by (simp add: k s_def)
  have dest: "sched_get_tcb 2 (k_sched k) = Some (Thread 2)"
    by (simp add: k sched_get_tcb_def SCHED_MAX_THREADS_def s_def)
  have flags: "plain_flags 0" "\<not> flag_set 0 IPC_FLAG_RECV" by (simp_all add: plain_flags_def flag_set_def)
  have ok: "sendqs_ok ?tids (k_sched k) (\<lambda>_. [])"
    by (simp add: k sendqs_ok_def queues_distinct_def sendq_is_def s_def tcb_zero_def)
  have m: "payload_from_frame (t_uctx (k_tcb k (Thread 1))) = [11, 12, 13, 14, 15, 16]" "t_tid (k_tcb k (Thread 1)) = 1"
    "t_state (k_tcb k (Thread 2)) = THREAD_STATE_WAIT_RECV" "t_ipc_partner (k_tcb k (Thread 2)) = IPC_TID_ANY"
    by (simp_all add: k s_def payload_from_frame_def tcb_zero_def IPC_TID_ANY_def)
  from message_same_both_orders [OF cur dest _ flags ok _ refl refl, of 0] m
  obtain k' where "ipc_send 0 (Thread 1) 2 0 0 k = Some k'"
    "t_uctx (k_tcb k' (Thread 2)) = deliver_to_frame 1 [11, 12, 13, 14, 15, 16] (t_uctx (k_tcb k (Thread 2)))"
    "payload_from_frame (t_uctx (k_tcb k' (Thread 2))) = [11, 12, 13, 14, 15, 16]" by auto
  with m(3) show ?thesis by (intro exI [of _ k] exI [of _ k']) (simp add: deliver_to_frame_def)
qed

end
