(* ===== verification/Syscall.thy ===== *)
theory Syscall
  imports Ipc
begin

text \<open>
  The system calls: the first half of \<^verbatim>\<open>sys_ipc\<close> in \<^verbatim>\<open>src/core/ipc.c\<close>, where a thread that neither sends nor
  receives asks the kernel itself, and the trap entry of \<^verbatim>\<open>arch/x86_64/src/trap.c\<close> that calls it. There is one
  definition for each flag and one for each category of \<^verbatim>\<open>IPC_FLAG_SYS_INFO\<close>; each reads its arguments from the
  saved registers of the caller and stores its results there. The lookup of a file among the boot modules is
  the argument \<open>rootfs\<close>, and the handlers of device interrupts are the argument \<open>irqs\<close>.
\<close>

section \<open>Arguments and results\<close>

text \<open>The C cast of a register to \<^verbatim>\<open>int\<close>.\<close>

definition c_int :: "u64 \<Rightarrow> int" where
  "c_int w = sint (ucast w :: 32 word)"

type_synonym rootfs = "u8 list \<Rightarrow> (u64 \<times> u8 list) option"
type_synonym call = "nat \<Rightarrow> kernel \<Rightarrow> kernel"
type_synonym call_opt = "nat \<Rightarrow> kernel \<Rightarrow> kernel option"

abbreviation caller_of :: "nat \<Rightarrow> kernel \<Rightarrow> tcb" where
  "caller_of cpu k \<equiv> k_tcb k (k_current k cpu)"

abbreviation frame_now :: "nat \<Rightarrow> kernel \<Rightarrow> arch_uctx" where
  "frame_now cpu k \<equiv> t_uctx (caller_of cpu k)"

definition ret :: "tptr \<Rightarrow> u64 \<Rightarrow> kernel \<Rightarrow> kernel" where
  "ret t v k = k_uctx t (\<lambda>f. f\<lparr>rax := v\<rparr>) k"

definition ret_err :: "tptr \<Rightarrow> ipc_err \<Rightarrow> kernel \<Rightarrow> kernel" where
  "ret_err t e k = ret t (rax_err e) k"

text \<open>Results in \<^verbatim>\<open>r8\<close>, and in five registers from \<^verbatim>\<open>r9\<close>.\<close>

definition ret1 :: "tptr \<Rightarrow> u64 \<Rightarrow> kernel \<Rightarrow> kernel" where
  "ret1 t v k = k_uctx t (\<lambda>f. f\<lparr>r8 := v, rax := ipc_ok\<rparr>) k"

definition ret_bytes :: "tptr \<Rightarrow> u8 list \<Rightarrow> kernel \<Rightarrow> kernel" where
  "ret_bytes t bs k =
     (let ws = words_of 5 bs
      in k_uctx t (\<lambda>f. f\<lparr>r8 := of_nat (length bs), r9 := ws ! 0, r10 := ws ! 1, r12 := ws ! 2, r13 := ws ! 3,
           r14 := ws ! 4, rax := ipc_ok\<rparr>) k)"

section \<open>Capabilities\<close>

definition IPC_FLAG_RETYPE :: u32 where "IPC_FLAG_RETYPE = 0x20"
definition IPC_FLAG_DESTROY :: u32 where "IPC_FLAG_DESTROY = 0x40"
definition IPC_FLAG_NOTIFY_SIGNAL :: u32 where "IPC_FLAG_NOTIFY_SIGNAL = 0x100"
definition IPC_FLAG_NOTIFY_WAIT :: u32 where "IPC_FLAG_NOTIFY_WAIT = 0x200"
definition IPC_FLAG_NOTIFY_POLL :: u32 where "IPC_FLAG_NOTIFY_POLL = 0x400"
definition IPC_FLAG_TIMER_ARM :: u32 where "IPC_FLAG_TIMER_ARM = 0x800"
definition IPC_FLAG_TIMER_DISARM :: u32 where "IPC_FLAG_TIMER_DISARM = 0x1000"
definition IPC_FLAG_REVOKE_FRAME :: u32 where "IPC_FLAG_REVOKE_FRAME = 0x2000"

definition ipc_retype :: call where
  "ipc_retype cpu k =
     (let cur = k_current k cpu; f = frame_now cpu k;
          (r, k) = cap_retype (t_tid (k_tcb k cur)) (ucast (r8 f)) (ucast (r9 f)) (r10 f) (r12 f) (r13 f) (r14 f) k
      in case r of
           None \<Rightarrow> k_uctx cur (\<lambda>f. f\<lparr>rax := rax_err IPC_ERR_NO_CAP, r8 := 0, r9 := 0\<rparr>) k
         | Some (slot, addr) \<Rightarrow> k_uctx cur (\<lambda>f. f\<lparr>rax := ipc_ok, r8 := slot, r9 := addr\<rparr>) k)"

definition ipc_destroy :: call where
  "ipc_destroy cpu k =
     (let cur = k_current k cpu; (rc, k) = cap_destroy cpu (t_tid (k_tcb k cur)) (ucast (r8 (frame_now cpu k))) k
      in ret cur (cap_rc rc) k)"

definition ipc_notify_signal :: call where
  "ipc_notify_signal cpu k =
     (let cur = k_current k cpu; f = frame_now cpu k;
          (rc, k) = cap_notif_signal cpu (t_tid (k_tcb k cur)) (ucast (r8 f)) (r9 f) k
      in ret cur (cap_rc rc) k)"

definition ipc_notify_wait :: call where
  "ipc_notify_wait cpu k =
     (let cur = k_current k cpu; (r, k) = cap_notif_wait_begin (t_tid (k_tcb k cur)) (ucast (r8 (frame_now cpu k))) k
      in case r of
           None \<Rightarrow> ret_err cur IPC_ERR_NO_CAP k
         | Some (Some bits) \<Rightarrow> ret1 cur bits k
         | Some None \<Rightarrow> on_sched (sched_block cpu THREAD_STATE_WAIT_NOTIFICATION) k)"

definition ipc_notify_poll :: call where
  "ipc_notify_poll cpu k =
     (let cur = k_current k cpu; (rc, bits, k) = cap_notif_poll (t_tid (k_tcb k cur)) (ucast (r8 (frame_now cpu k))) k
      in if rc = - 1 then ret_err cur IPC_ERR_NO_CAP k
         else if rc = - 2 then ret_err cur IPC_ERR_WOULDBLOCK k
         else ret1 cur bits k)"

definition ipc_timer_arm :: call where
  "ipc_timer_arm cpu k =
     (let cur = k_current k cpu; f = frame_now cpu k;
          (rc, k) = cap_timer_arm (t_tid (k_tcb k cur)) (ucast (r8 f)) (ucast (r9 f)) (r10 f) (r12 f) (r13 f) k
      in ret cur (cap_rc rc) k)"

definition ipc_timer_disarm :: call where
  "ipc_timer_disarm cpu k =
     (let cur = k_current k cpu; (rc, k) = cap_timer_disarm (t_tid (k_tcb k cur)) (ucast (r8 (frame_now cpu k))) k
      in ret cur (cap_rc rc) k)"

definition ipc_revoke_frame :: call where
  "ipc_revoke_frame cpu k =
     (let cur = k_current k cpu; (rc, k) = cap_revoke_frame (t_tid (k_tcb k cur)) (ucast (r8 (frame_now cpu k))) k
      in ret cur (cap_rc rc) k)"

section \<open>Console\<close>

definition IPC_FLAG_CONSOLE_WRITE :: u32 where "IPC_FLAG_CONSOLE_WRITE = 0x80"
definition IPC_FLAG_CONSOLE_READ :: u32 where "IPC_FLAG_CONSOLE_READ = 0x20000"
definition CONSOLE_VT_COUNT :: nat where "CONSOLE_VT_COUNT = 6"

definition ipc_grant_console_writer :: "tid \<Rightarrow> kernel \<Rightarrow> kernel" where
  "ipc_grant_console_writer t k = k\<lparr>console_writer_tid := t\<rparr>"

definition ipc_grant_console_driver :: "tid \<Rightarrow> kernel \<Rightarrow> kernel" where
  "ipc_grant_console_driver t k = k\<lparr>console_driver_tid := t\<rparr>"

definition vt_bad :: "int \<Rightarrow> bool" where
  "vt_bad vt \<longleftrightarrow> vt < 0 \<or> vt \<ge> int CONSOLE_VT_COUNT"

text \<open>The terminal of a write is not checked: one that does not exist makes the kernel write outside of its
  table of terminals.\<close>

definition ipc_console_write :: call_opt where
  "ipc_console_write cpu k =
     (let cur = k_current k cpu; f = frame_now cpu k
      in if t_tid (k_tcb k cur) \<noteq> console_writer_tid k \<and> t_tid (k_tcb k cur) \<noteq> console_driver_tid k
         then Some (ret_err cur IPC_ERR_NO_CAP k)
         else
           (let len = min (unat (r8 f AND 0xFF)) 40;
                vt = unat (drop_bit 8 (r8 f) AND 0xFF);
                buf = take len (bytes_of_words [r9 f, r10 f, r12 f, r13 f, r14 f])
            in if len > 0 \<and> vt \<ge> VT_COUNT then None
               else Some (ret cur ipc_ok (on_console (kwrite vt buf) k))))"

text \<open>Reading a line never has a negative result, so the caller never waits for input here.\<close>

definition ipc_console_read :: call where
  "ipc_console_read cpu k =
     (let cur = k_current k cpu; vt = c_int (r8 (frame_now cpu k))
      in if t_tid (k_tcb k cur) \<noteq> console_writer_tid k then ret_err cur IPC_ERR_NO_CAP k
         else if vt_bad vt then ret_err cur IPC_ERR_NOT_FOUND k
         else (let (bs, c) = arch_console_read_line_bytes vt 40 (k_console k) in ret_bytes cur bs (k\<lparr>k_console := c\<rparr>)))"

definition complete_console_read :: "tptr \<Rightarrow> int \<Rightarrow> kernel \<Rightarrow> kernel" where
  "complete_console_read t vt k =
     (let (bs, c) = arch_console_read_line_bytes vt 40 (k_console k);
          k = ret_bytes t bs (k\<lparr>k_console := c\<rparr>)
      in k\<lparr>console_read_waiter := (console_read_waiter k)[nat vt := 0]\<rparr>)"

text \<open>The thread that waits for input on a terminal, if it still does.\<close>

definition console_waiting :: "int \<Rightarrow> kernel \<Rightarrow> tptr option" where
  "console_waiting vt k =
     (case sched_get_tcb (console_read_waiter k ! nat vt) (k_sched k) of
        None \<Rightarrow> None
      | Some t \<Rightarrow> if t_state (k_tcb k t) = THREAD_STATE_WAIT_CONSOLE then Some t else None)"

definition ipc_console_input_available :: "nat \<Rightarrow> int \<Rightarrow> kernel \<Rightarrow> kernel" where
  "ipc_console_input_available cpu vt k =
     (if vt_bad vt \<or> console_read_waiter k ! nat vt = 0 then k
      else
        case console_waiting vt k of
          Some t \<Rightarrow> (let k = complete_console_read t vt k
                     in if console_read_waiter k ! nat vt = 0 then on_sched (sched_wake cpu t) k else k)
        | None \<Rightarrow> k\<lparr>console_read_waiter := (console_read_waiter k)[nat vt := 0]\<rparr>)"

definition ipc_console_interrupt :: "nat \<Rightarrow> int \<Rightarrow> int \<Rightarrow> kernel \<Rightarrow> kernel" where
  "ipc_console_interrupt cpu vt signum k =
     (if vt_bad vt then k
      else
        (let k = (if console_read_waiter k ! nat vt = 0 then k
                  else
                    (let clear = (\<lambda>k. k\<lparr>console_read_waiter := (console_read_waiter k)[nat vt := 0]\<rparr>)
                     in case console_waiting vt k of
                          Some t \<Rightarrow> on_sched (sched_wake cpu t) (clear (ret_err t IPC_ERR_CANCELED k))
                        | None \<Rightarrow> clear k))
         in snd (sched_signal_pgid cpu (console_fg_pgid k ! nat vt) signum k)))"

section \<open>Processes\<close>

definition IPC_FLAG_EXIT :: u32 where "IPC_FLAG_EXIT = 0x4000"
definition IPC_FLAG_SPAWN :: u32 where "IPC_FLAG_SPAWN = 0x8000"
definition IPC_FLAG_WAIT :: u32 where "IPC_FLAG_WAIT = 0x10000"
definition IPC_FLAG_FORK :: u32 where "IPC_FLAG_FORK = 0x1000000"
definition IPC_FLAG_SELF_TID :: u32 where "IPC_FLAG_SELF_TID = 0x4000000"
definition IPC_FLAG_EXEC :: u32 where "IPC_FLAG_EXEC = 0x8000000"
definition IPC_FLAG_SET_FSBASE :: u32 where "IPC_FLAG_SET_FSBASE = 0x2000000"
definition IPC_FLAG_THREAD_INFO :: u32 where "IPC_FLAG_THREAD_INFO = 0x400000"

definition ipc_exit :: call where
  "ipc_exit cpu k =
     (let cur = k_current k cpu
      in if t_address_space (k_tcb k cur) = 0 then ret_err cur IPC_ERR_NO_CAP k
         else spawn_exit_current cpu (uint (r8 (frame_now cpu k) AND 0xFF)) k)"

definition ipc_spawn :: "rootfs \<Rightarrow> call" where
  "ipc_spawn rootfs cpu k =
     (let cur = k_current k cpu; f = frame_now cpu k
      in case spawn_create rootfs cpu cur (r8 f) (r9 f) k of
           (Inl IPC_ERR_BLOCKED, k) \<Rightarrow> k
         | (Inl e, k) \<Rightarrow> k_uctx cur (\<lambda>f. f\<lparr>rax := rax_err e, r8 := 0\<rparr>) k
         | (Inr child, k) \<Rightarrow> ret1 cur (ucast child) k)"

definition ipc_wait :: call where
  "ipc_wait cpu k =
     (let cur = k_current k cpu; f = frame_now cpu k; filt = ucast (r8 f); (r, k) = spawn_wait_begin cur filt k
      in case r of
           Some (Some (t, status)) \<Rightarrow> k_uctx cur (\<lambda>f. f\<lparr>rax := ipc_ok, r8 := ucast t, r9 := word_of_int status\<rparr>) k
         | None \<Rightarrow> ret_err cur IPC_ERR_NOT_FOUND k
         | Some None \<Rightarrow>
             if flag_set (ucast (rdx f)) IPC_FLAG_NOBLOCK then ret_err cur IPC_ERR_WOULDBLOCK k
             else on_sched (sched_block cpu THREAD_STATE_WAIT_CHILD) (k_upd cur (\<lambda>c. c\<lparr>t_wait_filter := filt\<rparr>) k))"

definition ipc_fork :: call where
  "ipc_fork cpu k =
     (let cur = k_current k cpu
      in case spawn_fork_create cur k of
           (Inl e, k) \<Rightarrow> k_uctx cur (\<lambda>f. f\<lparr>rax := rax_err e, r8 := 0\<rparr>) k
         | (Inr child, k) \<Rightarrow> ret1 cur (ucast child) k)"

definition ipc_self_tid :: call where
  "ipc_self_tid cpu k = ret1 (k_current k cpu) (ucast (t_tid (caller_of cpu k))) k"

definition ipc_exec :: "rootfs \<Rightarrow> call" where
  "ipc_exec rootfs cpu k =
     (let cur = k_current k cpu; f = frame_now cpu k
      in case spawn_exec rootfs cpu cur (r8 f) (r9 f) k of
           (Inl IPC_ERR_BLOCKED, k) \<Rightarrow> k
         | (Inl e, k) \<Rightarrow> ret_err cur e k
         | (Inr _, k) \<Rightarrow> k)"

definition ipc_set_fsbase :: call where
  "ipc_set_fsbase cpu k =
     (let cur = k_current k cpu;
          k = k_upd cur (\<lambda>c. c\<lparr>t_fs_base := r8 (t_uctx c)\<rparr>) k;
          k = arch_set_fsbase cpu (t_fs_base (k_tcb k cur)) k
      in ret cur ipc_ok k)"

text \<open>The number of a state in the C enumeration.\<close>

fun state_code :: "thread_state \<Rightarrow> u64" where
  "state_code THREAD_STATE_RUNNING = 0"
| "state_code THREAD_STATE_READY = 1"
| "state_code THREAD_STATE_WAIT_RECV = 2"
| "state_code THREAD_STATE_WAIT_SEND = 3"
| "state_code THREAD_STATE_WAIT_PAGEFAULT = 4"
| "state_code THREAD_STATE_SLEEPING = 5"
| "state_code THREAD_STATE_WAIT_NOTIFICATION = 6"
| "state_code THREAD_STATE_DEAD = 7"
| "state_code THREAD_STATE_ZOMBIE = 8"
| "state_code THREAD_STATE_WAIT_CHILD = 9"
| "state_code THREAD_STATE_WAIT_CONSOLE = 10"
| "state_code THREAD_STATE_WAIT_EXECREQ = 11"

definition ipc_thread_info :: call where
  "ipc_thread_info cpu k =
     (let cur = k_current k cpu
      in case sched_thread_info (ucast (r8 (frame_now cpu k))) (k_sched k) of
           None \<Rightarrow> ret_err cur IPC_ERR_NOT_FOUND k
         | Some (state, prio, status, parent, name) \<Rightarrow>
             (let ws = words_of 2 (map (\<lambda>c. of_nat (of_char c)) name)
              in k_uctx cur (\<lambda>f. f\<lparr>rax := ipc_ok, r8 := state_code state, r9 := ucast prio, r10 := word_of_int status,
                   r12 := ucast parent, r13 := ws ! 0, r14 := ws ! 1\<rparr>) k))"

section \<open>Pipes\<close>

definition IPC_FLAG_PIPE_CREATE :: u32 where "IPC_FLAG_PIPE_CREATE = 0x40000"
definition IPC_FLAG_PIPE_READ :: u32 where "IPC_FLAG_PIPE_READ = 0x80000"
definition IPC_FLAG_PIPE_WRITE :: u32 where "IPC_FLAG_PIPE_WRITE = 0x100000"
definition IPC_FLAG_PIPE_CLOSE :: u32 where "IPC_FLAG_PIPE_CLOSE = 0x200000"

definition ipc_pipe_create :: call where
  "ipc_pipe_create cpu k =
     (let cur = k_current k cpu; (p, r) = pipe_create (k_pipes k) (t_tid (k_tcb k cur)); k = k\<lparr>k_pipes := p\<rparr>
      in k_uctx cur (\<lambda>f. f\<lparr>rax := rax_of r, r8 := (case r of Inl _ \<Rightarrow> 0 | Inr h \<Rightarrow> h)\<rparr>) k)"

definition ipc_pipe_read :: call where
  "ipc_pipe_read cpu k =
     (let cur = k_current k cpu; f = frame_now cpu k;
          (p, r) = pipe_read (k_pipes k) (r8 f) (r9 f); k = k\<lparr>k_pipes := p\<rparr>;
          bs = (case r of Inl _ \<Rightarrow> [] | Inr bs \<Rightarrow> bs);
          ws = words_of 4 bs
      in k_uctx cur (\<lambda>f. f\<lparr>rax := rax_of r, r8 := of_nat (length bs), r10 := ws ! 0, r12 := ws ! 1, r13 := ws ! 2,
           r14 := ws ! 3\<rparr>) k)"

definition ipc_pipe_write :: call where
  "ipc_pipe_write cpu k =
     (let cur = k_current k cpu; f = frame_now cpu k;
          len = min (unat (r9 f)) PIPE_CHUNK_MAX;
          (p, r) = pipe_write (k_pipes k) (r8 f) (take len (bytes_of_words [r10 f, r12 f, r13 f, r14 f]));
          k = k\<lparr>k_pipes := p\<rparr>
      in k_uctx cur (\<lambda>f. f\<lparr>rax := rax_of r, r8 := (case r of Inl _ \<Rightarrow> 0 | Inr n \<Rightarrow> of_nat n)\<rparr>) k)"

definition ipc_pipe_close :: call where
  "ipc_pipe_close cpu k =
     (let cur = k_current k cpu; f = frame_now cpu k;
          (p, r) = pipe_close (k_pipes k) (t_tid (k_tcb k cur)) (r8 f) (c_int (r9 f) \<noteq> 0)
      in ret cur (rax_of r) (k\<lparr>k_pipes := p\<rparr>))"

section \<open>Mounts and boot files\<close>

definition IPC_FLAG_MOUNT :: u32 where "IPC_FLAG_MOUNT = 0x10000000"
definition IPC_FLAG_BOOTFS :: u32 where "IPC_FLAG_BOOTFS = 0x20000000"

definition ipc_mount :: call where
  "ipc_mount cpu k =
     (let cur = k_current k cpu; f = frame_now cpu k
      in if t_parent_tid (k_tcb k cur) \<noteq> 0 then ret_err cur IPC_ERR_NO_CAP k
         else
           (let len = min (unat (r8 f)) (MOUNT_PREFIX_MAX - 1);
                prefix = cstr_at (take len (bytes_of_words [r9 f, r10 f, r12 f, r13 f, r14 f])) 0;
                (rc, ki) = kinfo_mount_add prefix (t_tid (k_tcb k cur)) (k_kinfo k)
            in ret cur (if rc = 0 then ipc_ok else rax_err IPC_ERR_NO_MEM) (k\<lparr>k_kinfo := ki\<rparr>)))"

definition boot_name :: "arch_uctx \<Rightarrow> u8 list" where
  "boot_name f = cstr_at (bytes_of_words [r9 f, r10 f, r12 f]) 0"

text \<open>The categories are the size of a file, the listing, which has no entries, and a piece of a file.\<close>

definition ipc_bootfs :: "rootfs \<Rightarrow> call" where
  "ipc_bootfs rootfs cpu k =
     (let cur = k_current k cpu; f = frame_now cpu k
      in if r8 f = 0
         then (case rootfs (boot_name f) of
                 None \<Rightarrow> ret_err cur IPC_ERR_NOT_FOUND k
               | Some (_, bs) \<Rightarrow> ret1 cur (of_nat (length bs)) k)
         else if r8 f = 2
         then (case rootfs (boot_name f) of
                 None \<Rightarrow> ret_err cur IPC_ERR_NOT_FOUND k
               | Some (_, bs) \<Rightarrow>
                   (let out = take (min (unat (r14 f)) 40) (drop (unat (r13 f)) bs); ws = words_of 5 out
                    in k_uctx cur (\<lambda>f. f\<lparr>rax := of_nat (length out), r8 := ws ! 0, r9 := ws ! 1, r10 := ws ! 2,
                         r12 := ws ! 3, r13 := ws ! 4\<rparr>) k))
         else ret_err cur IPC_ERR_NOT_FOUND k)"

section \<open>Paging\<close>

definition IPC_FLAG_RESOLVE_FAULT :: u32 where "IPC_FLAG_RESOLVE_FAULT = 0x80000000"

definition ipc_grant_pager_owner :: "tid \<Rightarrow> kernel \<Rightarrow> kernel" where
  "ipc_grant_pager_owner t k = k\<lparr>pager_owner_tid := t\<rparr>"

text \<open>The colour is not checked: one that does not exist reads outside of the table of free lists.\<close>

definition ipc_resolve_fault :: call_opt where
  "ipc_resolve_fault cpu k =
     (let cur = k_current k cpu; f = frame_now cpu k; color = c_int (r10 f)
      in if t_tid (k_tcb k cur) \<noteq> pager_owner_tid k \<or> pager_owner_tid k = 0 then Some (ret_err cur IPC_ERR_NO_CAP k)
         else
           case sched_get_tcb (ucast (r8 f)) (k_sched k) of
             None \<Rightarrow> Some (ret_err cur IPC_ERR_NOT_FOUND k)
           | Some target \<Rightarrow>
               if color \<noteq> PMM_COLOR_ANY \<and> (color < 0 \<or> color \<ge> int PMM_NUM_COLORS) then None
               else
                 (let (frame, k) = with_pm (pmm_alloc color) k
                  in if frame = 0 then Some (ret_err cur IPC_ERR_NO_MEM k)
                     else Some (ret cur ipc_ok
                       (snd (with_pm (arch_vm_map_page (t_address_space (k_tcb k target)) (r9 f) frame (ucast (r12 f))) k)))))"

end
