(* ===== verification/Sysinfo.thy ===== *)
theory Sysinfo
  imports Syscall
begin

text \<open>
  The categories of \<^verbatim>\<open>IPC_FLAG_SYS_INFO\<close> in \<^verbatim>\<open>src/core/ipc.c\<close>: statistics, power, signals, process groups,
  console and mouse, the framebuffer, shared memory, sockets, hardware access of drivers, answers to
  program requests, random numbers and block devices.
\<close>

section \<open>Statistics and power\<close>

definition info_memory :: call where
  "info_memory cpu k =
     k_uctx (k_current k cpu) (\<lambda>f. f\<lparr>rax := ipc_ok, r8 := total_frames (k_pmm k), r9 := free_frames (k_pmm k),
       r10 := alloc_calls (k_pmm k), r12 := free_calls (k_pmm k)\<rparr>) k"

definition info_sched :: call where
  "info_sched cpu k =
     (let s = stats (k_sched k)
      in k_uctx (k_current k cpu) (\<lambda>f. f\<lparr>rax := ipc_ok, r8 := st_full_scheds s, r9 := st_preempts s, r10 := st_ipc_msgs s,
           r12 := st_ticks s, r13 := st_timer_traps s, r14 := st_kicks_sent s\<rparr>) k)"

text \<open>Rebooting, halting and shutting down do not return, and any thread may ask for them.\<close>

definition info_power :: call_opt where
  "info_power cpu k = None"

section \<open>Signals\<close>

definition SYS_INFO_CAT_SIGACTION :: u64 where "SYS_INFO_CAT_SIGACTION = 5"
definition SYS_INFO_CAT_KILL :: u64 where "SYS_INFO_CAT_KILL = 6"
definition SYS_INFO_CAT_SIGPROCMASK :: u64 where "SYS_INFO_CAT_SIGPROCMASK = 7"
definition SYS_INFO_CAT_SIGRETURN :: u64 where "SYS_INFO_CAT_SIGRETURN = 8"
definition SYS_INFO_CAT_SIGPENDING :: u64 where "SYS_INFO_CAT_SIGPENDING = 9"
definition SIG_BLOCK :: u64 where "SIG_BLOCK = 0"
definition SIG_UNBLOCK :: u64 where "SIG_UNBLOCK = 1"

definition info_sigaction :: call where
  "info_sigaction cpu k =
     (let cur = k_current k cpu; f = frame_now cpu k; signum = c_int (r9 f)
      in if signum < 1 \<or> signum \<ge> int ROBU_NSIG then ret_err cur IPC_ERR_NOT_FOUND k
         else
           (let n = nat signum; sa = t_sig_actions (k_tcb k cur) ! n;
                k = (if c_int (r13 f) \<noteq> 0
                     then k_upd cur (\<lambda>c. c\<lparr>t_sig_actions := (t_sig_actions c)
                            [n := \<lparr>sa_handler = r10 f, sa_flags = r12 f, sa_mask = r14 f\<rparr>]\<rparr>) k
                     else k)
            in k_uctx cur (\<lambda>f. f\<lparr>r8 := sa_handler sa, r9 := sa_flags sa, r10 := sa_mask sa, rax := ipc_ok\<rparr>) k))"

definition info_kill :: call where
  "info_kill cpu k =
     (let cur = k_current k cpu; f = frame_now cpu k; (rc, k) = sig_send cpu (ucast (r9 f)) (c_int (r10 f)) k
      in ret cur (if rc = 0 then ipc_ok else rax_err IPC_ERR_NOT_FOUND) k)"

definition info_sigprocmask :: call where
  "info_sigprocmask cpu k =
     (let cur = k_current k cpu; f = frame_now cpu k; old = t_sig_mask (k_tcb k cur); new = r10 f;
          k = (if c_int (r12 f) \<noteq> 0
               then k_upd cur (\<lambda>c. c\<lparr>t_sig_mask := (if r9 f = SIG_BLOCK then old OR new
                                                    else if r9 f = SIG_UNBLOCK then old AND NOT new else new)\<rparr>) k
               else k)
      in ret1 cur old k)"

text \<open>There is no check that a handler is running.\<close>

definition info_sigreturn :: call where
  "info_sigreturn cpu k =
     k_upd (k_current k cpu)
       (\<lambda>c. c\<lparr>t_uctx := t_saved_uctx_before_sig c, t_sig_mask := t_saved_sig_mask c, t_in_sig_handler := False\<rparr>) k"

definition info_sigpending :: call where
  "info_sigpending cpu k = ret1 (k_current k cpu) (t_sig_pending (caller_of cpu k)) k"

section \<open>Process groups\<close>

definition SYS_INFO_CAT_SETPGID :: u64 where "SYS_INFO_CAT_SETPGID = 11"
definition SYS_INFO_CAT_GETPGID :: u64 where "SYS_INFO_CAT_GETPGID = 12"
definition SYS_INFO_CAT_SETSID :: u64 where "SYS_INFO_CAT_SETSID = 13"
definition SYS_INFO_CAT_TCGETPGRP :: u64 where "SYS_INFO_CAT_TCGETPGRP = 14"
definition SYS_INFO_CAT_TCSETPGRP :: u64 where "SYS_INFO_CAT_TCSETPGRP = 15"

definition info_setpgid :: call where
  "info_setpgid cpu k =
     (let cur = k_current k cpu; f = frame_now cpu k;
          target = (if ucast (r9 f) = (0 :: tid) then t_tid (k_tcb k cur) else ucast (r9 f));
          new_pgid = (if ucast (r10 f) = (0 :: tid) then target else ucast (r10 f))
      in case sched_get_tcb target (k_sched k) of
           None \<Rightarrow> ret_err cur IPC_ERR_NOT_FOUND k
         | Some t \<Rightarrow> ret cur ipc_ok (k_upd t (\<lambda>c. c\<lparr>t_pgid := new_pgid\<rparr>) k))"

definition info_getpgid :: call where
  "info_getpgid cpu k =
     (let cur = k_current k cpu; f = frame_now cpu k;
          target = (if ucast (r9 f) = (0 :: tid) then t_tid (k_tcb k cur) else ucast (r9 f))
      in case sched_get_tcb target (k_sched k) of
           None \<Rightarrow> ret_err cur IPC_ERR_NOT_FOUND k
         | Some t \<Rightarrow> ret1 cur (ucast (t_pgid (k_tcb k t))) k)"

definition info_setsid :: call where
  "info_setsid cpu k =
     (let cur = k_current k cpu; k = k_upd cur (\<lambda>c. c\<lparr>t_sid := t_tid c, t_pgid := t_tid c\<rparr>) k
      in ret1 cur (ucast (t_sid (k_tcb k cur))) k)"

definition info_tcgetpgrp :: call where
  "info_tcgetpgrp cpu k =
     (let cur = k_current k cpu; vt = c_int (r9 (frame_now cpu k))
      in if vt_bad vt then ret_err cur IPC_ERR_NOT_FOUND k else ret1 cur (ucast (console_fg_pgid k ! nat vt)) k)"

definition info_tcsetpgrp :: call where
  "info_tcsetpgrp cpu k =
     (let cur = k_current k cpu; f = frame_now cpu k; vt = c_int (r9 f)
      in if vt_bad vt then ret_err cur IPC_ERR_NOT_FOUND k
         else ret cur ipc_ok (k\<lparr>console_fg_pgid := (console_fg_pgid k)[nat vt := ucast (r10 f)]\<rparr>))"

section \<open>Console and mouse\<close>

definition SYS_INFO_CAT_CONSOLE_MODE :: u64 where "SYS_INFO_CAT_CONSOLE_MODE = 10"
definition SYS_INFO_CAT_ACTIVE_VT :: u64 where "SYS_INFO_CAT_ACTIVE_VT = 16"
definition SYS_INFO_CAT_PORT_IO :: u64 where "SYS_INFO_CAT_PORT_IO = 17"
definition SYS_INFO_CAT_CONSOLE_FEED :: u64 where "SYS_INFO_CAT_CONSOLE_FEED = 18"
definition SYS_INFO_CAT_CONSOLE_SIGNAL_FG :: u64 where "SYS_INFO_CAT_CONSOLE_SIGNAL_FG = 19"
definition SYS_INFO_CAT_SET_ACTIVE_VT :: u64 where "SYS_INFO_CAT_SET_ACTIVE_VT = 20"
definition SYS_INFO_CAT_CONSOLE_SCROLL :: u64 where "SYS_INFO_CAT_CONSOLE_SCROLL = 21"
definition SYS_INFO_CAT_MOUSE_FEED :: u64 where "SYS_INFO_CAT_MOUSE_FEED = 22"
definition SYS_INFO_CAT_MOUSE_READ :: u64 where "SYS_INFO_CAT_MOUSE_READ = 23"

definition info_active_vt :: call where
  "info_active_vt cpu k = ret1 (k_current k cpu) (of_nat (arch_console_get_active_vt (k_console k))) k"

definition info_console_mode :: call where
  "info_console_mode cpu k =
     (let cur = k_current k cpu; f = frame_now cpu k; vt = c_int (r10 f)
      in if r9 f = 2 then ret1 cur (if arch_console_get_raw_mode vt (k_console k) then 1 else 0) k
         else ret cur ipc_ok (on_console (arch_console_set_raw_mode vt (c_int (r9 f) \<noteq> 0)) k))"

text \<open>What only the console driver may do.\<close>

definition driver_only :: "call \<Rightarrow> call" where
  "driver_only act cpu k =
     (if t_tid (caller_of cpu k) \<noteq> console_driver_tid k then ret_err (k_current k cpu) IPC_ERR_NO_CAP k else act cpu k)"

text \<open>The answer to a port access, \<open>None\<close> for one that is refused.\<close>

definition ret_port :: "tptr \<Rightarrow> u64 option \<times> io \<Rightarrow> kernel \<Rightarrow> kernel" where
  "ret_port t r k =
     (case r of
        (None, d) \<Rightarrow> ret_err t IPC_ERR_NO_CAP (k\<lparr>k_io := d\<rparr>)
      | (Some v, d) \<Rightarrow> ret1 t v (k\<lparr>k_io := d\<rparr>))"

definition info_port_io :: call where
  "info_port_io = driver_only (\<lambda>cpu k.
     let f = frame_now cpu k
     in ret_port (k_current k cpu) (arch_console_port_io (ucast (r9 f)) (c_int (r10 f)) (c_int (r12 f) \<noteq> 0) (r13 f) (k_io k)) k)"

definition info_console_feed :: call where
  "info_console_feed = driver_only (\<lambda>cpu k.
     let f = frame_now cpu k; len = min (unat (r9 f AND 0xFF)) 32
     in ret (k_current k cpu) ipc_ok
          (on_console (arch_console_feed_bytes (c_int (drop_bit 8 (r9 f)))
             (take len (bytes_of_words [r10 f, r12 f, r13 f, r14 f]))) k))"

definition info_console_signal_fg :: call where
  "info_console_signal_fg = driver_only (\<lambda>cpu k.
     let f = frame_now cpu k in ret (k_current k cpu) ipc_ok (ipc_console_interrupt cpu (c_int (r9 f)) (c_int (r10 f)) k))"

definition info_set_active_vt :: call where
  "info_set_active_vt = driver_only (\<lambda>cpu k.
     ret (k_current k cpu) ipc_ok (on_console (arch_console_switch_vt (c_int (r9 (frame_now cpu k)))) k))"

definition info_console_scroll :: call where
  "info_console_scroll = driver_only (\<lambda>cpu k.
     ret (k_current k cpu) ipc_ok (on_console (arch_console_scroll (c_int (r9 (frame_now cpu k)))) k))"

definition info_mouse_feed :: call where
  "info_mouse_feed = driver_only (\<lambda>cpu k.
     ret (k_current k cpu) ipc_ok (on_console (arch_console_mouse_feed (r9 (frame_now cpu k))) k))"

definition info_mouse_read :: call where
  "info_mouse_read cpu k =
     (let cur = k_current k cpu
      in if t_tid (k_tcb k cur) \<noteq> console_writer_tid k then ret_err cur IPC_ERR_NO_CAP k
         else
           (let (evs, c) = arch_console_mouse_read 4 (k_console k); ws = evs @ replicate (4 - length evs) 0
            in k_uctx cur (\<lambda>f. f\<lparr>r8 := of_nat (length evs), r9 := ws ! 0, r10 := ws ! 1, r12 := ws ! 2, r13 := ws ! 3,
                 rax := ipc_ok\<rparr>) (k\<lparr>k_console := c\<rparr>)))"

section \<open>Framebuffer\<close>

definition SYS_INFO_CAT_FB_MAP :: u64 where "SYS_INFO_CAT_FB_MAP = 24"
definition FRAMEBUFFER_USER_VA :: vaddr where "FRAMEBUFFER_USER_VA = 0x100000000"

text \<open>Mapping \<open>n\<close> pages of physical memory at consecutive addresses, with one of the mapping operations.\<close>

definition map_run :: "(vaddr \<Rightarrow> paddr \<Rightarrow> pmm_st \<Rightarrow> int \<times> pmm_st) \<Rightarrow> vaddr \<Rightarrow> paddr \<Rightarrow> nat \<Rightarrow> 'a kmach_scheme \<Rightarrow> 'a kmach_scheme" where
  "map_run mapper va pa n k =
     fold (\<lambda>i k. snd (with_pm (mapper (va + of_nat i * PAGE_SIZE_4K) (pa + of_nat i * PAGE_SIZE_4K)) k)) [0..<n] k"

definition fb_format :: "fb_info \<Rightarrow> u64" where
  "fb_format fb = ucast (fb_bpp fb) OR push_bit 8 (ucast (fb_red_pos fb)) OR push_bit 16 (ucast (fb_red_size fb))
     OR push_bit 24 (ucast (fb_green_pos fb)) OR push_bit 32 (ucast (fb_green_size fb))
     OR push_bit 40 (ucast (fb_blue_pos fb)) OR push_bit 48 (ucast (fb_blue_size fb))"

definition info_fb_map :: call where
  "info_fb_map cpu k =
     (let cur = k_current k cpu; as = t_address_space (k_tcb k cur)
      in case k_boot_fb k of
           None \<Rightarrow> ret_err cur IPC_ERR_NOT_FOUND k
         | Some fb \<Rightarrow>
             if as = 0 then ret_err cur IPC_ERR_NO_CAP k
             else
               (let fb_size = ucast (fb_pitch fb) * ucast (fb_height fb) :: u64;
                    page_count = (fb_size + PAGE_SIZE_4K - 1) div PAGE_SIZE_4K;
                    k = map_run (arch_vm_map_framebuffer_page as) FRAMEBUFFER_USER_VA (fb_phys_addr fb) (unat page_count) k;
                    k = on_console (arch_console_set_fb_owner (t_tid (k_tcb k cur))) k
                in k_uctx cur (\<lambda>f. f\<lparr>r8 := ucast (fb_width fb), r9 := ucast (fb_height fb), r10 := ucast (fb_pitch fb),
                     r12 := fb_format fb, r13 := ucast (fb_type fb), rax := ipc_ok\<rparr>) k))"

section \<open>Shared memory\<close>

definition SYS_INFO_CAT_SHM_GET :: u64 where "SYS_INFO_CAT_SHM_GET = 25"
definition SYS_INFO_CAT_SHM_AT :: u64 where "SYS_INFO_CAT_SHM_AT = 26"
definition SYS_INFO_CAT_SHM_DT :: u64 where "SYS_INFO_CAT_SHM_DT = 27"
definition SYS_INFO_CAT_SHM_CTL :: u64 where "SYS_INFO_CAT_SHM_CTL = 28"

definition info_shm_get :: call_opt where
  "info_shm_get cpu k =
     (let cur = k_current k cpu; f = frame_now cpu k
      in map_option (\<lambda>(r, k). case r of Inl e \<Rightarrow> ret_err cur e k | Inr i \<Rightarrow> ret1 cur (scast i) k)
           (shm_get (t_tid (k_tcb k cur)) (ucast (r9 f)) (r10 f) (ucast (r12 f)) k))"

definition info_shm_at :: call where
  "info_shm_at cpu k =
     (let cur = k_current k cpu; f = frame_now cpu k; c = k_tcb k cur
      in if t_address_space c = 0 then ret_err cur IPC_ERR_NO_CAP k
         else if r10 f \<noteq> 0 then ret_err cur IPC_ERR_INVALID k
         else
           (case shm_at (t_tid c) (t_address_space c) (ucast (r9 f)) (ucast (r12 f)) k of
              (Inl e, k) \<Rightarrow> ret_err cur e k
            | (Inr va, k) \<Rightarrow> ret1 cur va k))"

definition info_shm_dt :: call where
  "info_shm_dt cpu k =
     (let cur = k_current k cpu; c = k_tcb k cur
      in if t_address_space c = 0 then ret_err cur IPC_ERR_NO_CAP k
         else (let (r, k) = shm_dt (t_address_space c) (r9 (t_uctx c)) k in ret cur (rax_of r) k))"

definition info_shm_ctl :: call where
  "info_shm_ctl cpu k =
     (let cur = k_current k cpu; f = frame_now cpu k
      in case shm_ctl (ucast (r9 f)) (ucast (r10 f)) k of
           (Inl e, k) \<Rightarrow> ret_err cur e k
         | (Inr ws, k) \<Rightarrow> k_uctx cur (\<lambda>f. (payload_to_frame (ws @ replicate (6 - length ws) 0) f)\<lparr>rax := ipc_ok\<rparr>) k)"

section \<open>Sockets\<close>

definition SYS_INFO_CAT_SOCK_CREATE :: u64 where "SYS_INFO_CAT_SOCK_CREATE = 29"
definition SYS_INFO_CAT_SOCK_BIND :: u64 where "SYS_INFO_CAT_SOCK_BIND = 30"
definition SYS_INFO_CAT_SOCK_LISTEN :: u64 where "SYS_INFO_CAT_SOCK_LISTEN = 31"
definition SYS_INFO_CAT_SOCK_CONNECT :: u64 where "SYS_INFO_CAT_SOCK_CONNECT = 32"
definition SYS_INFO_CAT_SOCK_ACCEPT :: u64 where "SYS_INFO_CAT_SOCK_ACCEPT = 33"
definition SYS_INFO_CAT_SOCK_READ :: u64 where "SYS_INFO_CAT_SOCK_READ = 34"
definition SYS_INFO_CAT_SOCK_WRITE :: u64 where "SYS_INFO_CAT_SOCK_WRITE = 35"
definition SYS_INFO_CAT_SOCK_CLOSE :: u64 where "SYS_INFO_CAT_SOCK_CLOSE = 36"

definition with_socks :: "(sockets \<Rightarrow> sockets \<times> 'r) \<Rightarrow> kernel \<Rightarrow> 'r \<times> kernel" where
  "with_socks g k = (case g (k_socks k) of (ss', r) \<Rightarrow> (r, k\<lparr>k_socks := ss'\<rparr>))"

definition path_of_regs :: "arch_uctx \<Rightarrow> u8 list" where
  "path_of_regs f = take (SOCK_PATH_MAX - 1) (bytes_of_words [r10 f, r12 f, r13 f, r14 f]) @ [0]"

definition ret_id :: "tptr \<Rightarrow> (ipc_err + u32) \<times> kernel \<Rightarrow> kernel" where
  "ret_id t r = (case r of (Inl e, k) \<Rightarrow> ret_err t e k | (Inr i, k) \<Rightarrow> ret1 t (scast i) k)"

definition info_sock_create :: call where
  "info_sock_create cpu k = ret_id (k_current k cpu) (with_socks (\<lambda>ss'. sock_create ss' (t_tid (caller_of cpu k))) k)"

definition info_sock_bind :: call where
  "info_sock_bind cpu k =
     (let cur = k_current k cpu; f = frame_now cpu k;
          (r, k) = with_socks (\<lambda>ss'. sock_bind ss' (t_tid (k_tcb k cur)) (ucast (r9 f)) (path_of_regs f)) k
      in ret cur (rax_of r) k)"

definition info_sock_listen :: call where
  "info_sock_listen cpu k =
     (let cur = k_current k cpu; f = frame_now cpu k;
          (r, k) = with_socks (\<lambda>ss'. sock_listen ss' (t_tid (k_tcb k cur)) (ucast (r9 f))) k
      in ret cur (rax_of r) k)"

definition info_sock_connect :: call where
  "info_sock_connect cpu k =
     (let cur = k_current k cpu; f = frame_now cpu k;
          (r, k) = with_socks (\<lambda>ss'. sock_connect ss' (t_tid (k_tcb k cur)) (ucast (r9 f)) (path_of_regs f)) k
      in ret cur (rax_of r) k)"

definition info_sock_accept :: call where
  "info_sock_accept cpu k =
     ret_id (k_current k cpu)
       (with_socks (\<lambda>ss'. sock_accept ss' (t_tid (caller_of cpu k)) (ucast (r9 (frame_now cpu k)))) k)"

definition info_sock_read :: call where
  "info_sock_read cpu k =
     (let cur = k_current k cpu; f = frame_now cpu k; max_len = min (c_int (r10 f)) 40
      in case with_socks (\<lambda>ss'. sock_read ss' (ucast (r9 f)) max_len) k of
           (Inl e, k) \<Rightarrow> ret_err cur e k
         | (Inr bs, k) \<Rightarrow> ret_bytes cur bs k)"

definition info_sock_write :: call where
  "info_sock_write cpu k =
     (let cur = k_current k cpu; f = frame_now cpu k; len = min (c_int (r10 f)) 24;
          buf = take (nat len) (bytes_of_words [r12 f, r13 f, r14 f])
      in case with_socks (\<lambda>ss'. sock_write ss' (ucast (r9 f)) buf len) k of
           (Inl e, k) \<Rightarrow> ret_err cur e k
         | (Inr n, k) \<Rightarrow> ret1 cur (word_of_int n) k)"

definition info_sock_close :: call where
  "info_sock_close cpu k =
     (let cur = k_current k cpu;
          (r, k) = with_socks (\<lambda>ss'. sock_close ss' (t_tid (k_tcb k cur)) (ucast (r9 (frame_now cpu k)))) k
      in ret cur (rax_of r) k)"

section \<open>Signal handlers\<close>

lemma lowest_signal_bit:
  assumes "lowest_signal d = Some n"
  shows "1 \<le> n" "n \<le> 64" "bit d (n - 1)" "\<forall>i < n - 1. \<not> bit d i"
proof -
  obtain i where i: "first_slot (bit d) [0..<64] = Some i" "n = Suc i" using assms by (auto simp: lowest_signal_def)
  then have "i < 64" "bit d i" "\<forall>j < i. \<not> bit d j" using first_slot_SomeD [OF i(1)] by auto
  then show "1 \<le> n" "n \<le> 64" "bit d (n - 1)" "\<forall>i < n - 1. \<not> bit d i" using i(2) by auto
qed

lemma handler_rsp_aligned: "handler_rsp c AND 0xF = 8"
proof -
  define x where "x = (rsp (t_uctx c) - 256) AND NOT (0xF :: u64)"
  have m: "(0xF :: u64) = mask 4" by (simp add: mask_eq_exp_minus_1)
  have "take_bit 4 x = 0" unfolding x_def m by (rule bit_word_eqI) (auto simp: bit_simps)
  then have x: "uint x mod 16 = 0" using unsigned_take_bit_eq [of 4 x, where ?'a = int] by (simp add: take_bit_eq_mod)
  have "uint (x - 8) mod 16 = (uint x - 8) mod 16"
    unfolding uint_word_ariths(2) by (simp add: mod_mod_cancel)
  also have "\<dots> = 8" using x mod_diff_left_eq [of "uint x" 16 8] by simp
  finally have "take_bit 4 (uint (x - 8)) = 8" by (simp add: take_bit_eq_mod)
  then have "uint (take_bit 4 (x - 8)) = uint (8 :: u64)" by (simp only: unsigned_take_bit_eq) simp
  then have "x - 8 AND mask 4 = 8" by (simp only: word_uint_eq_iff take_bit_eq_mask)
  then show ?thesis unfolding handler_rsp_def m x_def .
qed

lemma k_upd_sel:
  "k_tcb (k_upd t f k) w = (if w = t then f (k_tcb k t) else k_tcb k w)" "k_mem (k_upd t f k) = k_mem k"
  "k_cr3 (k_upd t f (k :: kernel)) = k_cr3 k" "k_current (k_upd t f k) = k_current k"
  by (simp_all add: kmach_simps)

text \<open>C13. A signal handler interrupts a thread and gives it back: delivery takes the lowest pending signal that is not
  blocked, enters its handler with the signal's number as argument and with the address of the trampoline as return
  address on a stack aligned for a call, and takes only this signal from the pending ones; no further signal is delivered
  while the handler runs.  Whatever the handler did to its registers and to its mask, sigreturn gives the thread the
  registers and the mask from before the delivery, and no other thread has changed.\<close>

theorem signal_handler_roundtrip:
  assumes "t = k_current k cpu" "\<not> t_in_sig_handler (k_tcb k t)" "lowest_signal (sig_deliverable (k_tcb k t)) = Some signum"
    "sa_handler (t_sig_actions (k_tcb k t) ! signum) \<notin> {ROBU_SIG_IGN, ROBU_SIG_DFL}" "sig_try_deliver cpu t k = Some k1"
    "k2 = k_upd t (\<lambda>c. c\<lparr>t_uctx := u, t_sig_mask := mk\<rparr>) k1" "k3 = info_sigreturn cpu k2"
  shows "rip (t_uctx (k_tcb k1 t)) = sa_handler (t_sig_actions (k_tcb k t) ! signum) \<and> rdi (t_uctx (k_tcb k1 t)) = of_nat signum
    \<and> rsp (t_uctx (k_tcb k1 t)) AND 0xF = 8
    \<and> (\<exists>pa. mmu_address (k_mem k) (k_cr3 k cpu) (rsp (t_uctx (k_tcb k1 t))) = Some pa
          \<and> k_mem k1 = store64 (k_mem k) pa SIGTRAMPOLINE_VA)
    \<and> (\<forall>i. bit (t_sig_pending (k_tcb k1 t)) i \<longleftrightarrow> bit (t_sig_pending (k_tcb k t)) i \<and> i \<noteq> signum - 1)
    \<and> bit (t_sig_pending (k_tcb k t)) (signum - 1) \<and> \<not> bit (t_sig_mask (k_tcb k t)) (signum - 1)
    \<and> sig_try_deliver cpu t k1 = Some k1
    \<and> t_uctx (k_tcb k3 t) = t_uctx (k_tcb k t) \<and> t_sig_mask (k_tcb k3 t) = t_sig_mask (k_tcb k t)
    \<and> \<not> t_in_sig_handler (k_tcb k3 t) \<and> t_sig_pending (k_tcb k3 t) = t_sig_pending (k_tcb k1 t)
    \<and> (\<forall>w. w \<noteq> t \<longrightarrow> k_tcb k3 w = k_tcb k w)"
proof -
  let ?c = "k_tcb k t"
  let ?c' = "?c\<lparr>t_sig_pending := t_sig_pending ?c AND NOT (sig_bit signum)\<rparr>"
  have rsp': "handler_rsp ?c' = handler_rsp ?c" by (simp add: handler_rsp_def)
  obtain pa where pa: "mmu_address (k_mem k) (k_cr3 k cpu) (handler_rsp ?c) = Some pa"
    and k1: "k1 = k_upd t (enter_handler signum) ((k_upd t (\<lambda>c. c\<lparr>t_sig_pending := t_sig_pending c AND NOT (sig_bit signum)\<rparr>) k)
      \<lparr>k_mem := store64 (k_mem k) pa SIGTRAMPOLINE_VA\<rparr>)"
    using assms(2-5) rsp' by (auto simp: sig_try_deliver_def Let_def k_upd_sel split: option.splits)
  have c1: "k_tcb k1 t = enter_handler signum ?c'" "\<forall>w. w \<noteq> t \<longrightarrow> k_tcb k1 w = k_tcb k w" "k_current k1 = k_current k"
    "k_mem k1 = store64 (k_mem k) pa SIGTRAMPOLINE_VA" unfolding k1 by (simp_all add: k_upd_sel)
  have f: "rip (t_uctx (k_tcb k1 t)) = sa_handler (t_sig_actions ?c ! signum)" "rdi (t_uctx (k_tcb k1 t)) = of_nat signum"
    "rsp (t_uctx (k_tcb k1 t)) = handler_rsp ?c" "t_sig_pending (k_tcb k1 t) = t_sig_pending ?c AND NOT (sig_bit signum)"
    "t_in_sig_handler (k_tcb k1 t)" "t_saved_uctx_before_sig (k_tcb k1 t) = t_uctx ?c" "t_saved_sig_mask (k_tcb k1 t) = t_sig_mask ?c"
    unfolding c1(1) enter_handler_def Let_def rsp' by simp_all
  have c3: "k_tcb k3 w = (if w = t then (k_tcb k1 t)\<lparr>t_uctx := t_uctx ?c, t_sig_mask := t_sig_mask ?c, t_in_sig_handler := False\<rparr> else k_tcb k w)" for w
    using assms(1,6,7) c1(2,3) f(6,7) by (simp add: info_sigreturn_def k_upd_sel)
  note b = lowest_signal_bit [OF assms(3)]
  have "\<forall>i. bit (t_sig_pending (k_tcb k1 t)) i \<longleftrightarrow> bit (t_sig_pending ?c) i \<and> i \<noteq> signum - 1"
    unfolding f(4) sig_bit_def using b(1,2) by (auto simp: bit_simps dest: bit_imp_le_length)
  moreover have "bit (t_sig_pending ?c) (signum - 1)" "\<not> bit (t_sig_mask ?c) (signum - 1)"
    using b(3) by (simp_all add: sig_deliverable_def bit_simps)
  moreover have "sig_try_deliver cpu t k1 = Some k1" using f(5) by (simp add: sig_try_deliver_def)
  ultimately show ?thesis using f(1-3) c1(4) c3 pa handler_rsp_aligned [of ?c] by simp
qed

text \<open>A memory in which every word is the entry of a present large page at address 0.\<close>

definition sig_ex_mem :: mem where
  "sig_ex_mem a = (if a AND 7 = 0 then 0x83 else 0)"

definition sig_ex_tcb :: tcb where
  "sig_ex_tcb = tcb_zero\<lparr>t_sig_pending := 6, t_sig_mask := 4, t_uctx := arch_uctx_zero\<lparr>rsp := 0x1000\<rparr>,
     t_sig_actions := [sig_action_zero, sig_action_zero, \<lparr>sa_handler = 0x400000, sa_flags = 0, sa_mask = 0\<rparr>]\<rparr>"

lemma sig_ex_facts:
  "lowest_signal (sig_deliverable sig_ex_tcb) = Some 2" "handler_rsp sig_ex_tcb = 0xEF8"
  "mmu_address sig_ex_mem 0 0xEF8 = Some 0xEF8"
  by code_simp+

theorem signal_handler_roundtrip_witness:
  "\<exists>k k1. sig_try_deliver 0 (Thread 1) k = Some k1 \<and> rip (t_uctx (k_tcb k1 (Thread 1))) = 0x400000 \<and> rdi (t_uctx (k_tcb k1 (Thread 1))) = 2
     \<and> rsp (t_uctx (k_tcb (info_sigreturn 0 (k_upd (Thread 1) (\<lambda>c. c\<lparr>t_uctx := arch_uctx_zero, t_sig_mask := 0\<rparr>) k1)) (Thread 1))) = 0x1000"
proof -
  define k where "k = kernel_static\<lparr>k_sched := (upd (Thread 1) (\<lambda>_. sig_ex_tcb) (k_sched kernel_static))\<lparr>current_thread := (\<lambda>_. Thread 1)\<rparr>,
    k_mem := sig_ex_mem\<rparr>"
  have k: "k_tcb k (Thread 1) = sig_ex_tcb" "k_current k 0 = Thread 1" "k_mem k = sig_ex_mem" "k_cr3 k 0 = 0"
    by (simp_all add: k_def upd_def kernel_static_def)
  have act: "sa_handler (t_sig_actions sig_ex_tcb ! 2) = 0x400000" "\<not> t_in_sig_handler sig_ex_tcb" "rsp (t_uctx sig_ex_tcb) = 0x1000"
    by (simp_all add: sig_ex_tcb_def tcb_zero_def)
  have "handler_rsp (sig_ex_tcb\<lparr>t_sig_pending := p\<rparr>) = 0xEF8" for p using sig_ex_facts(2) by (simp add: handler_rsp_def)
  then obtain k1 where k1: "sig_try_deliver 0 (Thread 1) k = Some k1"
    using act sig_ex_facts k by (auto simp: sig_try_deliver_def Let_def k_upd_sel ROBU_SIG_IGN_def ROBU_SIG_DFL_def)
  have "sa_handler (t_sig_actions (k_tcb k (Thread 1)) ! 2) \<notin> {ROBU_SIG_IGN, ROBU_SIG_DFL}"
    using act(1) k(1) by (simp add: ROBU_SIG_IGN_def ROBU_SIG_DFL_def)
  note all = signal_handler_roundtrip [OF k(2) [symmetric] _ _ this k1 refl refl, where u = arch_uctx_zero and mk = 0]
  show ?thesis
    by (intro exI [of _ k] exI [of _ k1]) (use all act sig_ex_facts(1) k k1 in simp)
qed

end
