(* ===== verification/Trap.thy ===== *)
theory Trap
  imports Sysinfo
begin

text \<open>
  The remaining categories of \<^verbatim>\<open>IPC_FLAG_SYS_INFO\<close> (hardware access of drivers, answers to program requests,
  random numbers, block devices), the dispatcher \<^verbatim>\<open>sys_ipc\<close> of \<^verbatim>\<open>src/core/ipc.c\<close>, and the entry into the kernel,
  \<^verbatim>\<open>trap_dispatch\<close> of \<^verbatim>\<open>arch/x86_64/src/trap.c\<close> with \<^verbatim>\<open>arch_irq_dispatch\<close> of \<^verbatim>\<open>arch/x86_64/src/intr.c\<close>.
\<close>

section \<open>Hardware access\<close>

definition SYS_INFO_CAT_PCI_CFG :: u64 where "SYS_INFO_CAT_PCI_CFG = 37"
definition SYS_INFO_CAT_HW_PORT_IO :: u64 where "SYS_INFO_CAT_HW_PORT_IO = 38"
definition SYS_INFO_CAT_DMA_ALLOC :: u64 where "SYS_INFO_CAT_DMA_ALLOC = 39"
definition SYS_INFO_CAT_HW_PORT_IO_BULK_READ :: u64 where "SYS_INFO_CAT_HW_PORT_IO_BULK_READ = 40"
definition SYS_INFO_CAT_HW_PORT_IO_BULK_WRITE :: u64 where "SYS_INFO_CAT_HW_PORT_IO_BULK_WRITE = 41"
definition SYS_INFO_CAT_EXECREQ_REPLY :: u64 where "SYS_INFO_CAT_EXECREQ_REPLY = 42"
definition SYS_INFO_CAT_HW_MMIO_MAP :: u64 where "SYS_INFO_CAT_HW_MMIO_MAP = 43"
definition SYS_INFO_CAT_GETENTROPY :: u64 where "SYS_INFO_CAT_GETENTROPY = 44"
definition SYS_INFO_CAT_BLOCK_INFO :: u64 where "SYS_INFO_CAT_BLOCK_INFO = 45"
definition HW_PORT_IO_BULK_READ_MAX :: int where "HW_PORT_IO_BULK_READ_MAX = 40"
definition HW_PORT_IO_BULK_WRITE_MAX :: int where "HW_PORT_IO_BULK_WRITE_MAX = 24"
definition DMA_USER_VA_BASE :: vaddr where "DMA_USER_VA_BASE = 0x180000000"
definition ROBU_RANDOM_MAX_REQUEST :: u64 where "ROBU_RANDOM_MAX_REQUEST = 256"
definition BLOCK_INFO_OP_PUBLISH :: u64 where "BLOCK_INFO_OP_PUBLISH = 1"
definition BLOCK_INFO_OP_QUERY :: u64 where "BLOCK_INFO_OP_QUERY = 2"
definition BLOCK_DEVICE_ROOT :: u32 where "BLOCK_DEVICE_ROOT = 1"
definition BLOCK_DEVICE_DATA :: u32 where "BLOCK_DEVICE_DATA = 2"

definition ipc_grant_hw_driver :: "tid \<Rightarrow> kernel \<Rightarrow> kernel" where
  "ipc_grant_hw_driver t k = k\<lparr>hw_driver_tid := t\<rparr>"

text \<open>The first free entry of a table of grants; a full table ignores the grant.\<close>

definition grant_entry :: "tid \<Rightarrow> tid list \<Rightarrow> tid list" where
  "grant_entry t tab = (case first_slot (\<lambda>x. x = 0) tab of None \<Rightarrow> tab | Some i \<Rightarrow> tab[i := t])"

definition ipc_grant_hw_driver_secondary :: "tid \<Rightarrow> kernel \<Rightarrow> kernel" where
  "ipc_grant_hw_driver_secondary t k = k\<lparr>hw_driver_secondary_tids := grant_entry t (hw_driver_secondary_tids k)\<rparr>"

definition hw_driver_allows :: "tid \<Rightarrow> kernel \<Rightarrow> bool" where
  "hw_driver_allows t k \<longleftrightarrow> t = hw_driver_tid k \<or> t \<in> set (hw_driver_secondary_tids k)"

definition ipc_grant_hw_port_io_secondary :: "tid \<Rightarrow> kernel \<Rightarrow> kernel" where
  "ipc_grant_hw_port_io_secondary t k = k\<lparr>hw_port_io_secondary_tids := grant_entry t (hw_port_io_secondary_tids k)\<rparr>"

definition hw_port_io_secondary_allows :: "tid \<Rightarrow> kernel \<Rightarrow> bool" where
  "hw_port_io_secondary_allows t k \<longleftrightarrow> t \<in> set (hw_port_io_secondary_tids k)"

definition ipc_grant_pci_cfg_secondary :: "tid \<Rightarrow> kernel \<Rightarrow> kernel" where
  "ipc_grant_pci_cfg_secondary t k = k\<lparr>pci_cfg_secondary_tid := t\<rparr>"

definition hw_ports_allowed :: "tid \<Rightarrow> kernel \<Rightarrow> bool" where
  "hw_ports_allowed t k \<longleftrightarrow> hw_driver_allows t k \<or> hw_port_io_secondary_allows t k"

definition info_pci_cfg :: call where
  "info_pci_cfg cpu k =
     (let cur = k_current k cpu; f = frame_now cpu k; t = t_tid (k_tcb k cur)
      in if \<not> hw_driver_allows t k \<and> t \<noteq> pci_cfg_secondary_tid k then ret_err cur IPC_ERR_NO_CAP k
         else ret_port cur (arch_pci_cfg_access (ucast (drop_bit 16 (r9 f))) (ucast (drop_bit 8 (r9 f))) (ucast (r9 f))
                (ucast (r10 f)) (uint (drop_bit 8 (r10 f) AND 0xFF)) (drop_bit 16 (r10 f) AND 0xFF \<noteq> 0) (r12 f) (k_io k)) k)"

definition info_hw_port_io :: call where
  "info_hw_port_io cpu k =
     (let cur = k_current k cpu; f = frame_now cpu k
      in if \<not> hw_ports_allowed (t_tid (k_tcb k cur)) k then ret_err cur IPC_ERR_NO_CAP k
         else ret_port cur (arch_hw_port_io (ucast (r9 f)) (c_int (r10 f)) (c_int (r12 f) \<noteq> 0) (r13 f) (k_io k)) k)"

definition info_hw_bulk_read :: call where
  "info_hw_bulk_read cpu k =
     (let cur = k_current k cpu; f = frame_now cpu k
      in if \<not> hw_ports_allowed (t_tid (k_tcb k cur)) k then ret_err cur IPC_ERR_NO_CAP k
         else
           (case arch_hw_port_io_bulk_read (ucast (r9 f)) (min (c_int (r10 f)) HW_PORT_IO_BULK_READ_MAX) (k_io k) of
              (None, d) \<Rightarrow> ret_err cur IPC_ERR_NO_CAP (k\<lparr>k_io := d\<rparr>)
            | (Some bs, d) \<Rightarrow> ret_bytes cur bs (k\<lparr>k_io := d\<rparr>)))"

definition info_hw_bulk_write :: call where
  "info_hw_bulk_write cpu k =
     (let cur = k_current k cpu; f = frame_now cpu k; count = min (c_int (r10 f)) HW_PORT_IO_BULK_WRITE_MAX
      in if \<not> hw_ports_allowed (t_tid (k_tcb k cur)) k then ret_err cur IPC_ERR_NO_CAP k
         else
           (case arch_hw_port_io_bulk_write (ucast (r9 f)) (take (nat count) (bytes_of_words [r12 f, r13 f, r14 f])) count (k_io k) of
              (None, d) \<Rightarrow> ret_err cur IPC_ERR_NO_CAP (k\<lparr>k_io := d\<rparr>)
            | (Some n, d) \<Rightarrow> ret1 cur (word_of_int n) (k\<lparr>k_io := d\<rparr>)))"

definition info_dma_alloc :: call where
  "info_dma_alloc cpu k =
     (let cur = k_current k cpu; c = k_tcb k cur
      in if \<not> hw_driver_allows (t_tid c) k \<or> t_address_space c = 0 then ret_err cur IPC_ERR_NO_CAP k
         else
           (let bytes = (r9 (t_uctx c) + PAGE_SIZE_4K - 1) AND NOT (PAGE_SIZE_4K - 1);
                (phys, d) = dma_region_alloc bytes (k_dma k)
            in if phys = 0 then ret_err cur IPC_ERR_NO_MEM (k\<lparr>k_dma := d\<rparr>)
               else
                 (let k = k\<lparr>k_dma := d, k_mem := zero_range (k_mem k) phys bytes\<rparr>;
                      va_base = DMA_USER_VA_BASE + (phys - fst (dma_range d));
                      k = map_run (\<lambda>va pa. arch_vm_map_page (t_address_space c) va pa
                            (VM_PROT_READ OR VM_PROT_WRITE OR VM_PROT_USER)) va_base phys (unat (bytes div PAGE_SIZE_4K)) k
                  in k_uctx cur (\<lambda>f. f\<lparr>r8 := va_base, r9 := phys, rax := ipc_ok\<rparr>) k)))"

definition info_hw_mmio_map :: call where
  "info_hw_mmio_map cpu k =
     (let cur = k_current k cpu; c = k_tcb k cur; f = t_uctx c
      in if \<not> hw_driver_allows (t_tid c) k \<or> t_address_space c = 0 then ret_err cur IPC_ERR_NO_CAP k
         else
           (let off = r9 f AND (PAGE_SIZE_4K - 1);
                base = r9 f AND NOT (PAGE_SIZE_4K - 1);
                bytes = (r10 f + off + PAGE_SIZE_4K - 1) AND NOT (PAGE_SIZE_4K - 1)
            in if bytes = 0 \<or> bytes > HW_MMIO_MAP_MAX then ret_err cur IPC_ERR_INVALID k
               else ret1 cur (HW_MMIO_USER_VA_BASE + off)
                      (map_run (arch_vm_map_device_page (t_address_space c)) HW_MMIO_USER_VA_BASE base
                        (unat (bytes div PAGE_SIZE_4K)) k)))"

section \<open>Program requests, random numbers, block devices\<close>

definition info_execreq_reply :: call where
  "info_execreq_reply cpu k =
     (let cur = k_current k cpu; f = frame_now cpu k
      in if t_tid (k_tcb k cur) \<noteq> ki_ext2fs_tid (k_kinfo k) then ret_err cur IPC_ERR_NO_CAP k
         else ret cur ipc_ok
                (execreq_complete cpu (unat (ucast (r9 f) :: u32)) (ucast (r10 f)) (c_int (r12 f)) (ucast (r13 f)) (r14 f) k))"

definition info_getentropy :: call where
  "info_getentropy cpu k =
     (let cur = k_current k cpu; c = k_tcb k cur; f = t_uctx c
      in if t_address_space c = 0 then ret_err cur IPC_ERR_NO_CAP k
         else if r10 f > ROBU_RANDOM_MAX_REQUEST \<or> (r10 f \<noteq> 0 \<and> r9 f = 0) then ret_err cur IPC_ERR_INVALID k
         else
           (case random_fill (unat (r10 f)) (k_rng k) of
              (None, r) \<Rightarrow> ret_err cur IPC_ERR_NOT_SUPPORTED (k\<lparr>k_rng := r\<rparr>)
            | (Some bs, r) \<Rightarrow>
                (let (rc, m) = vm_copy_to_user (t_address_space c) (r9 f) bs (k_mem k); k = k\<lparr>k_rng := r, k_mem := m\<rparr>
                 in if rc \<noteq> 0 then ret_err cur IPC_ERR_INVALID k else ret1 cur (r10 f) k)))"

definition block_publish :: call where
  "block_publish cpu k =
     (let cur = k_current k cpu; f = frame_now cpu k; t = t_tid (k_tcb k cur); device = ucast (r10 f) :: u32
      in if (t = ki_ext2fs_tid (k_kinfo k) \<and> device = BLOCK_DEVICE_ROOT) \<or> (t = ki_blockdrv_tid (k_kinfo k) \<and> device = BLOCK_DEVICE_DATA)
         then (let (rc, ki) = kinfo_block_info_publish device (ucast (drop_bit 32 (r12 f))) (ucast (r12 f)) (ucast (r14 f)) (r13 f) (k_kinfo k)
               in ret cur (if rc = 0 then ipc_ok else rax_err IPC_ERR_INVALID) (k\<lparr>k_kinfo := ki\<rparr>))
         else ret_err cur IPC_ERR_NO_CAP k)"

definition info_block_info :: call_opt where
  "info_block_info cpu k =
     (let cur = k_current k cpu; f = frame_now cpu k
      in if r9 f = BLOCK_INFO_OP_PUBLISH then Some (block_publish cpu k)
         else if r9 f = BLOCK_INFO_OP_QUERY
         then map_option (\<lambda>r. case r of
                  (rc, Some b) \<Rightarrow>
                    if rc \<noteq> 0 then ret_err cur IPC_ERR_NOT_FOUND k
                    else k_uctx cur (\<lambda>f. f\<lparr>r8 := ucast (bd_device b),
                           r9 := push_bit 32 (ucast (bd_transport b)) OR ucast (bd_filesystem b), r10 := bd_sectors b,
                           r12 := ucast (bd_sector_size b), rax := ipc_ok\<rparr>) k
                | (rc, None) \<Rightarrow> ret_err cur IPC_ERR_NOT_FOUND k)
                (kinfo_block_info_query (ucast (r10 f)) (k_kinfo k))
         else Some (ret_err cur IPC_ERR_INVALID k))"

section \<open>Dispatching\<close>

definition IPC_FLAG_SYS_INFO :: u32 where "IPC_FLAG_SYS_INFO = 0x800000"

text \<open>The handlers in the order of the tests; the first that applies is called.\<close>

fun first_call :: "(bool \<times> call_opt) list \<Rightarrow> call_opt \<Rightarrow> call_opt" where
  "first_call [] last_call = last_call"
| "first_call ((b, c) # cs') last_call = (if b then c else first_call cs' last_call)"

definition tot :: "call \<Rightarrow> call_opt" where
  "tot c cpu k = Some (c cpu k)"

definition ipc_sys_info :: call_opt where
  "ipc_sys_info cpu k =
     (let cat = r8 (frame_now cpu k)
      in first_call
           [(cat = 0, tot info_memory), (cat = 1, tot info_sched), (cat = 2, info_power), (cat = 3, info_power),
            (cat = 4, info_power), (cat = SYS_INFO_CAT_SIGACTION, tot info_sigaction), (cat = SYS_INFO_CAT_KILL, tot info_kill),
            (cat = SYS_INFO_CAT_SIGPROCMASK, tot info_sigprocmask), (cat = SYS_INFO_CAT_SIGRETURN, tot info_sigreturn),
            (cat = SYS_INFO_CAT_SIGPENDING, tot info_sigpending), (cat = SYS_INFO_CAT_ACTIVE_VT, tot info_active_vt),
            (cat = SYS_INFO_CAT_CONSOLE_MODE, tot info_console_mode), (cat = SYS_INFO_CAT_SETPGID, tot info_setpgid),
            (cat = SYS_INFO_CAT_GETPGID, tot info_getpgid), (cat = SYS_INFO_CAT_SETSID, tot info_setsid),
            (cat = SYS_INFO_CAT_TCGETPGRP, tot info_tcgetpgrp), (cat = SYS_INFO_CAT_TCSETPGRP, tot info_tcsetpgrp),
            (cat = SYS_INFO_CAT_PORT_IO, tot info_port_io), (cat = SYS_INFO_CAT_CONSOLE_FEED, tot info_console_feed),
            (cat = SYS_INFO_CAT_CONSOLE_SIGNAL_FG, tot info_console_signal_fg),
            (cat = SYS_INFO_CAT_SET_ACTIVE_VT, tot info_set_active_vt), (cat = SYS_INFO_CAT_CONSOLE_SCROLL, tot info_console_scroll),
            (cat = SYS_INFO_CAT_MOUSE_FEED, tot info_mouse_feed), (cat = SYS_INFO_CAT_MOUSE_READ, tot info_mouse_read),
            (cat = SYS_INFO_CAT_FB_MAP, tot info_fb_map), (cat = SYS_INFO_CAT_SHM_GET, info_shm_get),
            (cat = SYS_INFO_CAT_SHM_AT, tot info_shm_at), (cat = SYS_INFO_CAT_SHM_DT, tot info_shm_dt),
            (cat = SYS_INFO_CAT_SHM_CTL, tot info_shm_ctl), (cat = SYS_INFO_CAT_SOCK_CREATE, tot info_sock_create),
            (cat = SYS_INFO_CAT_SOCK_BIND, tot info_sock_bind), (cat = SYS_INFO_CAT_SOCK_LISTEN, tot info_sock_listen),
            (cat = SYS_INFO_CAT_SOCK_CONNECT, tot info_sock_connect), (cat = SYS_INFO_CAT_SOCK_ACCEPT, tot info_sock_accept),
            (cat = SYS_INFO_CAT_SOCK_READ, tot info_sock_read), (cat = SYS_INFO_CAT_SOCK_WRITE, tot info_sock_write),
            (cat = SYS_INFO_CAT_SOCK_CLOSE, tot info_sock_close), (cat = SYS_INFO_CAT_PCI_CFG, tot info_pci_cfg),
            (cat = SYS_INFO_CAT_HW_PORT_IO, tot info_hw_port_io),
            (cat = SYS_INFO_CAT_HW_PORT_IO_BULK_READ, tot info_hw_bulk_read),
            (cat = SYS_INFO_CAT_HW_PORT_IO_BULK_WRITE, tot info_hw_bulk_write), (cat = SYS_INFO_CAT_DMA_ALLOC, tot info_dma_alloc),
            (cat = SYS_INFO_CAT_HW_MMIO_MAP, tot info_hw_mmio_map), (cat = SYS_INFO_CAT_EXECREQ_REPLY, tot info_execreq_reply),
            (cat = SYS_INFO_CAT_GETENTROPY, tot info_getentropy), (cat = SYS_INFO_CAT_BLOCK_INFO, info_block_info)]
           (tot (\<lambda>cpu k. ret_err (k_current k cpu) IPC_ERR_NOT_FOUND k)) cpu k)"

definition ipc_yield :: call where
  "ipc_yield cpu k =
     (let cur = k_current k cpu; ticks = ucast (rsi (frame_now cpu k)) :: tid; k = ret cur ipc_ok k
      in if ticks = 0 then on_sched (sched_yield cpu) k else on_sched (sched_sleep cpu (ucast ticks)) k)"

definition ipc_kernel_call :: "rootfs \<Rightarrow> call_opt" where
  "ipc_kernel_call rootfs cpu k =
     (let on = flag_set (ucast (rdx (frame_now cpu k)))
      in first_call
           [(on IPC_FLAG_RETYPE, tot ipc_retype), (on IPC_FLAG_DESTROY, tot ipc_destroy),
            (on IPC_FLAG_CONSOLE_WRITE, ipc_console_write), (on IPC_FLAG_CONSOLE_READ, tot ipc_console_read),
            (on IPC_FLAG_NOTIFY_SIGNAL, tot ipc_notify_signal), (on IPC_FLAG_NOTIFY_WAIT, tot ipc_notify_wait),
            (on IPC_FLAG_NOTIFY_POLL, tot ipc_notify_poll), (on IPC_FLAG_TIMER_ARM, tot ipc_timer_arm),
            (on IPC_FLAG_TIMER_DISARM, tot ipc_timer_disarm), (on IPC_FLAG_REVOKE_FRAME, tot ipc_revoke_frame),
            (on IPC_FLAG_EXIT, tot ipc_exit), (on IPC_FLAG_SPAWN, tot (ipc_spawn rootfs)), (on IPC_FLAG_WAIT, tot ipc_wait),
            (on IPC_FLAG_PIPE_CREATE, tot ipc_pipe_create), (on IPC_FLAG_PIPE_READ, tot ipc_pipe_read),
            (on IPC_FLAG_PIPE_WRITE, tot ipc_pipe_write), (on IPC_FLAG_PIPE_CLOSE, tot ipc_pipe_close),
            (on IPC_FLAG_FORK, tot ipc_fork), (on IPC_FLAG_SELF_TID, tot ipc_self_tid), (on IPC_FLAG_EXEC, tot (ipc_exec rootfs)),
            (on IPC_FLAG_MOUNT, tot ipc_mount), (on IPC_FLAG_BOOTFS, tot (ipc_bootfs rootfs)),
            (on IPC_FLAG_RESOLVE_FAULT, ipc_resolve_fault), (on IPC_FLAG_SET_FSBASE, tot ipc_set_fsbase),
            (on IPC_FLAG_THREAD_INFO, tot ipc_thread_info), (on IPC_FLAG_SYS_INFO, ipc_sys_info)]
           (tot ipc_yield) cpu k)"

definition sys_ipc :: "rootfs \<Rightarrow> call_opt" where
  "sys_ipc rootfs cpu k =
     (let cur = k_current k cpu; f = frame_now cpu k;
          dest_tid = ucast (rdi f) :: tid; src_filter = ucast (rsi f) :: tid; flags = ucast (rdx f) :: u32
      in if dest_tid = 0 \<and> \<not> flag_set flags IPC_FLAG_RECV then ipc_kernel_call rootfs cpu k
         else if dest_tid \<noteq> 0 then ipc_send cpu cur dest_tid src_filter flags k
         else ipc_receive cpu cur src_filter flags k)"

section \<open>Traps\<close>

definition TRAP_VEC_PAGEFAULT :: u64 where "TRAP_VEC_PAGEFAULT = 14"
definition TRAP_VEC_TIMER :: u64 where "TRAP_VEC_TIMER = 32"
definition TRAP_VEC_IPC :: u64 where "TRAP_VEC_IPC = 0x30"
definition TRAP_VEC_IPI_KICK :: u64 where "TRAP_VEC_IPI_KICK = 0x31"
definition TRAP_VEC_IPI_PANIC :: u64 where "TRAP_VEC_IPI_PANIC = 0x32"
definition TRAP_VEC_IPI_SHOOTDOWN :: u64 where "TRAP_VEC_IPI_SHOOTDOWN = 0x33"
definition PIC1_CMD :: u16 where "PIC1_CMD = 0x20"
definition PIC2_CMD :: u16 where "PIC2_CMD = 0xA0"
definition MAX_DYNAMIC_IRQ :: u32 where "MAX_DYNAMIC_IRQ = 16"

text \<open>Whether the vector belonged to a device, and the state after its handler and the end of interrupt.\<close>

definition arch_irq_dispatch :: "(u32 \<Rightarrow> (kernel \<Rightarrow> kernel) option) \<Rightarrow> u32 \<Rightarrow> kernel \<Rightarrow> bool \<times> kernel" where
  "arch_irq_dispatch irqs vec k =
     (if vec < 32 \<or> vec \<ge> 48 then (False, k)
      else
        (let irq = vec - 32
         in if irq \<ge> MAX_DYNAMIC_IRQ then (False, k)
            else
              case irqs irq of
                None \<Rightarrow> (False, k)
              | Some h \<Rightarrow>
                  (let k = h k;
                       k = k\<lparr>k_io := out_port PIC1_CMD 1 0x20 (k_io k)\<rparr>
                   in (True, if irq \<ge> 8 then k\<lparr>k_io := out_port PIC2_CMD 1 0x20 (k_io k)\<rparr> else k))))"

definition trap_service :: "rootfs \<Rightarrow> u64 \<Rightarrow> call_opt" where
  "trap_service rootfs cr2 cpu k =
     (let f = frame_now cpu k; v = vector f
      in if v = TRAP_VEC_TIMER then sched_tick cpu k
         else if v = TRAP_VEC_IPI_KICK then Some (on_sched (sched_request_resched cpu) k)
         else if v = TRAP_VEC_IPC then sys_ipc rootfs cpu k
         else if v = TRAP_VEC_PAGEFAULT then vm_handle_page_fault cpu cr2 (ucast (uc_error f)) k
         else if t_address_space (caller_of cpu k) \<noteq> 0 then Some (sched_terminate_current cpu k)
         else None)"

text \<open>The frame that the entry code has pushed becomes the saved context of the interrupted thread; \<^verbatim>\<open>cr2\<close> is the
  address of a page fault. The interrupt that flushes translation buffers returns to the same thread.\<close>

definition trap_dispatch :: "rootfs \<Rightarrow> (u32 \<Rightarrow> (kernel \<Rightarrow> kernel) option) \<Rightarrow> arch_uctx \<Rightarrow> u64 \<Rightarrow> call_opt" where
  "trap_dispatch rootfs irqs frame cr2 cpu k =
     (let k = k_uctx (k_current k cpu) (\<lambda>_. frame) k
      in if vector frame = TRAP_VEC_IPI_PANIC then None
         else if vector frame = TRAP_VEC_IPI_SHOOTDOWN then Some k
         else
           (let (handled, k) = arch_irq_dispatch irqs (ucast (vector frame)) k
            in if handled then sched_resume cpu k
               else Option.bind (trap_service rootfs cr2 cpu k) (sched_resume cpu)))"

end
