(* ===== verification/Resume.thy ===== *)
theory Resume
  imports Kernel Tcore
begin

text \<open>
  Switching between threads and returning to user mode. A switch saves and restores what the processor holds of a
  thread: the floating point registers, the \<^verbatim>\<open>FS\<close> base and the page tables. The loop that
  delivers signals before the return ends: each further round has ended one more user thread.
\<close>

section \<open>Context switches\<close>

lemma activate_fields:
  "k_sched (activate cpu a k) = k_sched k" "k_fpu (activate cpu a k) = k_fpu k" "k_fsbase (activate cpu a k) = k_fsbase k"
  "k_boot_pml4 (activate cpu a k) = k_boot_pml4 k"
  "k_cr3 (activate cpu a k) = (k_cr3 k)(cpu := if a \<noteq> 0 then a else k_boot_pml4 k)"
  by (auto simp: activate_def arch_vm_activate_def Let_def)

text \<open>The tables that a thread runs on.\<close>

definition thread_cr3 :: "kernel \<Rightarrow> tptr \<Rightarrow> paddr" where
  "thread_cr3 k t = (if t_address_space (k_tcb k t) \<noteq> 0 then t_address_space (k_tcb k t) else k_boot_pml4 k)"

lemma sched_switch_to_fields:
  assumes "a \<noteq> b"
  shows "k_fpu (sched_switch_to cpu a b k) = (k_fpu k)(cpu := t_fpu_state (k_tcb k b))"
    "k_sched (sched_switch_to cpu a b k) = upd a (\<lambda>c. c\<lparr>t_fpu_state := k_fpu k cpu\<rparr>) (k_sched k)"
    "k_fsbase (sched_switch_to cpu a b k) =
      (if t_fs_base (k_tcb k b) \<noteq> t_fs_base (k_tcb k a) then (k_fsbase k)(cpu := t_fs_base (k_tcb k b)) else k_fsbase k)"
    "k_cr3 (sched_switch_to cpu a b k) = (k_cr3 k)(cpu := thread_cr3 k b)"
    "k_boot_pml4 (sched_switch_to cpu a b k) = k_boot_pml4 k"
  using assms
  by (auto simp: sched_switch_to_def Let_def activate_fields arch_fpu_save_def arch_fpu_restore_def arch_set_fsbase_def
      thread_cr3_def kmach_simps)

lemma sched_switch_same:
  "k_fpu (sched_switch_to cpu a a k) = k_fpu k" "k_sched (sched_switch_to cpu a a k) = k_sched k"
  "k_fsbase (sched_switch_to cpu a a k) = k_fsbase k" "k_cr3 (sched_switch_to cpu a a k) = (k_cr3 k)(cpu := thread_cr3 k a)"
  by (simp_all add: sched_switch_to_def activate_fields thread_cr3_def)



section \<open>Ended threads stay ended\<close>

text \<open>No operation on the way to user mode revives a thread or gives an address space to a thread without one.\<close>

definition ended :: "thread_state \<Rightarrow> bool" where
  "ended st \<longleftrightarrow> st = THREAD_STATE_DEAD \<or> st = THREAD_STATE_ZOMBIE"

definition live_users :: "sched \<Rightarrow> tptr set" where
  "live_users s = {t. t_address_space (tcbs s t) \<noteq> 0 \<and> \<not> ended (t_state (tcbs s t))}"

definition no_revival :: "sched \<Rightarrow> sched \<Rightarrow> bool" where
  "no_revival s s' \<longleftrightarrow> (\<forall>t. (ended (t_state (tcbs s t)) \<longrightarrow> ended (t_state (tcbs s' t))) \<and>
     (t_address_space (tcbs s' t) \<noteq> 0 \<longrightarrow> t_address_space (tcbs s t) \<noteq> 0))"

lemma no_revival_refl [simp, intro]: "no_revival s s"
  by (simp add: no_revival_def)

lemma no_revival_trans [trans]: "no_revival s s' \<Longrightarrow> no_revival s' s'' \<Longrightarrow> no_revival s s''"
  by (simp add: no_revival_def)

lemma no_revival_live: "no_revival s s' \<Longrightarrow> live_users s' \<subseteq> live_users s"
  by (auto simp: no_revival_def live_users_def)

lemma no_revival_upd:
  "(ended (t_state (tcbs s t)) \<longrightarrow> ended (t_state (f (tcbs s t)))) \<Longrightarrow>
   (t_address_space (f (tcbs s t)) \<noteq> 0 \<longrightarrow> t_address_space (tcbs s t) \<noteq> 0) \<Longrightarrow> no_revival s (upd t f s)"
  by (simp add: no_revival_def upd_def)

lemma no_revival_core:
  "same_core s s' \<Longrightarrow> (\<And>t. ended (t_state (tcbs s t)) \<Longrightarrow> ended (t_state (tcbs s' t))) \<Longrightarrow> no_revival s s'"
  unfolding no_revival_def using same_core_eq(6) by metis

lemma no_revival_wake: "no_revival s (sched_wake cpu t s)"
  by (rule no_revival_core [OF sched_wake_core])
    (auto simp: sched_wake_def Let_def sched_kicks_tcbs upd_def ended_def)

lemma fold_sched: "(\<And>x k. k_sched (f x k) = k_sched k) \<Longrightarrow> k_sched (fold f xs k) = k_sched k"
  by (induction xs arbitrary: k) simp_all

lemma k_kfree_sched: "k_sched (k_kfree p k) = k_sched k"
  by (simp add: k_kfree_def split: prod.split)

lemma free_segment_sched: "k_sched (free_segment_frames i k) = k_sched k"
proof -
  have "k_sched (fold (\<lambda>j k. if seg_frame k s j \<noteq> 0 then on_pm (pmm_free (seg_frame k s j)) k else k) xs k) = k_sched k" for s xs
    by (rule fold_sched) (simp add: on_pm_def split: prod.split)
  then show ?thesis by (simp add: free_segment_frames_def Let_def upd_seg_def k_kfree_sched)
qed

lemma unmap_run_sched: "k_sched (unmap_run x va n k) = k_sched k"
  unfolding unmap_run_def by (rule fold_sched) (simp add: with_pm_def split: prod.split)

lemma shm_drop_sched: "k_sched (shm_drop i f k) = k_sched k"
  by (simp add: shm_drop_def Let_def upd_seg_def free_segment_sched unmap_run_sched split: option.split)

lemma shm_detach_sched: "k_sched (shm_detach_all_for_process a k) = k_sched k"
  unfolding shm_detach_all_for_process_def by (rule fold_sched) (simp add: shm_drop_sched)

lemma execreq_cancel_sched: "k_sched (execreq_cancel_requester t k) = k_sched k"
  unfolding execreq_cancel_requester_def by (rule fold_sched) (simp add: free_slot_def upd_slot_def)

text \<open>The services only reach the threads when the file server ends and its requests fail.\<close>

lemma release_services_sched:
  obtains k1 :: kernel where "k_sched k1 = k_sched k"
    "k_sched (release_services cpu t k) = k_sched (if t = ucast (ki_ext2fs_tid (k_kinfo k1)) then execreq_fail_all cpu k1 else k1)"
proof -
  define k1 where "k1 = execreq_cancel_requester t ((notif_invalidate_waiter_death t (kcap_invalidate_tcb_death t k))
    \<lparr>k_pipes := pipe_invalidate_tcb_death (k_pipes (notif_invalidate_waiter_death t (kcap_invalidate_tcb_death t k))) t,
     k_socks := sock_cleanup_for_process t (k_socks (notif_invalidate_waiter_death t (kcap_invalidate_tcb_death t k)))\<rparr>)"
  have "k_sched k1 = k_sched k"
    by (simp add: k1_def execreq_cancel_sched kcap_invalidate_tcb_death_def notif_invalidate_waiter_death_def)
  moreover have "k_sched (release_services cpu t k) =
      k_sched (if t = ucast (ki_ext2fs_tid (k_kinfo k1)) then execreq_fail_all cpu k1 else k1)"
    unfolding release_services_def Let_def k1_def by (simp add: on_console_def)
  ultimately show thesis by (rule that)
qed

section \<open>What ending a thread does to the threads\<close>

text \<open>A predicate on the scheduler that the five kinds of single steps keep is kept by the end of a thread.\<close>

locale ending_steps =
  fixes P :: "sched \<Rightarrow> bool" and cpu :: nat and t :: tptr
  assumes wake: "P s \<Longrightarrow> P (sched_wake cpu x s)"
    and uctx: "P s \<Longrightarrow> P (upd x (\<lambda>c. c\<lparr>t_uctx := g c\<rparr>) s)"
    and unlink: "P s \<Longrightarrow> P (upd x (\<lambda>c. c\<lparr>t_sq_next := None\<rparr>) s)"
    and orphan: "P s \<Longrightarrow> t_parent_tid (tcbs s x) = t_tid (tcbs s t) \<Longrightarrow>
      P (upd x (\<lambda>c. c\<lparr>t_parent_tid := 0, t_state := (if t_state c = THREAD_STATE_ZOMBIE then THREAD_STATE_DEAD else t_state c)\<rparr>) s)"
    and aspace: "P s \<Longrightarrow> P (upd t (\<lambda>c. c\<lparr>t_address_space := 0\<rparr>) s)"
begin

lemma drop_senders_keeps: "P (k_sched k) \<Longrightarrow> P (k_sched (drop_senders n cpu l k))"
  by (induction n arbitrary: l k)
    (simp_all add: Let_def k_uctx_def k_upd_def on_sched_def wake uctx unlink split: option.split)

lemma orphan_step_keeps: "P (k_sched (snd st)) \<Longrightarrow> P (k_sched (snd (orphan_step cpu t i st)))"
  by (cases st) (simp add: orphan_step_def Let_def k_uctx_def k_upd_def on_sched_def wake uctx orphan)

lemma orphans_keep: "P (k_sched (snd st)) \<Longrightarrow> P (k_sched (snd (fold (orphan_step cpu t) is st)))"
  by (induction "is" arbitrary: st) (simp_all add: orphan_step_keeps)

lemma release_aspace_keeps: "P (k_sched k) \<Longrightarrow> P (k_sched (release_aspace cpu t k))"
proof -
  have "k_sched (vm_address_space_destroy a k) = k_sched k" for a and k :: kernel
    by (simp add: vm_address_space_destroy_def on_pm_def split: prod.split)
  then show "P (k_sched k) \<Longrightarrow> P (k_sched (release_aspace cpu t k))"
    by (simp add: release_aspace_def Let_def k_upd_def on_sched_def shm_detach_sched activate_fields aspace)
qed

lemma fail_all_keeps: "P (k_sched k) \<Longrightarrow> P (k_sched (execreq_fail_all cpu k))"
  unfolding execreq_fail_all_def
  by (rule fold_invariant [where Q = "\<lambda>_. True" and P = "\<lambda>k. P (k_sched k)"])
    (simp_all add: free_slot_def upd_slot_def fail_requester_def k_uctx_def k_upd_def on_sched_def wake uctx split: option.split)

lemma services_keep: "P (k_sched k) \<Longrightarrow> P (k_sched (release_services cpu d k))"
proof -
  assume "P (k_sched k)"
  moreover obtain k1 :: kernel where "k_sched k1 = k_sched k"
    "k_sched (release_services cpu d k) = k_sched (if d = ucast (ki_ext2fs_tid (k_kinfo k1)) then execreq_fail_all cpu k1 else k1)"
    by (rule release_services_sched)
  ultimately show ?thesis using fail_all_keeps [of k1] by simp
qed

lemma terminate_keeps:
  assumes "P (upd t (\<lambda>c. c\<lparr>t_state := f, t_send_q_head := None, t_send_q_tail := None\<rparr>) (k_sched k))"
  shows "P (k_sched (terminate_tcb cpu t f k))"
proof -
  define k1 where "k1 = k_upd t (\<lambda>c. c\<lparr>t_state := f, t_send_q_head := None, t_send_q_tail := None\<rparr>) k"
  define k2 where "k2 = drop_senders (SCHED_MAX_THREADS + MAX_CPUS + 1) cpu (t_send_q_head (k_tcb k t)) k1"
  obtain b k3 where k3: "fold (orphan_step cpu t) [1..<SCHED_MAX_THREADS] (False, k2) = (b, k3)"
    by (cases "fold (orphan_step cpu t) [1..<SCHED_MAX_THREADS] (False, k2)")
  have "P (k_sched k1)" using assms by (simp add: k1_def k_upd_def on_sched_def)
  then have "P (k_sched k2)" unfolding k2_def by (rule drop_senders_keeps)
  then have "P (k_sched k3)" using orphans_keep [of "(False, k2)" "[1..<SCHED_MAX_THREADS]", unfolded k3] by simp
  then have "P (k_sched (if t_address_space (k_tcb k3 t) \<noteq> 0 \<and> \<not> b then release_aspace cpu t k3 else k3))"
    by (simp add: release_aspace_keeps)
  then show ?thesis
    unfolding terminate_tcb_def Let_def k1_def [symmetric] k2_def [symmetric] k3 prod.case by (rule services_keep)
qed

end

interpretation no_revival_ending: ending_steps "no_revival s0" cpu t for s0 cpu t
proof
  fix s x g
  show "no_revival s0 s \<Longrightarrow> no_revival s0 (sched_wake cpu x s)" using no_revival_trans no_revival_wake by blast
  show "no_revival s0 s \<Longrightarrow> no_revival s0 (upd x (\<lambda>c. c\<lparr>t_uctx := g c\<rparr>) s)"
    using no_revival_trans [OF _ no_revival_upd] by simp
  show "no_revival s0 s \<Longrightarrow> no_revival s0 (upd x (\<lambda>c. c\<lparr>t_sq_next := None\<rparr>) s)"
    using no_revival_trans [OF _ no_revival_upd] by simp
  show "no_revival s0 s \<Longrightarrow> no_revival s0 (upd x (\<lambda>c. c\<lparr>t_parent_tid := 0,
      t_state := (if t_state c = THREAD_STATE_ZOMBIE then THREAD_STATE_DEAD else t_state c)\<rparr>) s)"
    by (rule no_revival_trans [OF _ no_revival_upd]) (auto simp: ended_def)
  show "no_revival s0 s \<Longrightarrow> no_revival s0 (upd t (\<lambda>c. c\<lparr>t_address_space := 0\<rparr>) s)"
    using no_revival_trans [OF _ no_revival_upd] by simp
qed

lemma no_revival_terminate:
  assumes "ended f"
  shows "no_revival (k_sched k) (k_sched (terminate_tcb cpu t f k)) \<and> ended (t_state (k_tcb (terminate_tcb cpu t f k) t))"
proof -
  let ?s = "upd t (\<lambda>c. c\<lparr>t_state := f, t_send_q_head := None, t_send_q_tail := None\<rparr>) (k_sched k)"
  have "no_revival ?s (k_sched (terminate_tcb cpu t f k))" by (rule no_revival_ending.terminate_keeps) simp
  moreover have "no_revival (k_sched k) ?s" "ended (t_state (tcbs ?s t))"
    using assms by (simp_all add: no_revival_def upd_def)
  ultimately show ?thesis using no_revival_trans by (auto simp: no_revival_def)
qed

section \<open>The next thread\<close>

lemma rq_unlink_state: "t_state (tcbs (rq_unlink p prev t s) x) = t_state (tcbs s x)"
  by (auto simp: rq_unlink_def Let_def upd_def split: option.split)

lemma rq_pop_state: "t_state (tcbs (snd (rq_pop n cpu s)) x) = t_state (tcbs s x)"
proof (induction n arbitrary: s)
  case (Suc n)
  have "t_state (tcbs (count_affinity cpu t s) x) = t_state (tcbs s x)" for t s by (simp add: count_affinity_def)
  then show ?case using Suc.IH by (simp add: Let_def rq_unlink_state split: option.split)
qed simp

lemma rq_pop_ready: "fst (rq_pop n cpu s) = Some t \<Longrightarrow> t_state (tcbs s t) = THREAD_STATE_READY"
proof (induction n arbitrary: s)
  case (Suc n)
  show ?case
    using Suc.prems Suc.IH [of "rq_unlink (highest_bit (ready_bitmap s)) None (the (ready_head s (highest_bit (ready_bitmap s)))) s"]
    by (auto simp: Let_def rq_unlink_state split: if_splits option.splits)
qed simp

lemma drain_list_state: "t_state (tcbs (drain_list n l s) x) = t_state (tcbs s x)"
proof (induction n arbitrary: l s)
  case (Suc n)
  have "t_state (tcbs (upd t (\<lambda>c. c\<lparr>t_inbox_next := None\<rparr>) s) x) = t_state (tcbs s x)" for t s by (simp add: upd_def)
  then show ?case using Suc.IH by (simp add: Let_def rq_push_keeps split: option.split)
qed simp

lemma schedule_live:
  assumes idle: "t_address_space (tcbs s (Idle cpu)) = 0"
  shows "live_users (schedule cpu s) \<subseteq> live_users s"
    and "t_state (tcbs (schedule cpu s) (current_thread (schedule cpu s) cpu)) = THREAD_STATE_RUNNING"
proof -
  define s1 where "s1 = drain_inbox s"
  define s2 where "s2 = sched_requeue cpu s1"
  obtain r s3 where pop: "rq_pop_highest cpu s2 = (r, s3)" by (cases "rq_pop_highest cpu s2")
  define nxt where "nxt = (case r of None \<Rightarrow> Idle cpu | Some t \<Rightarrow> t)"
  have sch: "schedule cpu s = sched_enter cpu nxt s3"
    unfolding schedule_def Let_def s1_def [symmetric] s2_def [symmetric] pop nxt_def by simp
  have st1: "t_state (tcbs s1 x) = t_state (tcbs s x)" for x unfolding s1_def drain_inbox_def drain_list_state by simp
  have st2: "ended (t_state (tcbs s2 x)) \<longleftrightarrow> ended (t_state (tcbs s1 x))" if "x \<noteq> Idle cpu" for x
    using that by (auto simp: s2_def sched_requeue_def Let_def upd_def rq_push_keeps ended_def)
  have st3: "t_state (tcbs s3 x) = t_state (tcbs s2 x)" for x
    using rq_pop_state [of "SCHED_MAX_THREADS + 1" cpu s2 x] unfolding pop [unfolded rq_pop_highest_def] by simp
  have ready: "nxt = Idle cpu \<or> \<not> ended (t_state (tcbs s2 nxt))"
    using rq_pop_ready [of "SCHED_MAX_THREADS + 1" cpu s2] unfolding pop [unfolded rq_pop_highest_def]
    by (auto simp: nxt_def ended_def split: option.split)
  have as: "t_address_space (tcbs (schedule cpu s) x) = t_address_space (tcbs s x)" for x
    by (rule same_core_eq(6) [OF schedule_core])
  have st: "t_state (tcbs (schedule cpu s) x) = (if x = nxt then THREAD_STATE_RUNNING else t_state (tcbs s3 x))" for x
    by (simp add: sch sched_enter_def Let_def upd_def)
  show "live_users (schedule cpu s) \<subseteq> live_users s"
  proof
    fix x assume "x \<in> live_users (schedule cpu s)"
    then have x: "t_address_space (tcbs s x) \<noteq> 0" "x = nxt \<or> \<not> ended (t_state (tcbs s3 x))"
      by (auto simp: live_users_def as st split: if_splits)
    then have "x \<noteq> Idle cpu" using idle by metis
    then show "x \<in> live_users s" using x ready st1 st2 st3 by (auto simp: live_users_def)
  qed
  show "t_state (tcbs (schedule cpu s) (current_thread (schedule cpu s) cpu)) = THREAD_STATE_RUNNING"
    by (simp add: st) (simp add: sch sched_enter_def Let_def)
qed

section \<open>The loop ends\<close>

text \<open>The loop with a bound on its rounds. The outer \<open>None\<close> says that the bound was reached, the inner one that the kernel faults
  on the user stack.\<close>

fun deliver_rounds :: "nat \<Rightarrow> nat \<Rightarrow> tptr \<Rightarrow> kernel \<Rightarrow> kernel option option" where
  "deliver_rounds 0 cpu nxt k = None"
| "deliver_rounds (Suc n) cpu nxt k =
     (if has_signal (k_tcb k nxt)
      then (case sig_try_deliver cpu nxt k of
              None \<Rightarrow> Some None
            | Some k \<Rightarrow>
                if t_state (k_tcb k nxt) = THREAD_STATE_RUNNING then Some (Some k)
                else (let k = reschedule cpu k; nx = k_current k cpu in deliver_rounds n cpu nx (sched_switch_to cpu nxt nx k)))
      else Some (Some k))"

lemma deliver_rounds_loop: "deliver_rounds n cpu nxt k = Some r \<Longrightarrow> deliver_loop cpu nxt k = r"
proof (induction n arbitrary: nxt k)
  case (Suc n)
  then show ?case
    by (subst deliver_loop.simps) (auto simp: Let_def split: if_splits option.splits)
qed simp

lemma reschedule_live:
  assumes "t_address_space (k_tcb k (Idle cpu)) = 0"
  shows "live_users (k_sched (reschedule cpu k)) \<subseteq> live_users (k_sched k)"
    "t_state (k_tcb (reschedule cpu k) (k_current (reschedule cpu k) cpu)) = THREAD_STATE_RUNNING"
    "t_address_space (k_tcb (reschedule cpu k) x) = t_address_space (k_tcb k x)"
  using schedule_live [OF assms] same_core_eq(6) [OF schedule_core]
  by (simp_all add: reschedule_def on_sched_def sched_arm_next_deadline_def live_users_def)

lemma switch_keeps:
  "t_state (k_tcb (sched_switch_to cpu a b k) x) = t_state (k_tcb k x)"
  "t_address_space (k_tcb (sched_switch_to cpu a b k) x) = t_address_space (k_tcb k x)"
  "k_current (sched_switch_to cpu a b k) = k_current k"
  by (cases "a = b"; simp add: sched_switch_same sched_switch_to_fields upd_def; fail)+

lemma switch_live: "live_users (k_sched (sched_switch_to cpu a b k)) = live_users (k_sched k)"
  by (simp add: live_users_def switch_keeps)

lemma sched_wake_current: "current_thread (sched_wake cpu t s) = current_thread s"
proof -
  have "current_thread (fold (sched_kick cpu t) xs s) = current_thread s" for xs s
    by (induction xs arbitrary: s) (simp_all add: sched_kick_def)
  then show ?thesis by (simp add: sched_wake_def Let_def upd_def)
qed

text \<open>A signal that stops the thread it is delivered to has ended it.\<close>

lemma spawn_exit_ends:
  "no_revival (k_sched k) (k_sched (spawn_exit_current cpu status k)) \<and>
   ended (t_state (k_tcb (spawn_exit_current cpu status k) (k_current k cpu)))"
proof -
  have to: "no_revival (k_sched k) (k_sched (sched_terminate_to cpu f k)) \<and>
      ended (t_state (k_tcb (sched_terminate_to cpu f k) (k_current k cpu)))" if "ended f" for f k
    using no_revival_terminate [OF that, of k cpu "k_current k cpu"]
    by (simp add: sched_terminate_to_def on_sched_def sched_request_resched_def no_revival_def)
  define k1 where "k1 = k_upd (k_current k cpu) (\<lambda>c. c\<lparr>t_exit_status := status\<rparr>) k"
  have k1: "no_revival (k_sched k) (k_sched k1)" "k_current k1 cpu = k_current k cpu"
    by (simp_all add: k1_def k_upd_def on_sched_def no_revival_def upd_def)
  define k2 where "k2 p = on_sched (sched_wake cpu p) (k_uctx p (\<lambda>f. f\<lparr>rax := word_of_int IPC_ERR_NONE,
      r8 := ucast (t_tid (k_tcb k1 (k_current k cpu))), r9 := word_of_int status\<rparr>) k1)" for p
  have k2: "no_revival (k_sched k1) (k_sched (k2 p))" "k_current (k2 p) cpu = k_current k1 cpu" for p
  proof -
    show "no_revival (k_sched k1) (k_sched (k2 p))"
      by (simp add: k2_def k_uctx_def k_upd_def on_sched_def no_revival_ending.uctx no_revival_ending.wake)
    show "k_current (k2 p) cpu = k_current k1 cpu"
      by (simp add: k2_def on_sched_def sched_wake_current k_uctx_def k_upd_def upd_def)
  qed
  have "\<exists>k' f. ended f \<and> spawn_exit_current cpu status k = sched_terminate_to cpu f k' \<and> (k' = k1 \<or> (\<exists>p. k' = k2 p))"
    unfolding spawn_exit_current_def Let_def k1_def [symmetric] k2_def [symmetric] by (auto simp: ended_def split: option.split)
  then obtain k' f where f: "ended f" "spawn_exit_current cpu status k = sched_terminate_to cpu f k'"
    and k': "k' = k1 \<or> (\<exists>p. k' = k2 p)" by blast
  have "no_revival (k_sched k) (k_sched (k2 p))" for p using no_revival_trans [OF k1(1) k2(1)] .
  then have "no_revival (k_sched k) (k_sched k') \<and> k_current k' cpu = k_current k cpu" using k' k1 k2(2) by auto
  with to [OF f(1), of k'] show ?thesis unfolding f(2) using no_revival_trans by auto
qed

lemma sig_try_deliver_cases:
  assumes "sig_try_deliver cpu t k = Some k'" "t = k_current k cpu" "t_state (k_tcb k t) = THREAD_STATE_RUNNING"
  shows "t_state (k_tcb k' t) = THREAD_STATE_RUNNING \<and> k_current k' cpu = t \<or>
    no_revival (k_sched k) (k_sched k') \<and> ended (t_state (k_tcb k' t))"
proof -
  have upd: "t_state (k_tcb (k_upd t f k) t) = t_state (f (k_tcb k t))" "k_current (k_upd t f k) = k_current k"
    "no_revival (k_sched k) (k_sched (k_upd t (\<lambda>c. c\<lparr>t_sig_pending := p c\<rparr>) k))" for f k p
    by (simp_all add: k_upd_def on_sched_def upd_def no_revival_def)
  show ?thesis
  proof (cases "t_in_sig_handler (k_tcb k t) \<or> lowest_signal (sig_deliverable (k_tcb k t)) = None")
    case True
    then show ?thesis using assms(1,3) assms(2) [symmetric] by (auto simp: sig_try_deliver_def split: option.splits)
  next
    case False
    then obtain signum where sg: "lowest_signal (sig_deliverable (k_tcb k t)) = Some signum" and nh: "\<not> t_in_sig_handler (k_tcb k t)" by auto
    define k1 where "k1 = k_upd t (\<lambda>c. c\<lparr>t_sig_pending := t_sig_pending c AND NOT (sig_bit signum)\<rparr>) k"
    have k1: "t_state (k_tcb k1 t) = THREAD_STATE_RUNNING" "k_current k1 cpu = t" "no_revival (k_sched k) (k_sched k1)"
      using assms(2) [symmetric] assms(3) by (simp_all add: k1_def upd)
    consider "k' = k1" | "k' = spawn_exit_current cpu (sint (0x80000000 OR of_nat signum :: 32 word)) k1"
      | m where "k' = k_upd t (enter_handler signum) (k1\<lparr>k_mem := m\<rparr>)"
      using assms(1) nh unfolding sig_try_deliver_def sg Let_def option.case k1_def [symmetric] by (auto split: if_splits option.splits)
    then show ?thesis
    proof cases
      case 2
      then show ?thesis using spawn_exit_ends [of k1 cpu] k1 no_revival_trans by auto
    next
      case 3
      then show ?thesis using k1 by (simp add: upd enter_handler_def Let_def)
    qed (use k1 in simp)
  qed
qed

lemma deliver_rounds_end:
  assumes "finite (live_users (k_sched k))" "nxt = k_current k cpu" "t_state (k_tcb k nxt) = THREAD_STATE_RUNNING"
    "t_address_space (k_tcb k (Idle cpu)) = 0" "card (live_users (k_sched k)) < n"
  shows "\<exists>r. deliver_rounds n cpu nxt k = Some r \<and>
    (\<forall>k'. r = Some k' \<longrightarrow> t_state (k_tcb k' (k_current k' cpu)) = THREAD_STATE_RUNNING)"
  using assms
proof (induction n arbitrary: nxt k)
  case (Suc n)
  show ?case
  proof (cases "has_signal (k_tcb k nxt) \<and> sig_try_deliver cpu nxt k \<noteq> None")
    case False
    then show ?thesis using Suc.prems by (auto split: option.split)
  next
    case True
    then obtain k' where k': "sig_try_deliver cpu nxt k = Some k'" by auto
    show ?thesis
    proof (cases "t_state (k_tcb k' nxt) = THREAD_STATE_RUNNING")
      case run: True
      then have "k_current k' cpu = nxt" using sig_try_deliver_cases [OF k' Suc.prems(2,3)] by (auto simp: ended_def)
      then show ?thesis using True k' run by simp
    next
      case run: False
      then have nr: "no_revival (k_sched k) (k_sched k')" and e: "ended (t_state (k_tcb k' nxt))"
        using sig_try_deliver_cases [OF k' Suc.prems(2,3)] by auto
      have idle: "t_address_space (k_tcb k' (Idle cpu)) = 0" using nr Suc.prems(4) by (auto simp: no_revival_def)
      let ?k = "sched_switch_to cpu nxt (k_current (reschedule cpu k') cpu) (reschedule cpu k')"
      note re = reschedule_live [OF idle]
      have "nxt \<in> live_users (k_sched k)" "nxt \<notin> live_users (k_sched k')"
        using True Suc.prems(3) e by (auto simp: live_users_def has_signal_def ended_def)
      then have "live_users (k_sched ?k) \<subset> live_users (k_sched k)"
        using no_revival_live [OF nr] re(1) by (auto simp: switch_live)
      then have "card (live_users (k_sched ?k)) < n" "finite (live_users (k_sched ?k))"
        using Suc.prems(1,5) psubset_card_mono finite_subset [of "live_users (k_sched ?k)"]
        by (meson less_Suc_eq_le order_less_le_trans psubset_imp_subset)+
      then show ?thesis
        using Suc.IH [of ?k "k_current (reschedule cpu k') cpu"] True k' run re(2,3) idle by (simp add: Let_def switch_keeps)
    qed
  qed
qed simp

definition resume_rounds :: "nat \<Rightarrow> nat \<Rightarrow> kernel \<Rightarrow> kernel option option" where
  "resume_rounds n cpu k =
     (let prev = k_current k cpu;
          k = (if need_resched (k_sched k) cpu \<or> t_state (k_tcb k prev) \<noteq> THREAD_STATE_RUNNING then reschedule cpu k else k);
          nxt = k_current k cpu
      in deliver_rounds n cpu nxt (sched_switch_to cpu prev nxt k))"

text \<open>C18. The return to user mode ends. \<^verbatim>\<open>sched_resume\<close> delivers pending signals in a loop, and a signal can end the thread
  it is for, so that another thread is chosen, which has signals of its own. If there are finitely many live user threads and
  the idle thread has no address space, the loop ends after at most one round more than there are live user threads,
  because every further round has ended one of them. It ends with a running thread on the processor, unless the kernel
  faults on the way when it writes to the stack of a thread with a signal handler.\<close>

theorem sched_resume_ends:
  assumes "finite (live_users (k_sched k))" "t_address_space (k_tcb k (Idle cpu)) = 0"
  shows "\<exists>r. resume_rounds (card (live_users (k_sched k)) + 1) cpu k = Some r \<and> sched_resume cpu k = r \<and>
    (\<forall>k'. r = Some k' \<longrightarrow> t_state (k_tcb k' (k_current k' cpu)) = THREAD_STATE_RUNNING)"
proof -
  define k1 where "k1 = (if need_resched (k_sched k) cpu \<or> t_state (k_tcb k (k_current k cpu)) \<noteq> THREAD_STATE_RUNNING
      then reschedule cpu k else k)"
  have sub: "live_users (k_sched k1) \<subseteq> live_users (k_sched k)"
    and run: "t_state (k_tcb k1 (k_current k1 cpu)) = THREAD_STATE_RUNNING" "t_address_space (k_tcb k1 (Idle cpu)) = 0"
    using reschedule_live [OF assms(2)] assms(2) by (auto simp: k1_def)
  let ?k = "sched_switch_to cpu (k_current k cpu) (k_current k1 cpu) k1"
  have "card (live_users (k_sched ?k)) < card (live_users (k_sched k)) + 1" "finite (live_users (k_sched ?k))"
    using card_mono [OF assms(1) sub] finite_subset [OF sub assms(1)] by (simp_all add: switch_live)
  then have "\<exists>r. deliver_rounds (card (live_users (k_sched k)) + 1) cpu (k_current k1 cpu) ?k = Some r \<and>
      (\<forall>k'. r = Some k' \<longrightarrow> t_state (k_tcb k' (k_current k' cpu)) = THREAD_STATE_RUNNING)"
    using run by (intro deliver_rounds_end) (simp_all add: switch_keeps)
  then show ?thesis
    unfolding resume_rounds_def sched_resume_def Let_def k1_def [symmetric] using deliver_rounds_loop by blast
qed

theorem sched_resume_ends_witness:
  "\<exists>k. live_users (k_sched k) = {Thread 1} \<and> (\<exists>r. resume_rounds 2 0 k = Some r \<and> sched_resume 0 k = r)"
proof -
  let ?s = "(upd (Thread 1) (\<lambda>c. c\<lparr>t_address_space := 4096\<rparr>) (k_sched kernel_static))\<lparr>current_thread := (\<lambda>_. Thread 1)\<rparr>"
  let ?k = "kernel_static\<lparr>k_sched := ?s\<rparr>"
  have live: "live_users (k_sched ?k) = {Thread 1}"
    by (auto simp: live_users_def upd_def kernel_static_def sched_boot_def tcb_zero_def ended_def)
  moreover have "t_address_space (k_tcb ?k (Idle 0)) = 0" by (simp add: upd_def kernel_static_def sched_boot_def tcb_zero_def)
  ultimately have "\<exists>r. resume_rounds 2 0 ?k = Some r \<and> sched_resume 0 ?k = r"
    using sched_resume_ends [of ?k 0] by (auto simp: numeral_2_eq_2)
  with live show ?thesis by blast
qed

end
