(* ===== verification/Exit.thy ===== *)
theory Exit
  imports Resume Ipc
begin

text \<open>
  What is left of a thread that has ended: nothing in the kernel refers to it any more. And the two orders of exiting and
  waiting: a parent learns the status of its child whether it waits first or the child exits first.
\<close>

section \<open>Threads that do not depend on a thread\<close>

text \<open>Thread \<open>x\<close> neither waits for a message from \<open>d\<close> nor is its child.\<close>

definition independent :: "tid \<Rightarrow> sched \<Rightarrow> tptr \<Rightarrow> bool" where
  "independent d s x \<longleftrightarrow>
     \<not> (t_state (tcbs s x) = THREAD_STATE_WAIT_RECV \<and> t_ipc_partner (tcbs s x) = d) \<and> t_parent_tid (tcbs s x) \<noteq> d"

text \<open>The steps of ending a thread add no dependence and no sender, and keep the identifiers.\<close>

definition detaches :: "tid \<Rightarrow> sched \<Rightarrow> sched \<Rightarrow> bool" where
  "detaches d s s' \<longleftrightarrow> (\<forall>x. (independent d s x \<longrightarrow> independent d s' x) \<and> t_tid (tcbs s' x) = t_tid (tcbs s x) \<and>
     (t_send_q_head (tcbs s x) = None \<and> t_send_q_tail (tcbs s x) = None \<longrightarrow>
      t_send_q_head (tcbs s' x) = None \<and> t_send_q_tail (tcbs s' x) = None))"

lemma detaches_refl [simp, intro]: "detaches d s s"
  by (simp add: detaches_def)

lemma detaches_trans [trans]: "detaches d s s' \<Longrightarrow> detaches d s' s'' \<Longrightarrow> detaches d s s''"
  by (simp add: detaches_def)

lemma detaches_wake: "detaches d s (sched_wake cpu t s)"
proof -
  note core = sched_wake_core [of s cpu t]
  have st: "t_state (tcbs (sched_wake cpu t s) x) \<in> {t_state (tcbs s x), THREAD_STATE_READY}" for x
    by (simp add: sched_wake_def Let_def sched_kicks_tcbs upd_def)
  show ?thesis
    unfolding detaches_def independent_def same_core_eq(1,7,12,21,22) [OF core]
  proof
    fix x show "(\<not> (t_state (tcbs s x) = THREAD_STATE_WAIT_RECV \<and> t_ipc_partner (tcbs s x) = d) \<and> t_parent_tid (tcbs s x) \<noteq> d \<longrightarrow>
        \<not> (t_state (tcbs (sched_wake cpu t s) x) = THREAD_STATE_WAIT_RECV \<and> t_ipc_partner (tcbs s x) = d) \<and>
        t_parent_tid (tcbs s x) \<noteq> d) \<and> t_tid (tcbs s x) = t_tid (tcbs s x) \<and>
      (t_send_q_head (tcbs s x) = None \<and> t_send_q_tail (tcbs s x) = None \<longrightarrow>
        t_send_q_head (tcbs s x) = None \<and> t_send_q_tail (tcbs s x) = None)"
      using st [of x] by auto
  qed
qed

interpretation detach_ending: ending_steps "\<lambda>s. d \<noteq> 0 \<longrightarrow> detaches d s0 s" cpu t for d s0 cpu t
proof
  fix s x g
  show "d \<noteq> 0 \<longrightarrow> detaches d s0 s \<Longrightarrow> d \<noteq> 0 \<longrightarrow> detaches d s0 (sched_wake cpu x s)"
    using detaches_trans detaches_wake by blast
qed (auto simp: detaches_def independent_def upd_def)

lemma orphan_step_detaches:
  assumes d: "d = t_tid (k_tcb (snd st) t)" "d \<noteq> 0"
  shows "detaches d (k_sched (snd st)) (k_sched (snd (orphan_step cpu t i st))) \<and>
    independent d (k_sched (snd (orphan_step cpu t i st))) (Thread i)"
proof -
  obtain b k where st: "st = (b, k)" by (cases st)
  define k1 where "k1 = (if t_state (k_tcb k (Thread i)) = THREAD_STATE_WAIT_RECV \<and> t_ipc_partner (k_tcb k (Thread i)) = t_tid (k_tcb k t)
     then on_sched (sched_wake cpu (Thread i)) (k_uctx (Thread i) (\<lambda>f. f\<lparr>rax := rax_err IPC_ERR_NOT_FOUND\<rparr>) k) else k)"
  have k1: "detaches d (k_sched k) (k_sched k1)"
    using detach_ending.wake [OF detach_ending.uctx, of d "k_sched k" "k_sched k"] d(2)
    by (simp add: k1_def on_sched_def k_uctx_def k_upd_def)
  have awake: "t_state (tcbs (sched_wake cpu x s) x) \<noteq> THREAD_STATE_WAIT_RECV" if "t_state (tcbs s x) = THREAD_STATE_WAIT_RECV" for x s
    using that by (simp add: sched_wake_def Let_def sched_kicks_tcbs upd_def)
  have "\<not> (t_state (k_tcb k1 (Thread i)) = THREAD_STATE_WAIT_RECV \<and> t_ipc_partner (k_tcb k1 (Thread i)) = d)"
    using d by (auto simp: k1_def st on_sched_def k_uctx_def k_upd_def upd_def awake)
  moreover have tid: "t_tid (k_tcb k1 t) = d" using k1 d by (simp add: detaches_def st)
  ultimately have "detaches d (k_sched k1) (k_sched (snd (orphan_step cpu t i st))) \<and>
      independent d (k_sched (snd (orphan_step cpu t i st))) (Thread i)"
    using d(2) by (auto simp: st orphan_step_def Let_def k1_def [symmetric] k_upd_def on_sched_def upd_def detaches_def independent_def)
  with k1 show ?thesis using detaches_trans by (auto simp: st)
qed

lemma orphans_detach:
  assumes "d = t_tid (k_tcb (snd st) t)" "d \<noteq> 0"
  shows "detaches d (k_sched (snd st)) (k_sched (snd (fold (orphan_step cpu t) is st))) \<and>
    (\<forall>i \<in> set is. independent d (k_sched (snd (fold (orphan_step cpu t) is st))) (Thread i))"
  using assms(1)
proof (induction "is" arbitrary: st)
  case (Cons i "is")
  note step = orphan_step_detaches [OF Cons.prems assms(2), of cpu i]
  have "d = t_tid (k_tcb (snd (orphan_step cpu t i st)) t)" using step Cons.prems by (simp add: detaches_def)
  note rest = Cons.IH [OF this]
  show ?case using detaches_trans [OF conjunct1 [OF step] conjunct1 [OF rest]] step rest by (auto simp: detaches_def)
qed simp

section \<open>What the services keep\<close>

lemma sock_release_others:
  assumes "i < length socks" "n < length socks"
  shows "sk_owner (sock_release i socks ! n) = sk_owner (socks ! n)"
    "sk_in_use (sock_release i socks ! n) \<longleftrightarrow> n \<noteq> i \<and> sk_in_use (socks ! n)"
    "length (sock_release i socks) = length socks"
proof -
  have closed: "sk_owner (xs[j := (xs ! j)\<lparr>sk_peer_closed := True\<rparr>] ! m) = sk_owner (xs ! m)"
    "sk_in_use (xs[j := (xs ! j)\<lparr>sk_peer_closed := True\<rparr>] ! m) = sk_in_use (xs ! m)" for xs j m
    by (cases "j < length xs \<and> j = m"; auto simp: nth_list_update list_update_beyond not_less)+
  show "sk_owner (sock_release i socks ! n) = sk_owner (socks ! n)"
    using assms by (cases "n = i") (simp_all add: sock_release_def Let_def closed)
  show "sk_in_use (sock_release i socks ! n) \<longleftrightarrow> n \<noteq> i \<and> sk_in_use (socks ! n)"
    using assms by (cases "n = i") (simp_all add: sock_release_def Let_def closed)
  show "length (sock_release i socks) = length socks" by (simp add: sock_release_def Let_def)
qed

lemma sock_cleanup_done:
  assumes "length socks = MAX_SOCKETS" "s \<in> set (sock_cleanup_for_process t socks)"
  shows "\<not> (sk_in_use s \<and> sk_owner s = t)"
proof -
  let ?f = "\<lambda>i socks. if \<not> sk_in_use (socks ! i) \<or> sk_owner (socks ! i) \<noteq> t then socks else sock_release i socks"
  have "length (fold ?f is socks) = length socks \<and>
      (\<forall>n < length socks. n \<in> set is \<or> \<not> (sk_in_use (socks ! n) \<and> sk_owner (socks ! n) = t) \<longrightarrow>
         \<not> (sk_in_use (fold ?f is socks ! n) \<and> sk_owner (fold ?f is socks ! n) = t))"
    if "set is \<subseteq> {..<length socks}" for "is" and socks :: sockets
    using that
  proof (induction "is" arbitrary: socks)
    case (Cons i "is")
    let ?s = "?f i socks"
    have i: "i < length socks" using Cons.prems by simp
    then have len: "length ?s = length socks" by (simp add: sock_release_others)
    have keep: "\<not> (sk_in_use (?s ! n) \<and> sk_owner (?s ! n) = t)"
      if "n < length socks" "n = i \<or> \<not> (sk_in_use (socks ! n) \<and> sk_owner (socks ! n) = t)" for n
      using that i by (auto simp: sock_release_others)
    have "set is \<subseteq> {..<length ?s}" using Cons.prems len by simp
    from Cons.IH [OF this] len keep show ?case by auto
  qed simp
  from this [of "[0..<MAX_SOCKETS]" socks] assms show ?thesis
    by (auto simp: sock_cleanup_for_process_def in_set_conv_nth lessThan_atLeast0)
qed

lemma pipe_death_done:
  "p \<in> set (pipe_invalidate_tcb_death pool t) \<Longrightarrow> readers_mask p AND tid_bit t = 0 \<and> writers_mask p AND tid_bit t = 0"
proof -
  have "(a AND NOT b) AND b = 0" for a b :: u64 by (simp add: bit_eq_iff bit_simps)
  moreover have "(a OR c) AND b = 0 \<longleftrightarrow> a AND b = 0 \<and> c AND b = 0" for a b c :: u64
    by (auto simp: bit_eq_iff bit_simps)
  moreover assume "p \<in> set (pipe_invalidate_tcb_death pool t)"
  ultimately show ?thesis
    by (auto simp: pipe_invalidate_tcb_death_def pipe_drop_obj_def Let_def)
qed

text \<open>Cancelling and failing requests only changes slots and wakes threads.\<close>

lemma fold_field: "(\<And>x k. g (f x k) = g k) \<Longrightarrow> g (fold f xs k) = g k"
  by (induction xs arbitrary: k) simp_all

lemma execreq_cancel_fields:
  "kcap_table (execreq_cancel_requester t k) = kcap_table k" "notif_table (execreq_cancel_requester t k) = notif_table k"
  "k_pipes (execreq_cancel_requester t k) = k_pipes k" "k_kinfo (execreq_cancel_requester t k) = k_kinfo k"
  unfolding execreq_cancel_requester_def by (rule fold_field, simp add: free_slot_def upd_slot_def)+

lemma execreq_cancel_fields':
  "k_socks (execreq_cancel_requester t k) = k_socks k" "k_console (execreq_cancel_requester t k) = k_console k"
  unfolding execreq_cancel_requester_def by (rule fold_field, simp add: free_slot_def upd_slot_def)+

lemma fail_requester_fields:
  "kcap_table (fail_requester cpu r k) = kcap_table k" "notif_table (fail_requester cpu r k) = notif_table k"
  "k_pipes (fail_requester cpu r k) = k_pipes k" "g_slots (fail_requester cpu r k) = g_slots k"
  by (simp_all add: fail_requester_def on_sched_def k_uctx_def k_upd_def)

lemma fail_requester_fields':
  "k_socks (fail_requester cpu r k) = k_socks k" "k_console (fail_requester cpu r k) = k_console k"
  by (simp_all add: fail_requester_def on_sched_def k_uctx_def k_upd_def)

lemma execreq_fail_all_fields:
  "kcap_table (execreq_fail_all cpu k) = kcap_table k" "notif_table (execreq_fail_all cpu k) = notif_table k"
  "k_pipes (execreq_fail_all cpu k) = k_pipes k"
  unfolding execreq_fail_all_def
  by (rule fold_field, simp add: free_slot_def upd_slot_def fail_requester_fields split: option.split)+

lemma execreq_fail_all_fields':
  "k_socks (execreq_fail_all cpu k) = k_socks k" "k_console (execreq_fail_all cpu k) = k_console k"
  unfolding execreq_fail_all_def
  by (rule fold_field, simp add: free_slot_def upd_slot_def fail_requester_fields' split: option.split)+

definition slot_of :: "tid \<Rightarrow> execreq_slot \<Rightarrow> bool" where
  "slot_of t s \<longleftrightarrow> xs_state s \<noteq> EXECREQ_EMPTY \<and> ep_requester_tid (xs_params s) = t"

lemma free_slot_keeps:
  "length (g_slots (free_slot i k)) = length (g_slots k)"
  "n < length (g_slots k) \<Longrightarrow> \<not> slot_of t (g_slots k ! n) \<Longrightarrow> \<not> slot_of t (g_slots (free_slot i k) ! n)"
  "i < length (g_slots k) \<Longrightarrow> \<not> slot_of t (g_slots (free_slot i k) ! i)"
proof -
  show "\<not> slot_of t (g_slots (free_slot i k) ! n)" if "n < length (g_slots k)" "\<not> slot_of t (g_slots k ! n)"
    using that by (cases "n = i") (simp_all add: free_slot_def upd_slot_def slot_of_def)
qed (simp_all add: free_slot_def upd_slot_def slot_of_def)

lemma execreq_cancel_done:
  assumes "length (g_slots k) = EXECREQ_MAX_SLOTS" "s \<in> set (g_slots (execreq_cancel_requester t k))"
  shows "\<not> slot_of t s"
proof -
  let ?f = "\<lambda>i k. if xs_state (g_slots k ! i) \<noteq> EXECREQ_EMPTY \<and> ep_requester_tid (xs_params (g_slots k ! i)) = t then free_slot i k else k"
  have "length (g_slots (fold ?f is k)) = length (g_slots k) \<and>
      (\<forall>n < length (g_slots k). n \<in> set is \<or> \<not> slot_of t (g_slots k ! n) \<longrightarrow> \<not> slot_of t (g_slots (fold ?f is k) ! n))"
    if "set is \<subseteq> {..<length (g_slots k)}" for "is"
    using that
  proof (induction "is" arbitrary: k)
    case (Cons i "is")
    have i: "i < length (g_slots k)" using Cons.prems by simp
    have keep: "\<not> slot_of t (g_slots (?f i k) ! n)" if "n < length (g_slots k)" "n = i \<or> \<not> slot_of t (g_slots k ! n)" for n
      using that i free_slot_keeps(2) [of n k t i] free_slot_keeps(3) [of i k t] by (auto simp: slot_of_def [of t "g_slots k ! i"])
    have "set is \<subseteq> {..<length (g_slots (?f i k))}" using Cons.prems by (simp add: free_slot_keeps)
    from Cons.IH [OF this] keep show ?case by (auto simp: free_slot_keeps)
  qed simp
  from this [of "[0..<EXECREQ_MAX_SLOTS]"] assms show ?thesis
    by (auto simp: execreq_cancel_requester_def in_set_conv_nth lessThan_atLeast0)
qed

lemma execreq_fail_all_keeps:
  assumes "\<forall>s \<in> set (g_slots k). \<not> slot_of t s"
  shows "\<forall>s \<in> set (g_slots (execreq_fail_all cpu k)). \<not> slot_of t s"
  unfolding execreq_fail_all_def
proof (rule fold_invariant [where Q = "\<lambda>_. True" and P = "\<lambda>k'. \<forall>s \<in> set (g_slots k'). \<not> slot_of t s"])
  have fr: "\<forall>s \<in> set (g_slots (free_slot i k')). \<not> slot_of t s" if "\<forall>s \<in> set (g_slots k'). \<not> slot_of t s" for i and k' :: "'a exec_state_scheme"
  proof
    fix s assume "s \<in> set (g_slots (free_slot i k'))"
    then obtain n where n: "n < length (g_slots k')" "s = g_slots (free_slot i k') ! n" by (auto simp: in_set_conv_nth free_slot_keeps(1))
    with that show "\<not> slot_of t s" using free_slot_keeps(2) [of n k' t i] by simp
  qed
  fix i and k' :: "'a exec_state_scheme"
  let ?k = "case sched_get_tcb (ep_requester_tid (xs_params (g_slots k' ! i))) (k_sched k') of None \<Rightarrow> k'
    | Some r \<Rightarrow> if t_state (k_tcb k' r) = THREAD_STATE_WAIT_EXECREQ \<and> t_execreq_slot (k_tcb k' r) = of_nat i
        then fail_requester cpu r k' else k'"
  assume k': "\<forall>s \<in> set (g_slots k'). \<not> slot_of t s"
  have "g_slots ?k = g_slots k'" by (simp add: fail_requester_fields split: option.split)
  then have "\<forall>s \<in> set (g_slots (free_slot i ?k)). \<not> slot_of t s" using k' by (intro fr) (simp only:)
  then show "\<forall>s \<in> set (g_slots (if xs_state (g_slots k' ! i) = EXECREQ_EMPTY then k' else free_slot i ?k)). \<not> slot_of t s"
    using k' by presburger
qed (use assms in auto)

section \<open>The end of a thread\<close>

text \<open>Nothing in the services refers to thread \<open>d\<close>.\<close>

definition forgotten :: "tid \<Rightarrow> kernel \<Rightarrow> bool" where
  "forgotten d k \<longleftrightarrow>
     (\<forall>c \<in> set (kcap_table k). \<not> (c_kind c = CAP_KIND_TCB \<and> c_addr c = ucast d)) \<and>
     (\<forall>n \<in> set (notif_table k). n_waiter n \<noteq> d) \<and>
     (\<forall>p \<in> set (k_pipes k). readers_mask p AND tid_bit d = 0 \<and> writers_mask p AND tid_bit d = 0) \<and>
     (\<forall>s \<in> set (k_socks k). \<not> (sk_in_use s \<and> sk_owner s = d)) \<and>
     (\<forall>s \<in> set (g_slots k). \<not> slot_of d s) \<and>
     arch_console_get_fb_owner (k_console k) \<noteq> d"

lemma release_services_done:
  assumes "length (k_socks k) = MAX_SOCKETS" "length (g_slots k) = EXECREQ_MAX_SLOTS" "d \<noteq> 0"
  shows "forgotten d (release_services cpu d k) \<and> detaches d (k_sched k) (k_sched (release_services cpu d k))"
proof -
  define k1 where "k1 = (notif_invalidate_waiter_death d (kcap_invalidate_tcb_death d k))
    \<lparr>k_pipes := pipe_invalidate_tcb_death (k_pipes k) d, k_socks := sock_cleanup_for_process d (k_socks k)\<rparr>"
  define k2 where "k2 = execreq_cancel_requester d k1"
  define k3 where "k3 = (if d = ucast (ki_ext2fs_tid (k_kinfo k2)) then execreq_fail_all cpu k2 else k2)"
  have rs: "release_services cpu d k =
      (if arch_console_get_fb_owner (k_console k3) = d then on_console (arch_console_set_fb_owner 0) k3 else k3)"
    unfolding release_services_def Let_def k3_def k2_def k1_def
    by (simp add: kcap_invalidate_tcb_death_def notif_invalidate_waiter_death_def)
  have k1: "k_sched k1 = k_sched k" "g_slots k1 = g_slots k"
    by (simp_all add: k1_def kcap_invalidate_tcb_death_def notif_invalidate_waiter_death_def)
  have caps: "\<forall>c \<in> set (kcap_table k3). \<not> (c_kind c = CAP_KIND_TCB \<and> c_addr c = ucast d)"
    and notif: "\<forall>n \<in> set (notif_table k3). n_waiter n \<noteq> d"
    using assms(3) by (auto simp: k3_def k2_def k1_def execreq_fail_all_fields execreq_cancel_fields
        kcap_invalidate_tcb_death_def notif_invalidate_waiter_death_def)
  have pipes: "k_pipes k3 = pipe_invalidate_tcb_death (k_pipes k) d" and socks: "k_socks k3 = sock_cleanup_for_process d (k_socks k)"
    by (simp_all add: k3_def k2_def k1_def execreq_fail_all_fields execreq_cancel_fields execreq_fail_all_fields' execreq_cancel_fields')
  have "\<forall>s \<in> set (g_slots k2). \<not> slot_of d s" using execreq_cancel_done [of k1 _ d] assms(2) k1 by (auto simp: k2_def)
  then have slots: "\<forall>s \<in> set (g_slots k3). \<not> slot_of d s" using execreq_fail_all_keeps [of k2 d cpu] unfolding k3_def by presburger
  have "detaches d (k_sched k2) (k_sched k3)" using detach_ending.fail_all_keeps [of d "k_sched k2" k2 cpu] assms(3) unfolding k3_def by (metis detaches_refl)
  then have "detaches d (k_sched k) (k_sched k3)" by (simp add: k2_def execreq_cancel_sched k1)
  moreover have "forgotten d (release_services cpu d k)"
    unfolding forgotten_def rs
    using caps notif slots assms pipe_death_done sock_cleanup_done [OF assms(1)]
    by (auto simp: on_console_def pipes socks arch_console_get_fb_owner_def arch_console_set_fb_owner_def)
  ultimately show ?thesis by (simp add: rs on_console_def)
qed

lemma release_aspace_fields:
  "k_socks (release_aspace cpu t k) = k_socks k" "g_slots (release_aspace cpu t k) = g_slots k"
proof -
  have kf: "k_socks (k_kfree p k) = k_socks k" "g_slots (k_kfree p k) = g_slots k" for p k
    by (simp_all add: k_kfree_def split: prod.split)
  have pm: "k_socks (on_pm f k) = k_socks k" "g_slots (on_pm f k) = g_slots k"
    "k_socks (snd (with_pm g k)) = k_socks k" "g_slots (snd (with_pm g k)) = g_slots k"
    for k and f :: "pmm_st \<Rightarrow> pmm_st" and g :: "pmm_st \<Rightarrow> 'r \<times> pmm_st"
    by (simp_all add: on_pm_def with_pm_def split: prod.split)
  have fr: "k_socks (fold (\<lambda>j k. if seg_frame k s j \<noteq> 0 then on_pm (pmm_free (seg_frame k s j)) k else k) xs k) = k_socks k"
    "g_slots (fold (\<lambda>j k. if seg_frame k s j \<noteq> 0 then on_pm (pmm_free (seg_frame k s j)) k else k) xs k) = g_slots k" for s xs k
    by (rule fold_field, simp add: pm)+
  have fs: "k_socks (free_segment_frames i k) = k_socks k" "g_slots (free_segment_frames i k) = g_slots k" for i k
    by (simp_all add: free_segment_frames_def Let_def upd_seg_def kf fr)
  have un: "k_socks (unmap_run x va n k) = k_socks k" "g_slots (unmap_run x va n k) = g_slots k" for x va n k
    unfolding unmap_run_def by (rule fold_field, simp add: pm)+
  have dr: "k_socks (shm_drop i f k) = k_socks k" "g_slots (shm_drop i f k) = g_slots k" for i f k
    by (simp_all add: shm_drop_def Let_def upd_seg_def fs un split: option.split)
  have de: "k_socks (shm_detach_all_for_process a k) = k_socks k" "g_slots (shm_detach_all_for_process a k) = g_slots k" for a k
    unfolding shm_detach_all_for_process_def by (rule fold_field, simp add: dr)+
  show "k_socks (release_aspace cpu t k) = k_socks k" "g_slots (release_aspace cpu t k) = g_slots k"
    by (simp_all add: release_aspace_def Let_def k_upd_def on_sched_def de pm vm_address_space_destroy_def activate_def split: prod.split)
qed

lemma drop_senders_fields:
  "k_socks (drop_senders n cpu l k) = k_socks k" "g_slots (drop_senders n cpu l k) = g_slots k"
  by (induction n arbitrary: l k; simp add: Let_def k_uctx_def k_upd_def on_sched_def split: option.split; fail)+

lemma orphan_step_fields:
  "k_socks (snd (orphan_step cpu t i st)) = k_socks (snd st)" "g_slots (snd (orphan_step cpu t i st)) = g_slots (snd st)"
  by (simp_all add: orphan_step_def Let_def k_uctx_def k_upd_def on_sched_def split: prod.split)

lemma orphans_fields:
  "k_socks (snd (fold (orphan_step cpu t) xs st)) = k_socks (snd st)" "g_slots (snd (fold (orphan_step cpu t) xs st)) = g_slots (snd st)"
  by (induction xs arbitrary: st; simp add: orphan_step_fields; fail)+



section \<open>Exiting and waiting\<close>

text \<open>The registers and the state of thread \<open>p\<close> stay as they are.\<close>

definition undisturbed :: "tptr \<Rightarrow> sched \<Rightarrow> sched \<Rightarrow> bool" where
  "undisturbed p s s' \<longleftrightarrow> t_uctx (tcbs s' p) = t_uctx (tcbs s p) \<and> t_state (tcbs s' p) = t_state (tcbs s p)"

lemma undisturbed_refl [simp, intro]: "undisturbed p s s"
  by (simp add: undisturbed_def)

lemma undisturbed_trans [trans]: "undisturbed p s s' \<Longrightarrow> undisturbed p s' s'' \<Longrightarrow> undisturbed p s s''"
  by (simp add: undisturbed_def)

lemma sched_wake_other: "x \<noteq> t \<Longrightarrow> tcbs (sched_wake cpu t s) x = tcbs s x"
  by (simp add: sched_wake_def Let_def sched_kicks_tcbs upd_def)

lemma undisturbed_drop:
  "sq_path (sq_nexts (k_sched k)) l xs None \<Longrightarrow> distinct xs \<Longrightarrow> p \<notin> set xs \<Longrightarrow> undisturbed p (k_sched k) (k_sched (drop_senders n cpu l k))"
proof (induction n arbitrary: l xs k)
  case (Suc n)
  show ?case
  proof (cases xs)
    case Nil
    then show ?thesis using Suc.prems by simp
  next
    case (Cons x ys)
    define k1 where "k1 = k_uctx x (\<lambda>f. f\<lparr>rax := rax_err IPC_ERR_NOT_FOUND\<rparr>) (k_upd x (\<lambda>c. c\<lparr>t_sq_next := None\<rparr>) k)"
    define k2 where "k2 = on_sched (sched_wake cpu x) k1"
    have p: "p \<noteq> x" using Suc.prems Cons by auto
    have "k_tcb k2 p = k_tcb k p" using p by (simp add: k2_def k1_def on_sched_def sched_wake_other k_uctx_def k_upd_def upd_def)
    then have un: "undisturbed p (k_sched k) (k_sched k2)" by (simp add: undisturbed_def)
    have "sq_nexts (k_sched k2) = (sq_nexts (k_sched k))(x := None)"
      by (rule ext) (simp add: sq_nexts_def k2_def on_sched_def same_core_eq(20) [OF sched_wake_core] k1_def k_uctx_def k_upd_def upd_def)
    moreover have "sq_path (sq_nexts (k_sched k)) (sq_nexts (k_sched k) x) ys None" "x \<notin> set ys" and l: "l = Some x"
      using Suc.prems Cons by auto
    ultimately have "sq_path (sq_nexts (k_sched k2)) (sq_nexts (k_sched k) x) ys None" by (simp only: sq_path_upd not_False_eq_True)
    then have "undisturbed p (k_sched k2) (k_sched (drop_senders n cpu (sq_nexts (k_sched k) x) k2))"
      using Suc.prems Cons by (intro Suc.IH [of _ _ ys]) auto
    moreover have "drop_senders (Suc n) cpu l k = drop_senders n cpu (sq_nexts (k_sched k) x) k2"
      using l by (simp add: Let_def k2_def k1_def sq_nexts_def)
    ultimately show ?thesis using un undisturbed_trans by metis
  qed
qed simp

lemma undisturbed_orphan:
  assumes "t_state (k_tcb (snd st) p) = THREAD_STATE_READY"
  shows "undisturbed p (k_sched (snd st)) (k_sched (snd (orphan_step cpu t i st)))"
proof -
  obtain b k where st: "st = (b, k)" by (cases st)
  define k1 where "k1 = (if t_state (k_tcb k (Thread i)) = THREAD_STATE_WAIT_RECV \<and> t_ipc_partner (k_tcb k (Thread i)) = t_tid (k_tcb k t)
     then on_sched (sched_wake cpu (Thread i)) (k_uctx (Thread i) (\<lambda>f. f\<lparr>rax := rax_err IPC_ERR_NOT_FOUND\<rparr>) k) else k)"
  have "k_tcb k1 p = k_tcb k p"
    using assms by (cases "p = Thread i") (auto simp: k1_def st on_sched_def sched_wake_other k_uctx_def k_upd_def upd_def)
  then have "undisturbed p (k_sched k) (k_sched k1)" by (simp add: undisturbed_def)
  also have "undisturbed p (k_sched k1) (k_sched (snd (orphan_step cpu t i st)))"
    using \<open>k_tcb k1 p = k_tcb k p\<close> assms
    by (auto simp: st orphan_step_def Let_def k1_def [symmetric] k_upd_def on_sched_def upd_def undisturbed_def)
  finally show ?thesis by (simp add: st)
qed

lemma undisturbed_orphans:
  "t_state (k_tcb (snd st) p) = THREAD_STATE_READY \<Longrightarrow> undisturbed p (k_sched (snd st)) (k_sched (snd (fold (orphan_step cpu t) xs st)))"
proof (induction xs arbitrary: st)
  case (Cons i xs)
  note step = undisturbed_orphan [OF Cons.prems, of cpu t i]
  then have "t_state (k_tcb (snd (orphan_step cpu t i st)) p) = THREAD_STATE_READY" using Cons.prems by (simp add: undisturbed_def)
  from undisturbed_trans [OF step Cons.IH [OF this]] show ?case by simp
qed simp

lemma undisturbed_fail_all:
  assumes "t_state (k_tcb k p) = THREAD_STATE_READY"
  shows "undisturbed p (k_sched k) (k_sched (execreq_fail_all cpu k))"
  unfolding execreq_fail_all_def
proof (rule fold_invariant [where Q = "\<lambda>_. True" and P = "\<lambda>k'. undisturbed p (k_sched k) (k_sched k')"])
  fix i and k' :: "'a exec_state_scheme"
  let ?k = "case sched_get_tcb (ep_requester_tid (xs_params (g_slots k' ! i))) (k_sched k') of None \<Rightarrow> k'
    | Some r \<Rightarrow> if t_state (k_tcb k' r) = THREAD_STATE_WAIT_EXECREQ \<and> t_execreq_slot (k_tcb k' r) = of_nat i
        then fail_requester cpu r k' else k'"
  assume k': "undisturbed p (k_sched k) (k_sched k')"
  then have "t_state (k_tcb k' p) = THREAD_STATE_READY" using assms by (simp add: undisturbed_def)
  then have "p \<noteq> r" if "t_state (k_tcb k' r) = THREAD_STATE_WAIT_EXECREQ" for r using that by auto
  then have "k_tcb ?k p = k_tcb k' p"
    by (auto simp: fail_requester_def on_sched_def sched_wake_other k_uctx_def k_upd_def upd_def split: option.split)
  then have "k_tcb (if xs_state (g_slots k' ! i) = EXECREQ_EMPTY then k' else free_slot i ?k) p = k_tcb k' p"
    by (simp add: free_slot_def upd_slot_def)
  with k' show "undisturbed p (k_sched k) (k_sched (if xs_state (g_slots k' ! i) = EXECREQ_EMPTY then k' else free_slot i ?k))"
    by (simp add: undisturbed_def)
qed simp_all

lemma terminate_undisturbed:
  assumes "sendqs_ok tids (k_sched k) q" "p \<notin> set (q t)" "p \<noteq> t" "t_state (k_tcb k p) = THREAD_STATE_READY"
  shows "undisturbed p (k_sched k) (k_sched (terminate_tcb cpu t f k))"
proof -
  define k1 where "k1 = k_upd t (\<lambda>c. c\<lparr>t_state := f, t_send_q_head := None, t_send_q_tail := None\<rparr>) k"
  define k2 where "k2 = drop_senders (SCHED_MAX_THREADS + MAX_CPUS + 1) cpu (t_send_q_head (k_tcb k t)) k1"
  obtain b k3 where k3: "fold (orphan_step cpu t) [1..<SCHED_MAX_THREADS] (False, k2) = (b, k3)"
    by (cases "fold (orphan_step cpu t) [1..<SCHED_MAX_THREADS] (False, k2)")
  define k4 where "k4 = (if t_address_space (k_tcb k3 t) \<noteq> 0 \<and> \<not> b then release_aspace cpu t k3 else k3)"
  have path: "sq_path (sq_nexts (k_sched k)) (t_send_q_head (k_tcb k t)) (q t) None" "distinct (q t)"
    using assms(1) by (auto simp: sendqs_ok_def sendq_is_def queues_distinct_def)
  have "undisturbed p (k_sched k) (k_sched k1)" using assms(3) by (simp add: k1_def k_upd_def on_sched_def upd_def undisturbed_def)
  also have "sq_nexts (k_sched k1) = sq_nexts (k_sched k)"
    by (rule ext) (simp add: sq_nexts_def k1_def k_upd_def on_sched_def upd_def)
  then have "undisturbed p (k_sched k1) (k_sched k2)" unfolding k2_def using path assms(2) by (intro undisturbed_drop) auto
  finally have r2: "undisturbed p (k_sched k) (k_sched k2)" .
  then have "t_state (k_tcb k2 p) = THREAD_STATE_READY" using assms(4) by (simp add: undisturbed_def)
  then have "undisturbed p (k_sched k2) (k_sched k3)"
    using undisturbed_orphans [of "(False, k2)" p cpu t "[1..<SCHED_MAX_THREADS]", unfolded k3] by simp
  with r2 have r3: "undisturbed p (k_sched k) (k_sched k3)" using undisturbed_trans by blast
  have des: "k_sched (vm_address_space_destroy a k) = k_sched k" for a and k :: kernel
    by (simp add: vm_address_space_destroy_def on_pm_def split: prod.split)
  have "undisturbed p (k_sched k3) (k_sched k4)"
    using assms(3) by (simp add: k4_def release_aspace_def Let_def k_upd_def on_sched_def upd_def shm_detach_sched activate_fields des undisturbed_def)
  with r3 have r4: "undisturbed p (k_sched k) (k_sched k4)" using undisturbed_trans by blast
  then have ready: "t_state (k_tcb k4 p) = THREAD_STATE_READY" using assms(4) by (simp add: undisturbed_def)
  have "undisturbed p (k_sched k4) (k_sched (release_services cpu d k4))" for d
  proof -
    obtain k5 :: kernel where "k_sched k5 = k_sched k4"
      "k_sched (release_services cpu d k4) = k_sched (if d = ucast (ki_ext2fs_tid (k_kinfo k5)) then execreq_fail_all cpu k5 else k5)"
      by (rule release_services_sched)
    with undisturbed_fail_all [of k5 p cpu] ready show ?thesis by simp
  qed
  with r4 have "undisturbed p (k_sched k) (k_sched (release_services cpu (t_tid (k_tcb k4 t)) k4))" using undisturbed_trans by blast
  then show ?thesis unfolding terminate_tcb_def Let_def k1_def [symmetric] k2_def [symmetric] k3 by (simp add: k4_def)
qed

lemma sched_wake_ready:
  "t_state (tcbs s t) \<notin> {THREAD_STATE_DEAD, THREAD_STATE_RUNNING, THREAD_STATE_ZOMBIE} \<Longrightarrow>
   t_state (tcbs (sched_wake cpu t s) t) = THREAD_STATE_READY"
  by (auto simp: sched_wake_def Let_def sched_kicks_tcbs upd_def)

lemma sendqs_ok_cong:
  "(\<And>t. t_tid (tcbs s' t) = t_tid (tcbs s t) \<and> t_sq_next (tcbs s' t) = t_sq_next (tcbs s t) \<and>
     t_send_q_head (tcbs s' t) = t_send_q_head (tcbs s t) \<and> t_send_q_tail (tcbs s' t) = t_send_q_tail (tcbs s t)) \<Longrightarrow>
   sendqs_ok tids s q \<Longrightarrow> sendqs_ok tids s' q"
  by (simp add: sendqs_ok_def sendq_is_def sq_nexts_def [abs_def])

lemma exit_to_waiting_parent:
  assumes c: "c = k_current k cpu" and par: "t_parent_tid (k_tcb k c) \<noteq> 0" "sched_get_tcb (t_parent_tid (k_tcb k c)) (k_sched k) = Some p"
    and wait: "t_state (k_tcb k p) = THREAD_STATE_WAIT_CHILD" "t_wait_filter (k_tcb k p) \<in> {0, t_tid (k_tcb k c)}"
    and ok: "sendqs_ok tids (k_sched k) q" "p \<notin> set (q c)" "p \<noteq> c"
  shows "t_state (k_tcb (spawn_exit_current cpu status k) p) = THREAD_STATE_READY \<and>
    t_uctx (k_tcb (spawn_exit_current cpu status k) p) = (t_uctx (k_tcb k p))
      \<lparr>rax := word_of_int IPC_ERR_NONE, r8 := ucast (t_tid (k_tcb k c)), r9 := word_of_int status\<rparr>"
proof -
  define k1 where "k1 = k_upd c (\<lambda>x. x\<lparr>t_exit_status := status\<rparr>) k"
  define u where "u = k_uctx p (\<lambda>f. f\<lparr>rax := word_of_int IPC_ERR_NONE, r8 := ucast (t_tid (k_tcb k1 c)), r9 := word_of_int status\<rparr>) k1"
  define k2 where "k2 = on_sched (sched_wake cpu p) u"
  have k1: "t_tid (k_tcb k1 c) = t_tid (k_tcb k c)" "k_tcb k1 p = k_tcb k p" "t_parent_tid (k_tcb k1 c) = t_parent_tid (k_tcb k c)"
    "sched_get_tcb x (k_sched k1) = sched_get_tcb x (k_sched k)" "k_current k1 cpu = c" for x
    using ok(3) c by (simp_all add: k1_def k_upd_def on_sched_def upd_def sched_get_tcb_def)
  have u: "t_state (k_tcb u p) = THREAD_STATE_WAIT_CHILD" "t_uctx (k_tcb u p) = (t_uctx (k_tcb k p))
      \<lparr>rax := word_of_int IPC_ERR_NONE, r8 := ucast (t_tid (k_tcb k c)), r9 := word_of_int status\<rparr>" "k_current u cpu = c"
    using wait k1 by (simp_all add: u_def k_uctx_def k_upd_def on_sched_def upd_def)
  have k2: "t_state (k_tcb k2 p) = THREAD_STATE_READY" "t_uctx (k_tcb k2 p) = t_uctx (k_tcb u p)" "k_current k2 cpu = c"
    using u by (simp_all add: k2_def on_sched_def sched_wake_ready sched_wake_current same_core_eq(3) [OF sched_wake_core])
  have "sendqs_ok tids (k_sched u) q"
    by (rule sendqs_ok_cong [OF _ ok(1)]) (simp add: u_def k1_def k_uctx_def k_upd_def on_sched_def upd_def)
  then have "sendqs_ok tids (k_sched k2) q"
    by (rule sendqs_ok_cong [rotated]) (simp add: k2_def on_sched_def same_core_eq(1,20-22) [OF sched_wake_core])
  then have "undisturbed p (k_sched k2) (k_sched (terminate_tcb cpu c THREAD_STATE_DEAD k2))"
    using ok k2 by (intro terminate_undisturbed) auto
  moreover have "spawn_exit_current cpu status k = sched_terminate_to cpu THREAD_STATE_DEAD k2"
    unfolding spawn_exit_current_def Let_def c [symmetric] k1_def [symmetric] k2_def u_def using par wait k1 by auto
  ultimately show ?thesis
    using k2 u by (simp add: sched_terminate_to_def on_sched_def sched_request_resched_def undisturbed_def)
qed

text \<open>A zombie keeps what its parent will ask for.\<close>

definition zombie_of :: "tptr \<Rightarrow> tid \<Rightarrow> tid \<Rightarrow> int \<Rightarrow> sched \<Rightarrow> bool" where
  "zombie_of c parent d status s \<longleftrightarrow> parent \<noteq> d \<and> t_state (tcbs s c) = THREAD_STATE_ZOMBIE \<and> t_parent_tid (tcbs s c) = parent \<and>
     t_tid (tcbs s c) = d \<and> t_exit_status (tcbs s c) = status"

interpretation zombie_ending: ending_steps "zombie_of c parent d status" cpu c for c parent d status cpu
proof
  fix s x
  assume z: "zombie_of c parent d status s"
  have "t_state (tcbs (sched_wake cpu x s) c) = THREAD_STATE_ZOMBIE"
  proof (cases "x = c")
    case True
    then show ?thesis using z by (simp add: zombie_of_def sched_wake_def)
  next
    case False
    then show ?thesis using z by (simp add: zombie_of_def sched_wake_other)
  qed
  then show "zombie_of c parent d status (sched_wake cpu x s)"
    using z by (simp add: zombie_of_def same_core_eq(1,12,14) [OF sched_wake_core])
qed (auto simp: zombie_of_def upd_def)

lemma exit_to_zombie:
  assumes c: "c = k_current k cpu" and par: "t_parent_tid (k_tcb k c) \<noteq> 0" "sched_get_tcb (t_parent_tid (k_tcb k c)) (k_sched k) = Some p"
    and busy: "\<not> (t_state (k_tcb k p) = THREAD_STATE_WAIT_CHILD \<and> t_wait_filter (k_tcb k p) \<in> {0, t_tid (k_tcb k c)})"
    and ne: "p \<noteq> c" "t_parent_tid (k_tcb k c) \<noteq> t_tid (k_tcb k c)"
  shows "zombie_of c (t_parent_tid (k_tcb k c)) (t_tid (k_tcb k c)) status (k_sched (spawn_exit_current cpu status k))"
proof -
  define k1 where "k1 = k_upd c (\<lambda>x. x\<lparr>t_exit_status := status\<rparr>) k"
  have k1: "t_tid (k_tcb k1 c) = t_tid (k_tcb k c)" "k_tcb k1 p = k_tcb k p" "t_parent_tid (k_tcb k1 c) = t_parent_tid (k_tcb k c)"
    "sched_get_tcb x (k_sched k1) = sched_get_tcb x (k_sched k)" "k_current k1 cpu = c" "t_exit_status (k_tcb k1 c) = status" for x
    using ne(1) c by (simp_all add: k1_def k_upd_def on_sched_def upd_def sched_get_tcb_def)
  have "spawn_exit_current cpu status k = sched_terminate_to cpu THREAD_STATE_ZOMBIE k1"
    unfolding spawn_exit_current_def Let_def c [symmetric] k1_def [symmetric] using par busy k1 by auto
  moreover have "zombie_of c (t_parent_tid (k_tcb k c)) (t_tid (k_tcb k c)) status (k_sched (terminate_tcb cpu c THREAD_STATE_ZOMBIE k1))"
    by (rule zombie_ending.terminate_keeps) (use ne k1 in \<open>simp add: zombie_of_def upd_def\<close>)
  ultimately show ?thesis by (simp add: k1 sched_terminate_to_def on_sched_def sched_request_resched_def zombie_of_def)
qed

lemma wait_finds_zombie:
  assumes z: "zombie_of (Thread j) parent (of_nat j) status (k_sched k)" and j: "1 \<le> j" "j < SCHED_MAX_THREADS"
    and p: "t_tid (k_tcb k p) = parent" and tids: "\<forall>i \<in> {1..<SCHED_MAX_THREADS}. t_tid (k_tcb k (Thread i)) = of_nat i"
  shows "spawn_wait_begin p (of_nat j) k = (Some (Some (of_nat j, status)), on_sched (sched_reap_zombie (Thread j)) k)"
proof -
  have j0: "of_nat j \<noteq> (0 :: tid)" and inj: "of_nat i = (of_nat j :: tid) \<longleftrightarrow> i = j" if "i < SCHED_MAX_THREADS" for i
    using j that by (simp_all add: SCHED_MAX_THREADS_def word_of_nat_eq_iff take_bit_nat_eq_self unsigned_of_nat flip: unat_eq_zero)
  let ?m = "\<lambda>i. (t_parent_tid (k_tcb k (Thread i)) = parent \<and> (of_nat j = (0 :: tid) \<or> t_tid (k_tcb k (Thread i)) = of_nat j)) \<and>
      t_state (k_tcb k (Thread i)) = THREAD_STATE_ZOMBIE"
  have "first_slot ?m [1..<SCHED_MAX_THREADS] = Some (j - 1)"
  proof (rule first_slotI)
    fix i assume "i < j - 1"
    then have "[1..<SCHED_MAX_THREADS] ! i = i + 1" "i + 1 < SCHED_MAX_THREADS" "i + 1 \<noteq> j" using j by auto
    then show "\<not> ?m ([1..<SCHED_MAX_THREADS] ! i)" using tids j0 inj [of "i + 1"] j by auto
  qed (use z j in \<open>auto simp: zombie_of_def\<close>)
  then show ?thesis
    using z j p by (simp add: spawn_wait_begin_def sched_find_zombie_child_def Let_def zombie_of_def)
qed

text \<open>C19. A parent learns how its child ended, whichever comes first. Let the current thread, a child with a live parent, exit with a
  status. If the parent waits for it, or for any child, the parent becomes ready with the child's identifier and the
  status in its registers, and nothing that the end of the child releases disturbs them. If the parent does not wait,
  the child stays as a zombie; and in any later state that left the zombie alone, waiting for that child
  returns its identifier and its status at once and frees the entry of the thread table.\<close>

theorem exit_wait_both_orders:
  assumes c: "c = k_current k cpu" "c = Thread j" "1 \<le> j" "j < SCHED_MAX_THREADS" "t_tid (k_tcb k c) = of_nat j"
    and par: "pt = t_parent_tid (k_tcb k c)" "pt \<noteq> 0" "sched_get_tcb pt (k_sched k) = Some p" "p \<noteq> c" "pt \<noteq> of_nat j"
    and ok: "sendqs_ok tids (k_sched k) q" "p \<notin> set (q c)"
    and k': "k' = spawn_exit_current cpu status k"
    and waits: "waits \<longleftrightarrow> t_state (k_tcb k p) = THREAD_STATE_WAIT_CHILD \<and> t_wait_filter (k_tcb k p) \<in> {0, of_nat j}"
  shows "(waits \<longrightarrow> t_state (k_tcb k' p) = THREAD_STATE_READY \<and>
      t_uctx (k_tcb k' p) = (t_uctx (k_tcb k p))\<lparr>rax := word_of_int IPC_ERR_NONE, r8 := of_nat j, r9 := word_of_int status\<rparr>) \<and>
    (\<not> waits \<longrightarrow> t_state (k_tcb k' c) = THREAD_STATE_ZOMBIE \<and>
      (\<forall>k2 :: kernel. t_state (k_tcb k2 c) = THREAD_STATE_ZOMBIE \<and> tcb_core (k_tcb k2 c) = tcb_core (k_tcb k' c) \<and> t_tid (k_tcb k2 p) = pt \<and>
         (\<forall>i \<in> {1..<SCHED_MAX_THREADS}. t_tid (k_tcb k2 (Thread i)) = of_nat i) \<longrightarrow>
         fst (spawn_wait_begin p (of_nat j) k2) = Some (Some (of_nat j, status)) \<and>
         t_state (k_tcb (snd (spawn_wait_begin p (of_nat j) k2)) c) = THREAD_STATE_DEAD))"
proof (cases waits)
  case True
  have "ucast (of_nat j :: tid) = (of_nat j :: u64)" using c(4)
    by (intro unsigned_word_eqI [where ?'a = nat]) (simp add: unsigned_ucast_eq unsigned_of_nat SCHED_MAX_THREADS_def take_bit_nat_eq_self)
  then show ?thesis
    using exit_to_waiting_parent [OF c(1) _ _ _ _ ok par(4), of status] par c(5) waits True by (simp add: k')
next
  case False
  have z: "zombie_of c pt (of_nat j) status (k_sched k')"
    using exit_to_zombie [OF c(1) _ _ _ par(4), of status] par c(5) waits False by (simp add: k')
  have "spawn_wait_begin p (of_nat j) k2 = (Some (Some (of_nat j, status)), on_sched (sched_reap_zombie c) k2)"
    if "t_state (k_tcb k2 c) = THREAD_STATE_ZOMBIE" "tcb_core (k_tcb k2 c) = tcb_core (k_tcb k' c)" "t_tid (k_tcb k2 p) = pt"
      "\<forall>i \<in> {1..<SCHED_MAX_THREADS}. t_tid (k_tcb k2 (Thread i)) = of_nat i" for k2 :: kernel
    using wait_finds_zombie [OF _ c(3,4) that(3,4), of status] z that(1) tcb_core_eq(1,12,14) [OF that(2)] c(2) by (simp add: zombie_of_def)
  moreover have "t_state (k_tcb (on_sched (sched_reap_zombie c) k2) c) = THREAD_STATE_DEAD" for k2 :: kernel
    by (simp add: on_sched_def sched_reap_zombie_def upd_def)
  ultimately show ?thesis using z False by (simp add: zombie_of_def)
qed

theorem exit_wait_both_orders_witness:
  "\<exists>k. t_state (k_tcb k (Thread 1)) = THREAD_STATE_WAIT_CHILD \<and>
     t_state (k_tcb (spawn_exit_current 0 42 k) (Thread 1)) = THREAD_STATE_READY \<and>
     r8 (t_uctx (k_tcb (spawn_exit_current 0 42 k) (Thread 1))) = 2 \<and> r9 (t_uctx (k_tcb (spawn_exit_current 0 42 k) (Thread 1))) = 42"
proof -
  let ?tids = "\<lambda>t. case t of Thread i \<Rightarrow> of_nat i | Idle i \<Rightarrow> (0 :: tid)"
  define s where "s = (k_sched kernel_static)\<lparr>tcbs := (\<lambda>t. tcb_zero\<lparr>t_tid := ?tids t\<rparr>)
     (Thread 1 := tcb_zero\<lparr>t_tid := 1, t_state := THREAD_STATE_WAIT_CHILD\<rparr>, Thread 2 := tcb_zero\<lparr>t_tid := 2, t_parent_tid := 1\<rparr>),
     current_thread := (\<lambda>_. Thread 2)\<rparr>"
  define k where "k = kernel_static\<lparr>k_sched := s\<rparr>"
  have k: "k_sched k = s" by (simp add: k_def)
  have c: "Thread 2 = k_current k 0" "t_tid (k_tcb k (Thread 2)) = of_nat 2" by (simp_all add: k s_def)
  have par: "1 = t_parent_tid (k_tcb k (Thread 2))" "sched_get_tcb 1 (k_sched k) = Some (Thread 1)"
    by (simp_all add: k s_def sched_get_tcb_def SCHED_MAX_THREADS_def)
  have ok: "sendqs_ok ?tids (k_sched k) (\<lambda>_. [])"
    by (simp add: k sendqs_ok_def queues_distinct_def sendq_is_def s_def tcb_zero_def)
  have st: "t_state (k_tcb k (Thread 1)) = THREAD_STATE_WAIT_CHILD" "t_wait_filter (k_tcb k (Thread 1)) = 0"
    by (simp_all add: k s_def tcb_zero_def)
  from exit_wait_both_orders [OF c(1) refl _ _ c(2) par(1) _ par(2) _ _ ok _ refl refl, of 42] st show ?thesis
    by (intro exI [of _ k]) (simp add: SCHED_MAX_THREADS_def)
qed

end
