(* ===== verification/Vfsmsg.thy ===== *)
theory Vfsmsg
  imports Execreq
begin

text \<open>
  The file system protocol of \<^verbatim>\<open>include/robu/vfs.h\<close>: requests and replies are structures laid over the
  48 bytes of the six message registers (\<^verbatim>\<open>msg_regs_t\<close>), and one client function per operation fills in
  a request, calls the server and reads the reply.  A message is the list of its bytes, the reply
  overwrites the request in place.  The call itself (\<^verbatim>\<open>ipc_call\<close>, modelled in the theory of the kernel's
  message passing) is the argument \<open>srv\<close>, a function of the message and the server's state, with \<open>None\<close>
  for a server that does not answer.  A local \<^verbatim>\<open>msg_regs_t m;\<close> without initialiser starts with the bytes
  given as \<open>m0\<close>.  Strings are byte lists without their terminator.
\<close>

section \<open>Messages\<close>

type_synonym msg = "u8 list"
type_synonym 's server = "msg \<Rightarrow> 's \<Rightarrow> (msg \<times> 's) option"

definition MSG_BYTES :: nat where "MSG_BYTES = 48"

definition le64 :: "u64 \<Rightarrow> u8 list" where "le64 w = map (\<lambda>i. ucast (drop_bit (8 * i) w)) [0..<8]"

definition put_bytes :: "nat \<Rightarrow> u8 list \<Rightarrow> msg \<Rightarrow> msg" where
  "put_bytes off bs m = take off m @ bs @ drop (off + length bs) m"

definition put64 :: "nat \<Rightarrow> u64 \<Rightarrow> msg \<Rightarrow> msg" where "put64 off v m = put_bytes off (le64 v) m"

text \<open>A string copied into a field of \<open>n\<close> bytes: cut to \<open>n - 1\<close> characters, terminated, the rest left alone.\<close>

definition put_name :: "nat \<Rightarrow> nat \<Rightarrow> u8 list \<Rightarrow> msg \<Rightarrow> msg" where
  "put_name off n s m = put_bytes off (take (n - 1) s @ [0]) m"

text \<open>The string in a field, read as far as its terminator.\<close>

definition cstring :: "u8 list \<Rightarrow> u8 list" where "cstring bs = takeWhile (\<lambda>c. c \<noteq> 0) bs"

definition msg_zero :: msg where "msg_zero = replicate MSG_BYTES 0"

definition VFS_OP_OPEN :: u64 where "VFS_OP_OPEN = 1"
definition VFS_OP_READ :: u64 where "VFS_OP_READ = 2"
definition VFS_OP_WRITE :: u64 where "VFS_OP_WRITE = 3"
definition VFS_OP_CLOSE :: u64 where "VFS_OP_CLOSE = 4"
definition VFS_OP_STAT :: u64 where "VFS_OP_STAT = 5"
definition VFS_OP_FSTAT :: u64 where "VFS_OP_FSTAT = 6"
definition VFS_OP_READDIR :: u64 where "VFS_OP_READDIR = 7"
definition VFS_OP_RENAME :: u64 where "VFS_OP_RENAME = 8"
definition VFS_OP_UNLINK :: u64 where "VFS_OP_UNLINK = 9"
definition VFS_OP_SYMLINK :: u64 where "VFS_OP_SYMLINK = 10"
definition VFS_OP_QUIESCE :: u64 where "VFS_OP_QUIESCE = 11"
definition VFS_OP_PEEK :: u64 where "VFS_OP_PEEK = 12"
definition VFS_OP_MKDIR :: u64 where "VFS_OP_MKDIR = 13"
definition VFS_OP_RMDIR :: u64 where "VFS_OP_RMDIR = 14"
definition VFS_OP_LINK :: u64 where "VFS_OP_LINK = 15"
definition VFS_OP_MKNOD :: u64 where "VFS_OP_MKNOD = 16"
definition VFS_OP_CAPS :: u64 where "VFS_OP_CAPS = 18"
definition VFS_OP_XATTR :: u64 where "VFS_OP_XATTR = 19"
definition VFS_OP_UTIMENS :: u64 where "VFS_OP_UTIMENS = 20"
definition VFS_OP_DEVICE_READ :: u64 where "VFS_OP_DEVICE_READ = 21"
definition VFS_OP_SEEK :: u64 where "VFS_OP_SEEK = 22"

lemmas vfs_ops = VFS_OP_OPEN_def VFS_OP_READ_def VFS_OP_WRITE_def VFS_OP_CLOSE_def VFS_OP_STAT_def
  VFS_OP_FSTAT_def VFS_OP_READDIR_def VFS_OP_RENAME_def VFS_OP_UNLINK_def VFS_OP_SYMLINK_def VFS_OP_QUIESCE_def
  VFS_OP_PEEK_def VFS_OP_MKDIR_def VFS_OP_RMDIR_def VFS_OP_LINK_def VFS_OP_MKNOD_def VFS_OP_CAPS_def
  VFS_OP_XATTR_def VFS_OP_UTIMENS_def VFS_OP_DEVICE_READ_def VFS_OP_SEEK_def

definition VFS_NAME_MAX :: nat where "VFS_NAME_MAX = 20"
definition VFS_PATH_MAX :: nat where "VFS_PATH_MAX = 32"
definition VFS_READ_MAX :: u64 where "VFS_READ_MAX = 40"
definition VFS_WRITE_MAX :: u64 where "VFS_WRITE_MAX = 24"
definition VFS_ROOT_INO :: u64 where "VFS_ROOT_INO = 1"
definition VFS_O_CREAT :: u64 where "VFS_O_CREAT = 0x40"
definition VFS_O_TRUNC :: u64 where "VFS_O_TRUNC = 0x200"
definition VFS_O_APPEND :: u64 where "VFS_O_APPEND = 0x400"
definition VFS_XATTR_NAME_MAX :: nat where "VFS_XATTR_NAME_MAX = 255"
definition VFS_XATTR_VALUE_MAX :: nat where "VFS_XATTR_VALUE_MAX = 1024"
definition VFS_UTIME_OMIT_ATIME :: u64 where "VFS_UTIME_OMIT_ATIME = 1"
definition VFS_UTIME_OMIT_MTIME :: u64 where "VFS_UTIME_OMIT_MTIME = 2"

text \<open>The error codes of the replies, and the signed number they stand for.\<close>

datatype vfs_err = VFS_ERR_NOT_FOUND | VFS_ERR_BAD_HANDLE | VFS_ERR_NOT_SUPPORTED | VFS_ERR_NO_SPACE
  | VFS_ERR_IS_DIR | VFS_ERR_EXISTS | VFS_ERR_NOT_DIR | VFS_ERR_NOT_EMPTY | VFS_ERR_INVALID | VFS_ERR_WOULDBLOCK

primrec vfs_err_code :: "vfs_err \<Rightarrow> int" where
  "vfs_err_code VFS_ERR_NOT_FOUND = -1"
| "vfs_err_code VFS_ERR_BAD_HANDLE = -2"
| "vfs_err_code VFS_ERR_NOT_SUPPORTED = -3"
| "vfs_err_code VFS_ERR_NO_SPACE = -4"
| "vfs_err_code VFS_ERR_IS_DIR = -5"
| "vfs_err_code VFS_ERR_EXISTS = -6"
| "vfs_err_code VFS_ERR_NOT_DIR = -7"
| "vfs_err_code VFS_ERR_NOT_EMPTY = -8"
| "vfs_err_code VFS_ERR_INVALID = -9"
| "vfs_err_code VFS_ERR_WOULDBLOCK = -10"

text \<open>Replies: the status word alone, or an error in it.\<close>

definition reply_status :: "u64 \<Rightarrow> msg \<Rightarrow> msg" where "reply_status st m = put64 0 st m"

definition reply_err :: "vfs_err \<Rightarrow> msg \<Rightarrow> msg" where
  "reply_err e m = reply_status (word_of_int (vfs_err_code e)) m"

definition status :: "msg \<Rightarrow> int" where "status m = sint (rd64 m 0)"

section \<open>The client functions\<close>

text \<open>\<open>sys\<close> is the system call with the mount flag: the kernel's status for the six words.\<close>

definition vfs_mount :: "(u64 list \<Rightarrow> int) \<Rightarrow> u8 list \<Rightarrow> int" where
  "vfs_mount sys prefix =
     (let p = take (MOUNT_PREFIX_MAX - 1) prefix in sys (of_nat (length p) # words_of 5 p))"

definition vfs_open :: "'s server \<Rightarrow> msg \<Rightarrow> u8 list \<Rightarrow> u64 \<Rightarrow> 's \<Rightarrow> (int \<times> 's) option" where
  "vfs_open srv m0 path flags s =
     Option.bind (srv (put_name 16 VFS_PATH_MAX path (put64 8 flags (put64 0 VFS_OP_OPEN m0))) s)
       (\<lambda>(m, s). Some (if status m = 0 then sint (rd64 m 8) else status m, s))"

text \<open>The bytes that \<^verbatim>\<open>vfs_read\<close> stores in the caller's buffer are returned with the status.\<close>

definition read_reply :: "msg \<Rightarrow> int \<times> u8 list" where
  "read_reply m = (status m, if status m > 0 then take (nat (status m)) (drop 8 m) else [])"

definition vfs_read :: "'s server \<Rightarrow> msg \<Rightarrow> u64 \<Rightarrow> u64 \<Rightarrow> 's \<Rightarrow> ((int \<times> u8 list) \<times> 's) option" where
  "vfs_read srv m0 h len s =
     Option.bind (srv (put64 16 (if len > VFS_READ_MAX then VFS_READ_MAX else len)
                        (put64 8 h (put64 0 VFS_OP_READ m0))) s)
       (\<lambda>(m, s). Some (read_reply m, s))"

definition vfs_device_read :: "'s server \<Rightarrow> u64 \<Rightarrow> u64 \<Rightarrow> u64 \<Rightarrow> 's \<Rightarrow> ((int \<times> u8 list) \<times> 's) option" where
  "vfs_device_read srv dev off len s =
     Option.bind (srv (put64 24 (if len > VFS_READ_MAX then VFS_READ_MAX else len)
                        (put64 16 off (put64 8 dev (put64 0 VFS_OP_DEVICE_READ msg_zero)))) s)
       (\<lambda>(m, s). Some (read_reply m, s))"

definition vfs_seek :: "'s server \<Rightarrow> u64 \<Rightarrow> u64 \<Rightarrow> u64 \<Rightarrow> 's \<Rightarrow> ((int \<times> u64) \<times> 's) option" where
  "vfs_seek srv h off whence s =
     Option.bind (srv (put64 24 whence (put64 16 off (put64 8 h (put64 0 VFS_OP_SEEK msg_zero)))) s)
       (\<lambda>(m, s). Some ((status m, rd64 m 8), s))"

definition vfs_peek :: "'s server \<Rightarrow> msg \<Rightarrow> u64 \<Rightarrow> 's \<Rightarrow> (int \<times> 's) option" where
  "vfs_peek srv m0 h s =
     Option.bind (srv (put64 16 0 (put64 8 h (put64 0 VFS_OP_PEEK m0))) s) (\<lambda>(m, s). Some (status m, s))"

definition vfs_write :: "'s server \<Rightarrow> msg \<Rightarrow> u64 \<Rightarrow> u8 list \<Rightarrow> u64 \<Rightarrow> 's \<Rightarrow> (int \<times> 's) option" where
  "vfs_write srv m0 h buf len s =
     (let n = if len > VFS_WRITE_MAX then VFS_WRITE_MAX else len
      in Option.bind (srv (put_bytes 24 (take (unat n) buf) (put64 16 n (put64 8 h (put64 0 VFS_OP_WRITE m0)))) s)
           (\<lambda>(m, s). Some (status m, s)))"

definition vfs_close :: "'s server \<Rightarrow> msg \<Rightarrow> u64 \<Rightarrow> 's \<Rightarrow> (int \<times> 's) option" where
  "vfs_close srv m0 h s =
     Option.bind (srv (put64 8 h (put64 0 VFS_OP_CLOSE m0)) s) (\<lambda>(m, s). Some (status m, s))"

text \<open>\<^verbatim>\<open>vfs_stat\<close> and \<^verbatim>\<open>vfs_fstat\<close> fill in size, directory flag and inode number on success only.\<close>

definition stat_reply :: "msg \<Rightarrow> int \<times> (u64 \<times> u64 \<times> u64) option" where
  "stat_reply m = (status m, if status m = 0 then Some (rd64 m 8, rd64 m 16, rd64 m 24) else None)"

definition vfs_stat :: "'s server \<Rightarrow> msg \<Rightarrow> u8 list \<Rightarrow> 's \<Rightarrow> ((int \<times> (u64 \<times> u64 \<times> u64) option) \<times> 's) option" where
  "vfs_stat srv m0 name s =
     Option.bind (srv (put_name 8 VFS_PATH_MAX name (put64 0 VFS_OP_STAT m0)) s) (\<lambda>(m, s). Some (stat_reply m, s))"

definition vfs_fstat :: "'s server \<Rightarrow> msg \<Rightarrow> u64 \<Rightarrow> 's \<Rightarrow> ((int \<times> (u64 \<times> u64 \<times> u64) option) \<times> 's) option" where
  "vfs_fstat srv m0 h s =
     Option.bind (srv (put64 8 h (put64 0 VFS_OP_FSTAT m0)) s) (\<lambda>(m, s). Some (stat_reply m, s))"

definition vfs_readdir :: "'s server \<Rightarrow> msg \<Rightarrow> u64 \<Rightarrow> u64 \<Rightarrow> 's \<Rightarrow> ((int \<times> (u8 list \<times> u64) option) \<times> 's) option" where
  "vfs_readdir srv m0 dir_ino idx s =
     Option.bind (srv (put64 16 idx (put64 8 dir_ino (put64 0 VFS_OP_READDIR m0))) s)
       (\<lambda>(m, s). Some ((status m,
          if status m = 0 then Some (cstring (take (VFS_NAME_MAX - 1) (drop 16 m)), rd64 m 8) else None), s))"

definition vfs_rename :: "'s server \<Rightarrow> msg \<Rightarrow> u8 list \<Rightarrow> u8 list \<Rightarrow> 's \<Rightarrow> (int \<times> 's) option" where
  "vfs_rename srv m0 oldname newname s =
     (if length oldname > VFS_NAME_MAX - 1 \<or> length newname > VFS_NAME_MAX - 1
      then Some (vfs_err_code VFS_ERR_INVALID, s)
      else Option.bind (srv (put_name 28 VFS_NAME_MAX newname (put_name 8 VFS_NAME_MAX oldname
                          (put64 0 VFS_OP_RENAME m0))) s) (\<lambda>(m, s). Some (status m, s)))"

definition vfs_unlink :: "'s server \<Rightarrow> msg \<Rightarrow> u8 list \<Rightarrow> 's \<Rightarrow> (int \<times> 's) option" where
  "vfs_unlink srv m0 name s =
     Option.bind (srv (put_name 8 VFS_PATH_MAX name (put64 0 VFS_OP_UNLINK m0)) s) (\<lambda>(m, s). Some (status m, s))"

definition vfs_symlink :: "'s server \<Rightarrow> msg \<Rightarrow> u8 list \<Rightarrow> u8 list \<Rightarrow> 's \<Rightarrow> (int \<times> 's) option" where
  "vfs_symlink srv m0 name target s =
     Option.bind (srv (put_name 28 VFS_NAME_MAX target (put_name 8 VFS_NAME_MAX name
                    (put64 0 VFS_OP_SYMLINK m0))) s) (\<lambda>(m, s). Some (status m, s))"

definition vfs_mkdir :: "'s server \<Rightarrow> msg \<Rightarrow> u8 list \<Rightarrow> 's \<Rightarrow> (int \<times> 's) option" where
  "vfs_mkdir srv m0 name s =
     Option.bind (srv (put_name 8 VFS_PATH_MAX name (put64 0 VFS_OP_MKDIR m0)) s) (\<lambda>(m, s). Some (status m, s))"

definition vfs_rmdir :: "'s server \<Rightarrow> msg \<Rightarrow> u8 list \<Rightarrow> 's \<Rightarrow> (int \<times> 's) option" where
  "vfs_rmdir srv m0 name s =
     Option.bind (srv (put_name 8 VFS_PATH_MAX name (put64 0 VFS_OP_RMDIR m0)) s) (\<lambda>(m, s). Some (status m, s))"

definition vfs_link :: "'s server \<Rightarrow> msg \<Rightarrow> u8 list \<Rightarrow> u8 list \<Rightarrow> 's \<Rightarrow> (int \<times> 's) option" where
  "vfs_link srv m0 oldname newname s =
     Option.bind (srv (put_name 28 VFS_NAME_MAX newname (put_name 8 VFS_NAME_MAX oldname
                    (put64 0 VFS_OP_LINK m0))) s) (\<lambda>(m, s). Some (status m, s))"

definition vfs_mknod :: "'s server \<Rightarrow> msg \<Rightarrow> u8 list \<Rightarrow> u64 \<Rightarrow> u64 \<Rightarrow> 's \<Rightarrow> (int \<times> 's) option" where
  "vfs_mknod srv m0 name mode dev s =
     Option.bind (srv (put_name 24 VFS_NAME_MAX name (put64 16 dev (put64 8 mode (put64 0 VFS_OP_MKNOD m0)))) s)
       (\<lambda>(m, s). Some (status m, s))"

definition vfs_quiesce :: "'s server \<Rightarrow> 's \<Rightarrow> (int \<times> 's) option" where
  "vfs_quiesce srv s = Option.bind (srv (put64 0 VFS_OP_QUIESCE msg_zero) s) (\<lambda>(m, s). Some (status m, s))"

definition vfs_caps :: "'s server \<Rightarrow> 's \<Rightarrow> ((int \<times> (u64 \<times> u64) option) \<times> 's) option" where
  "vfs_caps srv s =
     Option.bind (srv (put64 0 VFS_OP_CAPS msg_zero) s)
       (\<lambda>(m, s). Some ((status m, if status m = 0 then Some (rd64 m 8, rd64 m 16) else None), s))"

definition vfs_xattr :: "'s server \<Rightarrow> u64 \<Rightarrow> u64 \<Rightarrow> int \<Rightarrow> u64 \<Rightarrow> u64 \<Rightarrow> 's \<Rightarrow> ((int \<times> u64) \<times> 's) option" where
  "vfs_xattr srv command h shmid name_len value_len s =
     Option.bind (srv (put64 40 value_len (put64 32 name_len (put64 24 (word_of_int shmid) (put64 16 h
                    (put64 8 command (put64 0 VFS_OP_XATTR msg_zero)))))) s)
       (\<lambda>(m, s). Some ((status m, rd64 m 8), s))"

definition vfs_utimens :: "'s server \<Rightarrow> u64 \<Rightarrow> u64 \<Rightarrow> u64 \<Rightarrow> u64 \<Rightarrow> u64 \<Rightarrow> 's \<Rightarrow> (int \<times> 's) option" where
  "vfs_utimens srv h flags atime mtime ctime s =
     Option.bind (srv (put64 40 ctime (put64 32 mtime (put64 24 atime (put64 16 flags
                    (put64 8 h (put64 0 VFS_OP_UTIMENS msg_zero)))))) s)
       (\<lambda>(m, s). Some (status m, s))"

text \<open>\<^verbatim>\<open>vfs_quiesce_disk\<close> asks the server mounted at \<^verbatim>\<open>/mnt/disk0/\<close>, if there is one.\<close>

definition vfs_quiesce_disk :: "mount_entry list \<Rightarrow> (u32 \<Rightarrow> 's server) \<Rightarrow> 's \<Rightarrow> 's option" where
  "vfs_quiesce_disk mounts srv s =
     (let diskfs = fst (kinfo_resolve_mount mounts [47, 109, 110, 116, 47, 100, 105, 115, 107, 48, 47])
      in if diskfs \<noteq> 0 then map_option snd (vfs_quiesce (srv diskfs) s) else Some s)"

section \<open>Fields of a message\<close>

lemma length_le64 [simp]: "length (le64 v) = 8"
  by (simp add: le64_def)

lemma length_put_bytes [simp]: "off + length bs \<le> length m \<Longrightarrow> length (put_bytes off bs m) = length m"
  by (simp add: put_bytes_def)

lemma length_put64 [simp]: "off + 8 \<le> length m \<Longrightarrow> length (put64 off v m) = length m"
  by (simp add: put64_def)

lemma length_put_name [simp]: "off + n \<le> length m \<Longrightarrow> 0 < n \<Longrightarrow> length (put_name off n s m) = length m"
  by (simp add: put_name_def)

lemma field_put_same: "off + length bs \<le> length m \<Longrightarrow> take (length bs) (drop off (put_bytes off bs m)) = bs"
  by (simp add: put_bytes_def)

lemma field_put_before:
  "off + length bs \<le> length m \<Longrightarrow> a + n \<le> off \<Longrightarrow> take n (drop a (put_bytes off bs m)) = take n (drop a m)"
  by (simp add: put_bytes_def take_drop min_absorb1)

lemma field_put_after:
  "off + length bs \<le> length m \<Longrightarrow> off + length bs \<le> a \<Longrightarrow> drop a (put_bytes off bs m) = drop a m"
  by (simp add: put_bytes_def)

lemma rd64_le64: "word_rcat (rev (le64 v)) = v"
  unfolding le64_def word_rcat_def o_def rev_map rev_rev_ident
  by (rule bit_word_eqI)
    (auto simp: bit_simps bit_horner_sum_uint_exp_iff [where ?'a = 8, simplified] less_mult_imp_div_less)

lemma rd64_put64 [simp]: "off + 8 \<le> length m \<Longrightarrow> rd64 (put64 off v m) off = v"
  using field_put_same [of off "le64 v" m] by (simp add: rd64_def put64_def rd64_le64)

lemma rd64_put_bytes_other [simp]:
  "off + length bs \<le> length m \<Longrightarrow> a + 8 \<le> off \<or> off + length bs \<le> a \<Longrightarrow> rd64 (put_bytes off bs m) a = rd64 m a"
  using field_put_before [of off bs m a 8] field_put_after [of off bs m a] by (auto simp: rd64_def)

lemma rd64_put64_other [simp]:
  "off + 8 \<le> length m \<Longrightarrow> a + 8 \<le> off \<or> off + 8 \<le> a \<Longrightarrow> rd64 (put64 off v m) a = rd64 m a"
  by (simp add: put64_def)

lemma rd64_put_name_other [simp]:
  "off + n \<le> length m \<Longrightarrow> 0 < n \<Longrightarrow> a + 8 \<le> off \<or> off + n \<le> a \<Longrightarrow> rd64 (put_name off n s m) a = rd64 m a"
  by (auto simp: put_name_def)

text \<open>What a client puts into a name field the server reads out of it again.\<close>

lemma cstring_put_name:
  assumes "0 \<notin> set s" "length s < n" "off + n \<le> length m" "length s < k"
  shows "cstring (take k (drop off (put_name off n s m)) @ t) = s"
proof -
  have "take k (drop off (put_name off n s m)) = s @ 0 # take (k - Suc (length s)) (drop (off + Suc (length s)) m)"
    using assms by (simp add: put_name_def put_bytes_def Suc_diff_Suc take_Cons' diff_Suc split: nat.split)
  moreover have "c \<noteq> 0" if "c \<in> set s" for c
    using that assms(1) by auto
  ultimately show ?thesis
    by (simp add: cstring_def takeWhile_append2)
qed

lemma status_put64 [simp]: "8 \<le> length m \<Longrightarrow> status (reply_status v m) = sint v"
  by (simp add: status_def reply_status_def)

lemma status_reply_err [simp]: "8 \<le> length m \<Longrightarrow> status (reply_err e m) = vfs_err_code e"
  by (cases e) (simp_all add: reply_err_def)

lemma length_reply_status [simp]: "8 \<le> length m \<Longrightarrow> length (reply_status v m) = length m"
  by (simp add: reply_status_def)

lemma length_reply_err [simp]: "8 \<le> length m \<Longrightarrow> length (reply_err e m) = length m"
  by (simp add: reply_err_def)

end
