(* ===== verification/Ramfs.thy ===== *)
theory Ramfs
  imports Vfsmsg
begin

text \<open>
  The file server in memory, \<^verbatim>\<open>src/servers/fs/ramfs\<close>: \<^verbatim>\<open>memory.c\<close> (the bump allocator of the server, the
  growing tables of files and handles, names and parents), \<^verbatim>\<open>vfs.c\<close> (one handler per request) and
  \<^verbatim>\<open>ramfs.c\<close> (the dispatcher).  The state holds the bump pointer, the memory of the server for the file
  contents, and the two tables; the tables are lists, whose place in memory only shows in the bump pointer.
  What fresh memory holds (\<open>rs_raw_file\<close>, \<open>rs_raw_handle\<close>, and \<open>rs_mem\<close> itself), the clock, the system call
  for shared memory, the attached segment and the stack bytes behind a name buffer are given from outside.
  Names are strings without terminator; table indices are natural numbers.
\<close>

section \<open>State\<close>

record ramfs_xattr =
  xa_in_use :: bool
  xa_name_len :: u16
  xa_value_len :: u16
  xa_name :: "u8 list"
  xa_value :: "u8 list"

record ramfs_file =
  rf_in_use :: bool
  rf_is_dir :: bool
  rf_is_symlink :: bool
  rf_parent_ino :: u64
  rf_name :: "u8 list"
  rf_target :: "u8 list"
  rf_size :: u64
  rf_capacity :: u64
  rf_data :: u64
  rf_atime :: u64
  rf_mtime :: u64
  rf_ctime :: u64
  rf_xattrs :: "ramfs_xattr list"

record ramfs_handle =
  rh_in_use :: bool
  rh_file_idx :: nat
  rh_offset :: u64

record ramfs =
  rs_bump :: u64
  rs_mem :: mem
  rs_files :: "ramfs_file list"
  rs_handles :: "ramfs_handle list"
  rs_raw_file :: ramfs_file
  rs_raw_handle :: ramfs_handle

text \<open>What a request meets: the clock, the system call, the bytes of the attached segment, and the bytes
  that follow the first and the second name buffer on the stack.\<close>

record ramfs_env =
  en_hz :: u64
  en_ticks :: u64
  en_sys :: "u64 list \<Rightarrow> u64 list option"
  en_seg :: "u8 list"
  en_stack1 :: "u8 list"
  en_stack2 :: "u8 list"

definition RAMFS_XATTR_SLOTS :: nat where "RAMFS_XATTR_SLOTS = 8"
definition SIZEOF_RAMFS_FILE :: u64 where "SIZEOF_RAMFS_FILE = 10440"
definition SIZEOF_RAMFS_HANDLE :: u64 where "SIZEOF_RAMFS_HANDLE = 16"

section \<open>Memory, tables and names\<close>

definition ram_alloc :: "u64 \<Rightarrow> ramfs \<Rightarrow> u64 \<times> ramfs" where
  "ram_alloc sz r = (rs_bump r, r\<lparr>rs_bump := rs_bump r + ((sz + 7) AND NOT 7)\<rparr>)"

text \<open>\<^verbatim>\<open>name_eq\<close> looks at up to \<^verbatim>\<open>VFS_PATH_MAX\<close> characters.\<close>

definition name_eq :: "u8 list \<Rightarrow> u8 list \<Rightarrow> bool" where
  "name_eq a b \<longleftrightarrow> take VFS_PATH_MAX a = take VFS_PATH_MAX b"

definition set_name :: "u8 list \<Rightarrow> nat \<Rightarrow> u8 list" where "set_name src n = take (n - 1) src"

definition find_file :: "u8 list \<Rightarrow> ramfs \<Rightarrow> nat option" where
  "find_file name r = first_slot (\<lambda>f. rf_in_use f \<and> name_eq (rf_name f) name) (rs_files r)"

fun resolve_hops :: "nat \<Rightarrow> u8 list \<Rightarrow> ramfs \<Rightarrow> nat option" where
  "resolve_hops 0 cur r = None"
| "resolve_hops (Suc n) cur r =
     (case find_file cur r of
        None \<Rightarrow> None
      | Some i \<Rightarrow> if \<not> rf_is_symlink (rs_files r ! i) then Some i
                 else resolve_hops n (set_name (rf_target (rs_files r ! i)) VFS_PATH_MAX) r)"

definition resolve_path :: "u8 list \<Rightarrow> ramfs \<Rightarrow> nat option" where
  "resolve_path name r = resolve_hops 8 (set_name name VFS_PATH_MAX) r"

definition alloc_file :: "ramfs \<Rightarrow> nat \<times> ramfs" where
  "alloc_file r =
     (case first_slot (\<lambda>f. \<not> rf_in_use f) (rs_files r) of
        Some i \<Rightarrow> (i, r)
      | None \<Rightarrow>
          (let max_files = length (rs_files r);
               new_max = (if max_files = 0 then 64 else max_files * 2);
               (_, r1) = ram_alloc (of_nat new_max * SIZEOF_RAMFS_FILE) r
           in (max_files,
               r1\<lparr>rs_files := rs_files r @ replicate (new_max - max_files) ((rs_raw_file r)\<lparr>rf_in_use := False\<rparr>)\<rparr>)))"

definition alloc_handle :: "ramfs \<Rightarrow> nat \<times> ramfs" where
  "alloc_handle r =
     (case first_slot (\<lambda>h. \<not> rh_in_use h) (rs_handles r) of
        Some i \<Rightarrow> (i, r)
      | None \<Rightarrow>
          (let max_handles = length (rs_handles r);
               new_max = (if max_handles = 0 then 32 else max_handles * 2);
               (_, r1) = ram_alloc (of_nat new_max * SIZEOF_RAMFS_HANDLE) r
           in (max_handles,
               r1\<lparr>rs_handles := rs_handles r @ replicate (new_max - max_handles) ((rs_raw_handle r)\<lparr>rh_in_use := False\<rparr>)\<rparr>)))"

definition valid_handle :: "u64 \<Rightarrow> ramfs \<Rightarrow> bool" where
  "valid_handle h r \<longleftrightarrow> unat h < length (rs_handles r) \<and> rh_in_use (rs_handles r ! unat h)"

definition xattrs_reset :: "ramfs_file \<Rightarrow> ramfs_file" where
  "xattrs_reset f = f\<lparr>rf_xattrs := map (\<lambda>a. a\<lparr>xa_in_use := False\<rparr>) (rf_xattrs f)\<rparr>"

definition last_slash :: "u8 list \<Rightarrow> nat option" where
  "last_slash path = map_option (\<lambda>k. length path - 1 - k) (first_slot (\<lambda>c. c = 47) (rev path))"

definition parent_path :: "u8 list \<Rightarrow> nat \<Rightarrow> u8 list" where
  "parent_path path n = (case last_slash path of None \<Rightarrow> [] | Some k \<Rightarrow> take (min k (n - 1)) path)"

definition resolve_parent_ino :: "u8 list \<Rightarrow> ramfs \<Rightarrow> u64" where
  "resolve_parent_ino path r =
     (let parent = parent_path path VFS_PATH_MAX
      in if parent = [] then VFS_ROOT_INO
         else case find_file parent r of None \<Rightarrow> VFS_ROOT_INO | Some i \<Rightarrow> of_nat i + 2)"

definition resolve_parent_checked :: "u8 list \<Rightarrow> ramfs \<Rightarrow> u64 option" where
  "resolve_parent_checked path r =
     (let parent = parent_path path VFS_PATH_MAX
      in if parent = [] then Some VFS_ROOT_INO
         else case find_file parent r of
                None \<Rightarrow> None
              | Some i \<Rightarrow> if \<not> rf_is_dir (rs_files r ! i) then None else Some (of_nat i + 2))"

definition basename_of :: "u8 list \<Rightarrow> u8 list" where
  "basename_of path = (case last_slash path of None \<Rightarrow> path | Some k \<Rightarrow> drop (k + 1) path)"

definition upd_file :: "nat \<Rightarrow> (ramfs_file \<Rightarrow> ramfs_file) \<Rightarrow> ramfs \<Rightarrow> ramfs" where
  "upd_file i f r = r\<lparr>rs_files := (rs_files r)[i := f (rs_files r ! i)]\<rparr>"

definition upd_handle :: "nat \<Rightarrow> (ramfs_handle \<Rightarrow> ramfs_handle) \<Rightarrow> ramfs \<Rightarrow> ramfs" where
  "upd_handle i f r = r\<lparr>rs_handles := (rs_handles r)[i := f (rs_handles r ! i)]\<rparr>"

abbreviation handle_file :: "u64 \<Rightarrow> ramfs \<Rightarrow> nat" where
  "handle_file h r \<equiv> rh_file_idx (rs_handles r ! unat h)"

text \<open>A name field of a request, copied to a buffer on the stack that is followed by \<open>rest\<close>.\<close>

definition name_field :: "nat \<Rightarrow> nat \<Rightarrow> u8 list \<Rightarrow> msg \<Rightarrow> u8 list" where
  "name_field off n rest m = cstring (take n (drop off m) @ rest)"

section \<open>Extended attributes\<close>

definition ramfs_now :: "ramfs_env \<Rightarrow> u64" where
  "ramfs_now e = en_ticks e div (if en_hz e \<noteq> 0 then en_hz e else 1)"

definition xattr_shm_size :: "ramfs_env \<Rightarrow> u64 \<Rightarrow> u64 option" where
  "xattr_shm_size e shmid = map_option (\<lambda>ws. ws ! 0) (en_sys e [28, scast (ucast shmid :: u32), 2, 0, 0, 0])"

definition xattr_shm_at :: "ramfs_env \<Rightarrow> u64 \<Rightarrow> u64 option" where
  "xattr_shm_at e shmid = map_option (\<lambda>ws. ws ! 0) (en_sys e [26, scast (ucast shmid :: u32), 0, 0, 0, 0])"

definition xattr_name_eq :: "u8 list \<Rightarrow> u64 \<Rightarrow> ramfs_xattr \<Rightarrow> bool" where
  "xattr_name_eq name name_len a \<longleftrightarrow>
     xa_in_use a \<and> ucast (xa_name_len a) = name_len \<and> take (unat name_len) (xa_name a) = take (unat name_len) name"

definition xattr_find :: "u8 list \<Rightarrow> u64 \<Rightarrow> ramfs_file \<Rightarrow> nat option" where
  "xattr_find name name_len f = first_slot (xattr_name_eq name name_len) (rf_xattrs f)"

definition xattr_alloc :: "ramfs_file \<Rightarrow> nat option" where
  "xattr_alloc f = first_slot (\<lambda>a. \<not> xa_in_use a) (rf_xattrs f)"

definition set_xattr :: "nat \<Rightarrow> (ramfs_xattr \<Rightarrow> ramfs_xattr) \<Rightarrow> ramfs_file \<Rightarrow> ramfs_file" where
  "set_xattr i g f = f\<lparr>rf_xattrs := (rf_xattrs f)[i := g (rf_xattrs f ! i)]\<rparr>"

definition reply_value_len :: "u64 \<Rightarrow> msg \<Rightarrow> msg" where
  "reply_value_len n m = put64 8 n (reply_status 0 m)"

text \<open>The four commands, on the bytes \<open>bs\<close> of the segment: the reply, the bytes and the file after it.\<close>

definition xattr_get :: "u64 \<Rightarrow> u64 \<Rightarrow> u64 \<Rightarrow> msg \<Rightarrow> u8 list \<Rightarrow> ramfs_file \<Rightarrow> msg \<times> u8 list \<times> ramfs_file" where
  "xattr_get shm_size name_len value_len m bs f =
     (case xattr_find bs name_len f of
        None \<Rightarrow> (reply_err VFS_ERR_NOT_FOUND m, bs, f)
      | Some i \<Rightarrow>
          (let a = rf_xattrs f ! i; n = ucast (xa_value_len a)
           in if value_len \<noteq> 0 \<and> value_len < n then (reply_err VFS_ERR_NO_SPACE m, bs, f)
              else if value_len \<noteq> 0 \<and> shm_size < name_len + n then (reply_err VFS_ERR_INVALID m, bs, f)
              else (reply_value_len n m,
                    if value_len \<noteq> 0 then put_bytes (unat name_len) (take (unat n) (xa_value a)) bs else bs, f)))"

definition xattr_set :: "u64 \<Rightarrow> u64 \<Rightarrow> u64 \<Rightarrow> msg \<Rightarrow> u8 list \<Rightarrow> ramfs_file \<Rightarrow> msg \<times> u8 list \<times> ramfs_file" where
  "xattr_set flags name_len value_len m bs f =
     (if flags AND NOT 3 \<noteq> 0 then (reply_err VFS_ERR_INVALID m, bs, f)
      else
        (let found = xattr_find bs name_len f
         in if found \<noteq> None \<and> flags AND 1 \<noteq> 0 then (reply_err VFS_ERR_EXISTS m, bs, f)
            else if found = None \<and> flags AND 2 \<noteq> 0 then (reply_err VFS_ERR_NOT_FOUND m, bs, f)
            else case (if found = None then xattr_alloc f else found) of
                   None \<Rightarrow> (reply_err VFS_ERR_NO_SPACE m, bs, f)
                 | Some i \<Rightarrow>
                     (reply_value_len value_len m, bs,
                      set_xattr i (\<lambda>a. a\<lparr>xa_in_use := True, xa_name_len := ucast name_len, xa_value_len := ucast value_len,
                          xa_name := put_bytes 0 (take (unat name_len) bs @ [0]) (xa_name a),
                          xa_value := put_bytes 0 (take (unat value_len) (drop (unat name_len) bs)) (xa_value a)\<rparr>) f)))"

definition xattr_list :: "u64 \<Rightarrow> u64 \<Rightarrow> msg \<Rightarrow> u8 list \<Rightarrow> ramfs_file \<Rightarrow> msg \<times> u8 list \<times> ramfs_file" where
  "xattr_list shm_size value_len m bs f =
     (let live = filter xa_in_use (rf_xattrs f);
          total = sum_list (map (\<lambda>a. ucast (xa_name_len a) + 1) live)
      in if value_len \<noteq> 0 \<and> value_len < total then (reply_err VFS_ERR_NO_SPACE m, bs, f)
         else if value_len \<noteq> 0 \<and> shm_size < total then (reply_err VFS_ERR_INVALID m, bs, f)
         else (reply_value_len total m,
               if value_len \<noteq> 0
               then put_bytes 0 (concat (map (\<lambda>a. take (unat (xa_name_len a)) (xa_name a) @ [0]) live)) bs else bs, f))"

definition xattr_remove :: "u64 \<Rightarrow> msg \<Rightarrow> u8 list \<Rightarrow> ramfs_file \<Rightarrow> msg \<times> u8 list \<times> ramfs_file" where
  "xattr_remove name_len m bs f =
     (case xattr_find bs name_len f of
        None \<Rightarrow> (reply_err VFS_ERR_NOT_FOUND m, bs, f)
      | Some i \<Rightarrow> (reply_value_len 0 m, bs, set_xattr i (\<lambda>a. a\<lparr>xa_in_use := False\<rparr>) f))"

definition xattr_command :: "u64 \<Rightarrow> u64 \<Rightarrow> u64 \<Rightarrow> u64 \<Rightarrow> u64 \<Rightarrow> msg \<Rightarrow> u8 list \<Rightarrow> ramfs_file \<Rightarrow> msg \<times> u8 list \<times> ramfs_file" where
  "xattr_command command flags shm_size name_len value_len m bs f =
     (if command = 1 then xattr_get shm_size name_len value_len m bs f
      else if command = 2 then xattr_set flags name_len value_len m bs f
      else if command = 3 then xattr_list shm_size value_len m bs f
      else if command = 4 then xattr_remove name_len m bs f
      else (reply_err VFS_ERR_INVALID m, bs, f))"

text \<open>The segment is detached again after the command (\<^verbatim>\<open>xattr_shm_dt\<close>), which the server does not look at.\<close>

definition handle_xattr :: "ramfs_env \<Rightarrow> msg \<Rightarrow> ramfs \<Rightarrow> msg \<times> u8 list \<times> ramfs" where
  "handle_xattr e m r =
     (let command = rd64 m 8 AND 0xFFFFFFFF; flags = drop_bit 32 (rd64 m 8);
          h = rd64 m 16; shmid = rd64 m 24; name_len = rd64 m 32; value_len = rd64 m 40; bs = en_seg e
      in if \<not> valid_handle h r \<or> sint shmid < 0
            \<or> name_len > of_nat VFS_XATTR_NAME_MAX \<or> value_len > of_nat VFS_XATTR_VALUE_MAX
         then (reply_err VFS_ERR_INVALID m, bs, r)
         else if command = 3 \<and> name_len \<noteq> 0 \<or> command \<noteq> 3 \<and> name_len = 0 then (reply_err VFS_ERR_INVALID m, bs, r)
         else case xattr_shm_size e shmid of
                None \<Rightarrow> (reply_err VFS_ERR_NOT_FOUND m, bs, r)
              | Some shm_size \<Rightarrow>
                  if shm_size < (if command = 3 then value_len else name_len + value_len)
                  then (reply_err VFS_ERR_INVALID m, bs, r)
                  else if xattr_shm_at e shmid = None then (reply_err VFS_ERR_NOT_FOUND m, bs, r)
                  else
                    (let f = rs_files r ! handle_file h r;
                         (m', bs', f') = xattr_command command flags shm_size name_len value_len m bs f
                     in (m', bs', upd_file (handle_file h r) (\<lambda>_. f') r)))"

section \<open>The other handlers\<close>

definition handle_caps :: "msg \<Rightarrow> msg" where
  "handle_caps m = put64 16 0x3FF (put64 8 0x100000002 (reply_status 0 m))"

text \<open>The start of \<^verbatim>\<open>open\<close>, \<^verbatim>\<open>stat\<close> and \<^verbatim>\<open>link\<close>: the entry of that name, followed if it is a symbolic link.\<close>

definition follow :: "u8 list \<Rightarrow> ramfs \<Rightarrow> nat option" where
  "follow name r =
     (case find_file name r of
        None \<Rightarrow> None
      | Some i \<Rightarrow> if rf_is_symlink (rs_files r ! i) then resolve_path name r else Some i)"

definition open_entry :: "ramfs_env \<Rightarrow> u8 list \<Rightarrow> u64 \<Rightarrow> ramfs \<Rightarrow> (nat \<times> ramfs) option" where
  "open_entry e name flags r =
     (let now = ramfs_now e
      in case follow name r of
           None \<Rightarrow>
             if find_file name r \<noteq> None \<or> flags AND VFS_O_CREAT = 0 then None
             else
               (let (i, r) = alloc_file r;
                    r = upd_file i (\<lambda>f. xattrs_reset (f\<lparr>rf_in_use := True, rf_is_dir := False, rf_is_symlink := False,
                          rf_size := 0, rf_capacity := 0, rf_data := 0, rf_atime := now, rf_mtime := now, rf_ctime := now\<rparr>)
                          \<lparr>rf_name := set_name name VFS_PATH_MAX\<rparr>) r
                in Some (i, upd_file i (\<lambda>f. f\<lparr>rf_parent_ino := resolve_parent_ino name r\<rparr>) r))
         | Some i \<Rightarrow>
             Some (i, if flags AND VFS_O_TRUNC \<noteq> 0
                      then upd_file i (\<lambda>f. f\<lparr>rf_size := 0, rf_mtime := now, rf_ctime := now\<rparr>) r else r))"

definition handle_open :: "ramfs_env \<Rightarrow> msg \<Rightarrow> ramfs \<Rightarrow> msg \<times> ramfs" where
  "handle_open e m r =
     (let flags = rd64 m 8; name = name_field 16 VFS_PATH_MAX (en_stack1 e) m
      in case open_entry e name flags r of
           None \<Rightarrow> (reply_err VFS_ERR_NOT_FOUND m, r)
         | Some (fidx, r) \<Rightarrow>
             (let (hidx, r) = alloc_handle r
              in (put64 8 (of_nat hidx) (reply_status 0 m),
                  upd_handle hidx (\<lambda>_. \<lparr>rh_in_use = True, rh_file_idx = fidx,
                    rh_offset = if flags AND VFS_O_APPEND \<noteq> 0 then rf_size (rs_files r ! fidx) else 0\<rparr>) r)))"

definition handle_read :: "msg \<Rightarrow> ramfs \<Rightarrow> msg \<times> ramfs" where
  "handle_read m r =
     (let h = rd64 m 8; len = (if rd64 m 16 > VFS_READ_MAX then VFS_READ_MAX else rd64 m 16)
      in if \<not> valid_handle h r then (reply_err VFS_ERR_BAD_HANDLE m, r)
         else
           (let hd = rs_handles r ! unat h; f = rs_files r ! rh_file_idx hd;
                avail = (if rf_size f > rh_offset hd then rf_size f - rh_offset hd else 0);
                n = (if len < avail then len else avail);
                m = (if rf_data f \<noteq> 0 then put_bytes 8 (bytes_at (rs_mem r) (rf_data f + rh_offset hd) (unat n)) m else m)
            in (reply_status n m, upd_handle (unat h) (\<lambda>d. d\<lparr>rh_offset := rh_offset d + n\<rparr>) r)))"

text \<open>Growing a file: the capacity is doubled until it is large enough (the loop need not end once it
  wraps around), and the contents are copied in words and then in bytes.\<close>

partial_function (option) grow_cap :: "u64 \<Rightarrow> u64 \<Rightarrow> u64 option" where
  "grow_cap new_cap need = (if new_cap < need then grow_cap (new_cap * 2) need else Some new_cap)"

fun copy_words :: "mem \<Rightarrow> u64 \<Rightarrow> u64 \<Rightarrow> nat \<Rightarrow> mem" where
  "copy_words m d s 0 = m"
| "copy_words m d s (Suc n) = copy_words (store64 m d (load64 m s)) (d + 8) (s + 8) n"

definition copy_contents :: "mem \<Rightarrow> u64 \<Rightarrow> u64 \<Rightarrow> u64 \<Rightarrow> mem" where
  "copy_contents m d s len =
     (let words = len div 8
      in memcpy (copy_words m d s (unat words)) (d + words * 8) (s + words * 8) (unat (len - words * 8)))"

definition grow_file :: "nat \<Rightarrow> u64 \<Rightarrow> ramfs \<Rightarrow> ramfs option" where
  "grow_file i need r =
     (let f = rs_files r ! i
      in if need > rf_capacity f
         then Option.bind (grow_cap (if rf_capacity f = 0 then 4096 else rf_capacity f * 2) need)
                (\<lambda>new_cap. let (new_data, r) = ram_alloc new_cap r;
                               r = (if rf_data f \<noteq> 0 \<and> rf_size f > 0
                                    then r\<lparr>rs_mem := copy_contents (rs_mem r) new_data (rf_data f) (rf_size f)\<rparr> else r)
                           in Some (upd_file i (\<lambda>f. f\<lparr>rf_data := new_data, rf_capacity := new_cap\<rparr>) r))
         else Some r)"

definition handle_write :: "ramfs_env \<Rightarrow> msg \<Rightarrow> ramfs \<Rightarrow> (msg \<times> ramfs) option" where
  "handle_write e m r =
     (let h = rd64 m 8; len = (if rd64 m 16 > VFS_WRITE_MAX then VFS_WRITE_MAX else rd64 m 16);
          data = take (unat len) (drop 24 m)
      in if \<not> valid_handle h r then Some (reply_err VFS_ERR_BAD_HANDLE m, r)
         else
           (let hd = rs_handles r ! unat h; i = rh_file_idx hd; now = ramfs_now e
            in Option.bind (grow_file i (rh_offset hd + len) r)
                 (\<lambda>r. let r = r\<lparr>rs_mem := store_bytes (rs_mem r) (rf_data (rs_files r ! i) + rh_offset hd) data\<rparr>;
                          off = rh_offset hd + len;
                          r = upd_handle (unat h) (\<lambda>d. d\<lparr>rh_offset := off\<rparr>) r
                      in Some (reply_status len m,
                           upd_file i (\<lambda>f. f\<lparr>rf_size := if off > rf_size f then off else rf_size f,
                                             rf_mtime := now, rf_ctime := now\<rparr>) r))))"

definition handle_close :: "msg \<Rightarrow> ramfs \<Rightarrow> msg \<times> ramfs" where
  "handle_close m r =
     (let h = rd64 m 8
      in if \<not> valid_handle h r then (reply_err VFS_ERR_BAD_HANDLE m, r)
         else (reply_status 0 m, upd_handle (unat h) (\<lambda>d. d\<lparr>rh_in_use := False\<rparr>) r))"

definition handle_utimens :: "msg \<Rightarrow> ramfs \<Rightarrow> msg \<times> ramfs" where
  "handle_utimens m r =
     (let h = rd64 m 8; flags = rd64 m 16
      in if \<not> valid_handle h r \<or> flags AND NOT (VFS_UTIME_OMIT_ATIME OR VFS_UTIME_OMIT_MTIME) \<noteq> 0
         then (reply_err VFS_ERR_INVALID m, r)
         else (reply_status 0 m,
               upd_file (handle_file h r)
                 (\<lambda>f. f\<lparr>rf_atime := if flags AND VFS_UTIME_OMIT_ATIME = 0 then rd64 m 24 else rf_atime f,
                        rf_mtime := if flags AND VFS_UTIME_OMIT_MTIME = 0 then rd64 m 32 else rf_mtime f,
                        rf_ctime := rd64 m 40\<rparr>) r))"

definition reply_stat :: "nat \<Rightarrow> ramfs \<Rightarrow> msg \<Rightarrow> msg" where
  "reply_stat i r m =
     (let f = rs_files r ! i
      in put64 40 (rf_mtime f) (put64 32 (rf_atime f) (put64 24 (of_nat i + 2)
           (put64 16 (if rf_is_dir f then 1 else 0) (put64 8 (rf_size f) (reply_status 0 m))))))"

definition handle_stat :: "ramfs_env \<Rightarrow> msg \<Rightarrow> ramfs \<Rightarrow> msg" where
  "handle_stat e m r =
     (let name = name_field 8 VFS_PATH_MAX (en_stack1 e) m
      in if name = [47]
         then put64 40 0 (put64 32 0 (put64 24 VFS_ROOT_INO (put64 16 1 (put64 8 0 (reply_status 0 m)))))
         else case follow name r of
                None \<Rightarrow> reply_err VFS_ERR_NOT_FOUND m
              | Some i \<Rightarrow> reply_stat i r m)"

definition handle_fstat :: "msg \<Rightarrow> ramfs \<Rightarrow> msg" where
  "handle_fstat m r =
     (let h = rd64 m 8
      in if \<not> valid_handle h r then reply_err VFS_ERR_BAD_HANDLE m else reply_stat (handle_file h r) r m)"

fun nth_entry :: "u64 \<Rightarrow> u64 \<Rightarrow> u64 \<Rightarrow> ramfs_file list \<Rightarrow> ramfs_file option" where
  "nth_entry ino want seen [] = None"
| "nth_entry ino want seen (f # fs) =
     (if \<not> rf_in_use f \<or> rf_parent_ino f \<noteq> ino then nth_entry ino want seen fs
      else if seen = want then Some f
      else nth_entry ino want (seen + 1) fs)"

definition handle_readdir :: "msg \<Rightarrow> ramfs \<Rightarrow> msg" where
  "handle_readdir m r =
     (case nth_entry (rd64 m 8) (rd64 m 16) 0 (rs_files r) of
        None \<Rightarrow> reply_err VFS_ERR_NOT_FOUND m
      | Some f \<Rightarrow> put_name 16 VFS_NAME_MAX (basename_of (rf_name f))
                    (put64 8 (if rf_is_dir f then 1 else 0) (reply_status 0 m)))"

definition handle_rename :: "ramfs_env \<Rightarrow> msg \<Rightarrow> ramfs \<Rightarrow> msg \<times> ramfs" where
  "handle_rename e m r =
     (let oldname = name_field 8 VFS_NAME_MAX (en_stack1 e) m; newname = name_field 28 VFS_NAME_MAX (en_stack2 e) m
      in case find_file oldname r of
           None \<Rightarrow> (reply_err VFS_ERR_NOT_FOUND m, r)
         | Some i \<Rightarrow>
             if rf_is_dir (rs_files r ! i) then (reply_err VFS_ERR_IS_DIR m, r)
             else
               (let existing = find_file newname r
                in if existing \<noteq> None \<and> rf_is_dir (rs_files r ! the existing) then (reply_err VFS_ERR_IS_DIR m, r)
                   else
                     (let r = (if existing \<noteq> None \<and> existing \<noteq> Some i
                               then upd_file (the existing) (\<lambda>f. f\<lparr>rf_in_use := False\<rparr>) r else r);
                          r = upd_file i (\<lambda>f. f\<lparr>rf_name := set_name newname VFS_PATH_MAX\<rparr>) r
                      in (reply_status 0 m, upd_file i (\<lambda>f. f\<lparr>rf_parent_ino := resolve_parent_ino newname r\<rparr>) r))))"

definition handle_unlink :: "ramfs_env \<Rightarrow> msg \<Rightarrow> ramfs \<Rightarrow> msg \<times> ramfs" where
  "handle_unlink e m r =
     (case find_file (name_field 8 VFS_PATH_MAX (en_stack1 e) m) r of
        None \<Rightarrow> (reply_err VFS_ERR_NOT_FOUND m, r)
      | Some i \<Rightarrow> if rf_is_dir (rs_files r ! i) then (reply_err VFS_ERR_IS_DIR m, r)
                 else (reply_status 0 m, upd_file i (\<lambda>f. f\<lparr>rf_in_use := False\<rparr>) r))"

definition handle_symlink :: "ramfs_env \<Rightarrow> msg \<Rightarrow> ramfs \<Rightarrow> msg \<times> ramfs" where
  "handle_symlink e m r =
     (let name = name_field 8 VFS_NAME_MAX (en_stack1 e) m; target = name_field 28 VFS_NAME_MAX (en_stack2 e) m
      in if find_file name r \<noteq> None then (reply_err VFS_ERR_NOT_SUPPORTED m, r)
         else
           (let (i, r) = alloc_file r;
                r = upd_file i (\<lambda>f. xattrs_reset (f\<lparr>rf_in_use := True, rf_is_dir := False, rf_is_symlink := True\<rparr>)
                      \<lparr>rf_size := 0, rf_name := set_name name VFS_PATH_MAX, rf_target := set_name target VFS_PATH_MAX\<rparr>) r
            in (reply_status 0 m, upd_file i (\<lambda>f. f\<lparr>rf_parent_ino := resolve_parent_ino name r\<rparr>) r)))"

text \<open>A fresh empty entry, as \<^verbatim>\<open>mkdir\<close> and \<^verbatim>\<open>mknod\<close> fill it in.\<close>

definition make_entry :: "bool \<Rightarrow> u8 list \<Rightarrow> u64 \<Rightarrow> ramfs \<Rightarrow> ramfs" where
  "make_entry dir name parent_ino r =
     (let (i, r) = alloc_file r
      in upd_file i (\<lambda>f. xattrs_reset (f\<lparr>rf_in_use := True, rf_is_dir := dir, rf_is_symlink := False,
           rf_size := 0, rf_capacity := 0, rf_data := 0\<rparr>)
           \<lparr>rf_name := set_name name VFS_PATH_MAX, rf_parent_ino := parent_ino\<rparr>) r)"

definition handle_mkdir :: "ramfs_env \<Rightarrow> msg \<Rightarrow> ramfs \<Rightarrow> msg \<times> ramfs" where
  "handle_mkdir e m r =
     (let name = name_field 8 VFS_PATH_MAX (en_stack1 e) m
      in if find_file name r \<noteq> None then (reply_err VFS_ERR_EXISTS m, r)
         else case resolve_parent_checked name r of
                None \<Rightarrow> (reply_err VFS_ERR_NOT_FOUND m, r)
              | Some parent_ino \<Rightarrow> (reply_status 0 m, make_entry True name parent_ino r))"

definition handle_rmdir :: "ramfs_env \<Rightarrow> msg \<Rightarrow> ramfs \<Rightarrow> msg \<times> ramfs" where
  "handle_rmdir e m r =
     (case find_file (name_field 8 VFS_PATH_MAX (en_stack1 e) m) r of
        None \<Rightarrow> (reply_err VFS_ERR_NOT_FOUND m, r)
      | Some i \<Rightarrow>
          if \<not> rf_is_dir (rs_files r ! i) then (reply_err VFS_ERR_NOT_DIR m, r)
          else if list_ex (\<lambda>f. rf_in_use f \<and> rf_parent_ino f = of_nat i + 2) (rs_files r)
          then (reply_err VFS_ERR_NOT_EMPTY m, r)
          else (reply_status 0 m, upd_file i (\<lambda>f. f\<lparr>rf_in_use := False\<rparr>) r))"

text \<open>The second half of \<^verbatim>\<open>link\<close>: a new entry with a copy of \<open>len\<close> bytes from \<open>srcdata\<close>.\<close>

definition link_entry :: "u64 \<Rightarrow> u64 \<Rightarrow> u8 list \<Rightarrow> u64 \<Rightarrow> ramfs \<Rightarrow> ramfs" where
  "link_entry len srcdata newname parent_ino r =
     (let (i, r) = alloc_file r;
          (p, r) = (if len \<noteq> 0 then ram_alloc len r else (0, r));
          r = upd_file i (\<lambda>f. xattrs_reset (f\<lparr>rf_in_use := True, rf_is_dir := False, rf_is_symlink := False,
                rf_size := len, rf_capacity := len, rf_data := p\<rparr>)
                \<lparr>rf_name := set_name newname VFS_PATH_MAX, rf_parent_ino := parent_ino\<rparr>) r
      in r\<lparr>rs_mem := memcpy (rs_mem r) p srcdata (unat len)\<rparr>)"

definition handle_link :: "ramfs_env \<Rightarrow> msg \<Rightarrow> ramfs \<Rightarrow> msg \<times> ramfs" where
  "handle_link e m r =
     (let oldname = name_field 8 VFS_NAME_MAX (en_stack1 e) m; newname = name_field 28 VFS_NAME_MAX (en_stack2 e) m
      in case follow oldname r of
           None \<Rightarrow> (reply_err VFS_ERR_NOT_FOUND m, r)
         | Some k \<Rightarrow>
             if rf_is_dir (rs_files r ! k) then (reply_err VFS_ERR_IS_DIR m, r)
             else if find_file newname r \<noteq> None then (reply_err VFS_ERR_EXISTS m, r)
             else case resolve_parent_checked newname r of
                    None \<Rightarrow> (reply_err VFS_ERR_NOT_FOUND m, r)
                  | Some parent_ino \<Rightarrow>
                      (reply_status 0 m,
                       link_entry (rf_size (rs_files r ! k)) (rf_data (rs_files r ! k)) newname parent_ino r))"

definition handle_mknod :: "ramfs_env \<Rightarrow> msg \<Rightarrow> ramfs \<Rightarrow> msg \<times> ramfs" where
  "handle_mknod e m r =
     (let name = name_field 24 VFS_NAME_MAX (en_stack1 e) m
      in if find_file name r \<noteq> None then (reply_err VFS_ERR_EXISTS m, r)
         else case resolve_parent_checked name r of
                None \<Rightarrow> (reply_err VFS_ERR_NOT_FOUND m, r)
              | Some parent_ino \<Rightarrow> (reply_status 0 m, make_entry False name parent_ino r))"

definition seed_dir :: "string \<Rightarrow> u64 \<Rightarrow> ramfs \<Rightarrow> u64 \<times> ramfs" where
  "seed_dir name parent_ino r =
     (let (i, r) = alloc_file r
      in (of_nat i + 2,
          upd_file i (\<lambda>f. xattrs_reset (f\<lparr>rf_in_use := True, rf_is_dir := True, rf_is_symlink := False,
            rf_parent_ino := parent_ino, rf_size := 0\<rparr>)
            \<lparr>rf_name := set_name (map (\<lambda>c. word_of_nat (of_char c)) name) VFS_PATH_MAX\<rparr>) r))"

definition seed_below :: "string list \<Rightarrow> u64 \<Rightarrow> ramfs \<Rightarrow> ramfs" where
  "seed_below names ino r = fold (\<lambda>n r. snd (seed_dir n ino r)) names r"

definition seed_fixed_dirs :: "ramfs \<Rightarrow> ramfs" where
  "seed_fixed_dirs r =
     (let r = seed_below [''bin'', ''etc'', ''tmp''] VFS_ROOT_INO r;
          (var_ino, r) = seed_dir ''var'' VFS_ROOT_INO r;
          r = (if var_ino \<noteq> 0 then seed_below [''var/tmp'', ''var/root'', ''var/lock'', ''var/lib'', ''var/run''] var_ino r else r);
          r = seed_below [''sbin''] VFS_ROOT_INO r;
          (usr_ino, r) = seed_dir ''usr'' VFS_ROOT_INO r;
          r = (if usr_ino \<noteq> 0 then seed_below [''usr/bin'', ''usr/sbin''] usr_ino r else r)
      in seed_below [''dev'', ''proc''] VFS_ROOT_INO r)"

text \<open>One round of the loop of \<^verbatim>\<open>_start\<close>: the reply, the segment and the state, or nothing if the handler
  does not end.\<close>

definition ramfs_serve :: "ramfs_env \<Rightarrow> msg \<Rightarrow> ramfs \<Rightarrow> (msg \<times> u8 list \<times> ramfs) option" where
  "ramfs_serve e m r =
     (let opc = rd64 m 0; plain = (\<lambda>(m, r). Some (m, en_seg e, r)); same = (\<lambda>m. Some (m, en_seg e, r))
      in if opc = VFS_OP_OPEN then plain (handle_open e m r)
         else if opc = VFS_OP_READ then plain (handle_read m r)
         else if opc = VFS_OP_WRITE then Option.bind (handle_write e m r) plain
         else if opc = VFS_OP_CLOSE then plain (handle_close m r)
         else if opc = VFS_OP_STAT then same (handle_stat e m r)
         else if opc = VFS_OP_FSTAT then same (handle_fstat m r)
         else if opc = VFS_OP_READDIR then same (handle_readdir m r)
         else if opc = VFS_OP_RENAME then plain (handle_rename e m r)
         else if opc = VFS_OP_UNLINK then plain (handle_unlink e m r)
         else if opc = VFS_OP_SYMLINK then plain (handle_symlink e m r)
         else if opc = VFS_OP_MKDIR then plain (handle_mkdir e m r)
         else if opc = VFS_OP_RMDIR then plain (handle_rmdir e m r)
         else if opc = VFS_OP_LINK then plain (handle_link e m r)
         else if opc = VFS_OP_MKNOD then plain (handle_mknod e m r)
         else if opc = VFS_OP_CAPS then same (handle_caps m)
         else if opc = VFS_OP_XATTR then Some (handle_xattr e m r)
         else if opc = VFS_OP_UTIMENS then plain (handle_utimens m r)
         else same (reply_err VFS_ERR_NOT_FOUND m))"

text \<open>The state before the first instruction of \<^verbatim>\<open>_start\<close>.\<close>

definition ramfs_static :: "mem \<Rightarrow> ramfs_file \<Rightarrow> ramfs_handle \<Rightarrow> ramfs" where
  "ramfs_static mem0 rawf rawh = \<lparr>rs_bump = 0x40000000, rs_mem = mem0, rs_files = [], rs_handles = [],
     rs_raw_file = rawf, rs_raw_handle = rawh\<rparr>"

end
