(* ===== verification/Ramfsok.thy ===== *)
theory Ramfsok
  imports Ramfs
begin

text \<open>
  The well-formedness of the memory file server of \<^verbatim>\<open>src/servers/fs/ramfs\<close> and its preservation: every
  handle names an entry, the areas of the files lie apart in the used part of the heap, sizes stay within
  capacities, names are terminated within their arrays.  The same lemmas follow which files a request can change.
\<close>

section \<open>Copying the contents of a file\<close>

lemma load64_bit:
  "bit (load64 m a) n \<longleftrightarrow> n < 64 \<and> bit (m (a + of_nat (n div 8))) (n mod 8)"
proof (cases "n < 64")
  case True
  then have "n div 8 < 8" by simp
  then show ?thesis
    using True unfolding load64_def word_rcat_def o_def rev_map rev_rev_ident
    by (simp add: bit_simps bit_horner_sum_uint_exp_iff [where ?'a = 8, simplified])
next
  case False
  then show ?thesis using bit_imp_le_length [of "load64 m a" n] by auto
qed

lemma load64_byte: "k < 8 \<Longrightarrow> (ucast (drop_bit (8 * k) (load64 m s)) :: u8) = m (s + of_nat k)"
  by (rule bit_word_eqI) (auto simp: bit_simps load64_bit)

lemma store_load_copy: "store64 m d (load64 m s) = copy_range m d s 8"
  using load64_byte [of "unat (x - d)" m s for x]
  by (auto simp: store64_def copy_range_def fun_eq_iff word_less_nat_alt)

lemma unat_add8_sub:
  fixes x d :: u64
  assumes "8 \<le> unat (x - d)"
  shows "unat (x - (d + 8)) = unat (x - d) - 8"
proof -
  have e: "x - (d + 8) = (x - d) - 8" by simp
  show ?thesis unfolding e using assms by (subst unat_sub) (simp_all add: word_le_nat_alt)
qed

lemma in_range_iff:
  fixes x d :: u64
  assumes "unat d + n \<le> 2 ^ 64"
  shows "unat (x - d) < n \<longleftrightarrow> unat d \<le> unat x \<and> unat x < unat d + n"
proof (cases "d \<le> x")
  case True
  then show ?thesis by (auto simp: unat_sub word_le_nat_alt)
next
  case False
  then have "unat (x - d) = 2 ^ 64 + unat x - unat d"
    by (subst unat_sub_if') (simp add: word_le_nat_alt)
  with False assms show ?thesis by (auto simp: word_le_nat_alt)
qed

definition ranges_apart :: "u64 \<Rightarrow> nat \<Rightarrow> u64 \<Rightarrow> nat \<Rightarrow> bool" where
  "ranges_apart d n s k \<longleftrightarrow> unat d + n \<le> unat s \<or> unat s + k \<le> unat d"

lemma bytes_at_cong:
  assumes "unat a + n \<le> 2 ^ 64" "\<And>x. unat a \<le> unat x \<Longrightarrow> unat x < unat a + n \<Longrightarrow> m x = m' x"
  shows "bytes_at m a n = bytes_at m' a n"
  unfolding bytes_at_def by (rule map_cong) (use assms unat_add_nat [of a] in auto)

lemma copy_words_eq:
  "unat d + 8 * n \<le> 2 ^ 64 \<Longrightarrow> unat s + 8 * n \<le> 2 ^ 64 \<Longrightarrow> ranges_apart d (8 * n) s (8 * n) \<Longrightarrow>
    copy_words m d s n = (\<lambda>x. if unat (x - d) < 8 * n then m (s + (x - d)) else m x)"
proof (induction n arbitrary: m d s)
  case (Suc n)
  show ?case
  proof (cases "n = 0")
    case True
    then show ?thesis by (simp add: store_load_copy copy_range_def word_less_nat_alt)
  next
    case False
    have u: "unat (d + 8) = unat d + 8" "unat (s + 8) = unat s + 8"
      using unat_add_nat [of d 8] unat_add_nat [of s 8] Suc.prems False by simp_all
    let ?m = "copy_range m d s 8"
    have ih: "copy_words ?m (d + 8) (s + 8) n = (\<lambda>x. if unat (x - (d + 8)) < 8 * n then ?m (s + 8 + (x - (d + 8))) else ?m x)"
      using Suc.prems by (intro Suc.IH) (auto simp: u ranges_apart_def)
    have "(if unat (x - (d + 8)) < 8 * n then ?m (s + 8 + (x - (d + 8))) else ?m x) =
        (if unat (x - d) < 8 * Suc n then m (s + (x - d)) else m x)" for x
    proof (cases "unat (x - d) < 8")
      case True
      then have "\<not> unat (x - (d + 8)) < 8 * n"
        using in_range_iff [of "d + 8" "8 * n" x] in_range_iff [of d 8 x] Suc.prems(1) u(1) by auto
      with True show ?thesis by (simp add: copy_range_def word_less_nat_alt)
    next
      case False
      have e: "s + 8 + (x - (d + 8)) = s + (x - d)" by simp
      have "unat (s + (x - d)) = unat s + unat (x - d)" if "unat (x - d) < 8 * Suc n"
        using unat_add_nat [of s "unat (x - d)"] that Suc.prems(2) by simp
      then have "\<not> unat (s + (x - d) - d) < 8" if "unat (x - d) < 8 * Suc n"
        using that in_range_iff [of d 8 "s + (x - d)"] Suc.prems(1,3) by (auto simp: ranges_apart_def)
      then show ?thesis
        unfolding e using False unat_add8_sub [of x d] by (auto simp: copy_range_def word_less_nat_alt)
    qed
    then show ?thesis by (simp add: store_load_copy ih)
  qed
qed simp

lemma copy_tail:
  fixes d s :: u64
  assumes "unat d + (n + k) \<le> 2 ^ 64" "unat s + (n + k) \<le> 2 ^ 64" "ranges_apart d (n + k) s (n + k)" "0 < k"
  shows "memcpy (\<lambda>x. if unat (x - d) < n then m (s + (x - d)) else m x) (d + of_nat n) (s + of_nat n) k
      = (\<lambda>x. if unat (x - d) < n + k then m (s + (x - d)) else m x)" (is "memcpy ?m _ _ _ = _")
proof -
  have u: "unat (d + of_nat n) = unat d + n" "unat (s + of_nat n) = unat s + n"
    using unat_add_nat [of d n] unat_add_nat [of s n] assms by simp_all
  have "d + of_nat n + of_nat i \<noteq> s + of_nat n + of_nat j" if "i < k" "j < k" for i j
  proof -
    have "unat (d + of_nat n + of_nat i) = unat d + n + i" "unat (s + of_nat n + of_nat j) = unat s + n + j"
      using unat_add_nat [of "d + of_nat n" i] unat_add_nat [of "s + of_nat n" j] u assms(1,2) that by simp_all
    moreover have "unat d + n + i \<noteq> unat s + n + j" using assms(3) that by (auto simp: ranges_apart_def)
    ultimately show ?thesis by metis
  qed
  moreover have "k < 2 ^ 64" using assms(1-3) unsigned_less [of d, where ?'a = nat] unsigned_less [of s, where ?'a = nat] by (auto simp: ranges_apart_def)
  ultimately have "memcpy ?m (d + of_nat n) (s + of_nat n) k =
      (\<lambda>x. if unat (x - (d + of_nat n)) < k then ?m (s + of_nat n + (x - (d + of_nat n))) else ?m x)"
    by (intro memcpy_eq) auto
  moreover have "(if unat (x - (d + of_nat n)) < k then ?m (s + of_nat n + (x - (d + of_nat n))) else ?m x)
      = (if unat (x - d) < n + k then m (s + (x - d)) else m x)" for x
  proof -
    have e: "s + of_nat n + (x - (d + of_nat n)) = s + (x - d)" by simp
    have i: "unat (x - (d + of_nat n)) < k \<longleftrightarrow> unat d + n \<le> unat x \<and> unat x < unat d + n + k"
      using in_range_iff [of "d + of_nat n" k x] u assms(1) by (simp add: add.assoc)
    have j: "unat (x - d) < n \<longleftrightarrow> unat d \<le> unat x \<and> unat x < unat d + n"
      "unat (x - d) < n + k \<longleftrightarrow> unat d \<le> unat x \<and> unat x < unat d + (n + k)"
      using in_range_iff [of d n x] in_range_iff [of d "n + k" x] assms(1) by simp_all
    have "\<not> unat (s + (x - d) - d) < n" if "unat (x - d) < n + k"
    proof -
      have "unat (s + (x - d)) = unat s + unat (x - d)"
        using unat_add_nat [of s "unat (x - d)"] that assms(2) by simp
      then show ?thesis
        using in_range_iff [of d n "s + (x - d)"] that assms(1,3) by (auto simp: ranges_apart_def)
    qed
    then show ?thesis unfolding e using i j by auto
  qed
  ultimately show ?thesis by (simp only:)
qed

lemma copy_contents_eq:
  assumes "unat d + unat len \<le> 2 ^ 64" "unat s + unat len \<le> 2 ^ 64" "ranges_apart d (unat len) s (unat len)"
  shows "copy_contents m d s len = copy_range m d s len"
proof -
  define w where "w = unat len div 8"
  define k where "k = unat len mod 8"
  have wk: "unat len = 8 * w + k" and k8: "k < 8" by (simp_all add: w_def k_def)
  have lt: "unat len < 2 ^ 64" using unsigned_less [of len, where ?'a = nat] by simp
  have e: "len div 8 * 8 = of_nat (8 * w)"
    by (rule unsigned_word_eqI [where ?'a = nat])
      (use lt wk k8 in \<open>simp add: unat_word_ariths(2) unat_div w_def [symmetric] unat_of_nat take_bit_eq_mod\<close>)
  have u: "unat (of_nat (8 * w) :: u64) = 8 * w" using lt wk by (intro word_of_nat_less_lt) simp
  have r: "unat (len - len div 8 * 8) = k"
    unfolding e using wk u by (subst unat_sub) (simp_all add: word_le_nat_alt)
  have c: "copy_words m d s w = (\<lambda>x. if unat (x - d) < 8 * w then m (s + (x - d)) else m x)"
    using assms wk by (intro copy_words_eq) (auto simp: ranges_apart_def)
  have "memcpy (copy_words m d s w) (d + of_nat (8 * w)) (s + of_nat (8 * w)) k
      = (\<lambda>x. if unat (x - d) < 8 * w + k then m (s + (x - d)) else m x)"
  proof (cases "k = 0")
    case False
    then show ?thesis unfolding c using assms unfolding wk by (intro copy_tail) simp_all
  qed (simp add: c)
  moreover have "unat (len div 8) = w" by (simp add: unat_div w_def)
  ultimately show ?thesis
    unfolding copy_contents_def Let_def r by (simp only: e copy_range_def word_less_nat_alt wk)
qed

section \<open>The invariant\<close>

definition xattr_ok :: "ramfs_xattr \<Rightarrow> bool" where
  "xattr_ok a \<longleftrightarrow> length (xa_name a) = VFS_XATTR_NAME_MAX + 1 \<and> length (xa_value a) = VFS_XATTR_VALUE_MAX
     \<and> unat (xa_name_len a) \<le> VFS_XATTR_NAME_MAX \<and> unat (xa_value_len a) \<le> VFS_XATTR_VALUE_MAX"

definition name_ok :: "u8 list \<Rightarrow> bool" where
  "name_ok s \<longleftrightarrow> length s < VFS_PATH_MAX \<and> 0 \<notin> set s"

text \<open>A file entry below the bump pointer \<open>b\<close>; an entry without area has no capacity.\<close>

definition file_ok :: "nat \<Rightarrow> ramfs_file \<Rightarrow> bool" where
  "file_ok b f \<longleftrightarrow>
     (if rf_data f = 0 then rf_capacity f = 0
      else 0x40000000 \<le> unat (rf_data f) \<and> unat (rf_data f) + unat (rf_capacity f) \<le> b)
     \<and> rf_size f \<le> rf_capacity f \<and> name_ok (rf_name f) \<and> name_ok (rf_target f)
     \<and> length (rf_xattrs f) = RAMFS_XATTR_SLOTS \<and> list_all xattr_ok (rf_xattrs f)"

definition areas_apart :: "ramfs_file list \<Rightarrow> bool" where
  "areas_apart fs \<longleftrightarrow>
     (\<forall>i < length fs. \<forall>j < length fs. i \<noteq> j \<and> rf_data (fs ! i) \<noteq> 0 \<and> rf_data (fs ! j) \<noteq> 0 \<longrightarrow>
        ranges_apart (rf_data (fs ! i)) (unat (rf_capacity (fs ! i))) (rf_data (fs ! j)) (unat (rf_capacity (fs ! j))))"

definition handle_ok :: "nat \<Rightarrow> nat \<Rightarrow> ramfs_handle \<Rightarrow> bool" where
  "handle_ok b n h \<longleftrightarrow> (rh_in_use h \<longrightarrow> rh_file_idx h < n \<and> unat (rh_offset h) \<le> b)"

definition ramfs_ok :: "ramfs \<Rightarrow> bool" where
  "ramfs_ok r \<longleftrightarrow>
     (let b = unat (rs_bump r); fs = rs_files r; hs = rs_handles r
      in 0x40000000 \<le> b \<and> length fs * 10440 \<le> b \<and> length hs * 16 \<le> b
         \<and> list_all (file_ok b) fs \<and> areas_apart fs \<and> list_all (handle_ok b (length fs)) hs
         \<and> file_ok 0 (rs_raw_file r))"

definition contents :: "ramfs \<Rightarrow> nat \<Rightarrow> u8 list" where
  "contents r i = bytes_at (rs_mem r) (rf_data (rs_files r ! i)) (unat (rf_size (rs_files r ! i)))"

text \<open>A step that keeps the invariant, never gives memory back, and changes the contents of entries in \<open>K\<close> only.\<close>

definition fs_keeps :: "nat set \<Rightarrow> ramfs \<Rightarrow> ramfs \<Rightarrow> bool" where
  "fs_keeps K r r' \<longleftrightarrow> ramfs_ok r' \<and> rs_bump r \<le> rs_bump r' \<and> length (rs_files r) \<le> length (rs_files r')
     \<and> (\<forall>j < length (rs_files r). j \<notin> K \<longrightarrow> contents r' j = contents r j)"

lemma fs_keeps_refl: "ramfs_ok r \<Longrightarrow> fs_keeps {} r r"
  by (simp add: fs_keeps_def)

lemma fs_keeps_trans: "fs_keeps K r r1 \<Longrightarrow> fs_keeps L r1 r2 \<Longrightarrow> fs_keeps (K \<union> L) r r2"
  by (auto simp: fs_keeps_def)

lemma fs_keeps_trans0: "fs_keeps K r r1 \<Longrightarrow> fs_keeps {} r1 r2 \<Longrightarrow> fs_keeps K r r2"
  using fs_keeps_trans [of K r r1 "{}" r2] by simp

lemma fs_keeps_mono: "fs_keeps K r r' \<Longrightarrow> K \<subseteq> L \<Longrightarrow> fs_keeps L r r'"
  by (auto simp: fs_keeps_def)

lemma fs_keeps_ok: "fs_keeps K r r' \<Longrightarrow> ramfs_ok r'"
  by (simp add: fs_keeps_def)

lemma fs_keeps_len: "fs_keeps K r r' \<Longrightarrow> i < length (rs_files r) \<Longrightarrow> i < length (rs_files r')"
  by (simp add: fs_keeps_def)

lemma file_ok_mono: "file_ok b f \<Longrightarrow> b \<le> b' \<Longrightarrow> file_ok b' f"
  by (auto simp: file_ok_def)

lemma handle_ok_mono: "handle_ok b n h \<Longrightarrow> b \<le> b' \<Longrightarrow> n \<le> n' \<Longrightarrow> handle_ok b' n' h"
  by (auto simp: handle_ok_def)

lemma ok_file: "ramfs_ok r \<Longrightarrow> i < length (rs_files r) \<Longrightarrow> file_ok (unat (rs_bump r)) (rs_files r ! i)"
  by (simp add: ramfs_ok_def Let_def list_all_length)

lemma ok_handle: "ramfs_ok r \<Longrightarrow> valid_handle h r \<Longrightarrow> handle_file h r < length (rs_files r)"
  by (auto simp: ramfs_ok_def Let_def list_all_length valid_handle_def handle_ok_def)

lemma ok_offset: "ramfs_ok r \<Longrightarrow> valid_handle h r \<Longrightarrow> unat (rh_offset (rs_handles r ! unat h)) \<le> unat (rs_bump r)"
  by (auto simp: ramfs_ok_def Let_def list_all_length valid_handle_def handle_ok_def)

lemma name_ok_set_name: "0 \<notin> set s \<Longrightarrow> name_ok (set_name s VFS_PATH_MAX)"
  by (auto simp: name_ok_def set_name_def VFS_PATH_MAX_def dest: in_set_takeD)

lemma cstring_no_zero: "0 \<notin> set (cstring s)"
  by (auto simp: cstring_def dest: set_takeWhileD)

lemma name_ok_field [simp]: "name_ok (set_name (name_field off n rest m) VFS_PATH_MAX)"
  by (simp add: name_ok_set_name name_field_def cstring_no_zero)

section \<open>Memory and tables\<close>

lemma not7: "NOT 7 = (NOT (mask 3) :: u64)"
  by (simp add: mask_eq_exp_minus_1)

lemma ram_alloc_bump:
  assumes "unat (rs_bump r) \<le> 2 ^ 62" "unat sz \<le> 2 ^ 62" "ram_alloc sz r = (p, r')"
  shows "p = rs_bump r" "unat (rs_bump r') = unat (rs_bump r) + (unat sz + 7) div 8 * 8" "r' = r\<lparr>rs_bump := rs_bump r'\<rparr>"
proof -
  have u: "unat (sz + 7) = unat sz + 7" using unat_add_nat [of sz 7] assms(2) by simp
  have "unat ((sz + 7) AND NOT 7) = (unat sz + 7) - (unat sz + 7) mod 8"
    unfolding not7 unat_and_not_mask u by simp
  also have "\<dots> = (unat sz + 7) div 8 * 8"
    by (metis div_mult_mod_eq add_diff_cancel_right')
  finally have v: "unat ((sz + 7) AND NOT 7) = (unat sz + 7) div 8 * 8" .
  have "(unat sz + 7) div 8 * 8 \<le> unat sz + 7" by simp
  with assms v have "unat (rs_bump r) + unat ((sz + 7) AND NOT 7) < 2 ^ 64" by simp
  then have "unat (rs_bump r + ((sz + 7) AND NOT 7)) = unat (rs_bump r) + unat ((sz + 7) AND NOT 7)"
    by (simp add: unat_add_lem [THEN iffD1])
  with v assms(3) show "p = rs_bump r" "unat (rs_bump r') = unat (rs_bump r) + (unat sz + 7) div 8 * 8"
    "r' = r\<lparr>rs_bump := rs_bump r'\<rparr>"
    by (auto simp: ram_alloc_def)
qed

lemma ram_alloc_fields:
  assumes "ram_alloc sz r = (p, r')"
  shows "rs_files r' = rs_files r" "rs_handles r' = rs_handles r" "rs_mem r' = rs_mem r" "rs_raw_file r' = rs_raw_file r"
  using assms by (auto simp: ram_alloc_def)

lemma ok_bump:
  "ramfs_ok r \<Longrightarrow> rs_bump r \<le> b \<Longrightarrow> fs_keeps {} r (r\<lparr>rs_bump := b\<rparr>)"
  by (auto simp: fs_keeps_def ramfs_ok_def Let_def contents_def word_le_nat_alt list_all_iff
      intro: file_ok_mono handle_ok_mono)

lemma ram_alloc_keeps:
  assumes "ramfs_ok r" "unat (rs_bump r) \<le> 2 ^ 62" "unat sz \<le> 2 ^ 62" "ram_alloc sz r = (p, r')"
  shows "fs_keeps {} r r'"
proof -
  note b = ram_alloc_bump [OF assms(2-4)]
  have "rs_bump r \<le> rs_bump r'" using b(2) by (simp add: word_le_nat_alt)
  then show ?thesis using ok_bump [OF assms(1)] b(3) by metis
qed

text \<open>Replacing an entry: its area stays, goes, or is new and above the areas of the others.\<close>

lemma upd_file_keeps:
  assumes "ramfs_ok r" "i < length (rs_files r)" "file_ok (unat (rs_bump r)) (g (rs_files r ! i))"
    and "rf_data (g (rs_files r ! i)) = rf_data (rs_files r ! i) \<and> rf_capacity (g (rs_files r ! i)) = rf_capacity (rs_files r ! i)
       \<or> rf_data (g (rs_files r ! i)) = 0
       \<or> (\<forall>f \<in> set (rs_files r). rf_data f \<noteq> 0 \<longrightarrow> unat (rf_data f) + unat (rf_capacity f) \<le> unat (rf_data (g (rs_files r ! i))))"
  shows "fs_keeps {i} r (upd_file i g r)"
proof -
  let ?fs = "rs_files r" and ?f = "g (rs_files r ! i)"
  have sep: "ranges_apart (rf_data (?fs ! j)) (unat (rf_capacity (?fs ! j))) (rf_data (?fs ! k)) (unat (rf_capacity (?fs ! k)))"
    if "j < length ?fs" "k < length ?fs" "j \<noteq> k" "rf_data (?fs ! j) \<noteq> 0" "rf_data (?fs ! k) \<noteq> 0" for j k
    using assms(1) that by (simp add: ramfs_ok_def Let_def areas_apart_def)
  have new: "ranges_apart (rf_data ?f) (unat (rf_capacity ?f)) (rf_data (?fs ! j)) (unat (rf_capacity (?fs ! j)))"
    "ranges_apart (rf_data (?fs ! j)) (unat (rf_capacity (?fs ! j))) (rf_data ?f) (unat (rf_capacity ?f))"
    if "j < length ?fs" "j \<noteq> i" "rf_data (?fs ! j) \<noteq> 0" "rf_data ?f \<noteq> 0" for j
    using assms(4) that sep [of i j] sep [of j i] assms(2) by (auto simp: ranges_apart_def)
  have "areas_apart (?fs[i := ?f])"
    unfolding areas_apart_def
  proof (intro allI impI, elim conjE)
    fix j k assume jk: "j < length (?fs[i := ?f])" "k < length (?fs[i := ?f])" "j \<noteq> k"
      "rf_data (?fs[i := ?f] ! j) \<noteq> 0" "rf_data (?fs[i := ?f] ! k) \<noteq> 0"
    then consider "j = i" "k \<noteq> i" | "k = i" "j \<noteq> i" | "j \<noteq> i" "k \<noteq> i" by auto
    then show "ranges_apart (rf_data (?fs[i := ?f] ! j)) (unat (rf_capacity (?fs[i := ?f] ! j)))
        (rf_data (?fs[i := ?f] ! k)) (unat (rf_capacity (?fs[i := ?f] ! k)))"
      using jk assms(2) by cases (simp_all add: new sep)
  qed
  moreover have "list_all (file_ok (unat (rs_bump r))) (?fs[i := ?f])"
    using assms(1) all_set_update [of ?fs "file_ok (unat (rs_bump r))" ?f i] assms(3)
    by (simp add: ramfs_ok_def Let_def list_all_iff)
  ultimately have "ramfs_ok (upd_file i g r)"
    using assms(1) by (simp add: upd_file_def ramfs_ok_def Let_def)
  then show ?thesis by (simp add: fs_keeps_def upd_file_def contents_def)
qed

lemma upd_file_same:
  assumes "ramfs_ok r" "i < length (rs_files r)" "file_ok (unat (rs_bump r)) (g (rs_files r ! i))"
    "rf_data (g (rs_files r ! i)) = rf_data (rs_files r ! i)" "rf_capacity (g (rs_files r ! i)) = rf_capacity (rs_files r ! i)"
    "rf_size (g (rs_files r ! i)) = rf_size (rs_files r ! i)"
  shows "fs_keeps {} r (upd_file i g r)"
proof -
  have k: "fs_keeps {i} r (upd_file i g r)" using assms by (intro upd_file_keeps) auto
  moreover have "contents (upd_file i g r) i = contents r i"
    using assms by (simp add: contents_def upd_file_def)
  ultimately show ?thesis by (auto simp: fs_keeps_def)
qed

lemma upd_handle_keeps:
  assumes "ramfs_ok r" "handle_ok (unat (rs_bump r)) (length (rs_files r)) (g (rs_handles r ! i))"
  shows "fs_keeps {} r (upd_handle i g r)"
proof -
  have "list_all (handle_ok (unat (rs_bump r)) (length (rs_files r))) ((rs_handles r)[i := g (rs_handles r ! i)])"
    using assms(1) all_set_update [of "rs_handles r" "handle_ok (unat (rs_bump r)) (length (rs_files r))" "g (rs_handles r ! i)" i] assms(2)
    by (simp add: ramfs_ok_def Let_def list_all_iff)
  then have "ramfs_ok (upd_handle i g r)"
    using assms(1) by (simp add: upd_handle_def ramfs_ok_def Let_def)
  then show ?thesis by (simp add: fs_keeps_def upd_handle_def contents_def)
qed

lemma file_ok_in_use [simp]: "file_ok b (f\<lparr>rf_in_use := u\<rparr>) = file_ok b f"
  by (simp add: file_ok_def)

lemma file_ok_blank: "file_ok 0 f \<Longrightarrow> rf_data f = 0 \<and> rf_capacity f = 0 \<and> rf_size f = 0"
  by (auto simp: file_ok_def split: if_splits)

lemma extend_files:
  assumes "ramfs_ok r" "(length (rs_files r) + k) * 10440 \<le> unat (rs_bump r)" "file_ok 0 f"
  shows "fs_keeps {} r (r\<lparr>rs_files := rs_files r @ replicate k f\<rparr>)"
proof -
  let ?fs = "rs_files r @ replicate k f"
  have "areas_apart ?fs"
    using assms(1) file_ok_blank [OF assms(3)] unfolding ramfs_ok_def Let_def areas_apart_def by (simp add: nth_append)
  moreover have "list_all (file_ok (unat (rs_bump r))) ?fs"
    using assms(1) file_ok_mono [OF assms(3)] by (auto simp: ramfs_ok_def Let_def list_all_iff)
  moreover have "list_all (handle_ok (unat (rs_bump r)) (length ?fs)) (rs_handles r)"
    using assms(1) by (auto simp: ramfs_ok_def Let_def list_all_iff intro: handle_ok_mono)
  ultimately have "ramfs_ok (r\<lparr>rs_files := ?fs\<rparr>)"
    using assms(1,2) by (simp add: ramfs_ok_def Let_def)
  then show ?thesis by (simp add: fs_keeps_def contents_def nth_append)
qed

lemma unat_of_nat_mult:
  "n * k < 2 ^ 64 \<Longrightarrow> 0 < k \<Longrightarrow> unat (of_nat n * of_nat k :: u64) = n * k"
  by (simp only: of_nat_mult [symmetric]) (rule word_of_nat_less_lt, simp)

text \<open>What the two table allocators promise.\<close>

definition got_slot :: "nat \<Rightarrow> ramfs \<Rightarrow> ramfs \<Rightarrow> bool" where
  "got_slot i r r' \<longleftrightarrow> fs_keeps {} r r' \<and> i < length (rs_files r') \<and> \<not> rf_in_use (rs_files r' ! i)
     \<and> unat (rs_bump r') \<le> 4 * unat (rs_bump r) \<and> rs_handles r' = rs_handles r \<and> rs_mem r' = rs_mem r
     \<and> (\<forall>j < length (rs_files r'). if j < length (rs_files r) then rs_files r' ! j = rs_files r ! j else \<not> rf_in_use (rs_files r' ! j))"

lemma alloc_file_slot:
  assumes "ramfs_ok r" "unat (rs_bump r) \<le> 2 ^ 48" "alloc_file r = (i, r')"
  shows "got_slot i r r'"
proof (cases "first_slot (\<lambda>f. \<not> rf_in_use f) (rs_files r)")
  case None
  define len where "len = length (rs_files r)"
  define n where "n = (if len = 0 then 64 else len * 2)"
  obtain p r1 where a: "ram_alloc (of_nat n * SIZEOF_RAMFS_FILE) r = (p, r1)" by fastforce
  have r': "i = len" "r' = r1\<lparr>rs_files := rs_files r @ replicate (n - len) ((rs_raw_file r)\<lparr>rf_in_use := False\<rparr>)\<rparr>"
    using assms(3) unfolding alloc_file_def None option.case Let_def len_def [symmetric] n_def [symmetric] a prod.case by auto
  have lb: "len * 10440 \<le> unat (rs_bump r)" "0x40000000 \<le> unat (rs_bump r)"
    using assms(1) by (simp_all add: ramfs_ok_def Let_def len_def)
  have nl: "len < n" "n * 10440 \<le> 2 * unat (rs_bump r)" using lb by (auto simp: n_def)
  have sz: "unat (of_nat n * SIZEOF_RAMFS_FILE) = n * 10440"
    using unat_of_nat_mult [of n 10440] nl(2) assms(2) by (simp add: SIZEOF_RAMFS_FILE_def)
  have b: "unat (rs_bump r1) = unat (rs_bump r) + (n * 10440 + 7) div 8 * 8" "r1 = r\<lparr>rs_bump := rs_bump r1\<rparr>"
    using ram_alloc_bump [OF _ _ a] sz nl(2) assms(2) by simp_all
  have k1: "fs_keeps {} r r1" using ram_alloc_keeps [OF assms(1) _ _ a] sz nl(2) assms(2) by simp
  note f1 = ram_alloc_fields [OF a]
  have "fs_keeps {} r1 r'"
    unfolding r'(2) using extend_files [OF fs_keeps_ok [OF k1], of "n - len" "(rs_raw_file r)\<lparr>rf_in_use := False\<rparr>"]
      b(1) nl(1) fs_keeps_ok [OF k1] f1 by (simp add: len_def ramfs_ok_def Let_def)
  then have "fs_keeps {} r r'" by (rule fs_keeps_trans0 [OF k1])
  moreover have "unat (rs_bump r1) \<le> 4 * unat (rs_bump r)" using b(1) nl(2) lb(2) by simp
  ultimately show ?thesis
    unfolding got_slot_def r' using nl(1) f1 by (simp add: len_def nth_append)
next
  case (Some k)
  then show ?thesis
    using assms first_slot_SomeD [OF Some] by (auto simp: alloc_file_def got_slot_def fs_keeps_refl)
qed

lemma alloc_handle_keeps:
  assumes "ramfs_ok r" "unat (rs_bump r) \<le> 2 ^ 60" "alloc_handle r = (i, r')"
  shows "fs_keeps {} r r' \<and> rs_files r' = rs_files r \<and> rs_mem r' = rs_mem r \<and> i < length (rs_handles r')
    \<and> unat (rs_bump r') \<le> 4 * unat (rs_bump r) \<and> (\<forall>j < length (rs_handles r). rs_handles r' ! j = rs_handles r ! j)
    \<and> length (rs_handles r) \<le> length (rs_handles r') \<and> (i < length (rs_handles r) \<longrightarrow> \<not> rh_in_use (rs_handles r ! i))"
proof (cases "first_slot (\<lambda>h. \<not> rh_in_use h) (rs_handles r)")
  case None
  define len where "len = length (rs_handles r)"
  define n where "n = (if len = 0 then 32 else len * 2)"
  obtain p r1 where a: "ram_alloc (of_nat n * SIZEOF_RAMFS_HANDLE) r = (p, r1)" by fastforce
  have r': "i = len" "r' = r1\<lparr>rs_handles := rs_handles r @ replicate (n - len) ((rs_raw_handle r)\<lparr>rh_in_use := False\<rparr>)\<rparr>"
    using assms(3) unfolding alloc_handle_def None option.case Let_def len_def [symmetric] n_def [symmetric] a prod.case by auto
  have lb: "len * 16 \<le> unat (rs_bump r)" "0x40000000 \<le> unat (rs_bump r)"
    using assms(1) by (simp_all add: ramfs_ok_def Let_def len_def)
  have nl: "len < n" "n * 16 \<le> 2 * unat (rs_bump r)" using lb by (auto simp: n_def)
  have sz: "unat (of_nat n * SIZEOF_RAMFS_HANDLE) = n * 16"
    using unat_of_nat_mult [of n 16] nl(2) assms(2) by (simp add: SIZEOF_RAMFS_HANDLE_def)
  have b: "unat (rs_bump r1) = unat (rs_bump r) + (n * 16 + 7) div 8 * 8" "r1 = r\<lparr>rs_bump := rs_bump r1\<rparr>"
    using ram_alloc_bump [OF _ _ a] sz nl(2) assms(2) by simp_all
  have k1: "fs_keeps {} r r1" using ram_alloc_keeps [OF assms(1) _ _ a] sz nl(2) assms(2) by simp
  note f1 = ram_alloc_fields [OF a]
  have "ramfs_ok r'"
    unfolding r'(2) using fs_keeps_ok [OF k1] b(1) nl(1)
    by (simp add: ramfs_ok_def Let_def f1 handle_ok_def len_def [symmetric] list_all_iff)
  then have "fs_keeps {} r1 r'"
    unfolding r'(2) by (simp add: fs_keeps_def contents_def)
  then have "fs_keeps {} r r'" by (rule fs_keeps_trans0 [OF k1])
  moreover have "unat (rs_bump r1) \<le> 4 * unat (rs_bump r)" using b(1) nl(2) lb(2) by simp
  ultimately show ?thesis unfolding r' using nl(1) f1 by (simp add: len_def nth_append)
next
  case (Some k)
  then show ?thesis
    using assms first_slot_SomeD [OF Some] by (auto simp: alloc_handle_def fs_keeps_refl)
qed

section \<open>Stores and growing files\<close>

lemma area_bounds:
  assumes "ramfs_ok r" "j < length (rs_files r)"
  shows "unat (rf_size (rs_files r ! j)) \<le> unat (rf_capacity (rs_files r ! j))"
    "unat (rf_data (rs_files r ! j)) + unat (rf_capacity (rs_files r ! j)) \<le> unat (rs_bump r)"
    "rf_data (rs_files r ! j) = 0 \<Longrightarrow> rf_capacity (rs_files r ! j) = 0"
  using ok_file [OF assms] by (auto simp: file_ok_def word_le_nat_alt split: if_splits)

lemma mem_keeps:
  assumes "ramfs_ok r"
    and "\<And>j x. j < length (rs_files r) \<Longrightarrow> j \<notin> K \<Longrightarrow> rf_data (rs_files r ! j) \<noteq> 0 \<Longrightarrow> unat (rf_data (rs_files r ! j)) \<le> unat x \<Longrightarrow>
        unat x < unat (rf_data (rs_files r ! j)) + unat (rf_capacity (rs_files r ! j)) \<Longrightarrow> m' x = rs_mem r x"
  shows "fs_keeps K r (r\<lparr>rs_mem := m'\<rparr>)"
proof -
  have "contents (r\<lparr>rs_mem := m'\<rparr>) j = contents r j" if j: "j < length (rs_files r)" "j \<notin> K" for j
  proof (cases "rf_data (rs_files r ! j) = 0")
    case True
    then have "unat (rf_size (rs_files r ! j)) = 0" using area_bounds [OF assms(1) j(1)] by simp
    then show ?thesis by (simp add: contents_def bytes_at_def)
  next
    case False
    have "bytes_at m' (rf_data (rs_files r ! j)) (unat (rf_size (rs_files r ! j))) =
        bytes_at (rs_mem r) (rf_data (rs_files r ! j)) (unat (rf_size (rs_files r ! j)))"
      using area_bounds [OF assms(1) j(1)] unsigned_less [of "rs_bump r", where ?'a = nat]
      by (intro bytes_at_cong) (auto intro!: assms(2) [OF j False])
    then show ?thesis by (simp add: contents_def)
  qed
  moreover have "ramfs_ok (r\<lparr>rs_mem := m'\<rparr>)" using assms(1) by (simp add: ramfs_ok_def Let_def)
  ultimately show ?thesis by (simp add: fs_keeps_def)
qed

lemma grow_cap_ends:
  assumes "0 < unat c" "unat need \<le> 2 ^ 62"
  shows "\<exists>c'. grow_cap c need = Some c' \<and> need \<le> c' \<and> unat c' \<le> max (unat c) (2 * unat need) \<and> c \<le> c'"
  using assms(1)
proof (induction "unat need - unat c" arbitrary: c rule: less_induct)
  case less
  show ?case
  proof (cases "c < need")
    case True
    have u: "unat (c * 2) = 2 * unat c"
      using True assms(2) by (simp add: word_less_nat_alt unat_word_ariths(2))
    have d: "unat need - unat (c * 2) < unat need - unat c" "0 < unat (c * 2)"
      using u less.prems True by (simp_all add: word_less_nat_alt)
    obtain c' where "grow_cap (c * 2) need = Some c'" "need \<le> c'" "unat c' \<le> max (unat (c * 2)) (2 * unat need)" "c * 2 \<le> c'"
      using less.hyps [OF d] by blast
    with True u show ?thesis
      by (subst grow_cap.simps) (auto simp: word_less_nat_alt word_le_nat_alt)
  next
    case False
    then show ?thesis by (subst grow_cap.simps) auto
  qed
qed

lemma copy_range_fresh:
  assumes "unat d + unat n \<le> 2 ^ 64" "unat x < unat d"
  shows "copy_range m d s n x = m x"
  using in_range_iff [of d "unat n" x] assms by (simp add: copy_range_def word_less_nat_alt)

lemma copy_range_bytes:
  assumes "unat d + unat n \<le> 2 ^ 64"
  shows "bytes_at (copy_range m d s n) d (unat n) = bytes_at m s (unat n)"
  unfolding bytes_at_def
proof (rule map_cong)
  fix i assume "i \<in> set [0..<unat n]"
  then have "unat (of_nat i :: u64) < unat n"
    using unsigned_less [of n, where ?'a = nat] word_of_nat_less_lt [of i, where ?'a = 64] by simp
  then show "copy_range m d s n (d + of_nat i) = m (s + of_nat i)"
    by (simp add: copy_range_def word_less_nat_alt)
qed simp

text \<open>What growing a file promises: room for \<open>need\<close> bytes, everything else as it was.\<close>

definition grown :: "nat \<Rightarrow> u64 \<Rightarrow> ramfs \<Rightarrow> ramfs \<Rightarrow> bool" where
  "grown i need r r' \<longleftrightarrow> fs_keeps {} r r' \<and> unat (rs_bump r') \<le> 3 * unat (rs_bump r) + 2 * unat need + 8200 \<and> need \<le> rf_capacity (rs_files r' ! i) \<and> rs_handles r' = rs_handles r
     \<and> length (rs_files r') = length (rs_files r) \<and> (\<forall>j. j \<noteq> i \<longrightarrow> rs_files r' ! j = rs_files r ! j)
     \<and> (\<exists>d c. rs_files r' ! i = (rs_files r ! i)\<lparr>rf_data := d, rf_capacity := c\<rparr>)"

lemma grow_file_some:
  assumes ok: "ramfs_ok r" and b: "unat (rs_bump r) \<le> 2 ^ 60" and i: "i < length (rs_files r)" and need: "unat need \<le> 2 ^ 61"
  shows "\<exists>r'. grow_file i need r = Some r' \<and> grown i need r r'"
proof (cases "need > rf_capacity (rs_files r ! i)")
  case True
  let ?f = "rs_files r ! i"
  note ab = area_bounds [OF ok i]
  have cap2: "unat (rf_capacity ?f * 2) = 2 * unat (rf_capacity ?f)"
    using ab(2) b by (simp add: unat_word_ariths(2))
  define c0 where "c0 = (if rf_capacity ?f = 0 then 4096 else rf_capacity ?f * 2)"
  have c0: "0 < unat c0" "unat c0 \<le> 2 ^ 61"
    using cap2 ab(2) b unat_eq_zero [of "rf_capacity ?f"] by (cases "rf_capacity ?f = 0"; simp add: c0_def)+
  obtain c where c: "grow_cap c0 need = Some c" "need \<le> c" "unat c \<le> 2 ^ 62" "unat c \<le> max (unat c0) (2 * unat need)"
    using grow_cap_ends [OF c0(1), of need] c0(2) need by auto
  have c0b: "unat c0 \<le> 4096 + 2 * unat (rs_bump r)" using cap2 ab(2) by (simp add: c0_def)
  obtain p r1 where a: "ram_alloc c r = (p, r1)" by fastforce
  note bm = ram_alloc_bump [OF _ c(3) a]
  have p: "p = rs_bump r" "unat p + unat c \<le> unat (rs_bump r1)" using bm b by simp_all
  have "unat (rs_bump r1) \<le> unat (rs_bump r) + unat c + 7" using bm(2) b by simp
  then have b1: "unat (rs_bump r1) \<le> 3 * unat (rs_bump r) + 2 * unat need + 8200" using c(4) c0b by simp
  note f1 = ram_alloc_fields [OF a]
  define r2 where "r2 = (if rf_data ?f \<noteq> 0 \<and> rf_size ?f > 0
    then r1\<lparr>rs_mem := copy_contents (rs_mem r1) p (rf_data ?f) (rf_size ?f)\<rparr> else r1)"
  define r' where "r' = upd_file i (\<lambda>f. f\<lparr>rf_data := p, rf_capacity := c\<rparr>) r2"
  have res: "grow_file i need r = Some r'"
    using True c(1) a by (simp add: grow_file_def c0_def [symmetric] r2_def r'_def Let_def)
  have ends: "unat (rf_data f) + unat (rf_capacity f) \<le> unat p" if "f \<in> set (rs_files r)" for f
    using that area_bounds(2) [OF ok] by (auto simp: in_set_conv_nth p(1))
  have sz: "unat (rf_size ?f) \<le> unat c" using ab(1) True c(2) by (simp add: word_less_nat_alt word_le_nat_alt)
  have pc: "unat p + unat c \<le> 2 ^ 64" using p(2) unsigned_less [of "rs_bump r1", where ?'a = nat] by simp
  have cr: "copy_contents (rs_mem r) p (rf_data ?f) (rf_size ?f) = copy_range (rs_mem r) p (rf_data ?f) (rf_size ?f)"
    using sz pc ab ends [OF nth_mem [OF i]]
    by (intro copy_contents_eq) (auto simp: ranges_apart_def)
  have k1: "fs_keeps {} r r1" using ram_alloc_keeps [OF ok _ c(3) a] b by simp
  have k2: "fs_keeps {} r1 r2"
  proof (cases "rf_data ?f \<noteq> 0 \<and> rf_size ?f > 0")
    case copied: True
    have "copy_range (rs_mem r) p (rf_data ?f) (rf_size ?f) x = rs_mem r x"
      if "j < length (rs_files r)" "unat x < unat (rf_data (rs_files r ! j)) + unat (rf_capacity (rs_files r ! j))" for j x
      using ends [OF nth_mem [OF that(1)]] that(2) sz pc by (intro copy_range_fresh) auto
    then show ?thesis
      unfolding r2_def using copied by (simp only: if_True simp_thms, intro mem_keeps fs_keeps_ok [OF k1]) (auto simp: f1 cr)
  qed (auto simp: r2_def intro: fs_keeps_refl fs_keeps_ok [OF k1])
  have f2: "rs_files r2 = rs_files r" "rs_handles r2 = rs_handles r" "rs_bump r2 = rs_bump r1" by (simp_all add: r2_def f1)
  have "fs_keeps {i} r2 r'"
    unfolding r'_def using ok_file [OF ok i] ends p sz i ok
    by (intro upd_file_keeps fs_keeps_ok [OF k2]) (auto simp: f2 file_ok_def word_le_nat_alt ramfs_ok_def Let_def split: if_splits)
  then have k: "fs_keeps {i} r r'" using fs_keeps_trans [OF fs_keeps_trans0 [OF k1 k2]] by fastforce
  have "contents r' i = contents r i"
  proof (cases "rf_data ?f \<noteq> 0 \<and> rf_size ?f > 0")
    case copied: True
    then show ?thesis
      using i copy_range_bytes [of p "rf_size ?f" "rs_mem r" "rf_data ?f"] sz pc
      by (simp add: contents_def r'_def upd_file_def f2 r2_def f1 cr)
  next
    case False
    then have "rf_size ?f = 0" using ab unat_eq_zero [of "rf_size ?f"] by (auto simp: word_gt_0)
    then show ?thesis using i by (simp add: contents_def r'_def upd_file_def f2 bytes_at_def)
  qed
  with k have "fs_keeps {} r r'" by (auto simp: fs_keeps_def)
  then have "grown i need r r'" unfolding grown_def using i c(2) b1 by (auto simp: r'_def upd_file_def f2)
  with res show ?thesis by blast
next
  case False
  have e: "rs_files r ! i = (rs_files r ! i)\<lparr>rf_data := rf_data (rs_files r ! i), rf_capacity := rf_capacity (rs_files r ! i)\<rparr>"
    by simp
  then have ex: "\<exists>d c. rs_files r ! i = (rs_files r ! i)\<lparr>rf_data := d, rf_capacity := c\<rparr>" by blast
  have "grown i need r r" unfolding grown_def using ok ex False by (simp add: fs_keeps_refl not_less)
  with False show ?thesis by (simp add: grow_file_def Let_def)
qed

section \<open>The handlers\<close>

definition free_entries :: "ramfs \<Rightarrow> nat set" where
  "free_entries r = {j. \<not> rf_in_use (rs_files r ! j)}"

lemma got_slot_keeps:
  assumes "got_slot i r r1" "fs_keeps K r1 r2" "K \<subseteq> {i}"
  shows "fs_keeps (free_entries r) r r2"
proof -
  have k: "fs_keeps {} r r1" using assms(1) by (simp add: got_slot_def)
  have "contents r2 j = contents r j" if j: "j < length (rs_files r)" "j \<notin> free_entries r" for j
  proof -
    have "rs_files r1 ! j = rs_files r ! j" using assms(1) j(1) fs_keeps_len [OF k] by (auto simp: got_slot_def)
    then have "j \<noteq> i" using assms(1) j(2) by (auto simp: got_slot_def free_entries_def)
    then have "contents r2 j = contents r1 j" using assms(2,3) fs_keeps_len [OF k j(1)] by (auto simp: fs_keeps_def)
    then show ?thesis using k j(1) by (simp add: fs_keeps_def)
  qed
  moreover have "ramfs_ok r2" "rs_bump r \<le> rs_bump r2" "length (rs_files r) \<le> length (rs_files r2)"
    using k assms(2) by (auto simp: fs_keeps_def)
  ultimately show ?thesis by (simp add: fs_keeps_def)
qed

lemma file_ok_meta [simp]:
  "file_ok b (f\<lparr>rf_is_dir := d\<rparr>) = file_ok b f" "file_ok b (f\<lparr>rf_is_symlink := d\<rparr>) = file_ok b f"
  "file_ok b (f\<lparr>rf_parent_ino := n\<rparr>) = file_ok b f" "file_ok b (f\<lparr>rf_atime := n\<rparr>) = file_ok b f"
  "file_ok b (f\<lparr>rf_mtime := n\<rparr>) = file_ok b f" "file_ok b (f\<lparr>rf_ctime := n\<rparr>) = file_ok b f"
  by (simp_all add: file_ok_def)

lemma xattrs_reset_fields [simp]:
  "rf_data (xattrs_reset f) = rf_data f" "rf_capacity (xattrs_reset f) = rf_capacity f" "rf_size (xattrs_reset f) = rf_size f"
  "rf_name (xattrs_reset f) = rf_name f" "rf_target (xattrs_reset f) = rf_target f" "rf_in_use (xattrs_reset f) = rf_in_use f"
  "rf_is_dir (xattrs_reset f) = rf_is_dir f" "rf_is_symlink (xattrs_reset f) = rf_is_symlink f"
  "length (rf_xattrs (xattrs_reset f)) = length (rf_xattrs f)"
  "list_all xattr_ok (rf_xattrs (xattrs_reset f)) = list_all xattr_ok (rf_xattrs f)"
  by (simp_all add: xattrs_reset_def list_all_iff xattr_ok_def)

lemma upd_file_files [simp]:
  "length (rs_files (upd_file i g r)) = length (rs_files r)" "rs_bump (upd_file i g r) = rs_bump r"
  "rs_handles (upd_file i g r) = rs_handles r" "rs_mem (upd_file i g r) = rs_mem r"
  "i < length (rs_files r) \<Longrightarrow> rs_files (upd_file i g r) ! i = g (rs_files r ! i)"
  by (simp_all add: upd_file_def)

lemma meta_keeps:
  "ramfs_ok r \<Longrightarrow> i < length (rs_files r) \<Longrightarrow> fs_keeps {} r (upd_file i (\<lambda>f. f\<lparr>rf_parent_ino := n\<rparr>) r)"
  "ramfs_ok r \<Longrightarrow> i < length (rs_files r) \<Longrightarrow> fs_keeps {} r (upd_file i (\<lambda>f. f\<lparr>rf_in_use := u\<rparr>) r)"
  "ramfs_ok r \<Longrightarrow> i < length (rs_files r) \<Longrightarrow> name_ok s \<Longrightarrow> fs_keeps {} r (upd_file i (\<lambda>f. f\<lparr>rf_name := s\<rparr>) r)"
  by (auto simp: file_ok_def intro!: upd_file_same dest: ok_file)

lemma find_file_less: "find_file name r = Some i \<Longrightarrow> i < length (rs_files r)"
  by (auto simp: find_file_def dest: first_slot_less)

lemma resolve_hops_less: "resolve_hops n cur r = Some i \<Longrightarrow> i < length (rs_files r)"
  by (induction n cur r rule: resolve_hops.induct) (auto dest: find_file_less split: option.splits if_splits)

lemma follow_less: "follow name r = Some i \<Longrightarrow> i < length (rs_files r)"
  by (auto simp: follow_def resolve_path_def dest: find_file_less resolve_hops_less split: option.splits if_splits)

lemma make_entry_keeps:
  assumes "ramfs_ok r" "unat (rs_bump r) \<le> 2 ^ 48" "0 \<notin> set name"
  shows "fs_keeps (free_entries r) r (make_entry dir name ino r)"
proof -
  obtain i r1 where a: "alloc_file r = (i, r1)" by fastforce
  note g = alloc_file_slot [OF assms(1,2) a]
  have ok: "ramfs_ok r1" and i: "i < length (rs_files r1)" using g by (auto simp: got_slot_def dest: fs_keeps_ok)
  have "fs_keeps {i} r1 (make_entry dir name ino r)"
    unfolding make_entry_def a Let_def prod.case using ok_file [OF ok i] assms(3)
    by (intro upd_file_keeps ok i) (auto simp: file_ok_def intro: name_ok_set_name)
  with g show ?thesis by (rule got_slot_keeps) simp
qed

lemma name_field_no_zero [simp]: "0 \<notin> set (name_field off n rest m)"
  by (simp add: name_field_def cstring_no_zero)

lemma handle_mkdir_keeps:
  "ramfs_ok r \<Longrightarrow> unat (rs_bump r) \<le> 2 ^ 48 \<Longrightarrow> fs_keeps (free_entries r) r (snd (handle_mkdir e m r))"
  by (auto simp: handle_mkdir_def Let_def split: option.splits intro: make_entry_keeps fs_keeps_mono [OF fs_keeps_refl])

lemma handle_mknod_keeps:
  "ramfs_ok r \<Longrightarrow> unat (rs_bump r) \<le> 2 ^ 48 \<Longrightarrow> fs_keeps (free_entries r) r (snd (handle_mknod e m r))"
  by (auto simp: handle_mknod_def Let_def split: option.splits intro: make_entry_keeps fs_keeps_mono [OF fs_keeps_refl])

lemma handle_unlink_keeps: "ramfs_ok r \<Longrightarrow> fs_keeps {} r (snd (handle_unlink e m r))"
  by (auto simp: handle_unlink_def split: option.splits intro: fs_keeps_refl meta_keeps dest: find_file_less)

lemma handle_rmdir_keeps: "ramfs_ok r \<Longrightarrow> fs_keeps {} r (snd (handle_rmdir e m r))"
  by (auto simp: handle_rmdir_def split: option.splits intro: fs_keeps_refl meta_keeps dest: find_file_less)

lemma handle_close_keeps: "ramfs_ok r \<Longrightarrow> fs_keeps {} r (snd (handle_close m r))"
  by (auto simp: handle_close_def Let_def handle_ok_def intro!: fs_keeps_refl upd_handle_keeps)

lemma handle_utimens_keeps: "ramfs_ok r \<Longrightarrow> fs_keeps {} r (snd (handle_utimens m r))"
  by (auto simp: handle_utimens_def Let_def intro!: fs_keeps_refl upd_file_same ok_file ok_handle)

lemma handle_rename_keeps:
  assumes "ramfs_ok r"
  shows "fs_keeps {} r (snd (handle_rename e m r))"
proof -
  let ?new = "name_field 28 VFS_NAME_MAX (en_stack2 e) m"
  have two: "fs_keeps {} r (upd_file i (\<lambda>f. f\<lparr>rf_parent_ino := g\<rparr>) (upd_file i (\<lambda>f. f\<lparr>rf_name := set_name ?new VFS_PATH_MAX\<rparr>) r1))"
    if "fs_keeps {} r r1" "i < length (rs_files r1)" for r1 i g
  proof -
    have k: "fs_keeps {} r1 (upd_file i (\<lambda>f. f\<lparr>rf_name := set_name ?new VFS_PATH_MAX\<rparr>) r1)"
      using fs_keeps_ok [OF that(1)] that(2) by (intro meta_keeps) simp_all
    then show ?thesis
      using that meta_keeps(1) [OF fs_keeps_ok [OF k]] by (intro fs_keeps_trans0 [OF that(1) fs_keeps_trans0 [OF k]]) simp
  qed
  show ?thesis
    using assms fs_keeps_refl [OF assms]
    by (auto simp: handle_rename_def Let_def split: option.splits intro!: two meta_keeps(2) dest: find_file_less)
qed

lemma handle_symlink_keeps:
  assumes "ramfs_ok r" "unat (rs_bump r) \<le> 2 ^ 48"
  shows "fs_keeps (free_entries r) r (snd (handle_symlink e m r))"
proof -
  obtain i r1 where a: "alloc_file r = (i, r1)" by fastforce
  note g = alloc_file_slot [OF assms a]
  have ok: "ramfs_ok r1" and i: "i < length (rs_files r1)" using g by (auto simp: got_slot_def dest: fs_keeps_ok)
  let ?r2 = "upd_file i (\<lambda>f. xattrs_reset (f\<lparr>rf_in_use := True, rf_is_dir := False, rf_is_symlink := True\<rparr>)
      \<lparr>rf_size := 0, rf_name := set_name (name_field 8 VFS_NAME_MAX (en_stack1 e) m) VFS_PATH_MAX,
       rf_target := set_name (name_field 28 VFS_NAME_MAX (en_stack2 e) m) VFS_PATH_MAX\<rparr>) r1"
  have k: "fs_keeps {i} r1 ?r2"
    using ok_file [OF ok i] by (intro upd_file_keeps ok i) (auto simp: file_ok_def intro: name_ok_set_name)
  then have "fs_keeps {i} r1 (upd_file i (\<lambda>f. f\<lparr>rf_parent_ino := n\<rparr>) ?r2)" for n
    using meta_keeps(1) [OF fs_keeps_ok [OF k], of i n] i by (intro fs_keeps_trans0 [OF k]) simp
  then have "fs_keeps (free_entries r) r (upd_file i (\<lambda>f. f\<lparr>rf_parent_ino := n\<rparr>) ?r2)" for n
    by (rule got_slot_keeps [OF g]) simp
  then show ?thesis
    using fs_keeps_mono [OF fs_keeps_refl [OF assms(1)]] by (auto simp: handle_symlink_def Let_def a)
qed

end
