(* ===== verification/Ramfsserve.thy ===== *)
theory Ramfsserve
  imports Ramfsok
begin

text \<open>
  The requests of the memory file server as a whole: the remaining handlers of \<^verbatim>\<open>src/servers/fs/ramfs/vfs.c\<close>
  keep the invariant, what reading and writing do to the contents of a file, and the properties of the
  server over every sequence of requests and through the client functions of \<^verbatim>\<open>include/robu/vfs.h\<close>.
\<close>

section \<open>Reading and writing\<close>

lemma read_len: "(if len < avail then len else avail) \<le> (avail :: u64)"
  by auto

lemma add_within:
  fixes a b c :: u64
  assumes "a \<le> c" "b \<le> c - a"
  shows "unat (a + b) = unat a + unat b" "unat a + unat b \<le> unat c"
proof -
  show le: "unat a + unat b \<le> unat c" using assms by (simp add: word_le_nat_alt unat_sub)
  then show "unat (a + b) = unat a + unat b"
    using unsigned_less [of c, where ?'a = nat] unat_add_nat [of a "unat b"] by simp
qed

text \<open>The number of bytes that a read returns, and the offset after it.\<close>

definition read_count :: "u64 \<Rightarrow> u64 \<Rightarrow> ramfs \<Rightarrow> u64" where
  "read_count h len r =
     (let hd = rs_handles r ! unat h; f = rs_files r ! rh_file_idx hd;
          avail = (if rf_size f > rh_offset hd then rf_size f - rh_offset hd else 0)
      in if len < avail then len else avail)"

lemma read_count_bound:
  assumes "ramfs_ok r" "valid_handle h r"
  shows "unat (rh_offset (rs_handles r ! unat h) + read_count h len r) \<le> unat (rs_bump r)"
proof (cases "rf_size (rs_files r ! handle_file h r) > rh_offset (rs_handles r ! unat h)")
  case True
  then have n: "read_count h len r \<le> rf_size (rs_files r ! handle_file h r) - rh_offset (rs_handles r ! unat h)"
    by (auto simp: read_count_def Let_def)
  show ?thesis
    using add_within [OF less_imp_le [OF True] n] area_bounds(1,2) [OF assms(1) ok_handle [OF assms]] by linarith
next
  case False
  then have "read_count h len r = 0" by (auto simp: read_count_def Let_def)
  then show ?thesis using ok_offset [OF assms] by simp
qed

lemma handle_read_keeps:
  assumes "ramfs_ok r"
  shows "fs_keeps {} r (snd (handle_read m r))"
proof (cases "valid_handle (rd64 m 8) r")
  case True
  have "snd (handle_read m r) = upd_handle (unat (rd64 m 8))
      (\<lambda>d. d\<lparr>rh_offset := rh_offset d + read_count (rd64 m 8) (if rd64 m 16 > VFS_READ_MAX then VFS_READ_MAX else rd64 m 16) r\<rparr>) r"
    using True by (simp add: handle_read_def Let_def read_count_def)
  then show ?thesis
    using ok_handle [OF assms True] read_count_bound [OF assms True]
    by (simp add: upd_handle_keeps [OF assms] handle_ok_def)
next
  case False
  then show ?thesis using fs_keeps_refl [OF assms] by (simp add: handle_read_def Let_def)
qed

lemma store_bytes_outside:
  assumes "unat a + length bs \<le> 2 ^ 64" "unat x < unat a \<or> unat a + length bs \<le> unat x"
  shows "store_bytes m a bs x = m x"
  using in_range_iff [of a "length bs" x] assms by (auto simp: store_bytes_def)

lemma bytes_at_store:
  assumes "unat a + n \<le> 2 ^ 64" "off + length d \<le> n"
  shows "bytes_at (store_bytes m (a + of_nat off) d) a n = take off (bytes_at m a n) @ d @ drop (off + length d) (bytes_at m a n)"
proof (rule nth_equalityI)
  fix j assume "j < length (bytes_at (store_bytes m (a + of_nat off) d) a n)"
  then have j: "j < n" by simp
  have "unat (a + of_nat j - (a + of_nat off)) < length d \<longleftrightarrow> off \<le> j \<and> j < off + length d" if "0 < length d"
    using in_range_iff [of "a + of_nat off" "length d" "a + of_nat j"] unat_add_nat [of a off] unat_add_nat [of a j] that assms j by auto
  moreover have "unat (a + of_nat j - (a + of_nat off)) = j - off" if "off \<le> j"
  proof -
    have "a + of_nat j - (a + of_nat off) = (of_nat (j - off) :: u64)" using that by (simp add: of_nat_diff)
    then show ?thesis using j assms(1) by (simp only:) (rule word_of_nat_less_lt, simp)
  qed
  ultimately show "bytes_at (store_bytes m (a + of_nat off) d) a n ! j = (take off (bytes_at m a n) @ d @ drop (off + length d) (bytes_at m a n)) ! j"
    using j assms(2) by (cases "length d = 0") (auto simp: store_bytes_def nth_append)
qed (use assms in simp)

text \<open>Overwriting bytes \<open>d\<close> at offset \<open>off\<close> of a file with contents \<open>c\<close>.\<close>

definition splice :: "nat \<Rightarrow> u8 list \<Rightarrow> u8 list \<Rightarrow> u8 list" where
  "splice off d c = take off c @ d @ drop (off + length d) c"

lemma take_bytes_at: "k \<le> n \<Longrightarrow> take k (bytes_at m a n) = bytes_at m a k"
  by (simp add: bytes_at_def take_map)

lemma contents_store:
  assumes "unat a + max n (off + length d) \<le> 2 ^ 64" "off \<le> n"
  shows "bytes_at (store_bytes m (a + of_nat off) d) a (max n (off + length d)) = splice off d (bytes_at m a n)"
proof -
  have "take off (bytes_at m a (max n (off + length d))) = take off (bytes_at m a n)"
    using assms(2) by (simp add: take_bytes_at)
  moreover have "drop (off + length d) (bytes_at m a (max n (off + length d))) = drop (off + length d) (bytes_at m a n)"
    by (cases "off + length d \<le> n") (simp_all add: max_def)
  ultimately show ?thesis using bytes_at_store [OF assms(1), of off d m] by (simp add: splice_def)
qed

definition write_len :: "msg \<Rightarrow> u64" where
  "write_len m = (if rd64 m 16 > VFS_WRITE_MAX then VFS_WRITE_MAX else rd64 m 16)"

definition write_data :: "msg \<Rightarrow> u8 list" where
  "write_data m = take (unat (write_len m)) (drop 24 m)"

lemma write_len_bound: "unat (write_len m) \<le> 24"
  by (auto simp: write_len_def VFS_WRITE_MAX_def word_less_nat_alt)

lemma length_write_data: "length m = 48 \<Longrightarrow> length (write_data m) = unat (write_len m)"
  using write_len_bound [of m] by (simp add: write_data_def)

text \<open>A write through a valid handle.\<close>

lemma handle_write_some:
  assumes ok: "ramfs_ok r" and b: "unat (rs_bump r) \<le> 2 ^ 58" and m: "length m = 48" and v: "valid_handle (rd64 m 8) r"
  defines "i \<equiv> handle_file (rd64 m 8) r" and "off \<equiv> rh_offset (rs_handles r ! unat (rd64 m 8))"
  shows "\<exists>r'. handle_write e m r = Some (reply_status (write_len m) m, r') \<and> fs_keeps {i} r r' \<and> unat (rs_bump r') \<le> 6 * unat (rs_bump r)
    \<and> rs_handles r' = (rs_handles r)[unat (rd64 m 8) := (rs_handles r ! unat (rd64 m 8))\<lparr>rh_offset := off + write_len m\<rparr>]
    \<and> length (rs_files r') = length (rs_files r) \<and> (\<forall>j. j \<noteq> i \<longrightarrow> rs_files r' ! j = rs_files r ! j)
    \<and> rf_in_use (rs_files r' ! i) = rf_in_use (rs_files r ! i) \<and> rf_name (rs_files r' ! i) = rf_name (rs_files r ! i)
    \<and> rf_is_symlink (rs_files r' ! i) = rf_is_symlink (rs_files r ! i)
    \<and> (off \<le> rf_size (rs_files r ! i) \<longrightarrow> contents r' i = splice (unat off) (write_data m) (contents r i))"
proof -
  have i: "i < length (rs_files r)" using ok_handle [OF ok v] by (simp add: i_def)
  have offb: "unat off \<le> unat (rs_bump r)" using ok_offset [OF ok v] by (simp add: off_def)
  have ou: "unat (off + write_len m) = unat off + unat (write_len m)"
    using unat_add_nat [of off "unat (write_len m)"] write_len_bound [of m] offb b by simp
  obtain r1 where g: "grow_file i (off + write_len m) r = Some r1" "grown i (off + write_len m) r r1"
    using grow_file_some [OF ok _ i, of "off + write_len m"] ou write_len_bound [of m] offb b by auto
  have k1: "fs_keeps {} r r1" and h1: "rs_handles r1 = rs_handles r" and l1: "length (rs_files r1) = length (rs_files r)"
    and c1: "off + write_len m \<le> rf_capacity (rs_files r1 ! i)" using g(2) by (simp_all add: grown_def)
  obtain d c where f1: "rs_files r1 ! i = (rs_files r ! i)\<lparr>rf_data := d, rf_capacity := c\<rparr>" using g(2) by (auto simp: grown_def)
  have "unat (rs_bump r1) \<le> 3 * unat (rs_bump r) + 2 * unat (off + write_len m) + 8200" using g(2) by (simp add: grown_def)
  moreover have "0x40000000 \<le> unat (rs_bump r)" using ok by (simp add: ramfs_ok_def Let_def)
  ultimately have b1: "unat (rs_bump r1) \<le> 6 * unat (rs_bump r)" using ou offb write_len_bound [of m] by simp
  have o1: "\<forall>j. j \<noteq> i \<longrightarrow> rs_files r1 ! j = rs_files r ! j" using g(2) by (simp add: grown_def)
  have ok1: "ramfs_ok r1" using k1 by (rule fs_keeps_ok)
  have i1: "i < length (rs_files r1)" using i l1 by simp
  note ab = area_bounds [OF ok1 i1, unfolded f1, simplified]
  have c: "unat off + unat (write_len m) \<le> unat c" using c1 ou by (simp add: f1 word_le_nat_alt)
  have lt: "unat (rs_bump r1) < 2 ^ 64" using unsigned_less [of "rs_bump r1", where ?'a = nat] by simp
  have du: "unat (d + off) = unat d + unat off" using unat_add_nat [of d "unat off"] c ab(2) lt by simp
  let ?mem = "store_bytes (rs_mem r1) (d + off) (write_data m)"
  let ?h = "\<lambda>x. x\<lparr>rh_offset := off + write_len m\<rparr>"
  let ?u = "\<lambda>f. f\<lparr>rf_size := if off + write_len m > rf_size f then off + write_len m else rf_size f,
      rf_mtime := ramfs_now e, rf_ctime := ramfs_now e\<rparr>"
  define r2 where "r2 = r1\<lparr>rs_mem := ?mem\<rparr>"
  define r3 where "r3 = upd_handle (unat (rd64 m 8)) ?h r2"
  define r' where "r' = upd_file i ?u r3"
  have res: "handle_write e m r = Some (reply_status (write_len m) m, r')"
    using v g(1) f1
    by (simp add: handle_write_def Let_def write_len_def [symmetric] write_data_def [symmetric] i_def [symmetric] off_def [symmetric] r'_def r3_def r2_def cong: if_cong)
  have f3: "rs_files r3 = rs_files r1" "rs_bump r3 = rs_bump r1" "rs_files r2 = rs_files r1" "rs_bump r2 = rs_bump r1"
    "rs_handles r2 = rs_handles r" "rs_mem r3 = ?mem"
    by (simp_all add: r3_def upd_handle_def r2_def h1)
  have k2: "fs_keeps {i} r1 r2"
    unfolding r2_def
  proof (rule mem_keeps [OF ok1])
    fix j and x :: u64 assume j: "j < length (rs_files r1)" "j \<notin> {i}" "rf_data (rs_files r1 ! j) \<noteq> 0"
      and x: "unat (rf_data (rs_files r1 ! j)) \<le> unat x" "unat x < unat (rf_data (rs_files r1 ! j)) + unat (rf_capacity (rs_files r1 ! j))"
    show "?mem x = rs_mem r1 x"
    proof (cases "d = 0")
      case True
      then have "write_data m = []" using ab(3) c length_write_data [OF m] by simp
      then show ?thesis by (simp add: store_bytes_def)
    next
      case False
      have "areas_apart (rs_files r1)" using ok1 by (simp add: ramfs_ok_def Let_def)
      then have "ranges_apart d (unat c) (rf_data (rs_files r1 ! j)) (unat (rf_capacity (rs_files r1 ! j)))"
        using i1 j False by (force simp: areas_apart_def f1)
      then show ?thesis
        using x c du ab(2) lt length_write_data [OF m] by (intro store_bytes_outside) (auto simp: ranges_apart_def)
    qed
  qed
  have k3: "fs_keeps {} r2 r3"
    unfolding r3_def using ok_handle [OF ok v] ou c ab(2)
    by (intro upd_handle_keeps fs_keeps_ok [OF k2]) (auto simp: handle_ok_def f3 l1)
  have szc: "rf_size (?u (rs_files r3 ! i)) \<le> c"
    using c1 ab(1) by (auto simp: f3 f1 word_le_nat_alt)
  have k4: "fs_keeps {i} r3 r'"
    unfolding r'_def using ok_file [OF ok1 i1] szc i1
    by (intro upd_file_keeps fs_keeps_ok [OF k3]) (auto simp: f3 f1 file_ok_def split: if_splits)
  have "fs_keeps {i} r r'"
    using fs_keeps_trans [OF fs_keeps_trans [OF k1 fs_keeps_trans0 [OF k2 k3]] k4] by simp
  moreover have "contents r' i = splice (unat off) (write_data m) (contents r i)" if "off \<le> rf_size (rs_files r ! i)"
  proof -
    have sz: "unat (rf_size (?u (rs_files r3 ! i))) = max (unat (rf_size (rs_files r ! i))) (unat off + length (write_data m))"
      using ou by (auto simp: f3 f1 length_write_data [OF m] word_less_nat_alt max_def)
    then have "contents r' i = bytes_at ?mem d (max (unat (rf_size (rs_files r ! i))) (unat off + length (write_data m)))"
      using i1 by (simp add: contents_def r'_def f3 f1)
    also have "\<dots> = splice (unat off) (write_data m) (bytes_at (rs_mem r1) d (unat (rf_size (rs_files r ! i))))"
      using contents_store [of d "unat (rf_size (rs_files r ! i))" "unat off" "write_data m" "rs_mem r1"] that
        ab c lt length_write_data [OF m] by (simp add: word_le_nat_alt)
    also have "bytes_at (rs_mem r1) d (unat (rf_size (rs_files r ! i))) = contents r1 i" by (simp add: contents_def f1)
    also have "contents r1 i = contents r i" using k1 i by (simp add: fs_keeps_def)
    finally show ?thesis .
  qed
  moreover have "rs_handles r' = (rs_handles r)[unat (rd64 m 8) := ?h (rs_handles r ! unat (rd64 m 8))]"
    by (simp add: r'_def r3_def upd_handle_def f3)
  moreover have "length (rs_files r') = length (rs_files r)" "\<forall>j. j \<noteq> i \<longrightarrow> rs_files r' ! j = rs_files r ! j"
    "rs_files r' ! i = ?u (rs_files r1 ! i)" "unat (rs_bump r') \<le> 6 * unat (rs_bump r)"
    using o1 l1 i1 b1 by (simp_all add: r'_def upd_file_def f3)
  ultimately show ?thesis using res by (simp add: f1)
qed

lemma handle_write_keeps:
  assumes "ramfs_ok r" "unat (rs_bump r) \<le> 2 ^ 58" "length m = 48"
  shows "\<exists>m' r'. handle_write e m r = Some (m', r') \<and> length m' = 48
    \<and> fs_keeps (if valid_handle (rd64 m 8) r then {handle_file (rd64 m 8) r} else {}) r r'"
proof (cases "valid_handle (rd64 m 8) r")
  case True
  then show ?thesis using handle_write_some [OF assms, of e] assms(3) by auto
next
  case False
  then show ?thesis using fs_keeps_refl [OF assms(1)] assms(3) by (simp add: handle_write_def Let_def)
qed

section \<open>Opening and linking\<close>

definition open_touched :: "u8 list \<Rightarrow> u64 \<Rightarrow> ramfs \<Rightarrow> nat set" where
  "open_touched name flags r = (if flags AND VFS_O_TRUNC \<noteq> 0 then set_option (follow name r) else {})"

lemma open_entry_keeps:
  assumes "ramfs_ok r" "unat (rs_bump r) \<le> 2 ^ 48" "0 \<notin> set name" "open_entry e name flags r = Some (i, r')"
  shows "fs_keeps (free_entries r \<union> open_touched name flags r) r r' \<and> i < length (rs_files r')
    \<and> unat (rs_bump r') \<le> 4 * unat (rs_bump r)"
proof (cases "follow name r")
  case None
  obtain k r1 where a: "alloc_file r = (k, r1)" by fastforce
  note g = alloc_file_slot [OF assms(1,2) a]
  have ok: "ramfs_ok r1" and k: "k < length (rs_files r1)" using g by (auto simp: got_slot_def dest: fs_keeps_ok)
  let ?r2 = "upd_file k (\<lambda>f. xattrs_reset (f\<lparr>rf_in_use := True, rf_is_dir := False, rf_is_symlink := False,
      rf_size := 0, rf_capacity := 0, rf_data := 0, rf_atime := ramfs_now e, rf_mtime := ramfs_now e, rf_ctime := ramfs_now e\<rparr>)
      \<lparr>rf_name := set_name name VFS_PATH_MAX\<rparr>) r1"
  have r': "i = k" "r' = upd_file k (\<lambda>f. f\<lparr>rf_parent_ino := resolve_parent_ino name ?r2\<rparr>) ?r2"
    using assms(4) None a by (auto simp: open_entry_def Let_def split: if_splits)
  have k2: "fs_keeps {k} r1 ?r2"
    using ok_file [OF ok k] assms(3) by (intro upd_file_keeps ok k) (auto simp: file_ok_def intro: name_ok_set_name)
  then have "fs_keeps {k} r1 r'"
    unfolding r' using meta_keeps(1) [OF fs_keeps_ok [OF k2], of k] k by (intro fs_keeps_trans0 [OF k2]) simp
  then have "fs_keeps (free_entries r) r r'" by (rule got_slot_keeps [OF g]) simp
  moreover have "i < length (rs_files r')" "unat (rs_bump r') \<le> 4 * unat (rs_bump r)"
    using k g by (simp_all add: r' got_slot_def)
  ultimately show ?thesis by (auto intro: fs_keeps_mono)
next
  case (Some k)
  note k = follow_less [OF Some]
  have r': "i = k" "r' = (if flags AND VFS_O_TRUNC \<noteq> 0
      then upd_file k (\<lambda>f. f\<lparr>rf_size := 0, rf_mtime := ramfs_now e, rf_ctime := ramfs_now e\<rparr>) r else r)"
    using assms(4) Some by (auto simp: open_entry_def Let_def)
  have "fs_keeps {k} r (upd_file k (\<lambda>f. f\<lparr>rf_size := 0, rf_mtime := ramfs_now e, rf_ctime := ramfs_now e\<rparr>) r)"
    using ok_file [OF assms(1) k] by (intro upd_file_keeps assms k) (auto simp: file_ok_def)
  then show ?thesis
    using k fs_keeps_refl [OF assms(1)] Some by (auto simp: r' open_touched_def intro: fs_keeps_mono)
qed

lemma handle_open_keeps:
  assumes "ramfs_ok r" "unat (rs_bump r) \<le> 2 ^ 48"
  shows "fs_keeps (free_entries r \<union> open_touched (name_field 16 VFS_PATH_MAX (en_stack1 e) m) (rd64 m 8) r) r (snd (handle_open e m r))"
proof (cases "open_entry e (name_field 16 VFS_PATH_MAX (en_stack1 e) m) (rd64 m 8) r")
  case None
  then show ?thesis using fs_keeps_mono [OF fs_keeps_refl [OF assms(1)]] by (simp add: handle_open_def Let_def)
next
  case (Some p)
  then obtain i r1 where o: "open_entry e (name_field 16 VFS_PATH_MAX (en_stack1 e) m) (rd64 m 8) r = Some (i, r1)" by (cases p) simp
  note k1 = open_entry_keeps [OF assms _ o]
  have ok1: "ramfs_ok r1" and i: "i < length (rs_files r1)" and b: "unat (rs_bump r1) \<le> 2 ^ 60"
    using k1 assms(2) by (auto dest: fs_keeps_ok)
  obtain h r2 where a: "alloc_handle r1 = (h, r2)" by fastforce
  note k2 = alloc_handle_keeps [OF ok1 b a]
  have ok2: "ramfs_ok r2" and i2: "i < length (rs_files r2)" using k2 i by (auto dest: fs_keeps_ok)
  have "fs_keeps {} r2 (upd_handle h (\<lambda>_. \<lparr>rh_in_use = True, rh_file_idx = i,
      rh_offset = if rd64 m 8 AND VFS_O_APPEND \<noteq> 0 then rf_size (rs_files r2 ! i) else 0\<rparr>) r2)"
    using area_bounds(1,2) [OF ok2 i2] i2 by (intro upd_handle_keeps ok2) (auto simp: handle_ok_def)
  then have "fs_keeps {} r1 (snd (handle_open e m r))"
    using k2 fs_keeps_trans0 by (auto simp: handle_open_def Let_def o a)
  with k1 show ?thesis using fs_keeps_trans0 by auto
qed

lemma link_area:
  assumes ok: "ramfs_ok r1" and b: "unat (rs_bump r1) \<le> 2 ^ 50" "unat len \<le> 2 ^ 50"
    and p: "(if len \<noteq> 0 then ram_alloc len r1 else (0, r1)) = (p, r2)"
  shows "fs_keeps {} r1 r2" "rs_files r2 = rs_files r1"
    "len \<noteq> 0 \<Longrightarrow> p = rs_bump r1 \<and> unat p + unat len \<le> unat (rs_bump r2)" "len = 0 \<Longrightarrow> p = 0"
proof -
  have "fs_keeps {} r1 r2 \<and> rs_files r2 = rs_files r1 \<and> (if len = 0 then p = 0 else p = rs_bump r1 \<and> unat p + unat len \<le> unat (rs_bump r2))"
  proof (cases "len = 0")
    case True
    then show ?thesis using p fs_keeps_refl [OF ok] by auto
  next
    case False
    then have a: "ram_alloc len r1 = (p, r2)" using p by simp
    note ab = ram_alloc_bump [OF _ _ a]
    show ?thesis using ram_alloc_keeps [OF ok _ _ a] ab(1,2) ram_alloc_fields(1) [OF a] b False by simp
  qed
  then show "fs_keeps {} r1 r2" "rs_files r2 = rs_files r1"
    "len \<noteq> 0 \<Longrightarrow> p = rs_bump r1 \<and> unat p + unat len \<le> unat (rs_bump r2)" "len = 0 \<Longrightarrow> p = 0"
    by (auto split: if_splits)
qed

lemma link_entry_keeps:
  assumes ok: "ramfs_ok r" and b: "unat (rs_bump r) \<le> 2 ^ 48" and src: "unat src + unat len \<le> unat (rs_bump r)"
    and new: "0 \<notin> set newname"
  shows "fs_keeps (free_entries r) r (link_entry len src newname ino r)"
proof -
  obtain i r1 where a: "alloc_file r = (i, r1)" by fastforce
  note g = alloc_file_slot [OF ok b a]
  have k1: "fs_keeps {} r r1" and i: "i < length (rs_files r1)" and b1: "unat (rs_bump r1) \<le> 2 ^ 50"
    using g b by (auto simp: got_slot_def)
  have ok1: "ramfs_ok r1" and rb: "unat (rs_bump r) \<le> unat (rs_bump r1)" using k1 by (simp_all add: fs_keeps_def word_le_nat_alt)
  obtain p r2 where p: "(if len \<noteq> 0 then ram_alloc len r1 else (0, r1)) = (p, r2)" by fastforce
  have lb: "unat len \<le> 2 ^ 50" using src b by simp
  note ar = link_area [OF ok1 b1 lb p]
  let ?u = "\<lambda>f. xattrs_reset (f\<lparr>rf_in_use := True, rf_is_dir := False, rf_is_symlink := False,
      rf_size := len, rf_capacity := len, rf_data := p\<rparr>)\<lparr>rf_name := set_name newname VFS_PATH_MAX, rf_parent_ino := ino\<rparr>"
  define r3 where "r3 = upd_file i ?u r2"
  have ends: "unat (rf_data f) + unat (rf_capacity f) \<le> unat (rs_bump r1)" if "f \<in> set (rs_files r1)" for f
    using that area_bounds(2) [OF ok1] by (auto simp: in_set_conv_nth)
  have hb: "0x40000000 \<le> unat (rs_bump r1)" using ok1 by (simp add: ramfs_ok_def Let_def)
  have fo: "file_ok (unat (rs_bump r2)) (?u (rs_files r1 ! i))"
    using ok_file [OF ok1 i] ar(3,4) hb name_ok_set_name [OF new] by (cases "len = 0") (auto simp: file_ok_def)
  have k3: "fs_keeps {i} r2 r3"
    unfolding r3_def using i fo ar(3,4) ends
    by (intro upd_file_keeps fs_keeps_ok [OF ar(1)]) (cases "len = 0"; simp add: ar(2))+
  have mem: "memcpy (rs_mem r3) p src (unat len) x = rs_mem r3 x" if x: "unat x < unat (rs_bump r1)" for x
  proof (cases "len = 0")
    case False
    note q = ar(3) [OF False]
    have pl: "unat p + unat len \<le> 2 ^ 64" using q unsigned_less [of "rs_bump r2", where ?'a = nat] by auto
    have "memcpy (rs_mem r3) p src (unat len) = copy_range (rs_mem r3) p src len"
      using q src rb pl by (intro memcpy_copy_range) auto
    then show ?thesis using copy_range_fresh [OF pl] q x by simp
  qed simp
  have "fs_keeps {i} r3 (r3\<lparr>rs_mem := memcpy (rs_mem r3) p src (unat len)\<rparr>)"
  proof (rule mem_keeps [OF fs_keeps_ok [OF k3]])
    fix j and x :: u64 assume j: "j < length (rs_files r3)" "j \<notin> {i}"
      "unat x < unat (rf_data (rs_files r3 ! j)) + unat (rf_capacity (rs_files r3 ! j))"
    then have "rs_files r3 ! j = rs_files r1 ! j" "j < length (rs_files r1)" by (simp_all add: r3_def upd_file_def ar(2))
    then show "memcpy (rs_mem r3) p src (unat len) x = rs_mem r3 x" using j ends [OF nth_mem, of j] by (intro mem) simp
  qed
  then have "fs_keeps {i} r1 (r3\<lparr>rs_mem := memcpy (rs_mem r3) p src (unat len)\<rparr>)"
    using fs_keeps_trans [OF fs_keeps_trans [OF ar(1) k3]] by fastforce
  then have "fs_keeps (free_entries r) r (r3\<lparr>rs_mem := memcpy (rs_mem r3) p src (unat len)\<rparr>)"
    by (rule got_slot_keeps [OF g]) simp
  moreover have "link_entry len src newname ino r = r3\<lparr>rs_mem := memcpy (rs_mem r3) p src (unat len)\<rparr>"
    unfolding link_entry_def Let_def a prod.case p by (simp add: r3_def)
  ultimately show ?thesis by simp
qed

lemma handle_link_keeps:
  assumes "ramfs_ok r" "unat (rs_bump r) \<le> 2 ^ 48"
  shows "fs_keeps (free_entries r) r (snd (handle_link e m r))"
proof -
  have "unat (rf_data (rs_files r ! k)) + unat (rf_size (rs_files r ! k)) \<le> unat (rs_bump r)" if "follow n r = Some k" for n k
    using area_bounds(1,2) [OF assms(1) follow_less [OF that]] by simp
  then show ?thesis
    using fs_keeps_mono [OF fs_keeps_refl [OF assms(1)]] link_entry_keeps [OF assms]
    by (simp add: handle_link_def Let_def split: option.split)
qed

section \<open>Extended attributes\<close>

definition same_area :: "nat \<Rightarrow> ramfs_file \<Rightarrow> ramfs_file \<Rightarrow> bool" where
  "same_area b f f' \<longleftrightarrow> file_ok b f' \<and> rf_data f' = rf_data f \<and> rf_capacity f' = rf_capacity f \<and> rf_size f' = rf_size f"

lemma set_xattr_area:
  assumes "file_ok b f" "i < length (rf_xattrs f)" "xattr_ok (g (rf_xattrs f ! i))"
  shows "same_area b f (set_xattr i g f)"
proof -
  have "list_all xattr_ok ((rf_xattrs f)[i := g (rf_xattrs f ! i)])"
    using assms all_set_update [of "rf_xattrs f" xattr_ok "g (rf_xattrs f ! i)" i] by (simp add: file_ok_def list_all_iff)
  then show ?thesis using assms(1) by (simp add: same_area_def set_xattr_def file_ok_def)
qed

lemma file_xattr_ok: "file_ok b f \<Longrightarrow> i < length (rf_xattrs f) \<Longrightarrow> xattr_ok (rf_xattrs f ! i)"
  by (simp add: file_ok_def list_all_length)

lemma set_attr_ok:
  fixes name_len value_len :: u64
  assumes "xattr_ok a" "unat name_len \<le> 255" "unat value_len \<le> 1024"
  shows "xattr_ok (a\<lparr>xa_in_use := u, xa_name_len := ucast name_len, xa_value_len := ucast value_len,
    xa_name := put_bytes 0 (take (unat name_len) bs @ [0]) (xa_name a),
    xa_value := put_bytes 0 (take (unat value_len) (drop (unat name_len) bs)) (xa_value a)\<rparr>)"
proof -
  have "unat (ucast name_len :: u16) = unat name_len" "unat (ucast value_len :: u16) = unat value_len"
    using assms(2,3) by (simp_all add: unsigned_ucast_eq take_bit_nat_eq_self)
  then show ?thesis
    using assms by (simp add: xattr_ok_def VFS_XATTR_NAME_MAX_def VFS_XATTR_VALUE_MAX_def)
qed

lemma xattr_command_area:
  assumes "file_ok b f" "unat name_len \<le> 255" "unat value_len \<le> 1024"
  shows "same_area b f (snd (snd (xattr_command c fl z name_len value_len m bs f)))"
proof -
  have same: "same_area b f f" using assms(1) by (simp add: same_area_def)
  have get: "snd (snd (xattr_get z name_len value_len m bs f)) = f"
    by (simp add: xattr_get_def Let_def split: option.split)
  have ls: "snd (snd (xattr_list z value_len m bs f)) = f"
    by (simp add: xattr_list_def Let_def)
  have rem: "same_area b f (snd (snd (xattr_remove name_len m bs f)))"
    using same set_xattr_area [OF assms(1)] file_xattr_ok [OF assms(1)]
    by (auto simp: xattr_remove_def xattr_find_def xattr_ok_def split: option.split dest!: first_slot_less)
  have "i < length (rf_xattrs f)" if "(if xattr_find bs name_len f = None then xattr_alloc f else xattr_find bs name_len f) = Some i" for i
    using that by (auto simp: xattr_find_def xattr_alloc_def dest: first_slot_less split: if_splits)
  then have st: "same_area b f (snd (snd (xattr_set fl name_len value_len m bs f)))"
    using same set_xattr_area [OF assms(1)] set_attr_ok [OF file_xattr_ok [OF assms(1)] assms(2,3)]
    by (simp add: xattr_set_def Let_def split: option.split)
  show ?thesis using same get ls rem st by (simp add: xattr_command_def)
qed

lemma handle_xattr_keeps:
  assumes "ramfs_ok r"
  shows "fs_keeps {} r (snd (snd (handle_xattr e m r)))"
proof -
  let ?h = "rd64 m 16"
  have "fs_keeps {} r (upd_file (handle_file ?h r) (\<lambda>_. snd (snd (xattr_command c fl z n v m bs (rs_files r ! handle_file ?h r)))) r)"
    if "valid_handle ?h r" "\<not> n > of_nat VFS_XATTR_NAME_MAX" "\<not> v > of_nat VFS_XATTR_VALUE_MAX" for c fl z n v bs
    using that ok_handle [OF assms that(1)] xattr_command_area [OF ok_file [OF assms ok_handle [OF assms that(1)]]]
    by (intro upd_file_same assms) (auto simp: same_area_def VFS_XATTR_NAME_MAX_def VFS_XATTR_VALUE_MAX_def word_less_nat_alt not_less)
  then show ?thesis
    using fs_keeps_refl [OF assms] by (simp add: handle_xattr_def Let_def split_def split: option.split)
qed

section \<open>One request\<close>

text \<open>The files whose contents a request may change: the file written to, or the file emptied on opening.\<close>

definition touched :: "ramfs_env \<Rightarrow> msg \<Rightarrow> ramfs \<Rightarrow> nat set" where
  "touched e m r =
     (if rd64 m 0 = VFS_OP_OPEN then open_touched (name_field 16 VFS_PATH_MAX (en_stack1 e) m) (rd64 m 8) r
      else if rd64 m 0 = VFS_OP_WRITE \<and> valid_handle (rd64 m 8) r then {handle_file (rd64 m 8) r} else {})"

lemma reply_value_len_length [simp]: "16 \<le> length m \<Longrightarrow> length (reply_value_len n m) = length m"
  by (simp add: reply_value_len_def)

lemma reply_stat_length [simp]: "length m = 48 \<Longrightarrow> length (reply_stat i r m) = 48"
  by (simp add: reply_stat_def Let_def)

lemma read_count_max:
  "unat (let avail = (if sz > off then sz - off else 0 :: u64); len = (if l > VFS_READ_MAX then VFS_READ_MAX else l)
         in if len < avail then len else avail) \<le> 40"
  by (auto simp: Let_def VFS_READ_MAX_def word_less_nat_alt not_less)

lemma handler_lengths:
  assumes "length m = 48"
  shows "length (fst (handle_open e m r)) = 48" "length (fst (handle_read m r)) = 48" "length (fst (handle_close m r)) = 48"
    "length (handle_stat e m r) = 48" "length (handle_fstat m r) = 48" "length (handle_readdir m r) = 48"
    "length (fst (handle_rename e m r)) = 48" "length (fst (handle_unlink e m r)) = 48" "length (fst (handle_symlink e m r)) = 48"
    "length (fst (handle_mkdir e m r)) = 48" "length (fst (handle_rmdir e m r)) = 48" "length (fst (handle_link e m r)) = 48"
    "length (fst (handle_mknod e m r)) = 48" "length (handle_caps m) = 48" "length (fst (handle_utimens m r)) = 48"
proof -
  show "length (fst (handle_read m r)) = 48"
    using assms read_count_max by (simp add: handle_read_def Let_def)
qed (use assms in \<open>simp_all add: handle_open_def handle_close_def handle_stat_def handle_fstat_def handle_readdir_def
    handle_rename_def handle_unlink_def handle_symlink_def handle_mkdir_def handle_rmdir_def handle_link_def handle_mknod_def
    handle_caps_def handle_utimens_def Let_def VFS_NAME_MAX_def split_def split: option.split\<close>)

lemma xattr_command_length:
  assumes "length m = 48"
  shows "length (fst (xattr_command c fl z n v m bs f)) = 48"
proof -
  have "length (fst (xattr_get z n v m bs f)) = 48"
    using assms by (simp add: xattr_get_def Let_def split: option.split)
  moreover have "length (fst (xattr_set fl n v m bs f)) = 48"
    using assms by (simp add: xattr_set_def Let_def split: option.split)
  moreover have "length (fst (xattr_list z v m bs f)) = 48"
    using assms by (simp add: xattr_list_def Let_def)
  moreover have "length (fst (xattr_remove n m bs f)) = 48"
    using assms by (simp add: xattr_remove_def split: option.split)
  ultimately show ?thesis using assms by (simp add: xattr_command_def)
qed

lemma xattr_length:
  assumes "length m = 48"
  shows "length (fst (handle_xattr e m r)) = 48"
  using assms xattr_command_length [OF assms] by (simp add: handle_xattr_def Let_def split_def split: option.split)

text \<open>Every request is answered; it keeps the invariant and changes the contents of no other live file.\<close>

lemma ramfs_serve_keeps:
  assumes ok: "ramfs_ok r" and b: "unat (rs_bump r) \<le> 2 ^ 48" and m: "length m = 48"
  shows "\<exists>m' bs r'. ramfs_serve e m r = Some (m', bs, r') \<and> length m' = 48 \<and> fs_keeps (free_entries r \<union> touched e m r) r r'"
proof -
  define P :: "(msg \<times> u8 list \<times> ramfs) option \<Rightarrow> bool" where "P z \<longleftrightarrow> (\<exists>m' bs r'. z = Some (m', bs, r') \<and> length m' = 48 \<and> fs_keeps (free_entries r \<union> touched e m r) r r')" for z
  let ?plain = "\<lambda>(m, r). Some (m, en_seg e, r)"
  have ite: "P (if a then x else y)" if "a \<Longrightarrow> P x" "\<not> a \<Longrightarrow> P y" for a x y
    using that by simp
  have plain: "P (?plain x)" if "length (fst x) = 48" "fs_keeps K r (snd x)" "K \<subseteq> free_entries r \<union> touched e m r" for x K
    using that fs_keeps_mono by (cases x) (auto simp: P_def)
  have quiet: "P (?plain x)" if "length (fst x) = 48" "fs_keeps {} r (snd x)" for x
    using plain [OF that] by simp
  have fresh: "P (?plain x)" if "length (fst x) = 48" "fs_keeps (free_entries r) r (snd x)" for x
    using plain [OF that] by simp
  have same: "P (Some (x, en_seg e, r))" if "length x = 48" for x
    using quiet [of "(x, r)"] that fs_keeps_refl [OF ok] by simp
  have open_case: "P (?plain (handle_open e m r))" if "rd64 m 0 = VFS_OP_OPEN"
    using plain [OF handler_lengths(1) [OF m] handle_open_keeps [OF ok b]] that by (simp add: touched_def)
  have write_case: "P (Option.bind (handle_write e m r) ?plain)" if "rd64 m 0 = VFS_OP_WRITE"
  proof -
    obtain m' r' where w: "handle_write e m r = Some (m', r')" "length m' = 48"
      "fs_keeps (if valid_handle (rd64 m 8) r then {handle_file (rd64 m 8) r} else {}) r r'"
      using handle_write_keeps [OF ok _ m, of e] b by auto
    then show ?thesis using plain [of "(m', r')"] that by (simp add: touched_def vfs_ops split: if_splits)
  qed
  have xattr_case: "P (Some (handle_xattr e m r))"
    using xattr_length [OF m, of e r] handle_xattr_keeps [OF ok, of e m] fs_keeps_mono [of "{}" r]
    by (cases "handle_xattr e m r") (simp add: P_def)
  note len = handler_lengths [OF m]
  have "P (ramfs_serve e m r)"
    unfolding ramfs_serve_def Let_def
    by (intro ite open_case write_case xattr_case same quiet [OF len(2) handle_read_keeps [OF ok]] quiet [OF len(3) handle_close_keeps [OF ok]]
        quiet [OF len(7) handle_rename_keeps [OF ok]] quiet [OF len(8) handle_unlink_keeps [OF ok]]
        fresh [OF len(9) handle_symlink_keeps [OF ok b]] fresh [OF len(10) handle_mkdir_keeps [OF ok b]]
        quiet [OF len(11) handle_rmdir_keeps [OF ok]] fresh [OF len(12) handle_link_keeps [OF ok b]]
        fresh [OF len(13) handle_mknod_keeps [OF ok b]] quiet [OF len(15) handle_utimens_keeps [OF ok]] len)
      (use m in simp_all)
  then show ?thesis by (simp add: P_def)
qed

end
