(* ===== verification/Ramfsprops.thy ===== *)
theory Ramfsprops
  imports Ramfsserve
begin

text \<open>
  The properties of the memory file server (\<^verbatim>\<open>src/servers/fs/ramfs\<close>), over every sequence of requests from its
  start and through the client functions of \<^verbatim>\<open>include/robu/vfs.h\<close>.
\<close>

section \<open>The start of the server\<close>

definition used :: "ramfs \<Rightarrow> nat" where "used r = length (filter rf_in_use (rs_files r))"

definition seeded :: "nat \<Rightarrow> ramfs \<Rightarrow> bool" where
  "seeded n r \<longleftrightarrow> ramfs_ok r \<and> unat (rs_bump r) \<le> 2 ^ 32 \<and> length (rs_files r) = 64 \<and> used r \<le> n"

lemma free_slot: "length (filter rf_in_use fs) < length fs \<Longrightarrow> \<exists>i. first_slot (\<lambda>f. \<not> rf_in_use f) fs = Some i"
  by (intro first_slot_ex) (metis filter_True less_irrefl)

lemma filter_update_length: "length (filter P (xs[i := x])) \<le> length (filter P xs) + 1"
proof (induction xs arbitrary: i)
  case (Cons y ys)
  then show ?case by (cases i) auto
qed simp

abbreviation seed_name :: "string \<Rightarrow> u8 list" where
  "seed_name name \<equiv> map (\<lambda>c. word_of_nat (of_char c)) name"

lemma seed_dir_ok:
  assumes "ramfs_ok r" "unat (rs_bump r) \<le> 2 ^ 48" "0 \<notin> set (seed_name name)"
  shows "fs_keeps (free_entries r) r (snd (seed_dir name ino r))"
proof -
  obtain i r1 where a: "alloc_file r = (i, r1)" by fastforce
  note g = alloc_file_slot [OF assms(1,2) a]
  have ok: "ramfs_ok r1" and i: "i < length (rs_files r1)" using g by (auto simp: got_slot_def dest: fs_keeps_ok)
  have "fs_keeps {i} r1 (snd (seed_dir name ino r))"
    unfolding seed_dir_def a Let_def prod.case snd_conv using ok_file [OF ok i] name_ok_set_name [OF assms(3)]
    by (intro upd_file_keeps ok i) (auto simp: file_ok_def)
  with g show ?thesis by (rule got_slot_keeps) simp
qed

lemma seed_dir_seeded:
  assumes "seeded n r" "n < 64" "0 \<notin> set (seed_name name)"
  shows "seeded (n + 1) (snd (seed_dir name ino r))"
proof -
  obtain i where "first_slot (\<lambda>f. \<not> rf_in_use f) (rs_files r) = Some i"
    using free_slot [of "rs_files r"] assms(1,2) by (auto simp: seeded_def used_def)
  then have a: "alloc_file r = (i, r)" by (simp add: alloc_file_def)
  have "ramfs_ok (snd (seed_dir name ino r))"
    using seed_dir_ok [of r name ino] assms by (simp add: seeded_def fs_keeps_def)
  moreover have "used (snd (seed_dir name ino r)) \<le> n + 1"
    using assms(1) filter_update_length [of rf_in_use "rs_files r" i] unfolding seed_dir_def a
    by (simp add: used_def upd_file_def seeded_def Let_def) (meson le_trans Suc_le_mono)
  ultimately show ?thesis using assms(1) by (simp add: seeded_def seed_dir_def a)
qed

lemma seed_below_seeded:
  "seeded n r \<Longrightarrow> n + length names \<le> 64 \<Longrightarrow> (\<And>s. s \<in> set names \<Longrightarrow> 0 \<notin> set (seed_name s)) \<Longrightarrow>
    seeded (n + length names) (seed_below names ino r)"
proof (induction names arbitrary: n r)
  case (Cons s names)
  then have "seeded (n + 1) (snd (seed_dir s ino r))" by (intro seed_dir_seeded) auto
  then show ?case using Cons.IH [of "n + 1" "snd (seed_dir s ino r)"] Cons.prems by (simp add: seed_below_def)
qed (simp add: seed_below_def)

lemma static_ok: "file_ok 0 rawf \<Longrightarrow> ramfs_ok (ramfs_static mem0 rawf rawh)"
  by (simp add: ramfs_ok_def ramfs_static_def areas_apart_def)

lemma seed_first:
  assumes "file_ok 0 rawf" "0 \<notin> set (seed_name name)"
  shows "seeded 1 (snd (seed_dir name ino (ramfs_static mem0 rawf rawh)))"
proof -
  let ?r = "ramfs_static mem0 rawf rawh"
  have "ramfs_ok (snd (seed_dir name ino ?r))"
    using seed_dir_ok [OF static_ok [OF assms(1)] _ assms(2), where ino = ino] by (simp add: ramfs_static_def fs_keeps_def)
  moreover have "length (filter rf_in_use ((replicate 64 (rawf\<lparr>rf_in_use := False\<rparr>))[0 := f])) \<le> 1" for f
    using filter_update_length [of rf_in_use "replicate 64 (rawf\<lparr>rf_in_use := False\<rparr>)" 0 f] by simp
  ultimately show ?thesis
    by (simp add: seeded_def seed_dir_def alloc_file_def ramfs_static_def ram_alloc_def SIZEOF_RAMFS_FILE_def used_def upd_file_def Let_def)
qed

lemma seed_step:
  "seeded n r \<Longrightarrow> n < 64 \<Longrightarrow> 0 \<notin> set (seed_name name) \<Longrightarrow> seed_dir name ino r = (k, r') \<Longrightarrow> seeded (n + 1) r'"
  using seed_dir_seeded [of n r name ino] by simp

lemma seed_fixed_dirs_ok:
  assumes "file_ok 0 rawf"
  shows "seeded 15 (seed_fixed_dirs (ramfs_static mem0 rawf rawh))"
proof -
  let ?r = "ramfs_static mem0 rawf rawh"
  have "seeded (1 + length [''etc'', ''tmp'']) (seed_below [''etc'', ''tmp''] VFS_ROOT_INO (snd (seed_dir ''bin'' VFS_ROOT_INO ?r)))"
    by (rule seed_below_seeded [OF seed_first [OF assms]]) auto
  then have s3: "seeded 3 (seed_below [''bin'', ''etc'', ''tmp''] VFS_ROOT_INO ?r)" by (simp add: seed_below_def numeral_3_eq_3)
  obtain v r4 where v: "seed_dir ''var'' VFS_ROOT_INO (seed_below [''bin'', ''etc'', ''tmp''] VFS_ROOT_INO ?r) = (v, r4)" by fastforce
  have s4: "seeded 4 r4" using seed_step [OF s3 _ _ v] by simp
  define r9 where "r9 = (if v \<noteq> 0 then seed_below [''var/tmp'', ''var/root'', ''var/lock'', ''var/lib'', ''var/run''] v r4 else r4)"
  have "seeded (4 + length [''var/tmp'', ''var/root'', ''var/lock'', ''var/lib'', ''var/run''])
      (seed_below [''var/tmp'', ''var/root'', ''var/lock'', ''var/lib'', ''var/run''] v r4)"
    by (rule seed_below_seeded [OF s4]) auto
  then have s9: "seeded 9 r9" using s4 by (auto simp: r9_def seeded_def)
  have "seeded (9 + length [''sbin'']) (seed_below [''sbin''] VFS_ROOT_INO r9)" by (rule seed_below_seeded [OF s9]) auto
  then have s10: "seeded 10 (seed_below [''sbin''] VFS_ROOT_INO r9)" by simp
  obtain u r11 where u: "seed_dir ''usr'' VFS_ROOT_INO (seed_below [''sbin''] VFS_ROOT_INO r9) = (u, r11)" by fastforce
  have s11: "seeded 11 r11" using seed_step [OF s10 _ _ u] by simp
  define r13 where "r13 = (if u \<noteq> 0 then seed_below [''usr/bin'', ''usr/sbin''] u r11 else r11)"
  have "seeded (11 + length [''usr/bin'', ''usr/sbin'']) (seed_below [''usr/bin'', ''usr/sbin''] u r11)"
    by (rule seed_below_seeded [OF s11]) auto
  then have s13: "seeded 13 r13" using s11 by (auto simp: r13_def seeded_def)
  have "seed_fixed_dirs ?r = seed_below [''dev'', ''proc''] VFS_ROOT_INO r13"
    unfolding seed_fixed_dirs_def Let_def v prod.case r9_def [symmetric] u r13_def [symmetric] ..
  moreover have "seeded (13 + length [''dev'', ''proc'']) (seed_below [''dev'', ''proc''] VFS_ROOT_INO r13)"
    by (rule seed_below_seeded [OF s13]) auto
  ultimately show ?thesis by simp
qed

section \<open>Any sequence of requests\<close>

text \<open>The states of the server while its heap stays below \<open>2 ^ 48\<close>, the end of the user address space.\<close>

definition RAMFS_HEAP_MAX :: nat where "RAMFS_HEAP_MAX = 2 ^ 48"

inductive ramfs_reach :: "ramfs \<Rightarrow> ramfs \<Rightarrow> bool" where
  start: "ramfs_reach r r"
| request: "ramfs_reach r0 r \<Longrightarrow> unat (rs_bump r) \<le> RAMFS_HEAP_MAX \<Longrightarrow> length m = MSG_BYTES \<Longrightarrow>
    ramfs_serve e m r = Some (m', bs, r') \<Longrightarrow> ramfs_reach r0 r'"

inductive_cases ramfs_reachE: "ramfs_reach r0 r"

lemma reach_ok:
  assumes "ramfs_reach r0 r" "ramfs_ok r0"
  shows "ramfs_ok r"
  using assms
proof (induction rule: ramfs_reach.induct)
  case (request r0 r m e m' bs r')
  then show ?case
    using ramfs_serve_keeps [of r m e] by (auto simp: RAMFS_HEAP_MAX_def MSG_BYTES_def fs_keeps_def)
qed simp

abbreviation ramfs_start :: "mem \<Rightarrow> ramfs_file \<Rightarrow> ramfs_handle \<Rightarrow> ramfs" where
  "ramfs_start mem0 rawf rawh \<equiv> seed_fixed_dirs (ramfs_static mem0 rawf rawh)"

lemma start_ok: "file_ok 0 rawf \<Longrightarrow> ramfs_ok (ramfs_start mem0 rawf rawh)"
  using seed_fixed_dirs_ok by (simp add: seeded_def)

text \<open>A file entry of zero bytes, as fresh pages hold it.\<close>

definition zero_file :: ramfs_file where
  "zero_file = \<lparr>rf_in_use = False, rf_is_dir = False, rf_is_symlink = False, rf_parent_ino = 0, rf_name = [], rf_target = [],
     rf_size = 0, rf_capacity = 0, rf_data = 0, rf_atime = 0, rf_mtime = 0, rf_ctime = 0,
     rf_xattrs = replicate RAMFS_XATTR_SLOTS \<lparr>xa_in_use = False, xa_name_len = 0, xa_value_len = 0,
       xa_name = replicate 256 0, xa_value = replicate 1024 0\<rparr>\<rparr>"

definition zero_handle :: ramfs_handle where
  "zero_handle = \<lparr>rh_in_use = False, rh_file_idx = 0, rh_offset = 0\<rparr>"

lemma zero_file_ok: "file_ok 0 zero_file"
  by (simp add: file_ok_def zero_file_def name_ok_def xattr_ok_def list_all_iff VFS_PATH_MAX_def VFS_XATTR_NAME_MAX_def
      VFS_XATTR_VALUE_MAX_def)

definition ramfs_env0 :: ramfs_env where
  "ramfs_env0 = \<lparr>en_hz = 100, en_ticks = 0, en_sys = (\<lambda>_. None), en_seg = [], en_stack1 = [], en_stack2 = []\<rparr>"

text \<open>C9. From the start of the server, whatever requests arrive in whatever order, the state stays well
  formed as long as the heap stays within the user address space: every handle in use names an entry of the
  table, file areas lie inside the allocated heap and apart from each other, sizes stay within capacities,
  names and attributes stay within their arrays; and every request of one message is answered with one
  message, no loop runs forever.  Fresh memory is assumed to hold zero entries.\<close>

theorem ramfs_always_ok:
  assumes "file_ok 0 rawf" "ramfs_reach (ramfs_start mem0 rawf rawh) r"
  shows "ramfs_ok r \<and> (unat (rs_bump r) \<le> RAMFS_HEAP_MAX \<and> length m = MSG_BYTES \<longrightarrow>
    (\<exists>m' bs r'. ramfs_serve e m r = Some (m', bs, r') \<and> length m' = MSG_BYTES \<and> ramfs_ok r'))"
proof -
  have ok: "ramfs_ok r" using reach_ok [OF assms(2) start_ok [OF assms(1)]] .
  then show ?thesis
    using ramfs_serve_keeps [OF ok, of m e] by (auto simp: RAMFS_HEAP_MAX_def MSG_BYTES_def fs_keeps_def)
qed

lemma start_room: "file_ok 0 rawf \<Longrightarrow> unat (rs_bump (ramfs_start mem0 rawf rawh)) \<le> RAMFS_HEAP_MAX"
  using seed_fixed_dirs_ok [of rawf mem0 rawh] by (simp add: seeded_def RAMFS_HEAP_MAX_def)

lemma msg_zero_length: "length msg_zero = MSG_BYTES"
  by (simp add: msg_zero_def)

theorem ramfs_always_ok_witness:
  "\<exists>r. ramfs_serve ramfs_env0 (put64 0 VFS_OP_CAPS msg_zero) (ramfs_start (\<lambda>_. 0) zero_file zero_handle)
       = Some (handle_caps (put64 0 VFS_OP_CAPS msg_zero), [], r) \<and> ramfs_ok r"
proof -
  let ?r = "ramfs_start (\<lambda>_. 0) zero_file zero_handle"
  have s: "ramfs_serve ramfs_env0 (put64 0 VFS_OP_CAPS msg_zero) ?r = Some (handle_caps (put64 0 VFS_OP_CAPS msg_zero), [], ?r)"
    using msg_zero_length by (simp add: ramfs_serve_def MSG_BYTES_def vfs_ops ramfs_env0_def)
  have "ramfs_reach ?r ?r"
    using ramfs_reach.request [OF ramfs_reach.start start_room [OF zero_file_ok] _ s] msg_zero_length by (simp add: MSG_BYTES_def)
  with s show ?thesis using ramfs_always_ok [OF zero_file_ok] by blast
qed

text \<open>C14. A request changes the contents of no file but the one it is about: if the bytes of a file that is
  in use differ afterwards, then the request wrote through a handle of that file, or opened that file to
  empty it.  Growing tables and files, links, renames, deletions and all error paths leave every other
  file as it was.\<close>

theorem ramfs_isolation:
  assumes "file_ok 0 rawf" "ramfs_reach (ramfs_start mem0 rawf rawh) r"
    and "unat (rs_bump r) \<le> RAMFS_HEAP_MAX" "length m = MSG_BYTES" "ramfs_serve e m r = Some (m', bs, r')"
    and "j < length (rs_files r)" "rf_in_use (rs_files r ! j)" "contents r' j \<noteq> contents r j"
  shows "rd64 m 0 = VFS_OP_WRITE \<and> valid_handle (rd64 m 8) r \<and> j = handle_file (rd64 m 8) r
    \<or> rd64 m 0 = VFS_OP_OPEN \<and> rd64 m 8 AND VFS_O_TRUNC \<noteq> 0 \<and> follow (name_field 16 VFS_PATH_MAX (en_stack1 e) m) r = Some j"
proof -
  have ok: "ramfs_ok r" using reach_ok [OF assms(2) start_ok [OF assms(1)]] .
  have "fs_keeps (free_entries r \<union> touched e m r) r r'"
    using ramfs_serve_keeps [OF ok, of m e] assms(3-5) by (auto simp: RAMFS_HEAP_MAX_def MSG_BYTES_def)
  then have "j \<in> touched e m r"
    using assms(6-8) by (auto simp: fs_keeps_def free_entries_def)
  then show ?thesis by (auto simp: touched_def open_touched_def split: if_splits)
qed

section \<open>Reading and writing through the client functions\<close>

definition ramfs_server :: "ramfs_env \<Rightarrow> ramfs server" where
  "ramfs_server e m r = map_option (\<lambda>(m', _, r'). (m', r')) (ramfs_serve e m r)"

lemma sint64_small:
  fixes w :: u64
  assumes "unat w < 2 ^ 63" shows "sint w = int (unat w)"
proof -
  have u: "uint w = int (unat w)" by simp
  have "int (unat w) < int (2 ^ 63)" using assms by (simp only: of_nat_less_iff)
  moreover have "- (2 ^ 63) \<le> (0 :: int)" "0 \<le> int (unat w)" by (simp, rule of_nat_0_le_iff)
  ultimately have "signed_take_bit 63 (int (unat w)) = int (unat w)"
    by (intro signed_take_bit_int_eq_self) (simp_all only: of_nat_power of_nat_numeral)
  then show ?thesis unfolding sint_uint u by simp
qed

lemma drop_bytes_at: "drop k (bytes_at m a n) = bytes_at m (a + of_nat k) (n - k)"
  by (rule nth_equalityI) (simp_all add: add.assoc)

definition write_request :: "msg \<Rightarrow> u64 \<Rightarrow> u8 list \<Rightarrow> msg" where
  "write_request m0 h d = put_bytes 24 d (put64 16 (of_nat (length d)) (put64 8 h (put64 0 VFS_OP_WRITE m0)))"

lemma write_request_fields:
  assumes "length m0 = 48" "length d \<le> 24"
  shows "length (write_request m0 h d) = 48" "rd64 (write_request m0 h d) 0 = VFS_OP_WRITE" "rd64 (write_request m0 h d) 8 = h"
    "write_len (write_request m0 h d) = of_nat (length d)" "write_data (write_request m0 h d) = d"
proof -
  have u: "unat (of_nat (length d) :: u64) = length d" using assms(2) by (intro word_of_nat_less_lt) simp
  have w: "rd64 (write_request m0 h d) 16 = of_nat (length d)"
    using assms by (simp add: write_request_def)
  show l: "write_len (write_request m0 h d) = of_nat (length d)"
    using u assms(2) by (simp add: write_len_def w VFS_WRITE_MAX_def word_less_nat_alt)
  show "write_data (write_request m0 h d) = d"
    unfolding write_data_def l u unfolding write_request_def using assms by (intro field_put_same) simp
qed (use assms in \<open>simp_all add: write_request_def\<close>)

lemma serve_write:
  "rd64 m 0 = VFS_OP_WRITE \<Longrightarrow> handle_write e m r = Some (m', r') \<Longrightarrow> ramfs_server e m r = Some (m', r')"
  by (simp add: ramfs_server_def ramfs_serve_def vfs_ops)

lemma client_write:
  assumes ok: "ramfs_ok r" and b: "unat (rs_bump r) \<le> 2 ^ 48" and m: "length m0 = 48" and v: "valid_handle h r" and d: "length d \<le> 24"
    and off: "rh_offset (rs_handles r ! unat h) \<le> rf_size (rs_files r ! handle_file h r)"
  shows "\<exists>r'. vfs_write (ramfs_server e) m0 h d (of_nat (length d)) r = Some (int (length d), r')
    \<and> fs_keeps {handle_file h r} r r' \<and> unat (rs_bump r') \<le> 6 * unat (rs_bump r)
    \<and> contents r' (handle_file h r) = splice (unat (rh_offset (rs_handles r ! unat h))) d (contents r (handle_file h r))
    \<and> rs_handles r' = (rs_handles r)[unat h := (rs_handles r ! unat h)\<lparr>rh_offset := rh_offset (rs_handles r ! unat h) + of_nat (length d)\<rparr>]
    \<and> length (rs_files r') = length (rs_files r)
    \<and> (\<forall>j < length (rs_files r). rf_in_use (rs_files r' ! j) = rf_in_use (rs_files r ! j) \<and> rf_name (rs_files r' ! j) = rf_name (rs_files r ! j)
         \<and> rf_is_symlink (rs_files r' ! j) = rf_is_symlink (rs_files r ! j))"
proof -
  let ?m = "write_request m0 h d"
  note wr = write_request_fields [OF m d, of h]
  have u: "unat (of_nat (length d) :: u64) = length d" using d by (intro word_of_nat_less_lt) simp
  have b58: "unat (rs_bump r) \<le> 2 ^ 58" using b by simp
  note ex = handle_write_some [OF ok b58 wr(1), unfolded wr(3-5), OF v, of e]
  obtain r' where w: "handle_write e ?m r = Some (reply_status (of_nat (length d)) ?m, r')" "fs_keeps {handle_file h r} r r'" "unat (rs_bump r') \<le> 6 * unat (rs_bump r)"
    "rs_handles r' = (rs_handles r)[unat h := (rs_handles r ! unat h)\<lparr>rh_offset := rh_offset (rs_handles r ! unat h) + of_nat (length d)\<rparr>]"
    "length (rs_files r') = length (rs_files r)" "\<forall>j. j \<noteq> handle_file h r \<longrightarrow> rs_files r' ! j = rs_files r ! j"
    "rf_in_use (rs_files r' ! handle_file h r) = rf_in_use (rs_files r ! handle_file h r)"
    "rf_name (rs_files r' ! handle_file h r) = rf_name (rs_files r ! handle_file h r)"
    "rf_is_symlink (rs_files r' ! handle_file h r) = rf_is_symlink (rs_files r ! handle_file h r)"
    "contents r' (handle_file h r) = splice (unat (rh_offset (rs_handles r ! unat h))) d (contents r (handle_file h r))"
    using ex off by (elim exE conjE) simp
  have "\<not> of_nat (length d) > VFS_WRITE_MAX" using u d by (simp add: VFS_WRITE_MAX_def word_less_nat_alt)
  then have "vfs_write (ramfs_server e) m0 h d (of_nat (length d)) r = Some (int (length d), r')"
    using serve_write [OF wr(2) w(1)] wr(1) d u sint64_small [of "of_nat (length d)"]
    by (simp add: vfs_write_def write_request_def [symmetric])
  moreover have "rf_in_use (rs_files r' ! j) = rf_in_use (rs_files r ! j) \<and> rf_name (rs_files r' ! j) = rf_name (rs_files r ! j)
      \<and> rf_is_symlink (rs_files r' ! j) = rf_is_symlink (rs_files r ! j)" for j
    using w(6-9) by (cases "j = handle_file h r") simp_all
  ultimately show ?thesis using w by blast
qed

lemma contents_read:
  assumes "ramfs_ok r" "i < length (rs_files r)" "unat off + n \<le> unat (rf_size (rs_files r ! i))"
  shows "bytes_at (rs_mem r) (rf_data (rs_files r ! i) + off) n = take n (drop (unat off) (contents r i))"
  using assms(3) by (simp add: contents_def drop_bytes_at take_bytes_at)

lemma read_count_nat:
  "unat (read_count h len r) = min (unat len)
     (unat (rf_size (rs_files r ! handle_file h r)) - unat (rh_offset (rs_handles r ! unat h)))"
  by (auto simp: read_count_def Let_def word_less_nat_alt unat_sub word_le_nat_alt min_def)

lemma client_read:
  fixes len :: u64
  assumes ok: "ramfs_ok r" and m: "length m0 = 48" and v: "valid_handle h r"
  defines "hh \<equiv> rs_handles r ! unat h"
  defines "out \<equiv> take (min 40 (unat len)) (drop (unat (rh_offset hh)) (contents r (rh_file_idx hh)))"
  shows "vfs_read (ramfs_server e) m0 h len r =
    Some ((int (length out), out), upd_handle (unat h) (\<lambda>d. d\<lparr>rh_offset := rh_offset d + of_nat (length out)\<rparr>) r)"
proof -
  define l where "l = (if len > VFS_READ_MAX then VFS_READ_MAX else len)"
  define m1 where "m1 = put64 16 l (put64 8 h (put64 0 VFS_OP_READ m0))"
  define n where "n = read_count h l r"
  have m1: "length m1 = 48" "rd64 m1 0 = VFS_OP_READ" "rd64 m1 8 = h" "rd64 m1 16 = l"
    using m by (simp_all add: m1_def)
  have l: "unat l = min 40 (unat len)" "(if l > VFS_READ_MAX then VFS_READ_MAX else l) = l"
    by (auto simp: l_def VFS_READ_MAX_def word_less_nat_alt)
  have i: "rh_file_idx hh < length (rs_files r)" using ok_handle [OF ok v] by (simp add: hh_def)
  have nn: "unat n = length out" "unat n \<le> 40"
    using l(1) by (simp_all add: n_def read_count_nat out_def contents_def hh_def)
  have ab: "rf_data (rs_files r ! rh_file_idx hh) = 0 \<Longrightarrow> unat (rf_size (rs_files r ! rh_file_idx hh)) = 0"
    using area_bounds [OF ok i] by simp
  have bytes: "bytes_at (rs_mem r) (rf_data (rs_files r ! rh_file_idx hh) + rh_offset hh) (unat n) = out"
  proof (cases "unat n = 0")
    case False
    then show ?thesis
      using contents_read [OF ok i, of "rh_offset hh" "unat n"] l(1)
      by (simp add: out_def contents_def n_def read_count_nat hh_def min_def split: if_splits)
  qed (use nn in \<open>simp add: bytes_at_def\<close>)
  have ne: "(if l < (if rh_offset hh < rf_size (rs_files r ! rh_file_idx hh) then rf_size (rs_files r ! rh_file_idx hh) - rh_offset hh else 0)
      then l else if rh_offset hh < rf_size (rs_files r ! rh_file_idx hh) then rf_size (rs_files r ! rh_file_idx hh) - rh_offset hh else 0) = n"
    by (simp only: n_def read_count_def hh_def Let_def)
  define m2 where "m2 = (if rf_data (rs_files r ! rh_file_idx hh) \<noteq> 0 then put_bytes 8 out m1 else m1)"
  have m2: "length m2 = 48" "take (length out) (drop 8 m2) = out"
    using m1(1) nn ab field_put_same [of 8 out m1] by (auto simp: m2_def n_def read_count_nat hh_def)
  have "handle_read m1 r = (reply_status n m2, upd_handle (unat h) (\<lambda>d. d\<lparr>rh_offset := rh_offset d + n\<rparr>) r)"
    unfolding handle_read_def Let_def m1 l(2) hh_def [symmetric] ne bytes using v by (simp add: m2_def)
  then have s: "ramfs_server e m1 r = Some (reply_status n m2, upd_handle (unat h) (\<lambda>d. d\<lparr>rh_offset := rh_offset d + n\<rparr>) r)"
    by (simp add: ramfs_server_def ramfs_serve_def m1 vfs_ops)
  have st: "status (reply_status n m2) = int (length out)" using m2(1) nn sint64_small [of n] by simp
  have "drop 8 (reply_status n m2) = drop 8 m2"
    using m2(1) by (simp add: reply_status_def put64_def field_put_after)
  then have "read_reply (reply_status n m2) = (int (length out), out)"
    using m2(2) st by (auto simp: read_reply_def)
  moreover have "n = of_nat (length out)" using nn word_of_nat_less_lt [of "length out", where ?'a = 64] by (intro unsigned_word_eqI [where ?'a = nat]) simp
  ultimately show ?thesis using s by (simp add: vfs_read_def l_def [symmetric] m1_def [symmetric])
qed

text \<open>C3. Through the client functions a file is a list of bytes with a cursor.  A read returns the next
  bytes after the cursor, at most forty, and advances the cursor by their number; at the end of the file it
  returns nothing.  A write of at most twenty-four bytes at a cursor inside the file reports their number,
  puts them there, extends the file when it has to, growing its memory, and advances the cursor; no other
  file changes.\<close>

theorem ramfs_read_write_refines:
  assumes "file_ok 0 rawf" "ramfs_reach (ramfs_start mem0 rawf rawh) r" "unat (rs_bump r) \<le> RAMFS_HEAP_MAX"
    and "length m0 = MSG_BYTES" "valid_handle h r" "length d \<le> 24"
    and "hh = rs_handles r ! unat h" "unat (rh_offset hh) \<le> length (contents r (rh_file_idx hh))"
    and "out = take (min 40 (unat len)) (drop (unat (rh_offset hh)) (contents r (rh_file_idx hh)))"
  shows "vfs_read (ramfs_server e) m0 h len r =
      Some ((int (length out), out), upd_handle (unat h) (\<lambda>d. d\<lparr>rh_offset := rh_offset d + of_nat (length out)\<rparr>) r)
    \<and> (\<exists>r'. vfs_write (ramfs_server e) m0 h d (of_nat (length d)) r = Some (int (length d), r')
        \<and> contents r' (rh_file_idx hh) = splice (unat (rh_offset hh)) d (contents r (rh_file_idx hh))
        \<and> rs_handles r' = (rs_handles r)[unat h := hh\<lparr>rh_offset := rh_offset hh + of_nat (length d)\<rparr>]
        \<and> (\<forall>j < length (rs_files r). j \<noteq> rh_file_idx hh \<longrightarrow> contents r' j = contents r j))"
proof -
  have ok: "ramfs_ok r" using reach_ok [OF assms(2) start_ok [OF assms(1)]] .
  have b: "unat (rs_bump r) \<le> 2 ^ 48" and m: "length m0 = 48" using assms(3,4) by (simp_all add: RAMFS_HEAP_MAX_def MSG_BYTES_def)
  have off: "rh_offset (rs_handles r ! unat h) \<le> rf_size (rs_files r ! handle_file h r)"
    using assms(7,8) by (simp add: contents_def word_le_nat_alt)
  note w = client_write [OF ok b m assms(5,6) off, where e = e]
  have "vfs_read (ramfs_server e) m0 h len r =
      Some ((int (length out), out), upd_handle (unat h) (\<lambda>d. d\<lparr>rh_offset := rh_offset d + of_nat (length out)\<rparr>) r)"
    using client_read [OF ok m assms(5), of e len] assms(7,9) by simp
  then show ?thesis using w assms(7) unfolding fs_keeps_def by blast
qed

section \<open>Creating, closing and opening again\<close>

lemma open_result:
  assumes "ramfs_ok r1" "unat (rs_bump r1) \<le> 2 ^ 60" "open_entry e (name_field 16 VFS_PATH_MAX (en_stack1 e) m) (rd64 m 8) r = Some (i, r1)"
    and "rd64 m 8 AND VFS_O_APPEND = 0"
  shows "\<exists>h r'. handle_open e m r = (put64 8 (of_nat h) (reply_status 0 m), r') \<and> h < length (rs_handles r')
    \<and> rs_handles r' ! h = \<lparr>rh_in_use = True, rh_file_idx = i, rh_offset = 0\<rparr>
    \<and> rs_files r' = rs_files r1 \<and> rs_mem r' = rs_mem r1 \<and> unat (rs_bump r') \<le> 4 * unat (rs_bump r1)
    \<and> (\<forall>j < length (rs_handles r1). rh_in_use (rs_handles r1 ! j) \<longrightarrow> j < length (rs_handles r') \<and> rs_handles r' ! j = rs_handles r1 ! j)"
proof -
  obtain h r2 where a: "alloc_handle r1 = (h, r2)" by fastforce
  show ?thesis
    using alloc_handle_keeps [OF assms(1,2) a] assms(3,4)
    by (intro exI [of _ h]) (auto simp: handle_open_def Let_def a upd_handle_def nth_list_update)
qed

definition open_request :: "msg \<Rightarrow> u8 list \<Rightarrow> u64 \<Rightarrow> msg" where
  "open_request m0 path flags = put_name 16 VFS_PATH_MAX path (put64 8 flags (put64 0 VFS_OP_OPEN m0))"

lemma open_request_fields:
  assumes "length m0 = 48" "name_ok path"
  shows "length (open_request m0 path flags) = 48" "rd64 (open_request m0 path flags) 0 = VFS_OP_OPEN"
    "rd64 (open_request m0 path flags) 8 = flags" "name_field 16 VFS_PATH_MAX rest (open_request m0 path flags) = path"
proof -
  show "name_field 16 VFS_PATH_MAX rest (open_request m0 path flags) = path"
    unfolding name_field_def open_request_def using assms by (intro cstring_put_name) (auto simp: name_ok_def VFS_PATH_MAX_def)
qed (use assms in \<open>simp_all add: open_request_def VFS_PATH_MAX_def\<close>)

lemma client_open:
  assumes ok: "ramfs_ok r" and b: "unat (rs_bump r) \<le> 2 ^ 48" and m: "length m0 = 48" and p: "name_ok path"
    and o: "open_entry e path flags r = Some (i, r1)" and fl: "flags AND VFS_O_APPEND = 0"
  shows "\<exists>h r'. vfs_open (ramfs_server e) m0 path flags r = Some (int h, r') \<and> h < 2 ^ 60 \<and> h < length (rs_handles r')
    \<and> rs_handles r' ! h = \<lparr>rh_in_use = True, rh_file_idx = i, rh_offset = 0\<rparr> \<and> rs_files r' = rs_files r1 \<and> rs_mem r' = rs_mem r1
    \<and> unat (rs_bump r') \<le> 16 * unat (rs_bump r) \<and> ramfs_ok r'
    \<and> (\<exists>m'. ramfs_serve e (open_request m0 path flags) r = Some (m', en_seg e, r'))
    \<and> (\<forall>j < length (rs_handles r1). rh_in_use (rs_handles r1 ! j) \<longrightarrow> j < length (rs_handles r') \<and> rs_handles r' ! j = rs_handles r1 ! j)"
proof -
  let ?m = "open_request m0 path flags"
  note f = open_request_fields [OF m p, where flags = flags]
  have "0 \<notin> set path" using p by (simp add: name_ok_def)
  note k1 = open_entry_keeps [OF ok b this o]
  have ok1: "ramfs_ok r1" and b1: "unat (rs_bump r1) \<le> 2 ^ 60" "unat (rs_bump r1) \<le> 4 * unat (rs_bump r)"
    using k1 b by (auto dest: fs_keeps_ok)
  obtain h r' where h: "handle_open e ?m r = (put64 8 (of_nat h) (reply_status 0 ?m), r')" "h < length (rs_handles r')"
    "rs_handles r' ! h = \<lparr>rh_in_use = True, rh_file_idx = i, rh_offset = 0\<rparr>" "rs_files r' = rs_files r1" "rs_mem r' = rs_mem r1"
    "unat (rs_bump r') \<le> 4 * unat (rs_bump r1)"
    "\<forall>j < length (rs_handles r1). rh_in_use (rs_handles r1 ! j) \<longrightarrow> j < length (rs_handles r') \<and> rs_handles r' ! j = rs_handles r1 ! j"
    using open_result [OF ok1 b1(1), of e ?m r i] o fl unfolding f(3,4) by blast
  have ok': "ramfs_ok r'" using handle_open_keeps [OF ok b, of e ?m] h(1) by (auto dest: fs_keeps_ok)
  have "length (rs_handles r') * 16 \<le> unat (rs_bump r')" using ok' by (simp add: ramfs_ok_def Let_def)
  then have hb: "h < 2 ^ 60" using h(2) unsigned_less [of "rs_bump r'", where ?'a = nat] by simp
  then have u: "unat (of_nat h :: u64) = h" by (intro word_of_nat_less_lt) simp
  have sv: "ramfs_serve e ?m r = Some (put64 8 (of_nat h) (reply_status 0 ?m), en_seg e, r')"
    using h(1) f(2) by (simp add: ramfs_serve_def)
  then have "ramfs_server e ?m r = Some (put64 8 (of_nat h) (reply_status 0 ?m), r')"
    by (simp add: ramfs_server_def)
  then have "vfs_open (ramfs_server e) m0 path flags r = Some (int h, r')"
    using f(1) u hb sint64_small [of "of_nat h"]
    by (simp add: vfs_open_def open_request_def [symmetric] status_def reply_status_def)
  moreover have "unat (rs_bump r') \<le> 16 * unat (rs_bump r)" using h(6) b1(2) by simp
  ultimately show ?thesis using h(2-5,7) hb ok' sv by blast
qed

lemma first_slot_cong:
  "length xs = length ys \<Longrightarrow> (\<And>i. i < length xs \<Longrightarrow> P (xs ! i) = Q (ys ! i)) \<Longrightarrow> first_slot P xs = first_slot Q ys"
proof (induction xs ys rule: list_induct2)
  case (Cons x xs y ys)
  have "first_slot P xs = first_slot Q ys" using Cons.prems [of "Suc i" for i] by (intro Cons.IH) simp
  then show ?case using Cons.prems [of 0] by simp
qed simp

lemma find_file_cong:
  assumes "length (rs_files r') = length (rs_files r)"
    "\<And>j. j < length (rs_files r) \<Longrightarrow> rf_in_use (rs_files r' ! j) = rf_in_use (rs_files r ! j) \<and> rf_name (rs_files r' ! j) = rf_name (rs_files r ! j)"
  shows "find_file name r' = find_file name r"
  unfolding find_file_def using assms by (intro first_slot_cong) auto

text \<open>The entry that a creating open makes.\<close>

lemma create_entry:
  assumes ok: "ramfs_ok r" and b: "unat (rs_bump r) \<le> 2 ^ 48" and p: "name_ok path" and new: "find_file path r = None"
  shows "\<exists>i r1. open_entry e path VFS_O_CREAT r = Some (i, r1) \<and> i < length (rs_files r1) \<and> find_file path r1 = Some i
    \<and> \<not> rf_is_symlink (rs_files r1 ! i) \<and> rf_size (rs_files r1 ! i) = 0"
proof -
  obtain i r0 where a: "alloc_file r = (i, r0)" by fastforce
  note g = alloc_file_slot [OF ok b a]
  have i: "i < length (rs_files r0)" using g by (simp add: got_slot_def)
  let ?u = "\<lambda>f. xattrs_reset (f\<lparr>rf_in_use := True, rf_is_dir := False, rf_is_symlink := False,
      rf_size := 0, rf_capacity := 0, rf_data := 0, rf_atime := ramfs_now e, rf_mtime := ramfs_now e, rf_ctime := ramfs_now e\<rparr>)
      \<lparr>rf_name := set_name path VFS_PATH_MAX\<rparr>"
  define f where "f = (?u (rs_files r0 ! i))\<lparr>rf_parent_ino := resolve_parent_ino path (upd_file i ?u r0)\<rparr>"
  have o: "open_entry e path VFS_O_CREAT r = Some (i, upd_file i (\<lambda>_. f) r0)"
    using new i by (simp add: open_entry_def follow_def a Let_def VFS_O_CREAT_def f_def upd_file_def)
  have sn: "set_name path VFS_PATH_MAX = path" using p by (simp add: set_name_def name_ok_def VFS_PATH_MAX_def)
  have f: "rf_in_use f" "rf_name f = path" "\<not> rf_is_symlink f" "rf_size f = 0" by (simp_all add: f_def sn)
  have "\<not> (rf_in_use (rs_files r0 ! j) \<and> name_eq (rf_name (rs_files r0 ! j)) path)" if "j < length (rs_files r0)" for j
  proof (cases "j < length (rs_files r)")
    case True
    moreover have "rs_files r0 ! j = rs_files r ! j" using g that True by (simp add: got_slot_def)
    ultimately show ?thesis using new by (auto simp: find_file_def first_slot_None)
  next
    case False
    then show ?thesis using g that by (simp add: got_slot_def)
  qed
  then have "find_file path (upd_file i (\<lambda>_. f) r0) = Some i"
    unfolding find_file_def using i f by (intro first_slotI) (auto simp: upd_file_def name_eq_def)
  then show ?thesis using o f i by auto
qed

lemma close_step:
  assumes "ramfs_ok r" "length m0 = 48" "valid_handle h r"
  shows "\<exists>r'. vfs_close (ramfs_server e) m0 h r = Some (0, r') \<and> ramfs_ok r' \<and> rs_files r' = rs_files r \<and> rs_mem r' = rs_mem r \<and> rs_bump r' = rs_bump r"
proof -
  define m where "m = put64 8 h (put64 0 VFS_OP_CLOSE m0)"
  have m: "rd64 m 0 = VFS_OP_CLOSE" "rd64 m 8 = h" "length m = 48" using assms(2) by (simp_all add: m_def)
  have "ramfs_server e m r = Some (reply_status 0 m, upd_handle (unat h) (\<lambda>d. d\<lparr>rh_in_use := False\<rparr>) r)"
    using assms(3) by (simp add: ramfs_server_def ramfs_serve_def m vfs_ops handle_close_def)
  moreover have "ramfs_ok (upd_handle (unat h) (\<lambda>d. d\<lparr>rh_in_use := False\<rparr>) r)"
    by (rule fs_keeps_ok [OF upd_handle_keeps [OF assms(1)]]) (simp add: handle_ok_def)
  ultimately show ?thesis using m(3) by (simp add: vfs_close_def m_def [symmetric] upd_handle_def)
qed

text \<open>C15. What is written under a new name is what a later reader of that name gets: creating a file that does
  not exist, writing up to twenty-four bytes, closing, opening the same path again and reading returns exactly
  those bytes, whatever the clock and the unused message bytes are at each call.\<close>

theorem ramfs_create_reopen_roundtrip:
  assumes "file_ok 0 rawf" "ramfs_reach (ramfs_start mem0 rawf rawh) r" "unat (rs_bump r) \<le> 2 ^ 40"
    and "length m0 = MSG_BYTES" "name_ok path" "find_file path r = None" "length d \<le> 24"
  shows "\<exists>h r1 r2 r3 k r4 r5. vfs_open (ramfs_server e1) m0 path VFS_O_CREAT r = Some (int h, r1)
    \<and> vfs_write (ramfs_server e2) m0 (of_nat h) d (of_nat (length d)) r1 = Some (int (length d), r2)
    \<and> vfs_close (ramfs_server e3) m0 (of_nat h) r2 = Some (0, r3)
    \<and> vfs_open (ramfs_server e4) m0 path 0 r3 = Some (int k, r4)
    \<and> vfs_read (ramfs_server e5) m0 (of_nat k) 40 r4 = Some ((int (length d), d), r5)"
proof -
  have ok: "ramfs_ok r" using reach_ok [OF assms(2) start_ok [OF assms(1)]] .
  have b: "unat (rs_bump r) \<le> 2 ^ 48" and m: "length m0 = 48" using assms(3,4) by (simp_all add: MSG_BYTES_def)
  obtain i q where q: "open_entry e1 path VFS_O_CREAT r = Some (i, q)" "i < length (rs_files q)" "find_file path q = Some i"
    "\<not> rf_is_symlink (rs_files q ! i)" "rf_size (rs_files q ! i) = 0"
    using create_entry [OF ok b assms(5,6)] by blast
  obtain h r1 where h: "vfs_open (ramfs_server e1) m0 path VFS_O_CREAT r = Some (int h, r1)" "h < 2 ^ 60" "h < length (rs_handles r1)"
    "rs_handles r1 ! h = \<lparr>rh_in_use = True, rh_file_idx = i, rh_offset = 0\<rparr>" "rs_files r1 = rs_files q" "rs_mem r1 = rs_mem q"
    "unat (rs_bump r1) \<le> 16 * unat (rs_bump r)" "ramfs_ok r1"
    using client_open [OF ok b m assms(5) q(1)] by (auto simp: VFS_O_CREAT_def VFS_O_APPEND_def)
  have hu: "unat (of_nat h :: u64) = h" using h(2) by (intro word_of_nat_less_lt) simp
  have v: "valid_handle (of_nat h) r1" using h hu by (simp add: valid_handle_def)
  have b1: "unat (rs_bump r1) \<le> 2 ^ 48" using h(7) assms(3) by simp
  have c1: "contents r1 i = []" using q(5) h(5) by (simp add: contents_def bytes_at_def)
  obtain r2 where w: "vfs_write (ramfs_server e2) m0 (of_nat h) d (of_nat (length d)) r1 = Some (int (length d), r2)" "fs_keeps {i} r1 r2"
    "unat (rs_bump r2) \<le> 6 * unat (rs_bump r1)" "contents r2 i = splice 0 d (contents r1 i)" "length (rs_handles r2) = length (rs_handles r1)" "rh_in_use (rs_handles r2 ! h)"
    "length (rs_files r2) = length (rs_files r1)"
    "\<forall>j < length (rs_files r1). rf_in_use (rs_files r2 ! j) = rf_in_use (rs_files r1 ! j) \<and> rf_name (rs_files r2 ! j) = rf_name (rs_files r1 ! j)
       \<and> rf_is_symlink (rs_files r2 ! j) = rf_is_symlink (rs_files r1 ! j)"
    using client_write [OF h(8) b1 m v assms(7), of e2] h(3) by (auto simp: hu h(4))
  have c2: "contents r2 i = d" using w(4) c1 by (simp add: splice_def)
  have v2: "valid_handle (of_nat h) r2" using w(5,6) h(3) hu by (simp add: valid_handle_def)
  obtain r3 where r3: "vfs_close (ramfs_server e3) m0 (of_nat h) r2 = Some (0, r3)" "ramfs_ok r3" "rs_files r3 = rs_files r2"
    "rs_mem r3 = rs_mem r2" "rs_bump r3 = rs_bump r2"
    using close_step [OF fs_keeps_ok [OF w(2)] m v2] by blast
  have "find_file path r3 = find_file path q" using w(7,8) r3(3) h(5) by (intro find_file_cong) auto
  then have o: "open_entry e4 path 0 r3 = Some (i, r3)"
    using q(2-4) w(8) r3(3) h(5) by (simp add: open_entry_def follow_def)
  have b3: "unat (rs_bump r3) \<le> 2 ^ 48" using r3(5) w(3) h(7) assms(3) by simp
  obtain k r4 where k: "vfs_open (ramfs_server e4) m0 path 0 r3 = Some (int k, r4)" "k < 2 ^ 60" "k < length (rs_handles r4)"
    "rs_handles r4 ! k = \<lparr>rh_in_use = True, rh_file_idx = i, rh_offset = 0\<rparr>" "rs_files r4 = rs_files r3" "rs_mem r4 = rs_mem r3" "ramfs_ok r4"
    using client_open [OF r3(2) b3 m assms(5) o] by auto
  have ku: "unat (of_nat k :: u64) = k" using k(2) by (intro word_of_nat_less_lt) simp
  have v4: "valid_handle (of_nat k) r4" using k ku by (simp add: valid_handle_def)
  have c4: "contents r4 i = d" using c2 k(5,6) r3(3,4) by (simp add: contents_def)
  have "\<exists>r5. vfs_read (ramfs_server e5) m0 (of_nat k) 40 r4 = Some ((int (length d), d), r5)"
    using client_read [OF k(7) m v4, of e5 40] c4 assms(7) by (simp add: ku k(4))
  with h(1) w(1) r3(1) k(1) show ?thesis by blast
qed

section \<open>An example session\<close>

text \<open>The names of the seeded directories, seen through a predicate.\<close>

definition names_all :: "(u8 list \<Rightarrow> bool) \<Rightarrow> ramfs \<Rightarrow> bool" where
  "names_all P r \<longleftrightarrow> (\<forall>f \<in> set (rs_files r). rf_in_use f \<longrightarrow> P (rf_name f))"

lemma seed_dir_names:
  assumes "names_all P r" "P (set_name (seed_name name) VFS_PATH_MAX)"
  shows "names_all P (snd (seed_dir name ino r))"
proof -
  obtain i r1 where a: "alloc_file r = (i, r1)" by fastforce
  have "names_all P r1"
    using assms(1) a by (auto simp: alloc_file_def names_all_def Let_def ram_alloc_def split: option.splits)
  then show ?thesis
    using assms(2) unfolding seed_dir_def a Let_def names_all_def
    by (auto simp: upd_file_def dest!: set_update_subset_insert [THEN subsetD])
qed

lemma seed_below_names:
  "names_all P r \<Longrightarrow> (\<And>s. s \<in> set names \<Longrightarrow> P (set_name (seed_name s) VFS_PATH_MAX)) \<Longrightarrow> names_all P (seed_below names ino r)"
  by (induction names arbitrary: r) (auto simp: seed_below_def intro!: seed_dir_names)

lemma names_if: "names_all P a \<Longrightarrow> names_all P b \<Longrightarrow> names_all P (if c then a else b)"
  by simp

lemma start_names:
  "names_all (\<lambda>n. take 1 n \<noteq> [97]) (ramfs_start mem0 rawf rawh)"
proof -
  have s: "names_all (\<lambda>n. take 1 n \<noteq> [97]) (ramfs_static mem0 rawf rawh)" by (simp add: names_all_def ramfs_static_def)
  note sn = set_name_def VFS_PATH_MAX_def
  show ?thesis
    unfolding seed_fixed_dirs_def Let_def split_def
    by (intro seed_below_names seed_dir_names names_if s) (auto simp: sn)
qed

lemma start_find: "find_file [97] (ramfs_start mem0 rawf rawh) = None"
proof -
  have "take 1 n = [97]" if "name_eq n [97]" for n
    using that take_take [of 1 32 n] by (simp add: name_eq_def VFS_PATH_MAX_def)
  then show ?thesis
    using start_names [of mem0 rawf rawh] by (auto simp: find_file_def first_slot_None names_all_def)
qed

abbreviation ramfs_start0 :: ramfs where
  "ramfs_start0 \<equiv> ramfs_start (\<lambda>_. 0) zero_file zero_handle"

lemma start0_room: "unat (rs_bump ramfs_start0) \<le> 2 ^ 32"
  using seed_fixed_dirs_ok [OF zero_file_ok, of "\<lambda>_. 0" zero_handle] by (simp add: seeded_def)

lemma name_a_ok: "name_ok [97]"
  by (simp add: name_ok_def VFS_PATH_MAX_def)

text \<open>A new file is opened in the initial state.\<close>

lemma session_open:
  "\<exists>h i r1. ramfs_reach ramfs_start0 r1 \<and> h < 2 ^ 60 \<and> valid_handle (of_nat h) r1 \<and> i < length (rs_files r1)
     \<and> rs_handles r1 ! h = \<lparr>rh_in_use = True, rh_file_idx = i, rh_offset = 0\<rparr> \<and> rf_in_use (rs_files r1 ! i)
     \<and> contents r1 i = [] \<and> unat (rs_bump r1) \<le> 2 ^ 36"
proof -
  have ok: "ramfs_ok ramfs_start0" using start_ok [OF zero_file_ok] .
  have b: "unat (rs_bump ramfs_start0) \<le> 2 ^ 48" using start0_room by simp
  have m: "length msg_zero = 48" by (simp add: msg_zero_def MSG_BYTES_def)
  obtain i q where q: "open_entry ramfs_env0 [97] VFS_O_CREAT ramfs_start0 = Some (i, q)" "i < length (rs_files q)"
    "find_file [97] q = Some i" "rf_size (rs_files q ! i) = 0"
    using create_entry [OF ok b name_a_ok start_find] by blast
  obtain h r1 m' where h: "h < 2 ^ 60" "h < length (rs_handles r1)"
    "rs_handles r1 ! h = \<lparr>rh_in_use = True, rh_file_idx = i, rh_offset = 0\<rparr>" "rs_files r1 = rs_files q"
    "unat (rs_bump r1) \<le> 16 * unat (rs_bump ramfs_start0)"
    "ramfs_serve ramfs_env0 (open_request msg_zero [97] VFS_O_CREAT) ramfs_start0 = Some (m', en_seg ramfs_env0, r1)"
    using client_open [OF ok b m name_a_ok q(1)] by (auto simp: VFS_O_CREAT_def VFS_O_APPEND_def)
  have "ramfs_reach ramfs_start0 r1"
    using ramfs_reach.request [OF ramfs_reach.start start_room [OF zero_file_ok] _ h(6)] open_request_fields(1) [OF m name_a_ok]
    by (simp add: MSG_BYTES_def)
  moreover have "unat (of_nat h :: u64) = h" using h(1) by (intro word_of_nat_less_lt) simp
  moreover have "rf_in_use (rs_files q ! i)" using q(3) by (auto simp: find_file_def dest: first_slot_holds)
  ultimately show ?thesis
    using h q(2,4) start0_room by (intro exI [of _ h] exI [of _ i] exI [of _ r1]) (simp add: valid_handle_def contents_def bytes_at_def)
qed

theorem ramfs_isolation_witness:
  "\<exists>m r r' j. ramfs_reach ramfs_start0 r \<and> contents r j = [] \<and> contents r' j = [1, 2, 3]
     \<and> (rd64 m 0 = VFS_OP_WRITE \<and> valid_handle (rd64 m 8) r \<and> j = handle_file (rd64 m 8) r
        \<or> rd64 m 0 = VFS_OP_OPEN \<and> rd64 m 8 AND VFS_O_TRUNC \<noteq> 0 \<and> follow (name_field 16 VFS_PATH_MAX [] m) r = Some j)"
proof -
  obtain h i r where s: "ramfs_reach ramfs_start0 r" "h < 2 ^ 60" "valid_handle (of_nat h) r" "i < length (rs_files r)"
    "rs_handles r ! h = \<lparr>rh_in_use = True, rh_file_idx = i, rh_offset = 0\<rparr>" "rf_in_use (rs_files r ! i)"
    "contents r i = []" "unat (rs_bump r) \<le> 2 ^ 36"
    using session_open by blast
  have hu: "unat (of_nat h :: u64) = h" using s(2) by (intro word_of_nat_less_lt) simp
  have ok: "ramfs_ok r" using reach_ok [OF s(1) start_ok [OF zero_file_ok]] .
  have m: "length msg_zero = 48" by (simp add: msg_zero_def MSG_BYTES_def)
  let ?m = "write_request msg_zero (of_nat h) [1, 2, 3]"
  have f: "length ?m = 48" "rd64 ?m 0 = VFS_OP_WRITE" "rd64 ?m 8 = of_nat h" "write_data ?m = [1, 2, 3]"
    using write_request_fields [OF m, of "[1, 2, 3]" "of_nat h"] by simp_all
  have b58: "unat (rs_bump r) \<le> 2 ^ 58" using s(8) by simp
  obtain r' m' where w: "handle_write ramfs_env0 ?m r = Some (m', r')" "contents r' i = splice 0 [1, 2, 3] []"
    using handle_write_some [OF ok b58 f(1), of ramfs_env0] s(3,5,7) by (auto simp: f hu)
  then have c: "contents r' i = [1, 2, 3]" by (simp add: splice_def)
  have sv: "ramfs_serve ramfs_env0 ?m r = Some (m', [], r')"
    using w(1) f(2) by (simp add: ramfs_serve_def vfs_ops ramfs_env0_def)
  have "unat (rs_bump r) \<le> RAMFS_HEAP_MAX" using s(8) by (simp add: RAMFS_HEAP_MAX_def)
  from ramfs_isolation [OF zero_file_ok s(1) this _ sv s(4,6)] s(7) c f(1)
  show ?thesis using s(1) by (intro exI [of _ ?m] exI [of _ r] exI [of _ r'] exI [of _ i]) (simp add: MSG_BYTES_def ramfs_env0_def)
qed

theorem ramfs_read_write_refines_witness:
  "\<exists>h r r'. vfs_read (ramfs_server ramfs_env0) msg_zero h 40 r = Some ((0, []), upd_handle (unat h) (\<lambda>d. d\<lparr>rh_offset := rh_offset d + 0\<rparr>) r)
     \<and> vfs_write (ramfs_server ramfs_env0) msg_zero h [1, 2, 3] 3 r = Some (3, r') \<and> contents r' (handle_file h r) = [1, 2, 3]"
proof -
  obtain h i r where s: "ramfs_reach ramfs_start0 r" "h < 2 ^ 60" "valid_handle (of_nat h) r"
    "rs_handles r ! h = \<lparr>rh_in_use = True, rh_file_idx = i, rh_offset = 0\<rparr>" "contents r i = []" "unat (rs_bump r) \<le> 2 ^ 36"
    using session_open by blast
  have hu: "unat (of_nat h :: u64) = h" using s(2) by (intro word_of_nat_less_lt) simp
  have b: "unat (rs_bump r) \<le> RAMFS_HEAP_MAX" using s(6) by (simp add: RAMFS_HEAP_MAX_def)
  obtain r' where "vfs_read (ramfs_server ramfs_env0) msg_zero (of_nat h) 40 r =
      Some ((0, []), upd_handle (unat (of_nat h :: u64)) (\<lambda>d. d\<lparr>rh_offset := rh_offset d + 0\<rparr>) r)"
    "vfs_write (ramfs_server ramfs_env0) msg_zero (of_nat h) [1, 2, 3] 3 r = Some (3, r')" "contents r' (handle_file (of_nat h) r) = [1, 2, 3]"
    using ramfs_read_write_refines [OF zero_file_ok s(1) b msg_zero_length s(3), of "[1, 2, 3]" "rs_handles r ! h" "[]" 40 ramfs_env0]
    by (auto simp: hu s(4,5) splice_def)
  then show ?thesis by blast
qed

theorem ramfs_create_reopen_roundtrip_witness:
  "\<exists>h r1 r2 r3 k r4 r5. vfs_open (ramfs_server ramfs_env0) msg_zero [97] VFS_O_CREAT ramfs_start0 = Some (int h, r1)
    \<and> vfs_write (ramfs_server ramfs_env0) msg_zero (of_nat h) [1, 2, 3] 3 r1 = Some (3, r2)
    \<and> vfs_close (ramfs_server ramfs_env0) msg_zero (of_nat h) r2 = Some (0, r3)
    \<and> vfs_open (ramfs_server ramfs_env0) msg_zero [97] 0 r3 = Some (int k, r4)
    \<and> vfs_read (ramfs_server ramfs_env0) msg_zero (of_nat k) 40 r4 = Some ((3, [1, 2, 3]), r5)"
proof -
  have b: "unat (rs_bump ramfs_start0) \<le> 2 ^ 40" using start0_room by simp
  show ?thesis
    using ramfs_create_reopen_roundtrip [OF zero_file_ok ramfs_reach.start b msg_zero_length name_a_ok start_find, of "[1, 2, 3]"] by simp
qed

section \<open>Handles of deleted files\<close>

text \<open>Deleting a file does not look at its open handles, and the next file that is created takes the first
  free entry: a handle of the deleted file then reads and writes the new file.\<close>

lemma unlinked_handle_names_new_file:
  assumes ok: "ramfs_ok r" and b: "unat (rs_bump r) \<le> 2 ^ 48" and m: "length m0 = 48"
    and v: "valid_handle h r" and path: "name_ok path" "find_file path r = Some (handle_file h r)"
    and plain: "\<not> rf_is_dir (rs_files r ! handle_file h r)" "\<And>j. j < handle_file h r \<Longrightarrow> rf_in_use (rs_files r ! j)"
    and new: "name_ok path2" "find_file path2 r = None"
  shows "\<exists>r1 k r2. vfs_unlink (ramfs_server e) m0 path r = Some (0, r1)
    \<and> vfs_open (ramfs_server e') m0 path2 VFS_O_CREAT r1 = Some (int k, r2)
    \<and> valid_handle h r2 \<and> find_file path2 r2 = Some (handle_file h r2)"
proof -
  define i where "i = handle_file h r"
  define r1 where "r1 = upd_file i (\<lambda>f. f\<lparr>rf_in_use := False\<rparr>) r"
  have i: "i < length (rs_files r)" using ok_handle [OF ok v] by (simp add: i_def)
  define mu where "mu = put_name 8 VFS_PATH_MAX path (put64 0 VFS_OP_UNLINK m0)"
  have mu: "length mu = 48" "rd64 mu 0 = VFS_OP_UNLINK" "name_field 8 VFS_PATH_MAX (en_stack1 e) mu = path"
    unfolding mu_def name_field_def using m path(1) cstring_put_name [of path 32 8 "put64 0 VFS_OP_UNLINK m0" 32 "en_stack1 e"]
    by (simp_all add: VFS_PATH_MAX_def name_ok_def)
  have "ramfs_server e mu r = Some (reply_status 0 mu, r1)"
    using path(2) plain(1) by (simp add: ramfs_server_def ramfs_serve_def mu(2,3) vfs_ops handle_unlink_def r1_def i_def)
  then have u: "vfs_unlink (ramfs_server e) m0 path r = Some (0, r1)"
    using mu(1) by (simp add: vfs_unlink_def mu_def [symmetric])
  have ok1: "ramfs_ok r1" and b1: "unat (rs_bump r1) \<le> 2 ^ 48"
    unfolding r1_def using fs_keeps_ok [OF meta_keeps(2) [OF ok i]] b by simp_all
  have new1: "find_file path2 r1 = None"
    using new(2) i unfolding find_file_def first_slot_None r1_def upd_file_def
    by (auto dest!: set_update_subset_insert [THEN subsetD])
  obtain k q where q: "open_entry e' path2 VFS_O_CREAT r1 = Some (k, q)" "find_file path2 q = Some k"
    using create_entry [OF ok1 b1 new(1) new1] by blast
  have "first_slot (\<lambda>f. \<not> rf_in_use f) (rs_files r1) = Some i"
    using i plain(2) by (intro first_slotI) (auto simp: r1_def i_def upd_file_def)
  then have "alloc_file r1 = (i, r1)" by (simp add: alloc_file_def)
  then have k: "k = i" "rs_handles q = rs_handles r"
    using q(1) new1 by (auto simp: open_entry_def follow_def Let_def VFS_O_CREAT_def r1_def)
  obtain c r2 where r2: "vfs_open (ramfs_server e') m0 path2 VFS_O_CREAT r1 = Some (int c, r2)" "rs_files r2 = rs_files q"
    "\<forall>j < length (rs_handles q). rh_in_use (rs_handles q ! j) \<longrightarrow> j < length (rs_handles r2) \<and> rs_handles r2 ! j = rs_handles q ! j"
    using client_open [OF ok1 b1 m new(1) q(1)] by (auto simp: VFS_O_CREAT_def VFS_O_APPEND_def)
  have "find_file path2 r2 = find_file path2 q" using r2(2) by (simp add: find_file_def)
  then show ?thesis using u r2(1,3) q(2) v k by (auto simp: valid_handle_def i_def)
qed

end
