(* ===== verification/Fat16.thy ===== *)
theory Fat16
  imports Vfsmsg "HOL-Library.State_Monad" "HOL-Library.Signed_Division"
begin

text \<open>
  The FAT16 file server, \<^verbatim>\<open>src/servers/fs/fat16\<close>: \<^verbatim>\<open>block.c\<close> (the driver of the disk on the second IDE channel,
  through the kernel's port access call), \<^verbatim>\<open>disk.c\<close> (allocation table, root directory, time stamps, mounting),
  \<^verbatim>\<open>vfs.c\<close> (one handler per request) and \<^verbatim>\<open>fat16fs.c\<close> (the dispatcher).  The port access call is the argument
  \<open>io\<close>, a function on the state of the device; everything above the driver uses a pair of sector operations,
  of which \<open>ide_blkdev\<close> is the driver's.  Code that talks to the disk is written in the state monad.  Signed
  numbers of the calendar are integers; no value of a valid time stamp comes near the width of its C type.
\<close>

section \<open>The disk driver\<close>

type_synonym 'd port_io = "u16 \<Rightarrow> nat \<Rightarrow> bool \<Rightarrow> u64 \<Rightarrow> 'd \<Rightarrow> u64 option \<times> 'd"

record 'd ide =
  ide_dev :: 'd
  ide_present :: bool
  ide_capacity :: u64

definition hw_io :: "'d port_io \<Rightarrow> u16 \<Rightarrow> nat \<Rightarrow> bool \<Rightarrow> u64 \<Rightarrow> ('d ide, u64) state" where
  "hw_io io port width is_write v =
     State (\<lambda>b. case io port width is_write v (ide_dev b) of (r, d) \<Rightarrow>
       (case r of None \<Rightarrow> -1 | Some x \<Rightarrow> x, b\<lparr>ide_dev := d\<rparr>))"

definition hw_outb :: "'d port_io \<Rightarrow> u16 \<Rightarrow> u8 \<Rightarrow> ('d ide, unit) state" where
  "hw_outb io port v = do { _ \<leftarrow> hw_io io port 1 True (ucast v); State_Monad.return () }"

definition hw_outw :: "'d port_io \<Rightarrow> u16 \<Rightarrow> u16 \<Rightarrow> ('d ide, unit) state" where
  "hw_outw io port v = do { _ \<leftarrow> hw_io io port 2 True (ucast v); State_Monad.return () }"

definition hw_inb :: "'d port_io \<Rightarrow> u16 \<Rightarrow> ('d ide, u8) state" where
  "hw_inb io port = do { x \<leftarrow> hw_io io port 1 False 0; State_Monad.return (ucast x) }"

definition hw_inw :: "'d port_io \<Rightarrow> u16 \<Rightarrow> ('d ide, u16) state" where
  "hw_inw io port = do { x \<leftarrow> hw_io io port 2 False 0; State_Monad.return (ucast x) }"

text \<open>Polling the status register; the result says whether the wanted bits came.\<close>

fun ide_poll :: "nat \<Rightarrow> 'd port_io \<Rightarrow> u8 \<Rightarrow> u8 \<Rightarrow> ('d ide, bool) state" where
  "ide_poll 0 io want_set want_clear = State_Monad.return False"
| "ide_poll (Suc n) io want_set want_clear =
     do {
       st \<leftarrow> hw_inb io 0x177;
       if st AND want_clear = 0 \<and> st AND want_set = want_set then State_Monad.return True
       else if st AND 1 \<noteq> 0 then State_Monad.return False
       else ide_poll n io want_set want_clear
     }"

definition ide_wait_status :: "'d port_io \<Rightarrow> u8 \<Rightarrow> u8 \<Rightarrow> ('d ide, bool) state" where
  "ide_wait_status io want_set want_clear = ide_poll 200000 io want_set want_clear"

fun read_words :: "nat \<Rightarrow> 'd port_io \<Rightarrow> ('d ide, u16 list) state" where
  "read_words 0 io = State_Monad.return []"
| "read_words (Suc n) io = do { w \<leftarrow> hw_inw io 0x170; ws \<leftarrow> read_words n io; State_Monad.return (w # ws) }"

fun write_words :: "'d port_io \<Rightarrow> u16 list \<Rightarrow> ('d ide, unit) state" where
  "write_words io [] = State_Monad.return ()"
| "write_words io (w # ws) = do { _ \<leftarrow> hw_outw io 0x170 w; write_words io ws }"

definition blkdev_probe :: "'d port_io \<Rightarrow> ('d ide, bool) state" where
  "blkdev_probe io =
     do {
       _ \<leftarrow> hw_outb io 0x176 0xE0;
       st \<leftarrow> hw_inb io 0x177;
       if st = 0xFF then State_Monad.return False
       else do {
         _ \<leftarrow> hw_outb io 0x172 0;
         _ \<leftarrow> hw_outb io 0x173 0;
         _ \<leftarrow> hw_outb io 0x174 0;
         _ \<leftarrow> hw_outb io 0x175 0;
         _ \<leftarrow> hw_outb io 0x177 0xEC;
         st \<leftarrow> hw_inb io 0x177;
         if st = 0 then State_Monad.return False
         else do {
           lba_mid \<leftarrow> hw_inb io 0x174;
           lba_high \<leftarrow> hw_inb io 0x175;
           if lba_mid = 0x14 \<and> lba_high = 0xEB then State_Monad.return False
           else do {
             ready \<leftarrow> ide_wait_status io 0x08 0x80;
             if \<not> ready then State_Monad.return False
             else do {
               identify \<leftarrow> read_words 256 io;
               let cap = (ucast (identify ! 60) :: u64) OR push_bit 16 (ucast (identify ! 61));
               _ \<leftarrow> State (\<lambda>b. ((), b\<lparr>ide_capacity := cap, ide_present := ide_present b \<or> cap \<noteq> 0\<rparr>));
               State_Monad.return (cap \<noteq> 0)
             }
           }
         }
       }
     }"

text \<open>The start of a transfer of one sector: wait, address, command, wait for data.\<close>

definition ide_command :: "'d port_io \<Rightarrow> u64 \<Rightarrow> u8 \<Rightarrow> ('d ide, bool) state" where
  "ide_command io lba cmd =
     do {
       ready \<leftarrow> ide_wait_status io 0 0x80;
       if \<not> ready then State_Monad.return False
       else do {
         _ \<leftarrow> hw_outb io 0x176 (ucast (0xE0 OR (drop_bit 24 lba AND 0x0F)));
         _ \<leftarrow> hw_outb io 0x172 1;
         _ \<leftarrow> hw_outb io 0x173 (ucast (lba AND 0xFF));
         _ \<leftarrow> hw_outb io 0x174 (ucast (drop_bit 8 lba AND 0xFF));
         _ \<leftarrow> hw_outb io 0x175 (ucast (drop_bit 16 lba AND 0xFF));
         _ \<leftarrow> hw_outb io 0x177 cmd;
         ide_wait_status io 0x08 0x80
       }
     }"

fun blkdev_read :: "'d port_io \<Rightarrow> u64 \<Rightarrow> nat \<Rightarrow> ('d ide, u8 list option) state" where
  "blkdev_read io sector 0 = State (\<lambda>b. (if ide_present b then Some [] else None, b))"
| "blkdev_read io sector (Suc n) =
     do {
       present \<leftarrow> State (\<lambda>b. (ide_present b, b));
       if \<not> present then State_Monad.return None
       else do {
         ready \<leftarrow> ide_command io sector 0x20;
         if \<not> ready then State_Monad.return None
         else do {
           ws \<leftarrow> read_words 256 io;
           done \<leftarrow> ide_wait_status io 0 0x80;
           if \<not> done then State_Monad.return None
           else do {
             rest \<leftarrow> blkdev_read io (sector + 1) n;
             State_Monad.return (map_option (\<lambda>r. concat (map (\<lambda>w. [ucast w, ucast (drop_bit 8 w)]) ws) @ r) rest)
           }
         }
       }
     }"

definition sector_words :: "u8 list \<Rightarrow> u16 list" where
  "sector_words bs = map (\<lambda>i. ucast (bs ! (2 * i)) OR push_bit 8 (ucast (bs ! (2 * i + 1)))) [0..<256]"

fun blkdev_write :: "'d port_io \<Rightarrow> u64 \<Rightarrow> nat \<Rightarrow> u8 list \<Rightarrow> ('d ide, bool) state" where
  "blkdev_write io sector 0 bs = State (\<lambda>b. (ide_present b, b))"
| "blkdev_write io sector (Suc n) bs =
     do {
       present \<leftarrow> State (\<lambda>b. (ide_present b, b));
       if \<not> present then State_Monad.return False
       else do {
         ready \<leftarrow> ide_command io sector 0x30;
         if \<not> ready then State_Monad.return False
         else do {
           _ \<leftarrow> write_words io (sector_words bs);
           done \<leftarrow> ide_wait_status io 0 0x80;
           if \<not> done then State_Monad.return False
           else blkdev_write io (sector + 1) n (drop 512 bs)
         }
       }
     }"

text \<open>The operations that the file system uses, one sector at a time.\<close>

record 'd blkdev =
  bk_rd :: "u32 \<Rightarrow> ('d, u8 list option) state"
  bk_wr :: "u32 \<Rightarrow> u8 list \<Rightarrow> ('d, bool) state"

definition ide_blkdev :: "'d port_io \<Rightarrow> 'd ide blkdev" where
  "ide_blkdev io = \<lparr>bk_rd = (\<lambda>s. blkdev_read io (ucast s) 1), bk_wr = (\<lambda>s bs. blkdev_write io (ucast s) 1 bs)\<rparr>"

section \<open>The allocation table\<close>

record fat16_info =
  ft_bytes_per_sector :: u16
  ft_sectors_per_cluster :: u8
  ft_reserved_sectors :: u16
  ft_num_fats :: u8
  ft_root_entry_count :: u16
  ft_sectors_per_fat :: u16
  ft_total_sectors :: u32
  ft_fat_start :: u32
  ft_root_dir_start :: u32
  ft_root_dir_sectors :: u32
  ft_data_start :: u32
  ft_total_clusters :: u32

record fat16_handle =
  fh_in_use :: bool
  fh_clusters :: "u32 list"
  fh_num_clusters :: nat
  fh_file_size :: u32
  fh_offset :: u64
  fh_dirent_sector :: u32
  fh_dirent_offset :: nat

definition FAT16FS_MAX_HANDLES :: nat where "FAT16FS_MAX_HANDLES = 8"
definition FAT16FS_MAX_CLUSTERS :: nat where "FAT16FS_MAX_CLUSTERS = 256"
definition FAT16FS_PREFIX_LEN :: nat where "FAT16FS_PREFIX_LEN = 11"
definition FAT16_EOC :: u32 where "FAT16_EOC = 0xFFF8"
definition FAT16_EOC_MARK :: u16 where "FAT16_EOC_MARK = 0xFFFF"

definition le16 :: "u16 \<Rightarrow> u8 list" where "le16 w = [ucast w, ucast (drop_bit 8 w)]"

definition cluster_to_sector :: "fat16_info \<Rightarrow> u32 \<Rightarrow> u32" where
  "cluster_to_sector g cluster = ft_data_start g + (cluster - 2) * ucast (ft_sectors_per_cluster g)"

definition fat_read_entry :: "'d blkdev \<Rightarrow> fat16_info \<Rightarrow> u32 \<Rightarrow> ('d, u16) state" where
  "fat_read_entry B g cluster =
     (let fat_offset = cluster * 2; bps = ucast (ft_bytes_per_sector g)
      in do {
        r \<leftarrow> bk_rd B (ft_fat_start g + fat_offset div bps);
        State_Monad.return (case r of None \<Rightarrow> 0xFFFF | Some buf \<Rightarrow> rd16 buf (unat (fat_offset mod bps)))
      })"

text \<open>The table entry is stored in every copy of the table, the copies from \<open>copy\<close> on.\<close>

fun fat_write_copies :: "nat \<Rightarrow> nat \<Rightarrow> 'd blkdev \<Rightarrow> fat16_info \<Rightarrow> u32 \<Rightarrow> u16 \<Rightarrow> ('d, bool) state" where
  "fat_write_copies 0 copy B g cluster v = State_Monad.return True"
| "fat_write_copies (Suc n) copy B g cluster v =
     (let fat_offset = cluster * 2; bps = ucast (ft_bytes_per_sector g);
          fat_sector = ft_fat_start g + of_nat copy * ucast (ft_sectors_per_fat g) + fat_offset div bps
      in do {
        r \<leftarrow> bk_rd B fat_sector;
        case r of
          None \<Rightarrow> State_Monad.return False
        | Some buf \<Rightarrow>
            do {
              w \<leftarrow> bk_wr B fat_sector (put_bytes (unat (fat_offset mod bps)) (le16 v) buf);
              if w then fat_write_copies n (copy + 1) B g cluster v else State_Monad.return False
            }
      })"

definition fat_write_entry :: "'d blkdev \<Rightarrow> fat16_info \<Rightarrow> u32 \<Rightarrow> u16 \<Rightarrow> ('d, bool) state" where
  "fat_write_entry B g cluster v = fat_write_copies (unat (ft_num_fats g)) 0 B g cluster v"

text \<open>\<^verbatim>\<open>walk_chain\<close>: the clusters of the chain, with the iterations left; false when it is too long.\<close>

fun walk_from :: "nat \<Rightarrow> 'd blkdev \<Rightarrow> fat16_info \<Rightarrow> u32 \<Rightarrow> u32 list \<Rightarrow> ('d, bool \<times> u32 list) state" where
  "walk_from 0 B g cluster acc = State_Monad.return (True, acc)"
| "walk_from (Suc n) B g cluster acc =
     (if \<not> (cluster \<ge> 2 \<and> cluster < FAT16_EOC) then State_Monad.return (True, acc)
      else if length acc \<ge> FAT16FS_MAX_CLUSTERS then State_Monad.return (False, acc)
      else do {
        nxt \<leftarrow> fat_read_entry B g cluster;
        if nxt = 0 \<or> nxt = 0xFFF7 then State_Monad.return (True, acc @ [cluster])
        else walk_from n B g (ucast nxt) (acc @ [cluster])
      })"

definition walk_chain :: "'d blkdev \<Rightarrow> fat16_info \<Rightarrow> u16 \<Rightarrow> ('d, bool \<times> u32 list) state" where
  "walk_chain B g first = walk_from (FAT16FS_MAX_CLUSTERS * 4) B g (ucast first) []"

fun free_from :: "nat \<Rightarrow> 'd blkdev \<Rightarrow> fat16_info \<Rightarrow> u32 \<Rightarrow> ('d, unit) state" where
  "free_from 0 B g cluster = State_Monad.return ()"
| "free_from (Suc n) B g cluster =
     (if \<not> (cluster \<ge> 2 \<and> cluster < FAT16_EOC) then State_Monad.return ()
      else do {
        nxt \<leftarrow> fat_read_entry B g cluster;
        _ \<leftarrow> fat_write_entry B g cluster 0;
        if nxt = 0 \<or> nxt = 0xFFF7 then State_Monad.return () else free_from n B g (ucast nxt)
      })"

definition free_chain :: "'d blkdev \<Rightarrow> fat16_info \<Rightarrow> u16 \<Rightarrow> ('d, unit) state" where
  "free_chain B g first = free_from (FAT16FS_MAX_CLUSTERS * 4) B g (ucast first)"

text \<open>The first free cluster in one sector of the table, from entry \<open>e\<close>: \<open>Inl ()\<close> when the clusters of the
  volume end here, \<open>Inr None\<close> when this sector has none.\<close>

fun free_in_sector :: "nat \<Rightarrow> nat \<Rightarrow> fat16_info \<Rightarrow> u32 \<Rightarrow> u8 list \<Rightarrow> unit + u32 option" where
  "free_in_sector 0 e g base buf = Inr None"
| "free_in_sector (Suc n) e g base buf =
     (let cluster = base + of_nat e
      in if cluster < 2 then free_in_sector n (e + 1) g base buf
         else if cluster \<ge> ft_total_clusters g + 2 then Inl ()
         else if rd16 buf (e * 2) = 0 then Inr (Some cluster)
         else free_in_sector n (e + 1) g base buf)"

fun alloc_from :: "nat \<Rightarrow> nat \<Rightarrow> 'd blkdev \<Rightarrow> fat16_info \<Rightarrow> ('d, u32 option) state" where
  "alloc_from 0 s B g = State_Monad.return None"
| "alloc_from (Suc n) s B g =
     (let entries_per_sector = unat (ft_bytes_per_sector g) div 2
      in do {
        r \<leftarrow> bk_rd B (ft_fat_start g + of_nat s);
        case r of
          None \<Rightarrow> State_Monad.return None
        | Some buf \<Rightarrow>
            (case free_in_sector entries_per_sector 0 g (of_nat s * of_nat entries_per_sector) buf of
               Inl _ \<Rightarrow> State_Monad.return None
             | Inr None \<Rightarrow> alloc_from n (s + 1) B g
             | Inr (Some cluster) \<Rightarrow>
                 do {
                   w \<leftarrow> fat_write_entry B g cluster FAT16_EOC_MARK;
                   State_Monad.return (if w then Some cluster else None)
                 })
      })"

definition alloc_cluster :: "'d blkdev \<Rightarrow> fat16_info \<Rightarrow> ('d, u32 option) state" where
  "alloc_cluster B g = alloc_from (unat (ft_sectors_per_fat g)) 0 B g"

section \<open>Names and the root directory\<close>

definition to_upper :: "u8 \<Rightarrow> u8" where
  "to_upper c = (if c \<ge> 97 \<and> c \<le> 122 then c - 32 else c)"

definition to_83 :: "u8 list \<Rightarrow> u8 list" where
  "to_83 name =
     (let base = takeWhile (\<lambda>c. c \<noteq> 46) name;
          rest = dropWhile (\<lambda>c. c \<noteq> 46) name;
          pad = (\<lambda>n s. map to_upper (take n s) @ replicate (n - length s) 32)
      in pad 8 base @ (case rest of [] \<Rightarrow> replicate 3 32 | _ # ext \<Rightarrow> pad 3 ext))"

datatype dir_scan = Dir_end | Dir_next | Dir_hit nat

fun scan_dir :: "nat \<Rightarrow> nat \<Rightarrow> u8 list \<Rightarrow> u8 list \<Rightarrow> dir_scan" where
  "scan_dir 0 e name83 buf = Dir_next"
| "scan_dir (Suc n) e name83 buf =
     (let d = drop (32 * e) buf
      in if d ! 0 = 0 then Dir_end
         else if d ! 0 = 0xE5 then scan_dir n (e + 1) name83 buf
         else if d ! 11 = 0x0F then scan_dir n (e + 1) name83 buf
         else if take 11 d = name83 then Dir_hit e
         else scan_dir n (e + 1) name83 buf)"

text \<open>First cluster, size, sector and offset of the entry.\<close>

fun find_from :: "nat \<Rightarrow> nat \<Rightarrow> 'd blkdev \<Rightarrow> fat16_info \<Rightarrow> u8 list \<Rightarrow> ('d, (u16 \<times> u32 \<times> u32 \<times> nat) option) state" where
  "find_from 0 s B g name83 = State_Monad.return None"
| "find_from (Suc n) s B g name83 =
     do {
       r \<leftarrow> bk_rd B (ft_root_dir_start g + of_nat s);
       case r of
         None \<Rightarrow> State_Monad.return None
       | Some buf \<Rightarrow>
           (case scan_dir (unat (ft_bytes_per_sector g) div 32) 0 name83 buf of
              Dir_end \<Rightarrow> State_Monad.return None
            | Dir_next \<Rightarrow> find_from n (s + 1) B g name83
            | Dir_hit e \<Rightarrow> State_Monad.return
                (Some (rd16 buf (32 * e + 26), rd32 buf (32 * e + 28), ft_root_dir_start g + of_nat s, 32 * e)))
     }"

definition find_in_root :: "'d blkdev \<Rightarrow> fat16_info \<Rightarrow> u8 list \<Rightarrow> ('d, (u16 \<times> u32 \<times> u32 \<times> nat) option) state" where
  "find_in_root B g name83 = find_from (unat (ft_root_dir_sectors g)) 0 B g name83"

fun free_slot_from :: "nat \<Rightarrow> nat \<Rightarrow> 'd blkdev \<Rightarrow> fat16_info \<Rightarrow> ('d, (u32 \<times> nat) option) state" where
  "free_slot_from 0 s B g = State_Monad.return None"
| "free_slot_from (Suc n) s B g =
     do {
       r \<leftarrow> bk_rd B (ft_root_dir_start g + of_nat s);
       case r of
         None \<Rightarrow> State_Monad.return None
       | Some buf \<Rightarrow>
           (case first_slot (\<lambda>e. buf ! (32 * e) = 0 \<or> buf ! (32 * e) = 0xE5) [0..<unat (ft_bytes_per_sector g) div 32] of
              Some e \<Rightarrow> State_Monad.return (Some (ft_root_dir_start g + of_nat s, 32 * e))
            | None \<Rightarrow> free_slot_from n (s + 1) B g)
     }"

definition find_free_root_slot :: "'d blkdev \<Rightarrow> fat16_info \<Rightarrow> ('d, (u32 \<times> nat) option) state" where
  "find_free_root_slot B g = free_slot_from (unat (ft_root_dir_sectors g)) 0 B g"

section \<open>Time stamps\<close>

definition fat_days_from_civil :: "int \<Rightarrow> int \<Rightarrow> int \<Rightarrow> int" where
  "fat_days_from_civil year month day =
     (let year = (if month \<le> 2 then year - 1 else year);
          era = (if year \<ge> 0 then year else year - 399) sdiv 400;
          yoe = year - era * 400;
          doy = (153 * (month + (if month > 2 then -3 else 9)) + 2) div 5 + day - 1;
          doe = yoe * 365 + yoe div 4 - yoe div 100 + doy
      in era * 146097 + doe - 719468)"

definition fat_civil_from_days :: "int \<Rightarrow> int \<times> int \<times> int" where
  "fat_civil_from_days days =
     (let days = days + 719468;
          era = (if days \<ge> 0 then days else days - 146096) sdiv 146097;
          doe = days - era * 146097;
          yoe = (doe - doe div 1460 + doe div 36524 - doe div 146096) div 365;
          y = yoe + era * 400;
          doy = doe - (365 * yoe + yoe div 4 - yoe div 100);
          mp = (5 * doy + 2) div 153;
          day = doy - (153 * mp + 2) div 5 + 1;
          month = mp + (if mp < 10 then 3 else -9)
      in (y + (if month \<le> 2 then 1 else 0), month, day))"

definition fat_encode_time :: "int \<Rightarrow> u16 \<times> u16" where
  "fat_encode_time seconds =
     (let days = seconds sdiv 86400;
          day_seconds = seconds smod 86400;
          (days, day_seconds) = (if day_seconds < 0 then (days - 1, day_seconds + 86400) else (days, day_seconds));
          (year, month, day) = fat_civil_from_days days;
          (year, month, day, day_seconds) =
            (if year < 1980 then (1980, 1, 1, 0)
             else if year > 2107 then (2107, 12, 31, 86398) else (year, month, day, day_seconds))
      in (word_of_int (push_bit 9 (year - 1980) OR push_bit 5 month OR day),
          word_of_int (push_bit 11 (day_seconds div 3600) OR push_bit 5 ((day_seconds div 60) mod 60)
            OR (day_seconds mod 60) div 2)))"

definition fat_decode_time :: "u16 \<Rightarrow> u16 \<Rightarrow> int" where
  "fat_decode_time date time =
     (let day = uint (date AND 0x1F); month = uint (drop_bit 5 date AND 0x0F); year = 1980 + uint (drop_bit 9 date AND 0x7F)
      in if day = 0 \<or> month = 0 \<or> month > 12 then 0
         else fat_days_from_civil year month day * 86400 + uint (drop_bit 11 time AND 0x1F) * 3600
              + uint (drop_bit 5 time AND 0x3F) * 60 + uint (time AND 0x1F) * 2)"

section \<open>Directory entries\<close>

text \<open>An entry lies at offset \<open>o\<close> of its sector; the fields of the C structure are at fixed distances.\<close>

definition fat_set_access_time :: "nat \<Rightarrow> int \<Rightarrow> u8 list \<Rightarrow> u8 list" where
  "fat_set_access_time off atime buf = put_bytes (off + 18) (le16 (fst (fat_encode_time atime))) buf"

definition fat_set_write_time :: "nat \<Rightarrow> int \<Rightarrow> u8 list \<Rightarrow> u8 list" where
  "fat_set_write_time off mtime buf =
     (let (date, time) = fat_encode_time mtime in put_bytes (off + 22) (le16 time) (put_bytes (off + 24) (le16 date) buf))"

definition read_dirent :: "'d blkdev \<Rightarrow> u32 \<Rightarrow> nat \<Rightarrow> ('d, u8 list option) state" where
  "read_dirent B sector off =
     do { r \<leftarrow> bk_rd B sector; State_Monad.return (map_option (\<lambda>buf. take 32 (drop off buf)) r) }"

definition write_new_dirent :: "'d blkdev \<Rightarrow> int \<Rightarrow> u32 \<Rightarrow> nat \<Rightarrow> u8 list \<Rightarrow> ('d, bool) state" where
  "write_new_dirent B now sector off name83 =
     do {
       r \<leftarrow> bk_rd B sector;
       case r of
         None \<Rightarrow> State_Monad.return False
       | Some buf \<Rightarrow>
           (let (date, time) = fat_encode_time now;
                buf = put_bytes off (name83 @ [0x20, 0, 0] @ le16 time @ le16 date) buf;
                buf = fat_set_access_time off now buf;
                buf = put_bytes (off + 20) [0, 0] buf;
                buf = fat_set_write_time off now buf;
                buf = put_bytes (off + 26) [0, 0, 0, 0, 0, 0] buf
            in bk_wr B sector buf)
     }"

definition update_dirent_times :: "'d blkdev \<Rightarrow> fat16_handle \<Rightarrow> int \<Rightarrow> int \<Rightarrow> u64 \<Rightarrow> ('d, bool) state" where
  "update_dirent_times B hh atime mtime flags =
     do {
       r \<leftarrow> bk_rd B (fh_dirent_sector hh);
       case r of
         None \<Rightarrow> State_Monad.return False
       | Some buf \<Rightarrow>
           (let off = fh_dirent_offset hh;
                first = (if fh_num_clusters hh > 0 then ucast (fh_clusters hh ! 0) else 0);
                buf = put_bytes (off + 26) (le16 first) buf;
                buf = put_bytes (off + 20) [0, 0] buf;
                buf = put_bytes (off + 28) (le32 (fh_file_size hh)) buf;
                buf = (if flags AND VFS_UTIME_OMIT_ATIME = 0 then fat_set_access_time off atime buf else buf);
                buf = (if flags AND VFS_UTIME_OMIT_MTIME = 0 then fat_set_write_time off mtime buf else buf)
            in bk_wr B (fh_dirent_sector hh) buf)
     }"

definition update_dirent :: "'d blkdev \<Rightarrow> int \<Rightarrow> fat16_handle \<Rightarrow> ('d, bool) state" where
  "update_dirent B now hh = update_dirent_times B hh now now 0"

section \<open>Mounting\<close>

text \<open>The parameters of the volume from its first sector, or \<open>None\<close> when they are not those of a FAT16 volume.\<close>

definition fat16_parse :: "u8 list \<Rightarrow> fat16_info option" where
  "fat16_parse bpb =
     (let bytes_per_sector = rd16 bpb 11; sectors_per_cluster = bpb ! 13; reserved_sectors = rd16 bpb 14;
          num_fats = bpb ! 16; root_entry_count = rd16 bpb 17; tot_sec16 = rd16 bpb 19; sectors_per_fat = rd16 bpb 22;
          tot_sec32 = rd32 bpb 32; total_sectors = (if tot_sec16 \<noteq> 0 then ucast tot_sec16 else tot_sec32)
      in if bytes_per_sector \<noteq> 512 \<or> sectors_per_cluster = 0 \<or> num_fats = 0 \<or> sectors_per_fat = 0 \<or> total_sectors = 0 then None
         else
           (let fat_start = ucast reserved_sectors;
                root_dir_sectors = (ucast root_entry_count * 32 + ucast bytes_per_sector - 1) div ucast bytes_per_sector;
                root_dir_start = fat_start + ucast num_fats * ucast sectors_per_fat;
                data_start = root_dir_start + root_dir_sectors
            in if total_sectors \<le> data_start then None
               else
                 (let total_clusters = (total_sectors - data_start) div ucast sectors_per_cluster
                  in if total_clusters < 4085 \<or> total_clusters > 65524 then None
                     else Some \<lparr>ft_bytes_per_sector = bytes_per_sector, ft_sectors_per_cluster = sectors_per_cluster,
                       ft_reserved_sectors = reserved_sectors, ft_num_fats = num_fats, ft_root_entry_count = root_entry_count,
                       ft_sectors_per_fat = sectors_per_fat, ft_total_sectors = total_sectors, ft_fat_start = fat_start,
                       ft_root_dir_start = root_dir_start, ft_root_dir_sectors = root_dir_sectors, ft_data_start = data_start,
                       ft_total_clusters = total_clusters\<rparr>)))"

definition fat16_mount :: "'d port_io \<Rightarrow> ('d ide, fat16_info option) state" where
  "fat16_mount io =
     do {
       found \<leftarrow> blkdev_probe io;
       if \<not> found then State_Monad.return None
       else do {
         r \<leftarrow> blkdev_read io 0 1;
         State_Monad.return (Option.bind r fat16_parse)
       }
     }"

section \<open>Requests\<close>

record 'd fat16 =
  fs_dev :: 'd
  fs_info :: fat16_info
  fs_handles :: "fat16_handle list"

definition on_dev :: "('d, 'a) state \<Rightarrow> 'd fat16 \<Rightarrow> 'a \<times> 'd fat16" where
  "on_dev c f = (let (x, d) = run_state c (fs_dev f) in (x, f\<lparr>fs_dev := d\<rparr>))"

definition set_handle :: "nat \<Rightarrow> fat16_handle \<Rightarrow> 'd fat16 \<Rightarrow> 'd fat16" where
  "set_handle i hh f = f\<lparr>fs_handles := (fs_handles f)[i := hh]\<rparr>"

text \<open>The name in a request, behind the prefix of the mount point; the stack behind the buffer is \<open>rest\<close>.\<close>

definition rel_name :: "nat \<Rightarrow> u8 list \<Rightarrow> msg \<Rightarrow> u8 list" where
  "rel_name off rest m = cstring (drop FAT16FS_PREFIX_LEN (take VFS_PATH_MAX (drop off m) @ rest))"

definition fat16_caps :: "msg \<Rightarrow> msg" where
  "fat16_caps m = put64 16 0x20F (put64 8 0x100000002 (reply_status 0 m))"

text \<open>The entry that an open works on: first cluster, size, sector, offset and whether it was there before.\<close>

definition open_dirent :: "'d blkdev \<Rightarrow> fat16_info \<Rightarrow> int \<Rightarrow> u64 \<Rightarrow> u8 list \<Rightarrow> ('d, vfs_err + (u16 \<times> u32 \<times> u32 \<times> nat \<times> bool)) state" where
  "open_dirent B g now flags name83 =
     do {
       hit \<leftarrow> find_in_root B g name83;
       case hit of
         None \<Rightarrow>
           if flags AND VFS_O_CREAT = 0 then State_Monad.return (Inl VFS_ERR_NOT_FOUND)
           else do {
             slot \<leftarrow> find_free_root_slot B g;
             case slot of
               None \<Rightarrow> State_Monad.return (Inl VFS_ERR_NO_SPACE)
             | Some (sector, off) \<Rightarrow>
                 do {
                   w \<leftarrow> write_new_dirent B now sector off name83;
                   State_Monad.return (if w then Inr (0, 0, sector, off, False) else Inl VFS_ERR_NO_SPACE)
                 }
           }
       | Some (cluster, sz, sector, off) \<Rightarrow>
           if flags AND VFS_O_TRUNC = 0 then State_Monad.return (Inr (cluster, sz, sector, off, True))
           else do {
             _ \<leftarrow> (if cluster \<noteq> 0 then free_chain B g cluster else State_Monad.return ());
             State_Monad.return (Inr (0, 0, sector, off, True))
           }
     }"

definition fat16_open :: "'d blkdev \<Rightarrow> int \<Rightarrow> u8 list \<Rightarrow> msg \<Rightarrow> 'd fat16 \<Rightarrow> msg \<times> 'd fat16" where
  "fat16_open B now rest m f =
     (let flags = rd64 m 8; g = fs_info f
      in case on_dev (open_dirent B g now flags (to_83 (rel_name 16 rest m))) f of
           (Inl e, f) \<Rightarrow> (reply_err e m, f)
         | (Inr (cluster, sz, sector, off, found), f) \<Rightarrow>
             (case first_slot (\<lambda>h. \<not> fh_in_use h) (fs_handles f) of
                None \<Rightarrow> (reply_err VFS_ERR_NO_SPACE m, f)
              | Some i \<Rightarrow>
                  (let hh = (fs_handles f ! i)\<lparr>fh_in_use := True, fh_file_size := sz, fh_dirent_sector := sector,
                              fh_dirent_offset := off, fh_num_clusters := 0\<rparr>;
                       ((fine, chain), f) = (if sz > 0 \<and> cluster \<noteq> 0 then on_dev (walk_chain B g cluster) f else ((True, []), f));
                       hh = hh\<lparr>fh_clusters := chain @ drop (length chain) (fh_clusters hh), fh_num_clusters := length chain\<rparr>
                   in if \<not> fine then (reply_err VFS_ERR_NOT_FOUND m, set_handle i (hh\<lparr>fh_in_use := False\<rparr>) f)
                      else
                        (let hh = hh\<lparr>fh_offset := if flags AND VFS_O_APPEND \<noteq> 0 then ucast sz else 0\<rparr>;
                             f = (if flags AND VFS_O_TRUNC \<noteq> 0 \<and> found then snd (on_dev (update_dirent B now hh) f) else f)
                         in (put64 8 (of_nat i) (reply_status 0 m), set_handle i hh f)))))"

definition fat16_valid :: "u64 \<Rightarrow> 'd fat16 \<Rightarrow> bool" where
  "fat16_valid h f \<longleftrightarrow> unat h < FAT16FS_MAX_HANDLES \<and> fh_in_use (fs_handles f ! unat h)"

definition cluster_size :: "fat16_info \<Rightarrow> u32" where
  "cluster_size g = ucast (ft_sectors_per_cluster g) * ucast (ft_bytes_per_sector g)"

text \<open>Where a byte of a file lies: index of its cluster, sector in the cluster, offset in the sector.\<close>

definition locate :: "fat16_info \<Rightarrow> u64 \<Rightarrow> nat \<times> u32 \<times> nat" where
  "locate g file_off =
     (let csize = ucast (cluster_size g); idx = (ucast (file_off div csize) :: u32); coff = (ucast (file_off mod csize) :: u32);
          bps = ucast (ft_bytes_per_sector g)
      in (unat idx, coff div bps, unat (coff mod bps)))"

text \<open>The loop of a read: at least one byte a round, at most forty bytes.\<close>

fun fat16_read_loop :: "nat \<Rightarrow> 'd blkdev \<Rightarrow> fat16_info \<Rightarrow> fat16_handle \<Rightarrow> nat \<Rightarrow> u8 list \<Rightarrow> ('d, u8 list) state" where
  "fat16_read_loop 0 B g hh n got = State_Monad.return got"
| "fat16_read_loop (Suc k) B g hh n got =
     (if \<not> length got < n then State_Monad.return got
      else
        (let (idx, sec, off) = locate g (fh_offset hh + of_nat (length got))
         in if idx \<ge> fh_num_clusters hh then State_Monad.return got
            else do {
              r \<leftarrow> bk_rd B (cluster_to_sector g (fh_clusters hh ! idx) + sec);
              case r of
                None \<Rightarrow> State_Monad.return got
              | Some buf \<Rightarrow>
                  (let chunk = min (unat (ft_bytes_per_sector g) - off) (n - length got)
                   in fat16_read_loop k B g hh n (got @ take chunk (drop off buf)))
            }))"

definition fat16_read :: "'d blkdev \<Rightarrow> msg \<Rightarrow> 'd fat16 \<Rightarrow> msg \<times> 'd fat16" where
  "fat16_read B m f =
     (let h = rd64 m 8; len = (if rd64 m 16 > VFS_READ_MAX then VFS_READ_MAX else rd64 m 16)
      in if \<not> fat16_valid h f then (reply_err VFS_ERR_BAD_HANDLE m, f)
         else
           (let hh = fs_handles f ! unat h;
                avail = (if ucast (fh_file_size hh) > fh_offset hh then ucast (fh_file_size hh) - fh_offset hh else 0);
                n = unat (if len < avail then len else avail);
                (got, f) = on_dev (fat16_read_loop 40 B (fs_info f) hh n []) f
            in (reply_status (of_nat (length got)) (put_bytes 8 got m),
                set_handle (unat h) (hh\<lparr>fh_offset := fh_offset hh + of_nat (length got)\<rparr>) f)))"

text \<open>Adding a cluster at the end of a file; \<open>None\<close> when that fails.\<close>

definition extend_chain :: "'d blkdev \<Rightarrow> fat16_info \<Rightarrow> fat16_handle \<Rightarrow> ('d, fat16_handle option) state" where
  "extend_chain B g hh =
     (if fh_num_clusters hh \<ge> FAT16FS_MAX_CLUSTERS then State_Monad.return None
      else do {
        c \<leftarrow> alloc_cluster B g;
        case c of
          None \<Rightarrow> State_Monad.return None
        | Some new_cluster \<Rightarrow>
            do {
              w \<leftarrow> (if fh_num_clusters hh > 0
                    then fat_write_entry B g (fh_clusters hh ! (fh_num_clusters hh - 1)) (ucast new_cluster)
                    else State_Monad.return True);
              State_Monad.return
                (if w then Some (hh\<lparr>fh_clusters := (fh_clusters hh)[fh_num_clusters hh := new_cluster],
                                   fh_num_clusters := fh_num_clusters hh + 1\<rparr>)
                 else None)
            }
      })"

text \<open>The loop of a write, at most twenty-four rounds.  \<open>None\<close>: the cluster array is read past its end, where
  the C code has no defined result.\<close>

fun fat16_write_loop :: "nat \<Rightarrow> 'd blkdev \<Rightarrow> fat16_info \<Rightarrow> u8 list \<Rightarrow> nat \<Rightarrow> fat16_handle \<Rightarrow> ('d, (nat \<times> fat16_handle) option) state" where
  "fat16_write_loop 0 B g data got hh = State_Monad.return (Some (got, hh))"
| "fat16_write_loop (Suc k) B g data got hh =
     (if \<not> got < length data then State_Monad.return (Some (got, hh))
      else
        (let (idx, sec, off) = locate g (fh_offset hh + of_nat got)
         in do {
           ext \<leftarrow> (if idx \<ge> fh_num_clusters hh then extend_chain B g hh else State_Monad.return (Some hh));
           case ext of
             None \<Rightarrow> State_Monad.return (Some (got, hh))
           | Some hh \<Rightarrow>
               if idx \<ge> FAT16FS_MAX_CLUSTERS then State_Monad.return None
               else
                 (let sector = cluster_to_sector g (fh_clusters hh ! idx) + sec;
                      chunk = min (unat (ft_bytes_per_sector g) - off) (length data - got)
                  in do {
                    r \<leftarrow> bk_rd B sector;
                    case r of
                      None \<Rightarrow> State_Monad.return (Some (got, hh))
                    | Some buf \<Rightarrow>
                        do {
                          w \<leftarrow> bk_wr B sector (put_bytes off (take chunk (drop got data)) buf);
                          if w then fat16_write_loop k B g data (got + chunk) hh else State_Monad.return (Some (got, hh))
                        }
                  })
         }))"

definition fat16_write :: "'d blkdev \<Rightarrow> int \<Rightarrow> msg \<Rightarrow> 'd fat16 \<Rightarrow> (msg \<times> 'd fat16) option" where
  "fat16_write B now m f =
     (let h = rd64 m 8; len = (if rd64 m 16 > VFS_WRITE_MAX then VFS_WRITE_MAX else rd64 m 16);
          data = take (unat len) (drop 24 m)
      in if \<not> fat16_valid h f then Some (reply_err VFS_ERR_BAD_HANDLE m, f)
         else
           (case on_dev (fat16_write_loop 24 B (fs_info f) data 0 (fs_handles f ! unat h)) f of
              (None, f) \<Rightarrow> None
            | (Some (got, hh), f) \<Rightarrow>
                (let off = fh_offset hh + of_nat got;
                     hh = hh\<lparr>fh_offset := off, fh_file_size := if off > ucast (fh_file_size hh) then ucast off else fh_file_size hh\<rparr>;
                     f = (if got > 0 then snd (on_dev (update_dirent B now hh) f) else f)
                 in Some (reply_status (of_nat got) m, set_handle (unat h) hh f))))"

definition fat16_close :: "msg \<Rightarrow> 'd fat16 \<Rightarrow> msg \<times> 'd fat16" where
  "fat16_close m f =
     (let h = rd64 m 8
      in if \<not> fat16_valid h f then (reply_err VFS_ERR_BAD_HANDLE m, f)
         else (reply_status 0 m, set_handle (unat h) ((fs_handles f ! unat h)\<lparr>fh_in_use := False\<rparr>) f))"

definition fat16_utimens :: "'d blkdev \<Rightarrow> msg \<Rightarrow> 'd fat16 \<Rightarrow> msg \<times> 'd fat16" where
  "fat16_utimens B m f =
     (let h = rd64 m 8; flags = rd64 m 16
      in if \<not> fat16_valid h f \<or> flags AND NOT (VFS_UTIME_OMIT_ATIME OR VFS_UTIME_OMIT_MTIME) \<noteq> 0
         then (reply_err VFS_ERR_INVALID m, f)
         else
           (let (w, f) = on_dev (update_dirent_times B (fs_handles f ! unat h) (sint (rd64 m 24)) (sint (rd64 m 32)) flags) f
            in (if w then reply_status 0 m else reply_err VFS_ERR_NO_SPACE m, f)))"

definition fat16_stat :: "'d blkdev \<Rightarrow> u8 list \<Rightarrow> msg \<Rightarrow> 'd fat16 \<Rightarrow> msg \<times> 'd fat16" where
  "fat16_stat B rest m f =
     (let rel = rel_name 8 rest m
      in if rel = [] then (put64 24 1 (put64 16 1 (put64 8 0 (reply_status 0 m))), f)
         else
           (case on_dev (find_in_root B (fs_info f) (to_83 rel)) f of
              (None, f) \<Rightarrow> (reply_err VFS_ERR_NOT_FOUND m, f)
            | (Some (cluster, sz, sector, off), f) \<Rightarrow>
                (let m = put64 24 (ucast cluster + 1) (put64 16 0 (put64 8 (ucast sz) (reply_status 0 m)))
                 in case on_dev (read_dirent B sector off) f of
                      (None, f) \<Rightarrow> (reply_err VFS_ERR_NOT_FOUND m, f)
                    | (Some d, f) \<Rightarrow>
                        (put64 40 (word_of_int (fat_decode_time (rd16 d 24) (rd16 d 22)))
                          (put64 32 (word_of_int (fat_decode_time (rd16 d 18) 0)) m), f))))"

definition fat16_serve :: "'d blkdev \<Rightarrow> int \<Rightarrow> u8 list \<Rightarrow> msg \<Rightarrow> 'd fat16 \<Rightarrow> (msg \<times> 'd fat16) option" where
  "fat16_serve B now rest m f =
     (let opc = rd64 m 0
      in if opc = VFS_OP_OPEN then Some (fat16_open B now rest m f)
         else if opc = VFS_OP_READ then Some (fat16_read B m f)
         else if opc = VFS_OP_WRITE then fat16_write B now m f
         else if opc = VFS_OP_CLOSE then Some (fat16_close m f)
         else if opc = VFS_OP_STAT then Some (fat16_stat B rest m f)
         else if opc = VFS_OP_CAPS then Some (fat16_caps m, f)
         else if opc = VFS_OP_UTIMENS then Some (fat16_utimens B m f)
         else Some (reply_err VFS_ERR_NOT_SUPPORTED m, f))"

end
