(* ===== verification/Fat16props.thy ===== *)
theory Fat16props
  imports Fat16
begin

text \<open>
  Properties of the FAT16 file server (\<^verbatim>\<open>src/servers/fs/fat16\<close>): the layout of a mounted volume and
  the time stamps of directory entries.
\<close>

section \<open>The layout of a volume\<close>

lemma ucast16_32: "unat (ucast (w :: u16) :: u32) = unat w"
  using unsigned_less [of w, where ?'a = nat] by (simp add: unsigned_ucast_eq take_bit_nat_eq_self)

lemma ucast8_32: "unat (ucast (w :: u8) :: u32) = unat w"
  using unsigned_less [of w, where ?'a = nat] by (simp add: unsigned_ucast_eq take_bit_nat_eq_self)

lemma unat_mult_small: "unat (a :: u32) * unat b < 2 ^ 32 \<Longrightarrow> unat (a * b) = unat a * unat b"
  by (simp add: unat_word_ariths(2))

lemma unat_add_small: "unat (a :: u32) + unat b < 2 ^ 32 \<Longrightarrow> unat (a + b) = unat a + unat b"
  by (simp add: unat_word_ariths(1))

lemma layout_regions:
  fixes nf :: u8 and spf rs rc :: u16
  defines "fs \<equiv> (ucast rs :: u32)" and "rds \<equiv> ((ucast rc * 32 + ucast (512 :: u16) - 1) div ucast (512 :: u16) :: u32)"
  defines "rd \<equiv> fs + ucast nf * ucast spf"
  shows "unat rd = unat fs + unat nf * unat spf \<and> unat (rd + rds) = unat rd + unat rds"
proof -
  have b: "unat nf < 2 ^ 8" "unat spf < 2 ^ 16" "unat rs < 2 ^ 16" "unat rc < 2 ^ 16"
    using unsigned_less [of nf, where ?'a = nat] unsigned_less [of spf, where ?'a = nat] unsigned_less [of rs, where ?'a = nat]
      unsigned_less [of rc, where ?'a = nat] by simp_all
  have "unat nf * unat spf \<le> 255 * 65535" using b by (intro mult_le_mono) simp_all
  then have m: "unat (ucast nf * ucast spf :: u32) = unat nf * unat spf" "unat nf * unat spf \<le> 16711425"
    using unat_mult_small [of "ucast nf" "ucast spf"] by (simp_all add: ucast8_32 ucast16_32)
  have rd: "unat rd = unat fs + unat nf * unat spf"
    unfolding rd_def using m b(3) by (subst unat_add_small) (simp_all add: fs_def ucast16_32)
  have fs: "unat fs < 2 ^ 16" using b(3) by (simp add: fs_def ucast16_32)
  have rc: "unat (ucast rc * 32 :: u32) = unat rc * 32"
    using unat_mult_small [of "ucast rc" 32] b(4) by (simp add: ucast16_32)
  have five: "unat (ucast (512 :: u16) :: u32) = 512" by (simp add: ucast16_32)
  have "unat (ucast rc * 32 + ucast (512 :: u16) :: u32) = unat rc * 32 + 512"
    using unat_add_small [of "ucast rc * 32" "ucast (512 :: u16)"] rc five b(4) by simp
  then have "unat (ucast rc * 32 + ucast (512 :: u16) - 1 :: u32) = unat rc * 32 + 511"
    by (subst unat_sub) (simp_all add: word_le_nat_alt)
  then have "unat rds = (unat rc * 32 + 511) div 512" by (simp add: rds_def unat_div five)
  then have "unat rds \<le> 4096" using b(4) by simp
  with rd fs m(2) show ?thesis using unat_add_small [of rd rds] by simp
qed

lemma cluster_sectors:
  assumes lt: "unat (ft_data_start g) < unat (ft_total_sectors g)" and spc: "0 < unat (ft_sectors_per_cluster g)"
    and tc: "unat (ft_total_clusters g) = (unat (ft_total_sectors g) - unat (ft_data_start g)) div unat (ft_sectors_per_cluster g)"
    and c: "2 \<le> unat c" "unat c < unat (ft_total_clusters g) + 2"
  shows "unat (cluster_to_sector g c) = unat (ft_data_start g) + (unat c - 2) * unat (ft_sectors_per_cluster g)"
    "unat (cluster_to_sector g c) + unat (ft_sectors_per_cluster g) \<le> unat (ft_total_sectors g)"
proof -
  have c2: "unat (c - 2) = unat c - 2" using c(1) by (subst unat_sub) (simp_all add: word_le_nat_alt)
  have "(unat c - 2 + 1) * unat (ft_sectors_per_cluster g) \<le> unat (ft_total_clusters g) * unat (ft_sectors_per_cluster g)"
    using c by (intro mult_le_mono1) simp
  also have "\<dots> \<le> unat (ft_total_sectors g) - unat (ft_data_start g)" by (simp add: tc)
  finally have le: "(unat c - 2) * unat (ft_sectors_per_cluster g) + unat (ft_sectors_per_cluster g)
      \<le> unat (ft_total_sectors g) - unat (ft_data_start g)" by (simp add: add_mult_distrib)
  have t: "unat (ft_total_sectors g) < 2 ^ 32" using unsigned_less [of "ft_total_sectors g", where ?'a = nat] by simp
  have m: "unat ((c - 2) * ucast (ft_sectors_per_cluster g)) = (unat c - 2) * unat (ft_sectors_per_cluster g)"
    using le t by (subst unat_mult_small) (simp_all add: c2 ucast8_32)
  show e: "unat (cluster_to_sector g c) = unat (ft_data_start g) + (unat c - 2) * unat (ft_sectors_per_cluster g)"
    unfolding cluster_to_sector_def using le t lt by (subst unat_add_small) (simp_all add: m)
  show "unat (cluster_to_sector g c) + unat (ft_sectors_per_cluster g) \<le> unat (ft_total_sectors g)"
    unfolding e using le lt by simp
qed

lemma fat16_parse_facts:
  assumes "fat16_parse bpb = Some g"
  shows "ft_bytes_per_sector g = 512" "0 < unat (ft_sectors_per_cluster g)"
    "unat (ft_root_dir_start g) = unat (ft_fat_start g) + unat (ft_num_fats g) * unat (ft_sectors_per_fat g)"
    "unat (ft_data_start g) = unat (ft_root_dir_start g) + unat (ft_root_dir_sectors g)"
    "unat (ft_data_start g) < unat (ft_total_sectors g)"
    "unat (ft_total_clusters g) = (unat (ft_total_sectors g) - unat (ft_data_start g)) div unat (ft_sectors_per_cluster g)"
    "4085 \<le> unat (ft_total_clusters g)" "unat (ft_total_clusters g) \<le> 65524"
proof -
  define ts where "ts = (if rd16 bpb 19 \<noteq> 0 then ucast (rd16 bpb 19) else rd32 bpb 32)"
  define rd where "rd = (ucast (rd16 bpb 14) + ucast (bpb ! 16) * ucast (rd16 bpb 22) :: u32)"
  define rds where "rds = ((ucast (rd16 bpb 17) * 32 + ucast (512 :: u16) - 1) div ucast (512 :: u16) :: u32)"
  define tc where "tc = (ts - (rd + rds)) div ucast (bpb ! 13)"
  have p: "bpb ! 13 \<noteq> 0" "\<not> ts \<le> rd + rds" "\<not> tc < 4085" "\<not> tc > 65524"
    "g = \<lparr>ft_bytes_per_sector = 512, ft_sectors_per_cluster = bpb ! 13, ft_reserved_sectors = rd16 bpb 14, ft_num_fats = bpb ! 16,
       ft_root_entry_count = rd16 bpb 17, ft_sectors_per_fat = rd16 bpb 22, ft_total_sectors = ts, ft_fat_start = ucast (rd16 bpb 14),
       ft_root_dir_start = rd, ft_root_dir_sectors = rds, ft_data_start = rd + rds, ft_total_clusters = tc\<rparr>"
    using assms unfolding fat16_parse_def Let_def ts_def [symmetric]
    by (auto simp: rd_def rds_def tc_def split: if_splits)
  note reg = layout_regions [where rs = "rd16 bpb 14" and rc = "rd16 bpb 17" and nf = "bpb ! 16" and spf = "rd16 bpb 22",
      folded rd_def rds_def]
  have z: "0 < unat (bpb ! 13)" using p(1) by (simp add: unat_gt_0)
  have lt: "unat (rd + rds) < unat ts" using p(2) by (simp add: word_le_nat_alt)
  have t: "unat tc = (unat ts - unat (rd + rds)) div unat (bpb ! 13)"
    unfolding tc_def unat_div ucast8_32 using lt by (subst unat_sub) (simp_all add: word_le_nat_alt)
  show "ft_bytes_per_sector g = 512" "0 < unat (ft_sectors_per_cluster g)"
    "unat (ft_root_dir_start g) = unat (ft_fat_start g) + unat (ft_num_fats g) * unat (ft_sectors_per_fat g)"
    "unat (ft_data_start g) = unat (ft_root_dir_start g) + unat (ft_root_dir_sectors g)"
    "unat (ft_data_start g) < unat (ft_total_sectors g)"
    "unat (ft_total_clusters g) = (unat (ft_total_sectors g) - unat (ft_data_start g)) div unat (ft_sectors_per_cluster g)"
    "4085 \<le> unat (ft_total_clusters g)" "unat (ft_total_clusters g) \<le> 65524"
    unfolding p(5) using z reg lt t p(3,4) by (simp_all add: word_less_nat_alt not_less)
qed

text \<open>C26. A volume that the server mounts is laid out without overlap and without wrap-around: the copies of the
  allocation table, the root directory and the data follow each other, and the sectors of every cluster that the
  table can name lie inside the volume and apart from those of every other cluster.\<close>

theorem fat16_layout:
  assumes "fat16_parse bpb = Some g" "2 \<le> unat c" "unat c < unat c'" "unat c' < unat (ft_total_clusters g) + 2"
  shows "unat (ft_fat_start g) + unat (ft_num_fats g) * unat (ft_sectors_per_fat g) = unat (ft_root_dir_start g)
    \<and> unat (ft_root_dir_start g) + unat (ft_root_dir_sectors g) = unat (ft_data_start g)
    \<and> unat (ft_data_start g) \<le> unat (cluster_to_sector g c)
    \<and> unat (cluster_to_sector g c) + unat (ft_sectors_per_cluster g) \<le> unat (cluster_to_sector g c')
    \<and> unat (cluster_to_sector g c') + unat (ft_sectors_per_cluster g) \<le> unat (ft_total_sectors g)"
proof -
  note f = fat16_parse_facts [OF assms(1)]
  note s = cluster_sectors [OF f(5,2,6)]
  have "(unat c - 2 + 1) * unat (ft_sectors_per_cluster g) \<le> (unat c' - 2) * unat (ft_sectors_per_cluster g)"
    using assms(2,3) by (intro mult_le_mono1) simp
  then show ?thesis using f(3,4) s [of c] s [of c'] assms(2-4) by (simp add: add_mult_distrib)
qed

section \<open>Time stamps\<close>

text \<open>The days of an era of 400 years before its year \<open>y\<close> (years start in March), and the server's estimate of
  the year from the day of the era.\<close>

definition year_start :: "int \<Rightarrow> int" where "year_start y = 365 * y + y div 4 - y div 100"
definition year_end :: "int \<Rightarrow> int" where "year_end y = (if y = 399 then 146097 else year_start (y + 1))"
definition year_est :: "int \<Rightarrow> int" where "year_est doe = doe - doe div 1460 + doe div 36524 - doe div 146096"

lemma years_check:
  "list_all (\<lambda>y. 365 * y \<le> year_est (year_start y) \<and> year_est (year_end y - 1) < 365 * (y + 1)
     \<and> year_end y \<le> year_start y + 366 \<and> 0 \<le> year_start y \<and> year_end y \<le> 146097
     \<and> (y < 379 \<longrightarrow> year_end y \<le> 138426) \<and> (107 < y \<longrightarrow> 39446 \<le> year_start y)) [0..399]"
  by code_simp

lemma days_check:
  "list_all (\<lambda>doy. let mp = (5 * doy + 2) div 153; day = doy - (153 * mp + 2) div 5 + 1
     in 0 \<le> mp \<and> mp \<le> 11 \<and> 1 \<le> day \<and> day \<le> 31 \<and> (306 \<le> doy \<longleftrightarrow> 10 \<le> mp)) [0..365 :: int]"
  by code_simp

lemma div_slow:
  fixes a b n :: int
  assumes "a \<le> b" "0 < n"
  shows "a - a div n \<le> b - b div n"
proof -
  have "b \<le> a + (b - a) * n" using assms mult_left_mono [of 1 n "b - a"] by simp
  then have "b div n \<le> (a + (b - a) * n) div n" using assms(2) by (intro zdiv_mono1) simp_all
  also have "\<dots> = a div n + (b - a)" using assms(2) by simp
  finally show ?thesis by simp
qed

lemma year_est_mono:
  assumes "a \<le> b"
  shows "year_est a \<le> year_est b"
proof -
  have "x div 146096 = x div 36524 div 4" for x :: int
    using zdiv_zmult2_eq [of 4 x 36524] by simp
  then show ?thesis
    using div_slow [OF assms, of 1460] div_slow [OF zdiv_mono1 [OF assms, of 36524], of 4] by (simp add: year_est_def)
qed

lemma find_year:
  assumes "0 \<le> doe" "doe < year_end (int n - 1)" "0 < n" "n \<le> 400"
  shows "\<exists>y \<ge> 0. y < int n \<and> year_start y \<le> doe \<and> doe < year_end y"
  using assms
proof (induction n)
  case (Suc n)
  show ?case
  proof (cases "n = 0 \<or> year_start (int n) \<le> doe")
    case True
    then have "year_start (int n) \<le> doe" using Suc.prems(1) by (auto simp: year_start_def)
    then show ?thesis using Suc.prems by (intro exI [of _ "int n"]) simp
  next
    case False
    then have "doe < year_end (int n - 1)" using Suc.prems by (simp add: year_end_def)
    then show ?thesis using Suc.IH Suc.prems False by force
  qed
qed simp

lemma year_of_day:
  assumes "0 \<le> doe" "doe < 146097"
  obtains y where "0 \<le> y" "y < 400" "year_est doe div 365 = y" "year_start y \<le> doe" "doe < year_end y" "doe - year_start y \<le> 365"
proof -
  obtain y where y: "0 \<le> y" "y < 400" "year_start y \<le> doe" "doe < year_end y"
    using find_year [of doe 400] assms by (auto simp: year_end_def)
  have c: "365 * y \<le> year_est (year_start y)" "year_est (year_end y - 1) < 365 * (y + 1)" "year_end y \<le> year_start y + 366"
    using bspec [OF years_check [unfolded list_all_iff set_upto], of y] y(1,2) by simp_all
  have "year_est (year_start y) \<le> year_est doe" "year_est doe \<le> year_est (year_end y - 1)"
    using y by (auto intro: year_est_mono)
  then have "365 * y \<le> year_est doe" "year_est doe < 365 * (y + 1)" using c by linarith+
  then have "year_est doe div 365 = y" by (intro int_div_pos_eq [where r = "year_est doe - 365 * y"]) (simp_all add: algebra_simps)
  with that y c show ?thesis by force
qed

lemma sdiv_nonneg: "0 \<le> (a :: int) \<Longrightarrow> 0 < b \<Longrightarrow> a sdiv b = a div b"
  by (cases "a = 0") (simp_all add: signed_divide_int_def)

lemma smod_nonneg: "0 \<le> (a :: int) \<Longrightarrow> 0 < b \<Longrightarrow> a smod b = a mod b"
  by (cases "a = 0") (simp_all add: signed_modulo_int_def)

text \<open>The calendar date of a day, through the day of the era.\<close>

lemma civil_from_days:
  assumes "0 \<le> days + 719468"
  obtains era yoe doy mp where
    "fat_civil_from_days days = (yoe + era * 400 + (if 10 \<le> mp then 1 else 0), mp + (if mp < 10 then 3 else - 9), doy - (153 * mp + 2) div 5 + 1)"
    "0 \<le> era" "0 \<le> yoe" "yoe < 400" "0 \<le> mp" "mp \<le> 11" "days = era * 146097 + year_start yoe + doy - 719468"
    "0 \<le> doy" "doy \<le> 365" "306 \<le> doy \<longleftrightarrow> 10 \<le> mp" "1 \<le> doy - (153 * mp + 2) div 5 + 1" "doy - (153 * mp + 2) div 5 + 1 \<le> 31"
    "year_start yoe + doy < year_end yoe"
proof -
  define era where "era = (days + 719468) div 146097"
  define doe where "doe = days + 719468 - era * 146097"
  have doe: "0 \<le> doe" "doe < 146097" by (simp_all add: doe_def era_def minus_div_mult_eq_mod)
  obtain y where y: "0 \<le> y" "y < 400" "year_est doe div 365 = y" "year_start y \<le> doe" "doe < year_end y" "doe - year_start y \<le> 365"
    using year_of_day [OF doe] by blast
  define doy where "doy = doe - year_start y"
  define mp where "mp = (5 * doy + 2) div 153"
  have d: "0 \<le> doy" "doy \<le> 365" using y by (simp_all add: doy_def)
  have c: "0 \<le> mp" "mp \<le> 11" "1 \<le> doy - (153 * mp + 2) div 5 + 1" "doy - (153 * mp + 2) div 5 + 1 \<le> 31" "306 \<le> doy \<longleftrightarrow> 10 \<le> mp"
    using bspec [OF days_check [unfolded list_all_iff set_upto Let_def], of doy] d by (simp_all add: mp_def [symmetric])
  have e: "(doe - doe div 1460 + doe div 36524 - doe div 146096) div 365 = y" using y(3) by (simp add: year_est_def)
  have m: "(mp + (if mp < 10 then 3 else - 9) \<le> 2) = (10 \<le> mp)" using c(1,2) by auto
  have "fat_civil_from_days days = (y + era * 400 + (if 10 \<le> mp then 1 else 0), mp + (if mp < 10 then 3 else - 9), doy - (153 * mp + 2) div 5 + 1)"
    unfolding fat_civil_from_days_def Let_def if_P [OF assms] sdiv_nonneg [OF assms, of 146097, simplified] era_def [symmetric] doe_def [symmetric] e
      year_start_def [symmetric] doy_def [symmetric] mp_def [symmetric] m by simp
  moreover have "0 \<le> era" using assms by (simp add: era_def pos_imp_zdiv_nonneg_iff)
  moreover have "days = era * 146097 + year_start y + doy - 719468" "year_start y + doy < year_end y" using y(5) by (simp_all add: doe_def doy_def)
  ultimately show ?thesis using that [where era = era and yoe = y and mp = mp and doy = doy] y(1,2) d c by metis
qed

lemma days_from_civil:
  assumes "0 \<le> era" "0 \<le> yoe" "yoe < 400" "0 \<le> mp" "mp \<le> 11"
  shows "fat_days_from_civil (yoe + era * 400 + (if 10 \<le> mp then 1 else 0)) (mp + (if mp < 10 then 3 else - 9)) day
    = era * 146097 + year_start yoe + ((153 * mp + 2) div 5 + day - 1) - 719468"
proof -
  let ?m = "mp + (if mp < 10 then 3 else - 9)"
  have m: "?m \<le> 2 \<longleftrightarrow> 10 \<le> mp" "?m + (if ?m > 2 then - 3 else 9) = mp" using assms(4,5) by auto
  have y: "(if ?m \<le> 2 then yoe + era * 400 + (if 10 \<le> mp then 1 else 0) - 1 else yoe + era * 400 + (if 10 \<le> mp then 1 else 0)) = yoe + era * 400"
    using m(1) by simp
  have nn: "0 \<le> yoe + era * 400" using assms by simp
  have e: "(yoe + era * 400) sdiv 400 = era" using sdiv_nonneg [OF nn, of 400] assms by simp
  show ?thesis
    unfolding fat_days_from_civil_def Let_def y if_P [OF nn] e m(2) by (simp add: year_start_def)
qed

text \<open>The server's calendar functions are inverse to each other.\<close>

lemma civil_roundtrip:
  assumes "0 \<le> days + 719468" "fat_civil_from_days days = (year, month, day)"
  shows "fat_days_from_civil year month day = days"
proof -
  obtain era yoe doy mp where c: "fat_civil_from_days days = (yoe + era * 400 + (if 10 \<le> mp then 1 else 0), mp + (if mp < 10 then 3 else - 9), doy - (153 * mp + 2) div 5 + 1)"
    "0 \<le> era" "0 \<le> yoe" "yoe < 400" "0 \<le> mp" "mp \<le> 11" "days = era * 146097 + year_start yoe + doy - 719468"
    using civil_from_days [OF assms(1)] by metis
  show ?thesis using days_from_civil [OF c(2-6)] assms(2) c(1,7) by auto
qed

lemma int_bit_bound:
  assumes "0 \<le> (a :: int)" "a < 2 ^ k" "bit a n"
  shows "n < k"
proof -
  have "take_bit k a = a" using assms(1,2) by (rule take_bit_int_eq_self)
  then have "bit (take_bit k a) n" using assms(3) by simp
  then show ?thesis by (simp add: bit_take_bit_iff)
qed

text \<open>Three fields packed into sixteen bits.\<close>

lemma pack_fields:
  assumes "0 \<le> a" "a < 2 ^ l" "0 \<le> b" "b < 2 ^ j" "0 \<le> c" "c < 2 ^ 5" "l + j = 11"
  defines "w \<equiv> (word_of_int (push_bit (5 + j) a OR push_bit 5 b OR c) :: u16)"
  shows "uint (w AND mask 5) = c" "uint (drop_bit 5 w AND mask j) = b" "uint (drop_bit (5 + j) w AND mask l) = a"
proof -
  note bb = int_bit_bound [OF assms(1,2)] int_bit_bound [OF assms(3,4)] int_bit_bound [OF assms(5,6)]
  have u: "uint w = take_bit 16 (push_bit (5 + j) a OR push_bit 5 b OR c)" by (simp add: w_def uint_word_of_int take_bit_eq_mod)
  have m: "uint (drop_bit k w AND mask n) = take_bit n (drop_bit k (uint w))" for k n
    by (simp add: take_bit_eq_mask [symmetric] unsigned_take_bit_eq unsigned_drop_bit_eq u)
  have "take_bit 5 (drop_bit 0 (uint w)) = c"
    unfolding u by (rule bit_eqI) (auto simp: bit_simps dest: bb)
  moreover have "take_bit j (drop_bit 5 (uint w)) = b"
    unfolding u using assms(7) by (intro bit_eqI) (auto simp: bit_simps dest: bb)
  moreover have "take_bit l (drop_bit (5 + j) (uint w)) = a"
    unfolding u using assms(7) by (intro bit_eqI) (auto simp: bit_simps dest: bb)
  ultimately show "uint (w AND mask 5) = c" "uint (drop_bit 5 w AND mask j) = b" "uint (drop_bit (5 + j) w AND mask l) = a"
    using m [of 0 5] m [of 5 j] m [of "5 + j" l] by simp_all
qed

lemma civil_year_range:
  assumes "3652 \<le> days" "days \<le> 50402" "fat_civil_from_days days = (year, month, day)"
  shows "1980 \<le> year" "year \<le> 2107" "1 \<le> month" "month \<le> 12" "1 \<le> day" "day \<le> 31"
proof -
  have nn: "0 \<le> days + 719468" using assms(1) by simp
  obtain era yoe doy mp where c: "fat_civil_from_days days = (yoe + era * 400 + (if 10 \<le> mp then 1 else 0), mp + (if mp < 10 then 3 else - 9), doy - (153 * mp + 2) div 5 + 1)"
    "0 \<le> era" "0 \<le> yoe" "yoe < 400" "0 \<le> mp" "mp \<le> 11" "days = era * 146097 + year_start yoe + doy - 719468"
    "0 \<le> doy" "doy \<le> 365" "306 \<le> doy \<longleftrightarrow> 10 \<le> mp" "1 \<le> doy - (153 * mp + 2) div 5 + 1" "doy - (153 * mp + 2) div 5 + 1 \<le> 31"
    "year_start yoe + doy < year_end yoe"
    by (rule civil_from_days [OF nn])
  show "1 \<le> month" "month \<le> 12" "1 \<le> day" "day \<le> 31" using c assms(3) by auto
  have se: "0 \<le> year_start yoe" "year_end yoe \<le> 146097" "yoe < 379 \<Longrightarrow> year_end yoe \<le> 138426" "107 < yoe \<Longrightarrow> 39446 \<le> year_start yoe"
    using bspec [OF years_check [unfolded list_all_iff set_upto], of yoe] c(3,4) by simp_all
  have era: "era = 4 \<or> era = 5" using c(2,7,8,13) se(1,2) assms(1,2) by linarith
  have y: "year = yoe + era * 400 + (if 10 \<le> mp then 1 else 0)" using c(1) assms(3) by simp
  have lo: "379 \<le> yoe" "yoe = 379 \<Longrightarrow> 10 \<le> mp" if "era = 4"
    using that c(7,10,13) se(3) assms(1) by (auto simp: year_start_def not_less [symmetric])
  have hi: "yoe \<le> 107" "yoe = 107 \<Longrightarrow> \<not> 10 \<le> mp" if "era = 5"
    using that c(7,8,10) se(4) assms(2) by (auto simp: year_start_def not_less [symmetric])
  show "1980 \<le> year" using era lo y c(3) by (cases "10 \<le> mp"; presburger)
  show "year \<le> 2107" using era hi y c(4) by (cases "10 \<le> mp"; presburger)
qed

lemma mask_lits: "(0x1F :: u16) = mask 5" "(0x0F :: u16) = mask 4" "(0x7F :: u16) = mask 7" "(0x3F :: u16) = mask 6"
  by (simp_all add: mask_eq_exp_minus_1)

lemma even_rest:
  fixes a b c x :: int
  shows "a * 86400 + b * 3600 + c * 60 + x div 2 * 2 = (a * 86400 + b * 3600 + c * 60 + x) - (a * 86400 + b * 3600 + c * 60 + x) mod 2"
  by presburger

text \<open>C27. Time stamps survive the directory entry: for every second from 1980 to the end of 2107 the date and time
  words that the server stores decode to that second, rounded down to the two seconds that the format can hold.\<close>

theorem fat_time_roundtrip:
  assumes "315532800 \<le> s" "s < 4354819200" "fat_encode_time s = (date, time)"
  shows "fat_decode_time date time = s - s mod 2"
proof -
  define days where "days = s div 86400"
  define ds where "ds = s mod 86400"
  have d: "3652 \<le> days" "days \<le> 50402" using assms(1,2) by (simp_all add: days_def)
  obtain year month day where c: "fat_civil_from_days days = (year, month, day)" by (cases "fat_civil_from_days days") blast
  note r = civil_year_range [OF d c]
  have s0: "0 \<le> s" "s sdiv 86400 = days" "s smod 86400 = ds" "\<not> ds < 0"
    using assms(1) sdiv_nonneg [of s 86400] smod_nonneg [of s 86400] by (simp_all add: days_def ds_def)
  have enc: "date = word_of_int (push_bit 9 (year - 1980) OR push_bit 5 month OR day)"
    "time = word_of_int (push_bit 11 (ds div 3600) OR push_bit 5 ((ds div 60) mod 60) OR (ds mod 60) div 2)"
    using assms(3) r(1,2) unfolding fat_encode_time_def s0(2,3) Let_def if_not_P [OF s0(4)] prod.case c by simp_all
  have dd: "0 \<le> ds" "ds < 86400" by (simp_all add: ds_def)
  have t: "0 \<le> ds div 3600" "ds div 3600 < 2 ^ 5" "0 \<le> (ds mod 60) div 2" "(ds mod 60) div 2 < 2 ^ 5"
    using dd by (simp_all add: pos_imp_zdiv_nonneg_iff)
  have t6: "0 \<le> (ds div 60) mod 60" "(ds div 60) mod 60 < 2 ^ 6" using pos_mod_bound [of 60 "ds div 60"] by simp_all
  have n: "5 + (6 :: nat) = 11" "5 + 6 = (11 :: nat)" by simp_all
  note pt = pack_fields [OF t(1,2) t6 t(3,4) n(2), unfolded n]
  have "uint (date AND 0x1F) = day \<and> uint (drop_bit 5 date AND 0x0F) = month \<and> uint (drop_bit 9 date AND 0x7F) = year - 1980"
    unfolding enc(1) mask_lits using pack_fields [of "year - 1980" 7 month 4 day] r by simp
  moreover have "uint (time AND 0x1F) = (ds mod 60) div 2 \<and> uint (drop_bit 5 time AND 0x3F) = (ds div 60) mod 60
      \<and> uint (drop_bit 11 time AND 0x1F) = ds div 3600"
    unfolding enc(2) mask_lits by (intro conjI; rule pt)
  moreover have "fat_days_from_civil year month day = days" using civil_roundtrip [OF _ c] d by simp
  ultimately have dec: "fat_decode_time date time = days * 86400 + ds div 3600 * 3600 + (ds div 60) mod 60 * 60 + (ds mod 60) div 2 * 2"
    using r by (simp add: fat_decode_time_def Let_def)
  have "ds div 3600 = ds div 60 div 60" using zdiv_zmult2_eq [of 60 ds 60] by simp
  then have sq: "s = days * 86400 + ds div 3600 * 3600 + (ds div 60) mod 60 * 60 + ds mod 60"
    using div_mult_mod_eq [of s 86400, folded days_def ds_def] div_mult_mod_eq [of ds 60] div_mult_mod_eq [of "ds div 60" 60] by linarith
  show ?thesis unfolding dec using even_rest [of days "ds div 3600" "(ds div 60) mod 60" "ds mod 60"] sq by (simp only:)
qed

theorem fat_time_roundtrip_witness:
  "fat_encode_time 1700000001 = (22382, 45482) \<and> fat_decode_time 22382 45482 = 1700000000"
proof -
  have "fat_encode_time 1700000001 = (22382, 45482)" by code_simp
  then show ?thesis using fat_time_roundtrip [of 1700000001] by simp
qed

theorem fat16_layout_witness:
  "\<exists>g. fat16_parse (replicate 11 0 @ [0, 2, 4, 1, 0, 2, 0, 2, 0, 128, 248, 32, 0] @ replicate 12 0) = Some g
     \<and> unat (ft_data_start g) \<le> unat (cluster_to_sector g 2) \<and> unat (cluster_to_sector g 3) + unat (ft_sectors_per_cluster g) \<le> unat (ft_total_sectors g)"
proof -
  obtain g where g: "fat16_parse (replicate 11 0 @ [0, 2, 4, 1, 0, 2, 0, 2, 0, 128, 248, 32, 0] @ replicate 12 0) = Some g"
    "ft_total_clusters g = 8167"
  proof -
    have "map_option ft_total_clusters (fat16_parse (replicate 11 0 @ [0, 2, 4, 1, 0, 2, 0, 2, 0, 128, 248, 32, 0] @ replicate 12 0)) = Some 8167"
      by code_simp
    then show ?thesis using that by (auto simp: map_option_eq_Some)
  qed
  show ?thesis using fat16_layout [OF g(1), of 2 3] g by simp
qed

end
