(* ===== verification/Fat16alloc.thy ===== *)
theory Fat16alloc
  imports Fat16props
begin

text \<open>
  The allocation table of the FAT16 file server (\<^verbatim>\<open>src/servers/fs/fat16/disk.c\<close>) on a disk that stores what is
  written to it: what an entry holds after \<^verbatim>\<open>fat_write_entry\<close>, and which cluster \<^verbatim>\<open>alloc_cluster\<close> takes.
\<close>

section \<open>Allocating clusters\<close>

text \<open>A disk that works: reads return the sectors, which \<open>sec\<close> shows, and a write changes one of them.\<close>

definition good_disk :: "'d blkdev \<Rightarrow> ('d \<Rightarrow> u32 \<Rightarrow> u8 list) \<Rightarrow> bool" where
  "good_disk B sec \<longleftrightarrow>
     (\<forall>s d. run_state (bk_rd B s) d = (Some (sec d s), d) \<and> length (sec d s) = 512)
     \<and> (\<forall>s bs d. length bs = 512 \<longrightarrow> fst (run_state (bk_wr B s bs) d) \<and> sec (snd (run_state (bk_wr B s bs) d)) = (sec d)(s := bs))"

text \<open>Entry \<open>n\<close> of copy \<open>k\<close> of the table.\<close>

definition fat_entry :: "('d \<Rightarrow> u32 \<Rightarrow> u8 list) \<Rightarrow> fat16_info \<Rightarrow> 'd \<Rightarrow> nat \<Rightarrow> nat \<Rightarrow> u16" where
  "fat_entry sec g d k n = rd16 (sec d (ft_fat_start g + of_nat (k * unat (ft_sectors_per_fat g) + n div 256))) (2 * (n mod 256))"

lemma run_bind: "run_state (State_Monad.bind m f) d = (case run_state m d of (x, d') \<Rightarrow> run_state (f x) d')"
  by (cases m) (simp add: State_Monad.bind_def)

lemma run_return [simp]: "run_state (State_Monad.return x) d = (x, d)"
  by (simp add: State_Monad.return_def)

lemma put_bytes_twice: "off + length b \<le> length x \<Longrightarrow> put_bytes off b (put_bytes off b x) = put_bytes off b x"
  by (simp add: put_bytes_def)

lemma length_le16 [simp]: "length (le16 v) = 2"
  by (simp add: le16_def)

lemma rd16_le16: "rd16 (put_bytes off (le16 v) x) off = v" if "off + 2 \<le> length x"
proof -
  have "take 2 (drop off (put_bytes off (le16 v) x)) = le16 v" using field_put_same [of off "le16 v" x] that by simp
  then have "rd16 (put_bytes off (le16 v) x) off = word_rcat (rev (map (\<lambda>i. ucast (drop_bit (8 * i) v) :: u8) [0..<2]))"
    by (simp add: rd16_def le16_def upt_rec numeral_2_eq_2)
  also have "\<dots> = v"
    unfolding word_rcat_def o_def rev_map rev_rev_ident
    by (rule bit_word_eqI)
      (auto simp: bit_simps bit_horner_sum_uint_exp_iff [where ?'a = 8, simplified] less_mult_imp_div_less)
  finally show ?thesis .
qed

lemma good_wr:
  assumes "good_disk B sec" "length bs = 512"
  obtains d' where "run_state (bk_wr B s bs) d = (True, d')" "sec d' = (sec d)(s := bs)"
proof -
  have "fst (run_state (bk_wr B s bs) d)" "sec (snd (run_state (bk_wr B s bs) d)) = (sec d)(s := bs)"
    using assms by (simp_all add: good_disk_def)
  then show ?thesis using that [of "snd (run_state (bk_wr B s bs) d)"] by (cases "run_state (bk_wr B s bs) d") simp
qed

lemma rd16_other: "rd16 (put_bytes off (le16 v) x) a = rd16 x a" if "off + 2 \<le> length x" "a + 2 \<le> off \<or> off + 2 \<le> a"
  using field_put_before [of off "le16 v" x a 2] field_put_after [of off "le16 v" x a] that by (auto simp: rd16_def)

text \<open>The sector of copy \<open>k\<close> that holds the entry of a cluster.\<close>

definition copy_sector :: "fat16_info \<Rightarrow> u32 \<Rightarrow> nat \<Rightarrow> u32" where
  "copy_sector g c k = ft_fat_start g + of_nat k * ucast (ft_sectors_per_fat g) + c * 2 div ucast (ft_bytes_per_sector g)"

lemma ex_first: "(\<exists>j \<ge> k. j < k + Suc n \<and> P j) \<longleftrightarrow> P k \<or> (\<exists>j \<ge> k + 1. j < k + 1 + n \<and> P j)"
proof
  assume "\<exists>j \<ge> k. j < k + Suc n \<and> P j"
  then obtain j where "j \<ge> k" "j < k + Suc n" "P j" by blast
  then show "P k \<or> (\<exists>j \<ge> k + 1. j < k + 1 + n \<and> P j)" by (cases "j = k") (auto intro!: exI [of _ j])
next
  assume "P k \<or> (\<exists>j \<ge> k + 1. j < k + 1 + n \<and> P j)"
  then show "\<exists>j \<ge> k. j < k + Suc n \<and> P j" by (auto intro: exI [of _ k] Suc_leD)
qed

lemma fat_write_copies_run:
  assumes "good_disk B sec" "off = unat (c * 2 mod ucast (ft_bytes_per_sector g))" "off + 2 \<le> 512"
  shows "\<exists>d'. run_state (fat_write_copies n k B g c v) d = (True, d')
    \<and> (\<forall>s. sec d' s = (if \<exists>j \<ge> k. j < k + n \<and> s = copy_sector g c j then put_bytes off (le16 v) (sec d s) else sec d s))"
proof (induction n arbitrary: k d)
  case (Suc n)
  let ?s = "copy_sector g c k" and ?b = "put_bytes off (le16 v) (sec d (copy_sector g c k))"
  have rd: "run_state (bk_rd B ?s) d = (Some (sec d ?s), d)" "length (sec d ?s) = 512" using assms(1) by (simp_all add: good_disk_def)
  have len: "length ?b = 512" using rd(2) assms(3) by simp
  obtain d1 where w: "run_state (bk_wr B ?s ?b) d = (True, d1)" "sec d1 = (sec d)(?s := ?b)"
    using good_wr [OF assms(1) len, of ?s d] by blast
  obtain d' where d': "run_state (fat_write_copies n (k + 1) B g c v) d1 = (True, d')"
    "\<forall>s. sec d' s = (if \<exists>j \<ge> k + 1. j < k + 1 + n \<and> s = copy_sector g c j then put_bytes off (le16 v) (sec d1 s) else sec d1 s)"
    using Suc.IH [of "k + 1" d1] by blast
  have run: "run_state (fat_write_copies (Suc n) k B g c v) d = (True, d')"
    unfolding fat_write_copies.simps Let_def copy_sector_def [symmetric] assms(2) [symmetric] run_bind
    using rd w d' by (simp add: run_bind)
  have "sec d' s = (if \<exists>j \<ge> k. j < k + Suc n \<and> s = copy_sector g c j then put_bytes off (le16 v) (sec d s) else sec d s)" for s
  proof -
    have "(\<exists>j \<ge> k. j < k + Suc n \<and> s = copy_sector g c j) \<longleftrightarrow> s = ?s \<or> (\<exists>j \<ge> k + 1. j < k + 1 + n \<and> s = copy_sector g c j)"
      by (rule ex_first)
    then show ?thesis using d'(2) w(2) put_bytes_twice [of off "le16 v" "sec d ?s"] rd(2) assms(3) by auto
  qed
  with run show ?case by blast
qed auto

text \<open>The search in one sector of the table.\<close>

lemma free_in_sector_spec:
  assumes "b + e + n \<le> 2 ^ 31" "unat (ft_total_clusters g) \<le> 65524"
  shows "case free_in_sector n e g (of_nat b) buf of
      Inl _ \<Rightarrow> (\<exists>j \<ge> e. j < e + n \<and> unat (ft_total_clusters g) + 2 \<le> b + j \<and> (\<forall>i \<ge> e. i < j \<and> 2 \<le> b + i \<longrightarrow> rd16 buf (i * 2) \<noteq> 0))
    | Inr None \<Rightarrow> (\<forall>i \<ge> e. i < e + n \<and> 2 \<le> b + i \<longrightarrow> b + i < unat (ft_total_clusters g) + 2 \<and> rd16 buf (i * 2) \<noteq> 0)
    | Inr (Some c) \<Rightarrow> (\<exists>j \<ge> e. j < e + n \<and> unat c = b + j \<and> 2 \<le> b + j \<and> b + j < unat (ft_total_clusters g) + 2 \<and> rd16 buf (j * 2) = 0
        \<and> (\<forall>i \<ge> e. i < j \<and> 2 \<le> b + i \<longrightarrow> rd16 buf (i * 2) \<noteq> 0))"
  using assms
proof (induction n arbitrary: e)
  case (Suc n)
  have u: "unat (of_nat b + of_nat e :: u32) = b + e"
    using Suc.prems(1) word_of_nat_less_lt [of "b + e", where ?'a = 32] by simp
  have t: "unat (ft_total_clusters g + 2) = unat (ft_total_clusters g) + 2"
    using unat_add_small [of "ft_total_clusters g" 2] Suc.prems(2) by simp
  have c: "(of_nat b + of_nat e :: u32) < 2 \<longleftrightarrow> b + e < 2" "ft_total_clusters g + 2 \<le> of_nat b + of_nat e \<longleftrightarrow> unat (ft_total_clusters g) + 2 \<le> b + e"
    by (simp_all add: word_less_nat_alt word_le_nat_alt u t)
  have ext: "\<forall>i \<ge> e. i < K \<and> 2 \<le> b + i \<longrightarrow> P i" if "\<forall>i \<ge> e + 1. i < K \<and> 2 \<le> b + i \<longrightarrow> P i" "2 \<le> b + e \<Longrightarrow> P e" for P K
  proof (intro allI impI, elim conjE)
    fix i assume "e \<le> i" "i < K" "2 \<le> b + i"
    then show "P i" using that by (cases "i = e") auto
  qed
  consider "b + e < 2 \<or> (b + e < unat (ft_total_clusters g) + 2 \<and> rd16 buf (e * 2) \<noteq> 0)"
    | "2 \<le> b + e" "unat (ft_total_clusters g) + 2 \<le> b + e"
    | "2 \<le> b + e" "b + e < unat (ft_total_clusters g) + 2" "rd16 buf (e * 2) = 0" by linarith
  then show ?case
  proof cases
    case 1
    then have r: "free_in_sector (Suc n) e g (of_nat b) buf = free_in_sector n (e + 1) g (of_nat b) buf"
      using c by (auto simp: Let_def)
    have le: "b + (e + 1) + n \<le> 2 ^ 31" using Suc.prems(1) by simp
    note ih = Suc.IH [OF le Suc.prems(2)]
    show ?thesis
    proof (cases "free_in_sector n (e + 1) g (of_nat b) buf")
      case (Inl x)
      then obtain j where j: "e + 1 \<le> j" "j < e + 1 + n" "unat (ft_total_clusters g) + 2 \<le> b + j" "\<forall>i \<ge> e + 1. i < j \<and> 2 \<le> b + i \<longrightarrow> rd16 buf (i * 2) \<noteq> 0"
        using ih by auto
      then have "\<forall>i \<ge> e. i < j \<and> 2 \<le> b + i \<longrightarrow> rd16 buf (i * 2) \<noteq> 0" using 1 by (intro ext) auto
      then show ?thesis unfolding r Inl sum.case using j by (intro exI [of _ j]) simp
    next
      case (Inr x)
      show ?thesis
      proof (cases x)
        case None
        then have "\<forall>i \<ge> e. i < e + 1 + n \<and> 2 \<le> b + i \<longrightarrow> b + i < unat (ft_total_clusters g) + 2 \<and> rd16 buf (i * 2) \<noteq> 0"
          using ih Inr 1 by (intro ext) auto
        then show ?thesis unfolding r Inr None by simp
      next
        case (Some cl)
        then obtain j where j: "e + 1 \<le> j" "j < e + 1 + n" "unat cl = b + j" "2 \<le> b + j" "b + j < unat (ft_total_clusters g) + 2" "rd16 buf (j * 2) = 0"
          "\<forall>i \<ge> e + 1. i < j \<and> 2 \<le> b + i \<longrightarrow> rd16 buf (i * 2) \<noteq> 0"
          using ih Inr by auto
        then have "\<forall>i \<ge> e. i < j \<and> 2 \<le> b + i \<longrightarrow> rd16 buf (i * 2) \<noteq> 0" using 1 by (intro ext) auto
        then show ?thesis unfolding r Inr Some sum.case option.case using j by (intro exI [of _ j]) simp
      qed
    qed
  next
    case 2
    then show ?thesis using c by (auto simp: Let_def)
  next
    case 3
    then show ?thesis using c u by (auto simp: Let_def)
  qed
qed auto

text \<open>The search over the sectors of the first copy.\<close>

lemma fat_write_entry_run:
  assumes "good_disk B sec" "ft_bytes_per_sector g = 512" "unat c < 2 ^ 31"
  shows "\<exists>d'. run_state (fat_write_entry B g c v) d = (True, d')
    \<and> (\<forall>s. sec d' s = (if \<exists>j < unat (ft_num_fats g). s = copy_sector g c j
                        then put_bytes (2 * (unat c mod 256)) (le16 v) (sec d s) else sec d s))"
proof -
  have c2: "unat (c * 2) = unat c * 2" using assms(3) unat_mult_small [of c 2] by simp
  have "unat (ucast (ft_bytes_per_sector g) :: u32) = 512" using assms(2) by (simp add: ucast16_32)
  then have "unat (c * 2 mod ucast (ft_bytes_per_sector g)) = unat c * 2 mod 512"
    by (simp only: unat_mod_distrib c2)
  also have "\<dots> = 2 * (unat c mod 256)" using mult_mod_right [of 2 "unat c" 256] by (simp only: mult.commute [of _ 2]) simp
  finally have off: "2 * (unat c mod 256) = unat (c * 2 mod ucast (ft_bytes_per_sector g))" by (rule sym)
  have "2 * (unat c mod 256) + 2 \<le> 512" using mod_less_divisor [of 256 "unat c"] by linarith
  from fat_write_copies_run [OF assms(1) off this, of "unat (ft_num_fats g)" 0 v d]
  show ?thesis by (simp add: fat_write_entry_def)
qed

definition none_free :: "('d \<Rightarrow> u32 \<Rightarrow> u8 list) \<Rightarrow> fat16_info \<Rightarrow> 'd \<Rightarrow> nat \<Rightarrow> nat \<Rightarrow> bool" where
  "none_free sec g d a b \<longleftrightarrow> (\<forall>n. a \<le> n \<and> n < b \<and> 2 \<le> n \<longrightarrow> fat_entry sec g d 0 n \<noteq> 0)"

lemma sector_entries:
  assumes "i < 256"
  shows "rd16 (sec d (ft_fat_start g + of_nat s)) (i * 2) = fat_entry sec g d 0 (256 * s + i)"
  using assms by (simp add: fat_entry_def mult.commute)

lemma none_free_sector:
  assumes "\<forall>i. i < j \<and> 2 \<le> 256 * s + i \<longrightarrow> rd16 (sec d (ft_fat_start g + of_nat s)) (i * 2) \<noteq> 0" "j \<le> 256"
  shows "none_free sec g d (256 * s) (256 * s + j)"
  unfolding none_free_def
proof (intro allI impI, elim conjE)
  fix n assume "256 * s \<le> n" "n < 256 * s + j" "2 \<le> n"
  moreover define i where "i = n - 256 * s"
  ultimately have "n = 256 * s + i" "i < j" "2 \<le> 256 * s + i" by simp_all
  then show "fat_entry sec g d 0 n \<noteq> 0" using assms sector_entries [of i sec d g s] by fastforce
qed

lemma none_free_join: "none_free sec g d a b \<Longrightarrow> none_free sec g d b c \<Longrightarrow> none_free sec g d a c"
  unfolding none_free_def by (meson not_le)

lemma alloc_from_run:
  assumes "good_disk B sec" "ft_bytes_per_sector g = 512" "unat (ft_total_clusters g) \<le> 65524" "s + n \<le> 65536"
  shows "case run_state (alloc_from n s B g) d of
      (None, d') \<Rightarrow> d' = d \<and> none_free sec g d (256 * s) (min (256 * (s + n)) (unat (ft_total_clusters g) + 2))
    | (Some c, d') \<Rightarrow> 256 * s \<le> unat c \<and> 2 \<le> unat c \<and> unat c < 256 * (s + n) \<and> unat c < unat (ft_total_clusters g) + 2
        \<and> fat_entry sec g d 0 (unat c) = 0 \<and> none_free sec g d (256 * s) (unat c)
        \<and> run_state (fat_write_entry B g c FAT16_EOC_MARK) d = (True, d')"
  using assms(4)
proof (induction n arbitrary: s)
  case (Suc n)
  let ?buf = "sec d (ft_fat_start g + of_nat s)" and ?tc = "unat (ft_total_clusters g)"
  have rd: "run_state (bk_rd B (ft_fat_start g + of_nat s)) d = (Some ?buf, d)" using assms(1) by (simp add: good_disk_def)
  have eps: "unat (ft_bytes_per_sector g) div 2 = 256" using assms(2) by simp
  have base: "(of_nat s * of_nat 256 :: u32) = of_nat (256 * s)" by (simp add: mult.commute)
  have run: "run_state (alloc_from (Suc n) s B g) d =
      (case free_in_sector 256 0 g (of_nat (256 * s)) ?buf of
         Inl _ \<Rightarrow> (None, d)
       | Inr None \<Rightarrow> run_state (alloc_from n (s + 1) B g) d
       | Inr (Some c) \<Rightarrow> (case run_state (fat_write_entry B g c FAT16_EOC_MARK) d of (w, d') \<Rightarrow> (if w then Some c else None, d')))"
    unfolding alloc_from.simps Let_def eps base run_bind rd prod.case option.case
    by (auto simp: run_bind split: sum.split option.split)
  have "256 * s + 0 + 256 \<le> 2 ^ 31" using Suc.prems by simp
  note spec = free_in_sector_spec [OF this assms(3), of ?buf]
  show ?case
  proof (cases "free_in_sector 256 0 g (of_nat (256 * s)) ?buf")
    case (Inl x)
    then obtain j where j: "j < 256" "?tc + 2 \<le> 256 * s + j" "\<forall>i. i < j \<and> 2 \<le> 256 * s + i \<longrightarrow> rd16 ?buf (i * 2) \<noteq> 0"
      using spec by auto
    have "none_free sec g d (256 * s) (256 * s + j)" using none_free_sector [of j s sec d g] j(1,3) by simp
    then have "none_free sec g d (256 * s) (min (256 * (s + Suc n)) (?tc + 2))" using j(2) by (auto simp: none_free_def)
    then show ?thesis unfolding run Inl by simp
  next
    case (Inr x)
    show ?thesis
    proof (cases x)
      case None
      have rest: "run_state (alloc_from (Suc n) s B g) d = run_state (alloc_from n (s + 1) B g) d"
        unfolding run Inr None by simp
      have "\<forall>i. i < 256 \<and> 2 \<le> 256 * s + i \<longrightarrow> rd16 ?buf (i * 2) \<noteq> 0" using spec Inr None by auto
      from none_free_sector [of 256 s sec d g, OF this] have here: "none_free sec g d (256 * s) (256 * (s + 1))" by (simp add: add.commute)
      have le: "s + 1 + n \<le> 65536" using Suc.prems by simp
      obtain y d' where yd: "run_state (alloc_from n (s + 1) B g) d = (y, d')" by fastforce
      note ih = Suc.IH [OF le, unfolded yd prod.case]
      have sum: "s + 1 + n = s + Suc n" by simp
      show ?thesis
      proof (cases y)
        case None
        show ?thesis unfolding rest yd None prod.case option.case
          using ih [unfolded None option.case] none_free_join [OF here] unfolding sum by blast
      next
        case (Some c)
        show ?thesis unfolding rest yd Some prod.case option.case
          using ih [unfolded Some option.case] none_free_join [OF here] unfolding sum by auto
      qed
    next
      case (Some c)
      then obtain j where j: "j < 256" "unat c = 256 * s + j" "2 \<le> 256 * s + j" "256 * s + j < ?tc + 2" "rd16 ?buf (j * 2) = 0"
        "\<forall>i. i < j \<and> 2 \<le> 256 * s + i \<longrightarrow> rd16 ?buf (i * 2) \<noteq> 0"
        using spec Inr by auto
      have nf: "none_free sec g d (256 * s) (unat c)" using none_free_sector [of j s sec d g] j(1,2,6) by simp
      have "unat c < 2 ^ 31" using j(2,4) assms(3) by simp
      then obtain d' where w: "run_state (fat_write_entry B g c FAT16_EOC_MARK) d = (True, d')"
        using fat_write_entry_run [OF assms(1,2)] by blast
      have "run_state (alloc_from (Suc n) s B g) d = (Some c, d')"
        unfolding run Inr Some by (simp add: w)
      then show ?thesis using w nf j sector_entries [OF j(1), of sec d g s] by simp
    qed
  qed
qed (auto simp: none_free_def)

lemma table_index_inj:
  assumes "a < m" "b < m" "k * m + a = j * m + (b :: nat)"
  shows "k = j" "a = b"
proof -
  have "(k * m + a) div m = k" "(j * m + b) div m = j" using assms(1,2) by simp_all
  then show "k = j" using assms(3) by simp
  then show "a = b" using assms(3) by simp
qed

text \<open>A sector of the tables, by its number: no sum of the layout wraps around.\<close>

lemma table_sector:
  assumes "fat16_parse bpb = Some g" "k < unat (ft_num_fats g)" "a < unat (ft_sectors_per_fat g)"
  shows "unat (ft_fat_start g + of_nat (k * unat (ft_sectors_per_fat g) + a)) = unat (ft_fat_start g) + (k * unat (ft_sectors_per_fat g) + a)"
    "k * unat (ft_sectors_per_fat g) + a < unat (ft_num_fats g) * unat (ft_sectors_per_fat g)"
proof -
  let ?i = "k * unat (ft_sectors_per_fat g) + a"
  have "(k + 1) * unat (ft_sectors_per_fat g) \<le> unat (ft_num_fats g) * unat (ft_sectors_per_fat g)"
    using assms(2) by (intro mult_le_mono1) simp
  then show lt: "?i < unat (ft_num_fats g) * unat (ft_sectors_per_fat g)" using assms(3) by simp
  then have "unat (ft_fat_start g) + ?i < unat (ft_root_dir_start g)" using fat16_parse_facts(3) [OF assms(1)] by simp
  also have "\<dots> < 2 ^ 32" using unsigned_less [of "ft_root_dir_start g", where ?'a = nat] by simp
  finally have s: "unat (ft_fat_start g) + ?i < 2 ^ 32" .
  then have "unat (of_nat ?i :: u32) = ?i" by (simp add: unat_of_nat take_bit_nat_eq_self del: of_nat_add)
  with s show "unat (ft_fat_start g + of_nat ?i) = unat (ft_fat_start g) + ?i" by (subst unat_add_small) simp_all
qed

lemma copy_sector_table:
  assumes "ft_bytes_per_sector g = 512" "unat c < 2 ^ 31"
  shows "copy_sector g c k = ft_fat_start g + of_nat (k * unat (ft_sectors_per_fat g) + unat c div 256)"
proof -
  have c2: "unat (c * 2) = unat c * 2" using assms(2) unat_mult_small [of c 2] by simp
  have "unat (ucast (ft_bytes_per_sector g) :: u32) = 512" using assms(1) by (simp add: ucast16_32)
  then have "unat (c * 2 div ucast (ft_bytes_per_sector g)) = unat c * 2 div 512" by (simp only: unat_div_distrib c2)
  then have "unat (c * 2 div ucast (ft_bytes_per_sector g)) = unat c div 256" by simp
  then have "of_nat (unat c div 256) = (of_nat (unat (c * 2 div ucast (ft_bytes_per_sector g))) :: u32)" by (simp only:)
  then have "c * 2 div ucast (ft_bytes_per_sector g) = of_nat (unat c div 256)" by (simp only: of_nat_unat ucast_id)
  moreover have "(ucast (ft_sectors_per_fat g) :: u32) = of_nat (unat (ft_sectors_per_fat g))"
    by simp
  ultimately show ?thesis by (simp add: copy_sector_def add.assoc)
qed

lemma fat_entry_after:
  assumes g: "fat16_parse bpb = Some g" and disk: "good_disk B sec" and c: "unat c < 256 * unat (ft_sectors_per_fat g)"
    and wr: "run_state (fat_write_entry B g c v) d = (True, d')"
    and k: "k < unat (ft_num_fats g)" and n: "n < 256 * unat (ft_sectors_per_fat g)"
  shows "fat_entry sec g d' k n = (if n = unat c then v else fat_entry sec g d k n)"
proof -
  let ?spf = "unat (ft_sectors_per_fat g)"
  let ?s = "ft_fat_start g + of_nat (k * ?spf + n div 256)"
  note bps = fat16_parse_facts(1) [OF g]
  have "?spf < 65536" using unsigned_less [of "ft_sectors_per_fat g", where ?'a = nat] by simp
  then have c31: "unat c < 2 ^ 31" using c by simp
  have sec: "sec d' ?s = (if \<exists>j < unat (ft_num_fats g). ?s = copy_sector g c j
      then put_bytes (2 * (unat c mod 256)) (le16 v) (sec d ?s) else sec d ?s)"
    using fat_write_entry_run [OF disk bps c31, of v d] unfolding wr by blast
  have lt: "n div 256 < ?spf" "unat c div 256 < ?spf" using n c by (simp_all add: less_mult_imp_div_less mult.commute)
  have hit: "(\<exists>j < unat (ft_num_fats g). ?s = copy_sector g c j) \<longleftrightarrow> n div 256 = unat c div 256"
  proof
    assume "\<exists>j < unat (ft_num_fats g). ?s = copy_sector g c j"
    then obtain j where j: "j < unat (ft_num_fats g)" "?s = ft_fat_start g + of_nat (j * ?spf + unat c div 256)"
      unfolding copy_sector_table [OF bps c31] by blast
    have "k * ?spf + n div 256 = j * ?spf + unat c div 256"
      using table_sector(1) [OF g k lt(1)] table_sector(1) [OF g j(1) lt(2)] arg_cong [OF j(2), of unat] by linarith
    then show "n div 256 = unat c div 256" by (rule table_index_inj(2) [OF lt])
  next
    assume "n div 256 = unat c div 256"
    then show "\<exists>j < unat (ft_num_fats g). ?s = copy_sector g c j"
      unfolding copy_sector_table [OF bps c31] using k by (intro exI [of _ k]) simp
  qed
  define S where "S = sec d ?s"
  have len: "length S = 512" using disk by (simp add: S_def good_disk_def)
  have "n mod 256 < 256" "unat c mod 256 < 256" by simp_all
  then have off: "2 * (unat c mod 256) + 2 \<le> length S" unfolding len by linarith
  have apart: "2 * (n mod 256) + 2 \<le> 2 * (unat c mod 256) \<or> 2 * (unat c mod 256) + 2 \<le> 2 * (n mod 256)"
    if "n mod 256 \<noteq> unat c mod 256" using that by linarith
  have eq: "n = unat c \<longleftrightarrow> n div 256 = unat c div 256 \<and> n mod 256 = unat c mod 256" by (metis div_mult_mod_eq)
  show ?thesis
    unfolding fat_entry_def sec hit eq S_def [symmetric] using rd16_le16 [OF off] rd16_other [OF off apart]
    by (cases "n mod 256 = unat c mod 256") simp_all
qed


text \<open>A disk in memory.\<close>

definition mem_sector :: "(u32 \<Rightarrow> u8 list) \<Rightarrow> u32 \<Rightarrow> u8 list" where
  "mem_sector d s = take 512 (d s @ replicate 512 0)"

definition mem_disk :: "(u32 \<Rightarrow> u8 list) blkdev" where
  "mem_disk = \<lparr>bk_rd = (\<lambda>s. State (\<lambda>d. (Some (mem_sector d s), d))), bk_wr = (\<lambda>s bs. State (\<lambda>d. (True, d(s := bs))))\<rparr>"

lemma mem_disk_good: "good_disk mem_disk mem_sector"
  by (auto simp: good_disk_def mem_disk_def mem_sector_def fun_eq_iff)


end
