(* ===== verification/Spec2Isabelle.thy ===== *)
theory Spec2Isabelle
  imports Trap Exit Ramfsprops Fat16alloc
begin

text \<open>
  A verification of the robu microkernel, with two of its file servers.

  \<^bold>\<open>The program.\<close>  Robu is a microkernel for x86-64.  The kernel has threads with priorities, messages of six
  registers between threads, address spaces whose page faults go to user-mode pagers, capabilities for memory and
  kernel objects, and, for POSIX programs, processes with exec, fork and wait, signals, pipes, local sockets, shared
  memory and a console.  Everything enters the kernel through one system call, \<^verbatim>\<open>sys_ipc\<close>, or through a trap.  File
  systems are user-mode servers that answer messages.  One lock is held over every kernel entry, so that a kernel
  operation is one step: here it is a function on the state, with the number of the processor as an argument.

  \<^bold>\<open>State.\<close>  Machine words have their width in C.  Memory is a function from addresses to bytes (\<open>Phys\<close>); free
  lists, heap blocks and page tables lie in it as they do in the machine.  Pointers into fixed tables are indices, links
  between threads are optional pointers.  The record \<open>kmach\<close> of \<open>Machine\<close> is extended by one record per service, up to
  \<open>kernel\<close> of \<open>Kernel\<close>, the static data of the whole kernel.  Errors are values: a sum with \<open>ipc_err\<close>, an \<open>int\<close> where the
  C function returns one, and \<open>None\<close> where the machine would fault or a loop would not end.

  \<^bold>\<open>Theories and sources\<close> (paths below \<^verbatim>\<open>src/\<close>).
  \<^item> \<open>Prelude\<close>, \<open>Ring\<close>, \<open>Seqlock\<close>, \<open>Mqueue\<close>: types and result codes of \<^verbatim>\<open>include/robu\<close>, table searches, and the
    contracts that several components share, as locales: a bounded queue of elements (\<open>bounded_fifo\<close>), a stream of
    bytes that is filled and emptied in chunks (\<open>chunk_stream\<close>), reading under a sequence counter (\<open>seqlock\<close>), and
    queues of waiting senders (\<open>message_queue\<close>).
  \<^item> \<open>Phys\<close>, \<open>Klib\<close>, \<open>Bump\<close>, \<open>Pmm\<close>, \<open>Kheap\<close>: \<^verbatim>\<open>src/lib/klib.c\<close>, \<^verbatim>\<open>src/core/untyped.c\<close>, \<^verbatim>\<open>dma.c\<close>, \<^verbatim>\<open>pmm.c\<close>,
    \<^verbatim>\<open>kheap.c\<close>.  \<open>Paging\<close> and \<open>PageTree\<close>: \<^verbatim>\<open>arch/x86_64/src/vm_arch.c\<close>.
  \<^item> \<open>Tcb\<close>, \<open>Sched\<close>, \<open>Dispatch\<close>: \<^verbatim>\<open>include/robu/tcb.h\<close>, \<^verbatim>\<open>src/core/sched.c\<close>.  \<open>Tcore\<close>: the fields of a thread that
    scheduling leaves alone.
  \<^item> \<open>Vm\<close>, \<open>Caps\<close>, \<open>Shm\<close>, \<open>Kinfo\<close>, \<open>Elf\<close>, \<open>Execreq\<close>, \<open>Spawn\<close>: the files of these names in \<^verbatim>\<open>src/core\<close>
    (\<^verbatim>\<open>captable.c\<close> for \<open>Caps\<close>).  \<open>Pipe\<close>, \<open>Sock\<close>: \<^verbatim>\<open>pipe.c\<close>, \<^verbatim>\<open>socket.c\<close>.
  \<^item> \<open>Console\<close>, \<open>Kprintf\<close>, \<open>Hwio\<close>, \<open>Bootinfo\<close>: \<^verbatim>\<open>arch/x86_64/src/console.c\<close>, \<^verbatim>\<open>src/lib/kprintf.c\<close>,
    \<^verbatim>\<open>arch/x86_64/src/hwio.c\<close>, \<^verbatim>\<open>pci.c\<close>, \<^verbatim>\<open>src/core/random.c\<close>, \<^verbatim>\<open>arch/x86_64/src/pvh_mem.c\<close>, \<^verbatim>\<open>src/core/cmdline.c\<close>.
  \<^item> \<open>Kernel\<close>, \<open>Resume\<close>, \<open>Exit\<close>: \<^verbatim>\<open>src/core/signal.c\<close> and the parts of \<^verbatim>\<open>sched.c\<close> and \<^verbatim>\<open>spawn.c\<close> that end a
    thread, tick, switch and return to user mode.
  \<^item> \<open>Ipc\<close>, \<open>Syscall\<close>, \<open>Sysinfo\<close>, \<open>Trap\<close>: \<^verbatim>\<open>src/core/ipc.c\<close> with one definition per flag and per category of
    \<^verbatim>\<open>sys_ipc\<close>, and the dispatcher of \<^verbatim>\<open>arch/x86_64/src/trap.c\<close>.
  \<^item> \<open>Vfsmsg\<close>: the protocol and the client functions of \<^verbatim>\<open>include/robu/vfs.h\<close>.  \<open>Ramfs\<close>, \<open>Ramfsok\<close>, \<open>Ramfsserve\<close>,
    \<open>Ramfsprops\<close>: \<^verbatim>\<open>src/servers/fs/ramfs\<close>.  \<open>Fat16\<close>, \<open>Fat16props\<close>, \<open>Fat16alloc\<close>: \<^verbatim>\<open>src/servers/fs/fat16\<close>.

  \<^bold>\<open>What is shown.\<close>
  \<^item> Memory: the allocators hand out memory that is apart from all that is in use and inside their regions; the heap
    search ends; a mapped page translates to its frame and every other page as before; \<^verbatim>\<open>memmove\<close> copies correctly.
  \<^item> Scheduling: over every history the ready queues, the bitmap and the wake inbox are intact (\<open>sched_reach\<close>,
    \<open>sched_inv\<close>), \<^verbatim>\<open>schedule\<close> refines a search in lists for the first runnable thread of the highest priority, and a woken
    thread runs.  Two properties state what breaks when an operation is called outside its contract.
  \<^item> Messages: a message is the same whoever comes first; the send queues refine one list per receiver.
  \<^item> Threads: a context switch gives back the processor state; the return to user mode ends; a signal handler gives
    back the interrupted thread; nothing refers to an ended thread; exit and wait meet in either order.
  \<^item> Streams and tables: pipes and sockets deliver what was written in order, connections are private, stale handles are
    refused; console state stays in its arrays; page faults queue in order; lock-free readers see one version.
  \<^item> File servers: over every sequence of requests the memory file server stays well formed and changes no other file;
    through the client functions a file is a list of bytes with a cursor, and survives closing.  A FAT16 volume has a
    sound layout, time stamps survive their encoding, and allocation takes the first free cluster in every table copy.

  Each locale is interpreted on the definitions of the model, and the properties use the lemmas of the interpretations.

  \<^bold>\<open>Loops and fuel.\<close>  Loops over tables are folds or recursion over the table.  Loops that follow links in memory may run
  forever on a damaged structure and are partial functions, where \<open>None\<close> is a loop without end (\<open>kmalloc_walk\<close>, \<open>sendq_find\<close>,
  \<open>deliver_loop\<close>, \<open>grow_cap\<close>, the walks over boot tags); that they end is shown for the heap, the send queues, the
  delivery of signals and the growth of files.
  Fuel appears where C has the same bound or the structure gives one: \<open>drop_senders\<close> has one step more than there are
  threads and clears each link that it follows; symbolic links are followed eight times and the disk status is polled
  200000 times, as in the source; \<open>walk_from\<close> and \<open>free_from\<close> follow at most 1024 table entries, as the source does.

  \<^bold>\<open>Arguments of the model.\<close>  What the code does not determine is an argument: the answers of ports, devices and the random
  number instruction (functions of the accesses so far), the contents of fresh stack arrays that a handler reads, the
  clock, the address of the end of the kernel image, the server behind a client call.

  \<^bold>\<open>Not modelled.\<close>  Machine code (trap entry, boot, start of further processors), descriptor tables, the local APIC, the
  frame buffer, the ACPI library and its glue: their effect is in processor and device state that the sources do not
  describe.  The boot sequence (\<^verbatim>\<open>src/main.c\<close>, \<^verbatim>\<open>src/boot\<close>) is a fixed list of calls of modelled operations.  Tracing is
  write-only.  The ext2 and FAT32 servers, the remaining servers and drivers (\<^verbatim>\<open>src/servers\<close>), the boot loader and the
  applications are separate programs.  Locks, the interrupt flag and TLB invalidation have no effect on a single step;
  interleaving inside a step is modelled only where the code allows it, for readers of the information page.
\<close>

end
